(* ===== verification/Keeper_Prelude.thy ===== *)
theory Keeper_Prelude
  imports Main "HOL-Library.AList" "HOL-Library.Multiset"
begin

section \<open>Shared vocabulary of the keeper models\<close>

text \<open>
  What every component below uses: the JavaScript arithmetic the keepers rely on, insertion-ordered
  objects, ASCII string tests, the result type of code that may throw, and the collections of
  rewrite rules the component proofs share.

  BigInt values are \<open>int\<close>; JavaScript numbers that hold seconds, ids, gas amounts and counters
  are \<open>int\<close> as well (all of them integers far below \<open>2 ^ 53\<close>, where doubles are exact).
  A thrown \<open>Error\<close> is the left side of a sum.
\<close>

named_theorems bigint \<open>rewrite rules for BigInt division and remainder\<close>
named_theorems objects \<open>rewrite rules for insertion-ordered objects\<close>

type_synonym 'a result = "string + 'a"

text \<open>\<open>a ?? d\<close>.\<close>

definition orelse :: "'a option \<Rightarrow> 'a \<Rightarrow> 'a" where
  "orelse a d = (case a of Some x \<Rightarrow> x | None \<Rightarrow> d)"

subsection \<open>BigInt division\<close>

text \<open>BigInt \<open>/\<close> truncates towards zero and \<open>%\<close> takes the sign of the dividend; HOL's \<open>div\<close>
  and \<open>mod\<close> on \<open>int\<close> round down. The keepers divide non-negative amounts almost everywhere, where
  the two agree (\<open>bdiv_nonneg\<close>).\<close>

definition bdiv :: "int \<Rightarrow> int \<Rightarrow> int" where
  "bdiv a b = sgn a * sgn b * (\<bar>a\<bar> div \<bar>b\<bar>)"

definition bmod :: "int \<Rightarrow> int \<Rightarrow> int" where
  "bmod a b = a - b * bdiv a b"

lemma bdiv_nonneg [bigint]: "0 \<le> a \<Longrightarrow> 0 \<le> b \<Longrightarrow> bdiv a b = a div b"
  by (cases "a = 0"; cases "b = 0") (auto simp: bdiv_def)

lemma bmod_nonneg [bigint]: "0 \<le> a \<Longrightarrow> 0 \<le> b \<Longrightarrow> bmod a b = a mod b"
  by (simp add: bmod_def bdiv_nonneg minus_mult_div_eq_mod)

lemma bdiv_ge_0: "0 \<le> a \<Longrightarrow> 0 \<le> b \<Longrightarrow> 0 \<le> bdiv a b"
  by (simp add: bdiv_nonneg pos_imp_zdiv_nonneg_iff div_int_pos_iff)

text \<open>Rounding down to a grid, and the ceiling division \<open>(a + b - 1) / b\<close> the keepers write out.\<close>

lemma grid_floor_le: "0 < g \<Longrightarrow> a - a mod g \<le> (a :: int)"
  by simp

lemma grid_floor_dvd: "(g :: int) dvd a - a mod g"
  by (simp add: minus_mod_eq_mult_div)

lemma ceil_div_ge: "0 < b \<Longrightarrow> (a :: int) \<le> ((a + b - 1) div b) * b"
proof -
  assume "0 < b"
  moreover have "(a + b - 1) = ((a + b - 1) div b) * b + (a + b - 1) mod b"
    by simp
  moreover from \<open>0 < b\<close> have "(a + b - 1) mod b < b" by simp
  ultimately show ?thesis by linarith
qed

lemma ceil_div_less: "0 < b \<Longrightarrow> ((a + b - 1) div b) * b < (a :: int) + b"
proof -
  assume "0 < b"
  moreover have "(a + b - 1) = ((a + b - 1) div b) * b + (a + b - 1) mod b"
    by simp
  moreover from \<open>0 < b\<close> have "0 \<le> (a + b - 1) mod b" by simp
  ultimately show ?thesis by linarith
qed

lemma ceil_div_le_iff: "0 < b \<Longrightarrow> (a + b - 1) div b \<le> c \<longleftrightarrow> (a :: int) \<le> c * b"
proof
  assume b: "0 < b" and le: "(a + b - 1) div b \<le> c"
  have "a \<le> ((a + b - 1) div b) * b" by (rule ceil_div_ge [OF b])
  also have "\<dots> \<le> c * b" using le b by simp
  finally show "a \<le> c * b" .
next
  assume b: "0 < b" and le: "a \<le> c * b"
  have "((a + b - 1) div b) * b < (c + 1) * b"
    using ceil_div_less [OF b, of a] le by (simp add: algebra_simps)
  with b show "(a + b - 1) div b \<le> c" by (simp add: mult_less_cancel_right)
qed

lemma floor_div_mult_le: "0 < b \<Longrightarrow> ((a :: int) div b) * b \<le> a"
  by (metis div_mult_mod_eq le_add_same_cancel1 pos_mod_sign)

subsection \<open>Constants every decision module declares\<close>

definition E18 :: int where "E18 = 10 ^ 18"
definition DAY :: int where "DAY = 86400"
definition USDC_GRID :: int where "USDC_GRID = 10 ^ 12"
definition SCAN_OFFSET :: int where "SCAN_OFFSET = 600"

definition utcDay :: "int \<Rightarrow> int" where
  "utcDay nowSec = nowSec div DAY"

definition scanWindowOpen :: "int \<Rightarrow> bool" where
  "scanWindowOpen nowSec = (bmod nowSec DAY \<ge> SCAN_OFFSET)"

lemma E18_pos [simp]: "0 < E18" by (simp add: E18_def)
lemma DAY_pos [simp]: "0 < DAY" by (simp add: DAY_def)

text \<open>Inside the window the day's scan time has passed.\<close>

lemma scanWindow_time: "0 \<le> nowSec \<Longrightarrow> scanWindowOpen nowSec \<longleftrightarrow> utcDay nowSec * DAY + SCAN_OFFSET \<le> nowSec"
  by (simp add: scanWindowOpen_def utcDay_def bmod_nonneg DAY_def SCAN_OFFSET_def minus_mult_div_eq_mod [symmetric]) auto

lemma utcDay_le_iff: "d \<le> utcDay nowSec \<longleftrightarrow> d * DAY \<le> nowSec"
  by (auto simp: utcDay_def DAY_def)

subsection \<open>Objects and Maps in insertion order\<close>

text \<open>
  A JavaScript object with string keys, or a \<open>Map\<close>, enumerates its keys in insertion order and
  keeps the place of a key that is written again: an association list with \<open>AList.update\<close>.
  (Integer-like keys of a plain object are enumerated first and ascending; where a component's
  ids are integer-like, nothing below depends on the enumeration order.)
\<close>

type_synonym 'v object = "(string \<times> 'v) list"

abbreviation get :: "('k \<times> 'v) list \<Rightarrow> 'k \<Rightarrow> 'v option" where
  "get \<equiv> map_of"

abbreviation put :: "'k \<Rightarrow> 'v \<Rightarrow> ('k \<times> 'v) list \<Rightarrow> ('k \<times> 'v) list" where
  "put \<equiv> AList.update"

abbreviation del :: "'k \<Rightarrow> ('k \<times> 'v) list \<Rightarrow> ('k \<times> 'v) list" where
  "del \<equiv> AList.delete"

definition well_keyed :: "('k \<times> 'v) list \<Rightarrow> bool" where
  "well_keyed o1 = distinct (map fst o1)"

lemma get_put [objects]: "get (put k v o1) k' = (if k' = k then Some v else get o1 k')"
  by (simp add: update_conv)

lemma get_del [objects]: "get (del k o1) k' = (if k' = k then None else get o1 k')"
  by (simp add: delete_conv)

lemma well_keyed_put [intro]: "well_keyed o1 \<Longrightarrow> well_keyed (put k v o1)"
  by (simp add: well_keyed_def distinct_update)

lemma well_keyed_del [intro]: "well_keyed o1 \<Longrightarrow> well_keyed (del k o1)"
  by (simp add: well_keyed_def distinct_delete)

lemma well_keyed_Nil [simp, intro]: "well_keyed []"
  by (simp add: well_keyed_def)

lemma in_object_iff: "well_keyed o1 \<Longrightarrow> (k, v) \<in> set o1 \<longleftrightarrow> get o1 k = Some v"
  by (simp add: well_keyed_def)

subsection \<open>A key-value interface\<close>

text \<open>
  What the clients of a store of records rely on: a lookup after a write returns the written
  value, and a write leaves the other keys alone. The journal (theory \<open>Journal\<close>) provides it.
\<close>

locale kv_store =
  fixes lookup :: "'s \<Rightarrow> 'k \<Rightarrow> 'v option"
    and store :: "'k \<Rightarrow> 'v \<Rightarrow> 's \<Rightarrow> 's"
  assumes lookup_store: "lookup (store k v s) k' = (if k' = k then Some v else lookup s k')"
begin

lemma lookup_store_same [simp]: "lookup (store k v s) k = Some v"
  by (simp add: lookup_store)

lemma lookup_store_other: "k' \<noteq> k \<Longrightarrow> lookup (store k v s) k' = lookup s k'"
  by (simp add: lookup_store)

lemma store_twice: "lookup (store k v (store k w s)) = lookup (store k v s)"
  by (rule ext) (simp add: lookup_store)

lemma store_commute:
  "k \<noteq> l \<Longrightarrow> lookup (store k v (store l w s)) = lookup (store l w (store k v s))"
  by (rule ext) (simp add: lookup_store)

end

interpretation assoc_store: kv_store get put
  by unfold_locales (simp add: objects)

subsection \<open>ASCII text tests\<close>

text \<open>The regular expressions on error messages are alternatives of literal words with the flag
  \<open>i\<close>: a case-insensitive substring test.\<close>

definition lower_char :: "char \<Rightarrow> char" where
  "lower_char c = (let n = of_char c :: nat in if 65 \<le> n \<and> n \<le> 90 then char_of (n + 32) else c)"

definition lower :: "string \<Rightarrow> string" where
  "lower s = map lower_char s"

fun starts_with :: "string \<Rightarrow> string \<Rightarrow> bool" where
  "starts_with [] s = True"
| "starts_with (p # ps) [] = False"
| "starts_with (p # ps) (c # s) = (p = c \<and> starts_with ps s)"

fun contains :: "string \<Rightarrow> string \<Rightarrow> bool" where
  "contains p [] = (p = [])"
| "contains p (c # s) = (starts_with p (c # s) \<or> contains p s)"

definition matches_any :: "string list \<Rightarrow> string \<Rightarrow> bool" where
  "matches_any ps s = list_ex (\<lambda>p. contains (lower p) (lower s)) ps"

subsection \<open>Folds that accumulate\<close>

definition sum_of :: "('a \<Rightarrow> int) \<Rightarrow> 'a list \<Rightarrow> int" where
  "sum_of f xs = foldl (\<lambda>t x. t + f x) 0 xs"

lemma foldl_plus: "foldl (\<lambda>t x. t + f x) (a :: int) xs = a + sum_list (map f xs)"
  by (induction xs arbitrary: a) simp_all

lemma sum_of_eq: "sum_of f xs = sum_list (map f xs)"
  by (simp add: sum_of_def foldl_plus)

lemma sum_of_nonneg: "(\<And>x. x \<in> set xs \<Longrightarrow> 0 \<le> f x) \<Longrightarrow> 0 \<le> sum_of f xs"
  by (auto simp: sum_of_eq intro!: sum_list_nonneg)

subsection \<open>Array sort with a comparator\<close>

text \<open>
  \<open>Array.prototype.sort\<close> as the engine of Node does it on short arrays: insertion of each
  element before the first one the comparator puts it below. A comparator that calls two equal
  elements unordered both ways (as \<open>desk/decide.mjs\<close> has it) reverses their order.
\<close>

fun insert_by :: "('a \<Rightarrow> 'a \<Rightarrow> int) \<Rightarrow> 'a \<Rightarrow> 'a list \<Rightarrow> 'a list" where
  "insert_by cmp x [] = [x]"
| "insert_by cmp x (y # ys) = (if cmp x y < 0 then x # y # ys else y # insert_by cmp x ys)"

definition js_sort :: "('a \<Rightarrow> 'a \<Rightarrow> int) \<Rightarrow> 'a list \<Rightarrow> 'a list" where
  "js_sort cmp xs = foldl (\<lambda>acc x. insert_by cmp x acc) [] xs"

lemma mset_insert_by: "mset (insert_by cmp x ys) = add_mset x (mset ys)"
  by (induction ys) auto

lemma mset_js_sort: "mset (js_sort cmp xs) = mset xs"
proof -
  have "mset (foldl (\<lambda>acc x. insert_by cmp x acc) ys xs) = mset ys + mset xs" for ys
    by (induction xs arbitrary: ys) (simp_all add: mset_insert_by)
  then show ?thesis by (simp add: js_sort_def)
qed

lemma set_insert_by [simp]: "set (insert_by cmp x ys) = insert x (set ys)"
  using arg_cong [OF mset_insert_by, of set_mset] by simp

lemma set_js_sort [simp]: "set (js_sort cmp xs) = set xs"
  using arg_cong [OF mset_js_sort, of set_mset] by simp

lemma length_js_sort [simp]: "length (js_sort cmp xs) = length xs"
  using arg_cong [OF mset_js_sort, of size] by simp

text \<open>A comparator that only ever moves an element in front of one with a key at least as large
  sorts by that key, whatever it says about ties.\<close>

lemma sorted_js_sort:
  assumes lt: "\<And>x y. cmp x y < 0 \<Longrightarrow> k x \<le> (k y :: 'b :: linorder)"
    and ge: "\<And>x y. \<not> cmp x y < 0 \<Longrightarrow> k y \<le> k x"
  shows "sorted (map k (js_sort cmp xs))"
proof -
  have ins: "sorted (map k ys) \<Longrightarrow> sorted (map k (insert_by cmp x ys))" for x ys
    by (induction ys) (auto dest: lt ge intro: order_trans)
  have "sorted (map k ys) \<Longrightarrow> sorted (map k (foldl (\<lambda>acc x. insert_by cmp x acc) ys xs))" for ys
    by (induction xs arbitrary: ys) (simp_all add: ins)
  then show ?thesis by (simp add: js_sort_def)
qed

subsection \<open>Gas plans\<close>

text \<open>
  The payout keepers size a batch the same way (\<open>push/decide.mjs\<close>, \<open>desk/decide.mjs\<close>): a fixed part,
  the reserve the contract wants left before every item, and an estimate per item. The contract
  stops silently when less than the reserve is left, so what a plan must give is that the reserve is
  still there before each item it asks for.
\<close>

locale gas_plan =
  fixes valid :: "'p \<Rightarrow> bool"
    and items fixed_gas per_item reserve gas_limit :: "'p \<Rightarrow> int"
  assumes gas_limit: "valid p \<Longrightarrow> gas_limit p = fixed_gas p + reserve p + items p * per_item p"
    and per_item: "valid p \<Longrightarrow> 0 \<le> per_item p"
    and items: "valid p \<Longrightarrow> 1 \<le> items p \<and> items p \<le> 32"
begin

lemma reserve_left:
  assumes "valid p" and "i < items p" and "used \<le> fixed_gas p + i * per_item p"
  shows "reserve p \<le> gas_limit p - used"
proof -
  have "i * per_item p \<le> items p * per_item p"
    using assms(2) per_item [OF assms(1)] by (intro mult_right_mono) auto
  with gas_limit [OF assms(1)] assms(3) show ?thesis by linarith
qed

lemma one_item_fits: "valid p \<Longrightarrow> fixed_gas p + reserve p + per_item p \<le> gas_limit p"
  using reserve_left [of p 0] gas_limit [of p] per_item [of p] items [of p] mult_right_mono [of 1 "items p" "per_item p"]
  by simp

end

text \<open>A plan that also stays under the transaction gas ceiling it was given.\<close>

locale capped_gas_plan = gas_plan +
  fixes max_gas :: "'a \<Rightarrow> int"
  assumes under_cap: "valid p \<Longrightarrow> gas_limit p \<le> max_gas p"
begin

lemma reserve_within_cap:
  "valid p \<Longrightarrow> i < items p \<Longrightarrow> used \<le> fixed_gas p + i * per_item p \<Longrightarrow> used + reserve p \<le> max_gas p"
  using reserve_left [of p i used] under_cap [of p] by linarith

end

end
