(* ===== verification/Journal_Codec.thy ===== *)
theory Journal_Codec
  imports Keeper_Prelude
begin

section \<open>BigInts in the journal file (\<open>replacer\<close> and \<open>reviver\<close> of \<open>keepers/v3/lib/journal.mjs\<close>)\<close>

text \<open>
  JSON has no BigInt: \<open>JSON.stringify\<close> is given a \<open>replacer\<close> that writes a BigInt as the string of
  its decimal digits followed by \<open>n\<close>, and \<open>JSON.parse\<close> a \<open>reviver\<close> that turns every string of that
  shape back into a BigInt. Both visit every value of the tree. The text form in between is the
  standard library's and is left out.
\<close>

datatype json = JNull | JBool bool | JNum int | JStr string | JBig int
  | JArr "json list" | JObj "(string \<times> json) list"

subsection \<open>Decimal digits\<close>

fun show_nat :: "nat \<Rightarrow> string" where
  "show_nat n = (if n < 10 then [char_of (48 + n)] else show_nat (n div 10) @ [char_of (48 + n mod 10)])"

declare show_nat.simps [simp del]

definition show_int :: "int \<Rightarrow> string" where
  "show_int i = (if i < 0 then CHR ''-'' # show_nat (nat (- i)) else show_nat (nat i))"

definition is_digit :: "char \<Rightarrow> bool" where
  "is_digit c = (48 \<le> (of_char c :: nat) \<and> (of_char c :: nat) \<le> 57)"

definition read_nat :: "string \<Rightarrow> nat" where
  "read_nat s = foldl (\<lambda>n c. 10 * n + (of_char c - 48)) 0 s"

fun read_int :: "string \<Rightarrow> int" where
  "read_int [] = 0"
| "read_int (c # s) = (if c = CHR ''-'' then - int (read_nat s) else int (read_nat (c # s)))"

lemma of_char_digit: "d < 10 \<Longrightarrow> (of_char (char_of (48 + d) :: char) :: nat) = 48 + d"
  by (simp add: of_char_of)

lemma show_nat_digits: "list_all is_digit (show_nat n) \<and> show_nat n \<noteq> []"
proof (induction n rule: show_nat.induct)
  case (1 n)
  then show ?case
    by (subst (1 2) show_nat.simps) (auto simp: is_digit_def of_char_digit list_all_iff)
qed

lemma read_nat_snoc: "read_nat (s @ [c]) = 10 * read_nat s + (of_char c - 48)"
  by (simp add: read_nat_def)

lemma read_show_nat: "read_nat (show_nat n) = n"
proof (induction n rule: show_nat.induct)
  case (1 n)
  show ?case
  proof (cases "n < 10")
    case True
    then show ?thesis
      by (subst show_nat.simps) (simp add: read_nat_def of_char_digit)
  next
    case False
    with "1" show ?thesis
      by (subst show_nat.simps) (simp add: read_nat_snoc of_char_digit)
  qed
qed

lemma show_nat_no_minus: "show_nat n = c # s \<Longrightarrow> c \<noteq> CHR ''-''"
  using show_nat_digits [of n] by (auto simp: is_digit_def)

lemma read_show_int: "read_int (show_int i) = i"
proof (cases "i < 0")
  case True
  then show ?thesis by (simp add: show_int_def read_show_nat)
next
  case False
  obtain c s where cs: "show_nat (nat i) = c # s"
    using show_nat_digits [of "nat i"] by (cases "show_nat (nat i)") auto
  with False show_nat_no_minus [OF cs] read_show_nat [of "nat i"] show ?thesis
    by (simp add: show_int_def)
qed

lemma show_int_inj [simp]: "show_int i = show_int j \<longleftrightarrow> i = j"
  by (metis read_show_int)

text \<open>The same digits by binary arithmetic, which is how \<open>show_int\<close> is evaluated.\<close>

fun digits :: "int \<Rightarrow> string" where
  "digits i = (if i < 10 then [char_of (48 + i)] else digits (i div 10) @ [char_of (48 + i mod 10)])"

declare digits.simps [simp del]

lemma show_nat_int: "show_nat n = digits (int n)"
proof (induction n rule: show_nat.induct)
  case (1 n)
  have "char_of (48 + k) = (char_of (48 + int k) :: char)" for k :: nat
    using char_of_nat [of "48 + k", where ?'a = int] by simp
  with 1 show ?case by (subst show_nat.simps, subst digits.simps) (simp add: zdiv_int zmod_int)
qed

lemma show_int_code [code]: "show_int i = (if i < 0 then CHR ''-'' # digits (- i) else digits i)"
  by (simp add: show_int_def show_nat_int)

subsection \<open>The codec\<close>

text \<open>\<open>/^-?\d+n$/\<close>\<close>

definition bigint_text :: "string \<Rightarrow> bool" where
  "bigint_text s = (let d = (case s of c # r \<Rightarrow> if c = CHR ''-'' then r else s | [] \<Rightarrow> []) in
     length d \<ge> 2 \<and> last d = CHR ''n'' \<and> list_all is_digit (butlast d))"

fun replacer :: "json \<Rightarrow> json" where
  "replacer (JBig i) = JStr (show_int i @ ''n'')"
| "replacer (JArr xs) = JArr (map replacer xs)"
| "replacer (JObj kvs) = JObj (map (\<lambda>kv. (fst kv, replacer (snd kv))) kvs)"
| "replacer v = v"

fun reviver :: "json \<Rightarrow> json" where
  "reviver (JStr s) = (if bigint_text s then JBig (read_int (butlast s)) else JStr s)"
| "reviver (JArr xs) = JArr (map reviver xs)"
| "reviver (JObj kvs) = JObj (map (\<lambda>kv. (fst kv, reviver (snd kv))) kvs)"
| "reviver v = v"

fun plain :: "json \<Rightarrow> bool" where
  "plain (JStr s) = (\<not> bigint_text s)"
| "plain (JArr xs) = list_all plain xs"
| "plain (JObj kvs) = list_all (\<lambda>kv. plain (snd kv)) kvs"
| "plain v = True"

lemma bigint_text_show: "bigint_text (show_int i @ ''n'')"
proof (cases "i < 0")
  case True
  then show ?thesis
    using show_nat_digits [of "nat (- i)"]
    by (cases "show_nat (nat (- i))") (auto simp: bigint_text_def show_int_def Let_def butlast_append)
next
  case False
  obtain c s where cs: "show_nat (nat i) = c # s"
    using show_nat_digits [of "nat i"] by (cases "show_nat (nat i)") auto
  with False show_nat_no_minus [OF cs] show_nat_digits [of "nat i"] show ?thesis
    by (auto simp: bigint_text_def show_int_def Let_def butlast_append)
qed

text \<open>C39. A journal value survives saving and loading unchanged exactly when none of its strings looks
  like a BigInt literal: BigInts of any size and sign come back as BigInts, and the only value that
  changes is a string of the shape \<open>123n\<close>, which comes back as a number.\<close>

theorem journal_json_roundtrip: "reviver (replacer v) = v \<longleftrightarrow> plain v"
proof (induction v rule: replacer.induct)
  case (1 i)
  show ?case by (simp add: bigint_text_show read_show_int)
next
  case (2 xs)
  then show ?case by (induction xs) auto
next
  case (3 kvs)
  then show ?case by (induction kvs) (auto simp: prod_eq_iff)
qed auto

end
