(* ===== verification/Journal.thy ===== *)
theory Journal
  imports Keeper_Prelude
begin

section \<open>The durable journal (\<open>keepers/v3/lib/journal.mjs\<close>)\<close>

text \<open>
  The journal is the atomic JSON state of a keeper (\<open>tasks\<close> and namespaced \<open>records\<close>) with an
  append-only event log. \<open>mem\<close> is \<open>this.state\<close>, \<open>disk\<close> what the last \<open>save()\<close> renamed into place;
  a crash loses \<open>mem\<close> and restarts from \<open>disk\<close>. Record values are a type parameter: each keeper
  stores its own fields. Operations take the clock reading \<open>now\<close> (milliseconds) they use.
\<close>

subsection \<open>State\<close>

datatype task_state = Ready | Sent | Confirmed | Retryable | Quarantined

record task =
  t_key :: string
  t_state :: task_state
  t_attempts :: int
  t_createdAt :: int
  t_updatedAt :: int
  t_hash :: "string option"
  t_nonce :: "int option"
  t_raw :: "string option"
  t_sender :: "string option"
  t_meta :: "(string \<times> string) option"
  t_sentAt :: "int option"
  t_confirmedAt :: "int option"
  t_blockNumber :: "int option"
  t_lastError :: "string option"
  t_nextAttemptAt :: "int option"
  t_note :: "string option"

datatype event = EvTask string task_state | EvRecord string string | EvRecordCleared string string

record 'r jstate =
  tasks :: "task object"
  records :: "(int \<times> 'r) object object"

record 'r journal =
  mem :: "'r jstate"
  disk :: "'r jstate"
  events :: "event list"

definition BACKOFF_MS :: "int list" where
  "BACKOFF_MS = [15000, 30000, 60000]"

definition MAX_ATTEMPTS :: int where
  "MAX_ATTEMPTS = 5"

subsection \<open>Opening, saving, crashing\<close>

text \<open>The constructor reads the file when it exists and starts empty otherwise.\<close>

definition open_journal :: "'r jstate option \<Rightarrow> 'r journal" where
  "open_journal file = (let s = (case file of Some s \<Rightarrow> s | None \<Rightarrow> \<lparr>tasks = [], records = []\<rparr>)
     in \<lparr>mem = s, disk = s, events = []\<rparr>)"

definition save :: "'r journal \<Rightarrow> 'r journal" where
  "save j = j\<lparr>disk := mem j\<rparr>"

definition event :: "event \<Rightarrow> 'r journal \<Rightarrow> 'r journal" where
  "event e j = j\<lparr>events := events j @ [e]\<rparr>"

definition restart :: "'r journal \<Rightarrow> 'r journal" where
  "restart j = (open_journal (Some (disk j)))\<lparr>events := events j\<rparr>"

subsection \<open>Tasks\<close>

definition task_of :: "'r journal \<Rightarrow> string \<Rightarrow> task option" where
  "task_of j k = get (tasks (mem j)) k"

definition new_task :: "int \<Rightarrow> string \<Rightarrow> task" where
  "new_task now k = \<lparr>t_key = k, t_state = Ready, t_attempts = 0, t_createdAt = now, t_updatedAt = now, t_hash = None,
     t_nonce = None, t_raw = None, t_sender = None, t_meta = None, t_sentAt = None, t_confirmedAt = None, t_blockNumber = None,
     t_lastError = None, t_nextAttemptAt = None, t_note = None\<rparr>"

definition upsertTask :: "int \<Rightarrow> string \<Rightarrow> (task \<Rightarrow> task) \<Rightarrow> 'r journal \<Rightarrow> 'r journal" where
  "upsertTask now k patch j =
     (let prev = (case get (tasks (mem j)) k of Some t \<Rightarrow> t | None \<Rightarrow> new_task now k);
          nxt = (patch prev)\<lparr>t_updatedAt := now\<rparr>
      in event (EvTask k (t_state nxt)) (save (j\<lparr>mem := (mem j)\<lparr>tasks := put k nxt (tasks (mem j))\<rparr>\<rparr>)))"

definition markSent :: "int \<Rightarrow> string \<Rightarrow> string \<Rightarrow> int \<Rightarrow> string \<Rightarrow> string \<Rightarrow> string \<times> string \<Rightarrow>
    'r journal \<Rightarrow> 'r journal" where
  "markSent now k h n r from meta j = upsertTask now k (\<lambda>t. t\<lparr>t_state := Sent, t_hash := Some h, t_nonce := Some n,
     t_raw := Some r, t_sender := Some from, t_meta := Some meta, t_sentAt := Some now\<rparr>) j"

definition markConfirmed :: "int \<Rightarrow> string \<Rightarrow> string \<Rightarrow> int \<Rightarrow> 'r journal \<Rightarrow> 'r journal" where
  "markConfirmed now k h b j = upsertTask now k (\<lambda>t. t\<lparr>t_state := Confirmed, t_hash := Some h,
     t_blockNumber := Some b, t_raw := None, t_confirmedAt := Some now\<rparr>) j"

definition backoff :: "int \<Rightarrow> int" where
  "backoff att = BACKOFF_MS ! nat (min (att - 1) (int (length BACKOFF_MS) - 1))"

definition markFailure :: "int \<Rightarrow> string \<Rightarrow> string \<Rightarrow> bool \<Rightarrow> 'r journal \<Rightarrow> 'r journal" where
  "markFailure now k err quarantine j =
     (let att = (case task_of j k of Some t \<Rightarrow> t_attempts t | None \<Rightarrow> 0) + 1;
          exhausted = (att \<ge> MAX_ATTEMPTS);
          st = (if quarantine \<or> exhausted then Quarantined else Retryable)
      in upsertTask now k (\<lambda>t. t\<lparr>t_state := st, t_attempts := att, t_raw := None,
           t_lastError := Some (take 300 err), t_nextAttemptAt := Some (now + backoff att)\<rparr>) j)"

definition reopen :: "int \<Rightarrow> string \<Rightarrow> string \<Rightarrow> 'r journal \<Rightarrow> 'r journal" where
  "reopen now k nt j = upsertTask now k (\<lambda>t. t\<lparr>t_state := Ready, t_attempts := 0, t_nextAttemptAt := Some 0, t_note := Some nt\<rparr>) j"

definition inflight :: "'r journal \<Rightarrow> task list" where
  "inflight j = filter (\<lambda>t. t_state t = Sent) (map snd (tasks (mem j)))"

subsection \<open>Records\<close>

text \<open>A stored record is its fields with the time stamp \<open>updatedAt\<close> of the last write.\<close>

definition ns_of :: "'r journal \<Rightarrow> string \<Rightarrow> (int \<times> 'r) object" where
  "ns_of j ns = (case get (records (mem j)) ns of Some o1 \<Rightarrow> o1 | None \<Rightarrow> [])"

definition record_of :: "'r journal \<Rightarrow> string \<times> string \<Rightarrow> 'r option" where
  "record_of j k = map_option snd (get (ns_of j (fst k)) (snd k))"

definition put_record :: "int \<Rightarrow> string \<times> string \<Rightarrow> 'r \<Rightarrow> 'r journal \<Rightarrow> 'r journal" where
  "put_record now k v j = event (EvRecord (fst k) (snd k)) (save (j\<lparr>mem := (mem j)\<lparr>records :=
     put (fst k) (put (snd k) (now, v) (ns_of j (fst k))) (records (mem j))\<rparr>\<rparr>))"

text \<open>\<open>setRecord\<close> merges a patch into the stored record; the patch gets \<open>None\<close> for a new record.\<close>

definition setRecord :: "int \<Rightarrow> string \<Rightarrow> string \<Rightarrow> ('r option \<Rightarrow> 'r) \<Rightarrow> 'r journal \<Rightarrow> 'r journal" where
  "setRecord now ns i patch j = put_record now (ns, i) (patch (record_of j (ns, i))) j"

definition clearRecord :: "string \<Rightarrow> string \<Rightarrow> 'r journal \<Rightarrow> 'r journal" where
  "clearRecord ns i j = (if record_of j (ns, i) = None then j
     else event (EvRecordCleared ns i) (save (j\<lparr>mem := (mem j)\<lparr>records :=
            put ns (del i (ns_of j ns)) (records (mem j))\<rparr>\<rparr>)))"

definition entries :: "'r journal \<Rightarrow> string \<Rightarrow> (string \<times> 'r) list" where
  "entries j ns = map (\<lambda>(i, _, v). (i, v)) (ns_of j ns)"

definition records_in :: "'r journal \<Rightarrow> string \<Rightarrow> 'r list" where
  "records_in j ns = map snd (entries j ns)"

subsection \<open>May a task be attempted now?\<close>

datatype gate_reason = New | IsConfirmed | IsQuarantined | Inflight | Retry | Backoff | IsReady

record gate =
  g_go :: bool
  g_reason :: gate_reason
  g_reconcile_first :: bool

fun taskGate :: "task option \<Rightarrow> int \<Rightarrow> gate" where
  "taskGate None now = \<lparr>g_go = True, g_reason = New, g_reconcile_first = False\<rparr>"
| "taskGate (Some t) now = (case t_state t of
       Confirmed \<Rightarrow> \<lparr>g_go = False, g_reason = IsConfirmed, g_reconcile_first = False\<rparr>
     | Quarantined \<Rightarrow> \<lparr>g_go = False, g_reason = IsQuarantined, g_reconcile_first = False\<rparr>
     | Sent \<Rightarrow> \<lparr>g_go = False, g_reason = Inflight, g_reconcile_first = True\<rparr>
     | Retryable \<Rightarrow> (if now \<ge> (case t_nextAttemptAt t of Some n \<Rightarrow> n | None \<Rightarrow> 0)
          then \<lparr>g_go = True, g_reason = Retry, g_reconcile_first = False\<rparr>
          else \<lparr>g_go = False, g_reason = Backoff, g_reconcile_first = False\<rparr>)
     | Ready \<Rightarrow> \<lparr>g_go = True, g_reason = IsReady, g_reconcile_first = False\<rparr>)"

subsection \<open>Task keys\<close>

text \<open>\<open>`${chainId}:${contract.toLowerCase()}:${op}:v${version}`\<close>; the chain id and the version
  come in their decimal spelling. An empty contract or op is falsy and refused.\<close>

definition taskKey :: "string \<Rightarrow> string \<Rightarrow> string \<Rightarrow> string \<Rightarrow> string result" where
  "taskKey chainId contract op version = (if contract = [] \<or> op = []
     then Inl ''taskKey needs chainId, contract, op''
     else Inr (chainId @ '':'' @ lower contract @ '':'' @ op @ '':v'' @ version))"

subsection \<open>What the operations do\<close>

lemmas journal_ops = save_def event_def upsertTask_def markSent_def markConfirmed_def markFailure_def
  reopen_def put_record_def setRecord_def clearRecord_def

lemma task_of_upsert: "task_of (upsertTask now k patch j) k' =
    (if k' = k then Some ((patch (case task_of j k of Some t \<Rightarrow> t | None \<Rightarrow> new_task now k))\<lparr>t_updatedAt := now\<rparr>)
     else task_of j k')"
  by (simp add: task_of_def upsertTask_def Let_def event_def save_def objects)

lemma record_of_upsert [simp]: "record_of (upsertTask now k patch j) = record_of j"
  by (rule ext) (simp add: record_of_def ns_of_def upsertTask_def Let_def event_def save_def)

lemma task_of_put_record [simp]: "task_of (put_record now k v j) = task_of j"
  by (rule ext) (simp add: task_of_def put_record_def event_def save_def)

lemma record_of_put: "record_of (put_record now k v j) k' = (if k' = k then Some v else record_of j k')"
  by (cases k; cases k') (simp add: record_of_def ns_of_def put_record_def event_def save_def objects)

interpretation journal_store: kv_store record_of "put_record now" for now
  by unfold_locales (rule record_of_put)

lemma record_of_clear: "record_of (clearRecord ns i j) k = (if k = (ns, i) then None else record_of j k)"
  by (cases k) (auto simp: record_of_def ns_of_def clearRecord_def event_def save_def objects)

lemma task_of_clear [simp]: "task_of (clearRecord ns i j) = task_of j"
  by (rule ext) (simp add: task_of_def clearRecord_def event_def save_def)

lemma record_of_setRecord: "record_of (setRecord now ns i patch j) k =
    (if k = (ns, i) then Some (patch (record_of j (ns, i))) else record_of j k)"
  by (simp add: setRecord_def record_of_put)

lemma task_of_setRecord [simp]: "task_of (setRecord now ns i patch j) = task_of j"
  by (simp add: setRecord_def)

subsection \<open>Runs of operations\<close>

datatype 'r jop =
    OSent int string string int string string "string \<times> string"
  | OConfirmed int string string int
  | OFailure int string string bool
  | OReopen int string string
  | OSet int string string "'r option \<Rightarrow> 'r"
  | OClear string string

fun apply_op :: "'r jop \<Rightarrow> 'r journal \<Rightarrow> 'r journal" where
  "apply_op (OSent now k h n r from meta) j = markSent now k h n r from meta j"
| "apply_op (OConfirmed now k h b) j = markConfirmed now k h b j"
| "apply_op (OFailure now k e q) j = markFailure now k e q j"
| "apply_op (OReopen now k nt) j = reopen now k nt j"
| "apply_op (OSet now ns i patch) j = setRecord now ns i patch j"
| "apply_op (OClear ns i) j = clearRecord ns i j"

definition run_ops :: "'r jop list \<Rightarrow> 'r journal \<Rightarrow> 'r journal" where
  "run_ops ops j = foldl (\<lambda>j x. apply_op x j) j ops"

lemma run_ops_simps [simp]:
  "run_ops [] j = j"
  "run_ops (x # ops) j = run_ops ops (apply_op x j)"
  by (simp_all add: run_ops_def)

lemma run_ops_inv: "P j \<Longrightarrow> (\<And>x j. P j \<Longrightarrow> P (apply_op x j)) \<Longrightarrow> P (run_ops ops j)"
  by (induction ops arbitrary: j) auto

subsection \<open>Durability\<close>

definition durable :: "'r journal \<Rightarrow> bool" where
  "durable j = (disk j = mem j)"

lemma durable_open [simp]: "durable (open_journal f)"
  by (simp add: durable_def open_journal_def Let_def)

lemma durable_upsert [simp]: "durable (upsertTask now k patch j)"
  by (simp add: durable_def upsertTask_def Let_def event_def save_def)

lemma durable_put_record [simp]: "durable (put_record now k v j)"
  by (simp add: durable_def put_record_def event_def save_def)

lemma durable_apply: "durable j \<Longrightarrow> durable (apply_op x j)"
  by (cases x) (auto simp: markSent_def markConfirmed_def markFailure_def reopen_def Let_def setRecord_def
      clearRecord_def, auto simp: durable_def event_def save_def)

lemma restart_durable: "durable j \<Longrightarrow> mem (restart j) = mem j"
  by (simp add: durable_def restart_def open_journal_def Let_def)


lemma durable_marks [simp]:
  "durable (markSent now k h n r from meta j)" "durable (markConfirmed now k h b j)"
  "durable (markFailure now k e q j)" "durable (reopen now k nt j)"
  by (simp_all add: markSent_def markConfirmed_def markFailure_def reopen_def Let_def)

definition old_task :: "int \<Rightarrow> string \<Rightarrow> 'r journal \<Rightarrow> task" where
  "old_task now k j = (case task_of j k of Some t \<Rightarrow> t | None \<Rightarrow> new_task now k)"

lemma old_task_attempts: "t_attempts (old_task now k j) = (case task_of j k of Some t \<Rightarrow> t_attempts t | None \<Rightarrow> 0)"
  by (simp add: old_task_def new_task_def split: option.splits)

text \<open>What each mark leaves in the journal, for every key.\<close>

lemma task_of_markSent: "task_of (markSent now k h n r from meta j) k' = (if k' = k
    then Some ((old_task now k j)\<lparr>t_state := Sent, t_hash := Some h, t_nonce := Some n, t_raw := Some r,
      t_sender := Some from, t_meta := Some meta, t_sentAt := Some now, t_updatedAt := now\<rparr>) else task_of j k')"
  by (simp add: markSent_def task_of_upsert old_task_def)

lemma task_of_markConfirmed: "task_of (markConfirmed now k h b j) k' = (if k' = k
    then Some ((old_task now k j)\<lparr>t_state := Confirmed, t_hash := Some h, t_blockNumber := Some b, t_raw := None,
      t_confirmedAt := Some now, t_updatedAt := now\<rparr>) else task_of j k')"
  by (simp add: markConfirmed_def task_of_upsert old_task_def)

lemma task_of_markFailure: "task_of (markFailure now k e q j) k' = (if k' = k
    then Some (let att = t_attempts (old_task now k j) + 1 in (old_task now k j)\<lparr>
      t_state := (if q \<or> att \<ge> MAX_ATTEMPTS then Quarantined else Retryable), t_attempts := att, t_raw := None,
      t_lastError := Some (take 300 e), t_nextAttemptAt := Some (now + backoff att), t_updatedAt := now\<rparr>)
    else task_of j k')"
  by (simp add: markFailure_def task_of_upsert old_task_attempts Let_def) (simp add: old_task_def)

lemma task_of_reopen: "task_of (reopen now k nt j) k' = (if k' = k
    then Some ((old_task now k j)\<lparr>t_state := Ready, t_attempts := 0, t_nextAttemptAt := Some 0, t_note := Some nt,
      t_updatedAt := now\<rparr>) else task_of j k')"
  by (simp add: reopen_def task_of_upsert old_task_def)

lemmas task_of_marks = task_of_markSent task_of_markConfirmed task_of_markFailure task_of_reopen

subsection \<open>The task lifecycle\<close>

definition task_ok :: "string \<Rightarrow> task \<Rightarrow> bool" where
  "task_ok k t \<longleftrightarrow> t_key t = k \<and> 0 \<le> t_attempts t
     \<and> (t_state t = Sent \<longrightarrow> t_raw t \<noteq> None \<and> t_hash t \<noteq> None \<and> t_nonce t \<noteq> None \<and> t_sender t \<noteq> None)
     \<and> (t_state t \<in> {Confirmed, Retryable, Quarantined} \<longrightarrow> t_raw t = None)
     \<and> (t_state t = Confirmed \<longrightarrow> t_hash t \<noteq> None)
     \<and> (t_state t = Retryable \<longrightarrow> 0 < t_attempts t \<and> t_attempts t < MAX_ATTEMPTS \<and> t_nextAttemptAt t \<noteq> None)"

definition tasks_ok :: "'r journal \<Rightarrow> bool" where
  "tasks_ok j \<longleftrightarrow> well_keyed (tasks (mem j)) \<and> (\<forall>k t. task_of j k = Some t \<longrightarrow> task_ok k t)"

lemma tasks_ok_upsert:
  assumes "tasks_ok j"
    and "\<And>t. task_of j k = Some t \<Longrightarrow> task_ok k t \<Longrightarrow> task_ok k (patch t)"
    and "task_of j k = None \<Longrightarrow> task_ok k (patch (new_task now k))"
  shows "tasks_ok (upsertTask now k patch j)"
proof -
  have "well_keyed (tasks (mem (upsertTask now k patch j)))"
    using assms(1) by (auto simp: tasks_ok_def upsertTask_def Let_def event_def save_def)
  moreover have "task_ok k' t" if t: "task_of (upsertTask now k patch j) k' = Some t" for k' t
  proof (cases "k' = k")
    case False
    with t assms(1) show ?thesis by (simp add: task_of_upsert tasks_ok_def)
  next
    case True
    let ?prev = "case task_of j k of Some t \<Rightarrow> t | None \<Rightarrow> new_task now k"
    have "task_ok k (patch ?prev)"
      using assms by (cases "task_of j k") (simp_all add: tasks_ok_def)
    moreover from t True have "t = (patch ?prev)\<lparr>t_updatedAt := now\<rparr>"
      by (simp add: task_of_upsert)
    ultimately show ?thesis using True by (simp add: task_ok_def)
  qed
  ultimately show ?thesis by (simp add: tasks_ok_def)
qed

lemma tasks_ok_records:
  assumes "tasks_ok j"
  shows "tasks_ok (setRecord now ns i patch j)" and "tasks_ok (clearRecord ns i j)"
  using assms by (auto simp: tasks_ok_def setRecord_def put_record_def clearRecord_def event_def save_def task_of_def)

lemma tasks_ok_markSent: "tasks_ok j \<Longrightarrow> tasks_ok (markSent now k h n r from meta j)"
  unfolding markSent_def by (rule tasks_ok_upsert) (simp_all add: task_ok_def new_task_def)

lemma tasks_ok_markConfirmed: "tasks_ok j \<Longrightarrow> tasks_ok (markConfirmed now k h b j)"
  unfolding markConfirmed_def by (rule tasks_ok_upsert) (simp_all add: task_ok_def new_task_def)

lemma tasks_ok_reopen: "tasks_ok j \<Longrightarrow> tasks_ok (reopen now k nt j)"
  unfolding reopen_def by (rule tasks_ok_upsert) (simp_all add: task_ok_def new_task_def)

lemma tasks_ok_markFailure:
  assumes "tasks_ok j"
  shows "tasks_ok (markFailure now k e q j)"
proof -
  have "0 \<le> t_attempts t" if "task_of j k = Some t" for t
    using that assms by (simp add: tasks_ok_def task_ok_def)
  then show ?thesis
    unfolding markFailure_def Let_def
    by (intro tasks_ok_upsert assms) (auto simp: task_ok_def new_task_def MAX_ATTEMPTS_def)
qed

lemmas tasks_ok_marks = tasks_ok_markSent tasks_ok_markConfirmed tasks_ok_markFailure tasks_ok_reopen

lemma tasks_ok_apply: "tasks_ok j \<Longrightarrow> tasks_ok (apply_op x j)"
  by (cases x) (simp_all add: tasks_ok_marks tasks_ok_records)

lemma tasks_ok_open [simp]: "tasks_ok (open_journal None)"
  by (simp add: tasks_ok_def open_journal_def task_of_def Let_def)

lemma tasks_ok_run: "tasks_ok j \<Longrightarrow> tasks_ok (run_ops ops j)"
  by (erule run_ops_inv) (rule tasks_ok_apply)

text \<open>C38. In every journal a keeper can build from an empty file, tasks are stored under their own
  key; a task is \<open>Sent\<close> only with its signed transaction, hash, nonce and signer on record (what
  reconciliation needs), the signed transaction is gone once the task is settled, and a retryable task
  has used fewer than \<open>MAX_ATTEMPTS\<close> attempts and knows when to try again.\<close>

theorem task_lifecycle:
  "let j = run_ops ops (open_journal None)
   in list_all (\<lambda>(k, t). task_ok k t \<and> (t_state t = Sent \<longleftrightarrow> t \<in> set (inflight j))) (tasks (mem j))"
proof -
  let ?j = "run_ops ops (open_journal None)"
  have ok: "tasks_ok ?j" by (intro tasks_ok_run tasks_ok_open)
  have "task_ok k t" if "(k, t) \<in> set (tasks (mem ?j))" for k t
    using ok that by (auto simp: tasks_ok_def task_of_def in_object_iff)
  moreover have "t \<in> set (inflight ?j) \<longleftrightarrow> t_state t = Sent" if "(k, t) \<in> set (tasks (mem ?j))" for k t
    using that by (force simp: inflight_def)
  ultimately show ?thesis by (auto simp: list_all_iff Let_def)
qed

subsection \<open>Retry, backoff, quarantine\<close>

definition failures :: "string \<Rightarrow> string \<Rightarrow> int list \<Rightarrow> 'r journal \<Rightarrow> 'r journal" where
  "failures k e ts j = foldl (\<lambda>j now. markFailure now k e False j) j ts"

lemma failures_snoc: "failures k e (ts @ [t]) j = markFailure t k e False (failures k e ts j)"
  by (simp add: failures_def)

lemma failures_attempts:
  assumes "task_of j k = None" and "ts \<noteq> []"
  shows "\<exists>t. task_of (failures k e ts j) k = Some t \<and> t_attempts t = int (length ts)
     \<and> t_nextAttemptAt t = Some (last ts + backoff (int (length ts)))
     \<and> t_state t = (if int (length ts) \<ge> MAX_ATTEMPTS then Quarantined else Retryable)"
  using assms(2)
proof (induction ts rule: rev_nonempty_induct)
  case (single x)
  with assms(1) show ?case
    by (simp add: failures_def markFailure_def Let_def task_of_upsert MAX_ATTEMPTS_def)
next
  case (snoc x xs)
  then show ?case
    by (auto simp: failures_snoc markFailure_def Let_def task_of_upsert add.commute)
qed

lemma backoff_values: "1 \<le> n \<Longrightarrow> backoff n = (if n = 1 then 15000 else if n = 2 then 30000 else 60000)"
  by (auto simp: backoff_def BACKOFF_MS_def nth_Cons split: nat.splits)

text \<open>The retry policy of a task that keeps failing: after the first four failures it may be tried
  again exactly from 15, 30, 60 and 60 seconds after the last failure on, and after the fifth it is
  quarantined and never tried again, whatever the time.\<close>

theorem failure_schedule:
  assumes "task_of j k = None" and "ts \<noteq> []"
  shows "g_go (taskGate (task_of (failures k e ts j) k) now) \<longleftrightarrow>
    length ts < 5 \<and> last ts + (if length ts = 1 then 15000 else if length ts = 2 then 30000 else 60000) \<le> now"
proof -
  obtain t where t: "task_of (failures k e ts j) k = Some t"
    and n: "t_nextAttemptAt t = Some (last ts + backoff (int (length ts)))"
    and s: "t_state t = (if int (length ts) \<ge> MAX_ATTEMPTS then Quarantined else Retryable)"
    using failures_attempts [OF assms] by blast
  from assms(2) have "1 \<le> int (length ts)" by (cases ts) auto
  then show ?thesis
    by (simp add: t n s backoff_values MAX_ATTEMPTS_def)
qed

theorem failure_schedule_witness:
  "\<not> g_go (taskGate (task_of (failures ''k'' ''e'' [0, 20000] (open_journal None :: nat journal)) ''k'') 49999)
   \<and> g_go (taskGate (task_of (failures ''k'' ''e'' [0, 20000] (open_journal None :: nat journal)) ''k'') 50000)"
  using failure_schedule [of "open_journal None :: nat journal" "''k''" "[0, 20000]" "''e''" 49999]
    failure_schedule [of "open_journal None :: nat journal" "''k''" "[0, 20000]" "''e''" 50000]
  by (simp add: task_of_def open_journal_def Let_def)

subsection \<open>Task keys are unambiguous\<close>

lemma append_sep_eq:
  assumes "c \<notin> set xs" and "c \<notin> set ys" and "xs @ c # us = ys @ c # vs"
  shows "xs = ys \<and> us = vs"
  using assms by (induction xs arbitrary: ys) (case_tac ys; auto)+

lemma append_last_sep_eq:
  assumes "c \<notin> set us" and "c \<notin> set vs" and "xs @ c # us = ys @ c # vs"
  shows "xs = ys \<and> us = vs"
proof -
  from assms(3) have "rev us @ c # rev xs = rev vs @ c # rev ys"
    by (metis append.assoc append_Cons append_Nil rev.simps(2) rev_append)
  with assms(1,2) have "rev us = rev vs \<and> rev xs = rev ys"
    by (intro append_sep_eq) auto
  then show ?thesis by simp
qed

text \<open>Two tasks get the same key only when chain, contract (up to letter case), operation and
  version all agree, although operations contain the separator themselves: the chain id and the
  contract address hold no colon, and neither does a version number.\<close>

theorem taskKey_injective:
  assumes "taskKey c a p v = Inr x" and "taskKey c' a' p' v' = Inr x"
    and "CHR '':'' \<notin> set c \<union> set (lower a) \<union> set v" and "CHR '':'' \<notin> set c' \<union> set (lower a') \<union> set v'"
  shows "c = c' \<and> lower a = lower a' \<and> p = p' \<and> v = v'"
proof -
  have "c @ CHR '':'' # (lower a @ CHR '':'' # (p @ CHR '':'' # CHR ''v'' # v))
      = c' @ CHR '':'' # (lower a' @ CHR '':'' # (p' @ CHR '':'' # CHR ''v'' # v'))"
    using assms(1,2) by (auto simp: taskKey_def split: if_splits)
  with assms(3,4) have c: "c = c'"
    and r: "lower a @ CHR '':'' # (p @ CHR '':'' # CHR ''v'' # v) = lower a' @ CHR '':'' # (p' @ CHR '':'' # CHR ''v'' # v')"
    using append_sep_eq [of "CHR '':''" c c'] by auto
  from r assms(3,4) have a: "lower a = lower a'"
    and q: "p @ CHR '':'' # CHR ''v'' # v = p' @ CHR '':'' # CHR ''v'' # v'"
    using append_sep_eq [of "CHR '':''" "lower a" "lower a'"] by auto
  from q assms(3,4) have "p = p' \<and> CHR ''v'' # v = CHR ''v'' # v'"
    by (intro append_last_sep_eq [of "CHR '':''"]) auto
  with c a show ?thesis by simp
qed

theorem taskKey_injective_witness:
  "lower ''0xAB'' = lower ''0xab'' \<and> ''seal:0x1:20'' = ''seal:0x1:20''"
proof -
  have low: "lower ''0xAB'' = ''0xab''" "lower ''0xab'' = ''0xab''" by code_simp+
  show ?thesis
    using taskKey_injective [of "''5042''" "''0xAB''" "''seal:0x1:20''" "''1''" "''5042:0xab:seal:0x1:20:v1''"
      "''5042''" "''0xab''" "''seal:0x1:20''" "''1''"]
    by (simp add: taskKey_def low)
qed

end
