(* ===== verification/Tx.thy ===== *)
theory Tx
  imports Journal
begin

section \<open>The transaction sender (\<open>keepers/v3/lib/tx.mjs\<close>)\<close>

text \<open>
  \<open>TxSender.send\<close>: simulate, stop there in a dry run, sign, journal hash and raw transaction,
  broadcast, wait for the receipt; \<open>reconcile\<close> settles a task that a crash or a timeout left \<open>Sent\<close>.
  The JSON-RPC provider is not part of the repository: its replies during one call are the fields
  of a record of functions, any of which may throw (\<open>Inl\<close>). The signer and the hash function come
  with the sender's configuration. \<open>trace\<close> lists the durable task writes and the broadcasts in the
  order the code makes them. \<open>now\<close> is the clock before the transaction is sent, \<open>later\<close> the clock
  after the wait for its receipt.
\<close>

subsection \<open>Provider, wallet, sender\<close>

record receipt =
  r_status :: int
  r_block :: int

record fee_data =
  maxFeePerGas :: "int option"
  maxPriorityFeePerGas :: "int option"
  gasPrice :: "int option"

datatype fee_fields = Eip1559 int int | Legacy "int option"

record tx_fields =
  x_to :: string
  x_data :: string
  x_value :: int
  x_nonce :: int
  x_chainId :: int
  x_gasLimit :: int
  x_fee :: fee_fields

record request =
  q_key :: string
  q_to :: string
  q_data :: string
  q_value :: int
  q_gasLimit :: "int option"
  q_label :: string
  q_from :: "string option"

datatype wait_reply = WaitReceipt receipt | WaitNothing | WaitThrow string string

record provider =
  p_receipt :: "string \<Rightarrow> receipt option result"
  p_latest :: "string \<Rightarrow> int result"
  p_pending :: "string \<Rightarrow> int result"
  p_call :: "string \<Rightarrow> string \<Rightarrow> int \<Rightarrow> string option \<Rightarrow> unit result"
  p_fee :: "fee_data result"
  p_estimate :: "string \<Rightarrow> string \<Rightarrow> int \<Rightarrow> string option \<Rightarrow> int result"
  p_broadcast :: "string \<Rightarrow> unit result"
  p_wait :: "string \<Rightarrow> wait_reply"

record wallet =
  w_address :: string
  w_sign :: "tx_fields \<Rightarrow> string"

record sender =
  s_wallet :: "wallet option"
  s_keccak :: "string \<Rightarrow> string"
  s_chainId :: int
  s_execute :: bool
  s_gasMultiplierBps :: int
  s_giveUpMs :: int
  s_cap :: "int option"

text \<open>The constructor refuses \<open>--execute\<close> without a signer.\<close>

definition new_sender :: "sender \<Rightarrow> sender result" where
  "new_sender c = (if s_execute c \<and> s_wallet c = None then Inl ''--execute needs a signer'' else Inr c)"

definition s_from :: "sender \<Rightarrow> string option" where
  "s_from c = map_option w_address (s_wallet c)"

datatype act = APersist string task | ABroadcast string

record 'r txst =
  jr :: "'r journal"
  trace :: "act list"

text \<open>Every journal call of the sender is one durable task write.\<close>

definition persist :: "string \<Rightarrow> ('r journal \<Rightarrow> 'r journal) \<Rightarrow> 'r txst \<Rightarrow> 'r txst" where
  "persist k f st = (let j = f (jr st)
     in st\<lparr>jr := j, trace := trace st @ (case task_of j k of Some t \<Rightarrow> [APersist k t] | None \<Rightarrow> [])\<rparr>)"

definition broadcast :: "string \<Rightarrow> 'r txst \<Rightarrow> 'r txst" where
  "broadcast r st = st\<lparr>trace := trace st @ [ABroadcast r]\<rparr>"

definition REJECTED :: "string list" where
  "REJECTED = [''nonce too low'', ''already known'', ''replacement transaction underpriced'',
     ''insufficient funds'', ''intrinsic gas'', ''exceeds block gas limit'', ''invalid sender'']"

subsection \<open>Reconciling a task that was sent\<close>

definition reconcile :: "sender \<Rightarrow> provider \<Rightarrow> int \<Rightarrow> task \<Rightarrow> 'r txst \<Rightarrow> (task_state \<times> receipt option) result \<times> 'r txst" where
  "reconcile c p now t st =
    (case t_hash t of None \<Rightarrow> (Inl ''invalid hash'', st) | Some h \<Rightarrow>
     (case p_receipt p h of Inl e \<Rightarrow> (Inl e, st)
      | Inr (Some rc) \<Rightarrow>
         (if r_status rc = 1
          then (Inr (Confirmed, Some rc), persist (t_key t) (markConfirmed now (t_key t) h (r_block rc)) st)
          else (Inr (Retryable, Some rc), persist (t_key t) (markFailure now (t_key t) (''reverted on chain '' @ h) False) st))
      | Inr None \<Rightarrow>
         (case t_sender t of None \<Rightarrow> (Inl ''invalid address'', st) | Some from \<Rightarrow>
          (case p_latest p from of Inl e \<Rightarrow> (Inl e, st)
           | Inr latest \<Rightarrow>
              (if (case t_nonce t of Some n \<Rightarrow> latest > n | None \<Rightarrow> False)
               then (Inr (Retryable, None), persist (t_key t) (markFailure now (t_key t) (''nonce consumed without our receipt '' @ h) False) st)
               else if now - (case t_sentAt t of Some s \<Rightarrow> s | None \<Rightarrow> 0) > s_giveUpMs c
               then (Inr (Retryable, None), persist (t_key t) (markFailure now (t_key t) (''not mined '' @ h) False) st)
               else (Inr (Sent, None), (case t_raw t of Some r \<Rightarrow> broadcast r st | None \<Rightarrow> st)))))))"

fun reconcile_tasks :: "sender \<Rightarrow> provider \<Rightarrow> int \<Rightarrow> task list \<Rightarrow> 'r txst \<Rightarrow> (string \<times> task_state) list result \<times> 'r txst" where
  "reconcile_tasks c p now [] st = (Inr [], st)"
| "reconcile_tasks c p now (t # ts) st =
     (case reconcile c p now t st of
        (Inl e, st1) \<Rightarrow> (Inl e, st1)
      | (Inr (s, _), st1) \<Rightarrow>
          (case reconcile_tasks c p now ts st1 of
             (Inl e, st2) \<Rightarrow> (Inl e, st2)
           | (Inr out, st2) \<Rightarrow> (Inr ((t_key t, s) # out), st2)))"

definition reconcileAll :: "sender \<Rightarrow> provider \<Rightarrow> int \<Rightarrow> 'r txst \<Rightarrow> (string \<times> task_state) list result \<times> 'r txst" where
  "reconcileAll c p now st = reconcile_tasks c p now (inflight (jr st)) st"

subsection \<open>Sending\<close>

datatype send_status = StConfirmed | StInflight | StRetryLater | StQuarantined | StBackoff
  | StSimulationFailed | StDryRun | StGasCap | StRejected | StReverted

record send_result =
  sr_status :: send_status
  sr_rcpt :: "receipt option"
  sr_reconciled :: bool
  sr_err :: "string option"

definition result_of :: "send_status \<Rightarrow> send_result" where
  "result_of s = \<lparr>sr_status = s, sr_rcpt = None, sr_reconciled = False, sr_err = None\<rparr>"

definition fee_fields_of :: "fee_data \<Rightarrow> fee_fields" where
  "fee_fields_of f = (case maxFeePerGas f of
      Some m \<Rightarrow> Eip1559 m (case maxPriorityFeePerGas f of Some q \<Rightarrow> q | None \<Rightarrow> 0)
    | None \<Rightarrow> Legacy (gasPrice f))"

text \<open>\<open>cap \<and> (fee.maxFeePerGas ?? fee.gasPrice) > cap\<close>: a cap of zero is falsy, a missing price
  compares as zero.\<close>

definition above_cap :: "int option \<Rightarrow> fee_data \<Rightarrow> bool" where
  "above_cap cap f = (case cap of None \<Rightarrow> False | Some m \<Rightarrow> m \<noteq> 0 \<and>
     (case maxFeePerGas f of Some x \<Rightarrow> x | None \<Rightarrow> (case gasPrice f of Some x \<Rightarrow> x | None \<Rightarrow> 0)) > m)"

text \<open>After the broadcast: the receipt of the wait, or the one re-read after a timeout.\<close>

definition await_receipt :: "provider \<Rightarrow> string \<Rightarrow> receipt option result" where
  "await_receipt p h = (case p_wait p h of
      WaitReceipt rc \<Rightarrow> Inr (Some rc)
    | WaitNothing \<Rightarrow> Inr None
    | WaitThrow code msg \<Rightarrow> (if code \<noteq> ''TIMEOUT'' \<and> \<not> matches_any [''timeout''] msg then Inl msg else p_receipt p h))"

definition settle :: "int \<Rightarrow> string \<Rightarrow> string \<Rightarrow> receipt option \<Rightarrow> 'r txst \<Rightarrow> send_result result \<times> 'r txst" where
  "settle later k h ro st = (case ro of
      None \<Rightarrow> (Inr (result_of StInflight), st)
    | Some rc \<Rightarrow>
       (if r_status rc \<noteq> 1
        then (Inr ((result_of StReverted)\<lparr>sr_rcpt := Some rc\<rparr>), persist k (markFailure later k (''reverted '' @ h) False) st)
        else (Inr ((result_of StConfirmed)\<lparr>sr_rcpt := Some rc\<rparr>), persist k (markConfirmed later k h (r_block rc)) st)))"

definition broadcast_and_wait :: "provider \<Rightarrow> int \<Rightarrow> int \<Rightarrow> string \<Rightarrow> string \<Rightarrow> string \<Rightarrow> 'r txst \<Rightarrow> send_result result \<times> 'r txst" where
  "broadcast_and_wait p now later k h r st =
    (let st1 = broadcast r st in
     case p_broadcast p r of
       Inl e \<Rightarrow> (if matches_any REJECTED e
          then (Inr ((result_of StRejected)\<lparr>sr_err := Some e\<rparr>), persist k (markFailure now k (''broadcast rejected: '' @ e) False) st1)
          else (Inr (result_of StInflight), st1))
     | Inr _ \<Rightarrow> (case await_receipt p h of Inl e \<Rightarrow> (Inl e, st1) | Inr ro \<Rightarrow> settle later k h ro st1))"

definition limit_of :: "sender \<Rightarrow> provider \<Rightarrow> request \<Rightarrow> string option \<Rightarrow> int result" where
  "limit_of c p q from = (case q_gasLimit q of
      Some g \<Rightarrow> (if g \<noteq> 0 then Inr g else
         map_sum id (\<lambda>e. bdiv (e * s_gasMultiplierBps c) 10000) (p_estimate p (q_to q) (q_data q) (q_value q) from))
    | None \<Rightarrow> map_sum id (\<lambda>e. bdiv (e * s_gasMultiplierBps c) 10000) (p_estimate p (q_to q) (q_data q) (q_value q) from))"

text \<open>Fee, gas limit, nonce, signature, and the durable record of what was signed. \<open>Inl\<close> carries an
  early return: a provider error, or the gas-price cap.\<close>

datatype stop = Threw string | OverCap

definition sign_step :: "sender \<Rightarrow> provider \<Rightarrow> int \<Rightarrow> request \<Rightarrow> 'r txst \<Rightarrow> stop + string \<times> string \<times> 'r txst" where
  "sign_step c p now q st =
    (let from = (case s_from c of Some a \<Rightarrow> Some a | None \<Rightarrow> q_from q) in
     case p_fee p of Inl e \<Rightarrow> Inl (Threw e) | Inr fee \<Rightarrow>
     (if above_cap (s_cap c) fee then Inl OverCap else
      case limit_of c p q from of Inl e \<Rightarrow> Inl (Threw e) | Inr limit \<Rightarrow>
      (case s_wallet c of None \<Rightarrow> Inl (Threw ''no wallet'') | Some w \<Rightarrow>
       (case p_pending p (w_address w) of Inl e \<Rightarrow> Inl (Threw e) | Inr n \<Rightarrow>
        (let r = w_sign w \<lparr>x_to = q_to q, x_data = q_data q, x_value = q_value q, x_nonce = n,
                     x_chainId = s_chainId c, x_gasLimit = limit, x_fee = fee_fields_of fee\<rparr>;
             h = s_keccak c r
         in Inr (h, r, persist (q_key q) (markSent now (q_key q) h n r (w_address w) (q_label q, q_to q)) st))))))"

definition sign_and_send :: "sender \<Rightarrow> provider \<Rightarrow> int \<Rightarrow> int \<Rightarrow> request \<Rightarrow> 'r txst \<Rightarrow> send_result result \<times> 'r txst" where
  "sign_and_send c p now later q st = (case sign_step c p now q st of
       Inl (Threw e) \<Rightarrow> (Inl e, st)
     | Inl OverCap \<Rightarrow> (Inr (result_of StGasCap), st)
     | Inr (h, r, st1) \<Rightarrow> broadcast_and_wait p now later (q_key q) h r st1)"

definition send_new :: "sender \<Rightarrow> provider \<Rightarrow> int \<Rightarrow> int \<Rightarrow> request \<Rightarrow> 'r txst \<Rightarrow> send_result result \<times> 'r txst" where
  "send_new c p now later q st =
    (let k = q_key q; from = (case s_from c of Some a \<Rightarrow> Some a | None \<Rightarrow> q_from q) in
     case p_call p (q_to q) (q_data q) (q_value q) from of
       Inl e \<Rightarrow> (Inr ((result_of StSimulationFailed)\<lparr>sr_err := Some e\<rparr>),
                 if s_execute c then persist k (markFailure now k (''simulation: '' @ e) False) st else st)
     | Inr _ \<Rightarrow> (if \<not> s_execute c then (Inr (result_of StDryRun), st) else sign_and_send c p now later q st))"

definition send :: "sender \<Rightarrow> provider \<Rightarrow> int \<Rightarrow> int \<Rightarrow> request \<Rightarrow> 'r txst \<Rightarrow> send_result result \<times> 'r txst" where
  "send c p now later q st =
    (let k = q_key q; task = task_of (jr st) k; gate = taskGate task now in
     case task of
       Some t \<Rightarrow>
        (if g_reconcile_first gate then
          (case reconcile c p now t st of
             (Inl e, st1) \<Rightarrow> (Inl e, st1)
           | (Inr (s, ro), st1) \<Rightarrow>
              (if s = Confirmed then (Inr \<lparr>sr_status = StConfirmed, sr_rcpt = ro, sr_reconciled = True, sr_err = None\<rparr>, st1)
               else if s = Sent then (Inr (result_of StInflight), st1)
               else (Inr (result_of StRetryLater), st1)))
         else if g_reason gate = IsConfirmed then
          (case t_hash t of None \<Rightarrow> (Inl ''invalid hash'', st) | Some h \<Rightarrow>
           (case p_receipt p h of
             Inl e \<Rightarrow> (Inl e, st)
           | Inr ro \<Rightarrow> (if (case ro of Some rc \<Rightarrow> r_status rc = 1 | None \<Rightarrow> False)
               then (Inr \<lparr>sr_status = StConfirmed, sr_rcpt = ro, sr_reconciled = True, sr_err = None\<rparr>, st)
               else (Inr (result_of StInflight), st))))
         else if \<not> g_go gate then (Inr (result_of (if g_reason gate = IsQuarantined then StQuarantined else StBackoff)), st)
         else send_new c p now later q st)
     | None \<Rightarrow> send_new c p now later q st)"

subsection \<open>The sender over a lifetime\<close>

text \<open>
  Everything that can happen to a journal and the network through one sender: sends and
  reconciliations with arbitrary provider replies and clocks, a crash right after a signature was
  journaled (before its broadcast), a restart from disk, records written by the keeper, and the
  reopening of a quarantined task (\<open>canonical/outbox-executor.mjs\<close>).
\<close>

inductive tx_reach :: "sender \<Rightarrow> 'r txst \<Rightarrow> bool" for c where
  start: "tx_reach c \<lparr>jr = open_journal None, trace = []\<rparr>"
| send: "tx_reach c st \<Longrightarrow> tx_reach c (snd (send c p now later q st))"
| reconcile: "tx_reach c st \<Longrightarrow> tx_reach c (snd (reconcileAll c p now st))"
| crash: "tx_reach c st \<Longrightarrow> g_go (taskGate (task_of (jr st) (q_key q)) now) \<Longrightarrow>
    sign_step c p now q st = Inr (h, r, st1) \<Longrightarrow> tx_reach c (st1\<lparr>jr := restart (jr st1)\<rparr>)"
| boot: "tx_reach c st \<Longrightarrow> tx_reach c (st\<lparr>jr := restart (jr st)\<rparr>)"
| keep: "tx_reach c st \<Longrightarrow> tx_reach c (st\<lparr>jr := setRecord now ns i patch (jr st)\<rparr>)"
| reopened: "tx_reach c st \<Longrightarrow> task_of (jr st) k = Some t \<Longrightarrow> t_state t = Quarantined \<Longrightarrow>
    tx_reach c (persist k (reopen now k nt) st)"

text \<open>Write-ahead: every broadcast is of a transaction whose task was durably recorded as \<open>Sent\<close>, with
  its hash, earlier in the trace. \<open>seen\<close> collects the transactions recorded so far.\<close>

definition recorded :: "(string \<Rightarrow> string) \<Rightarrow> act \<Rightarrow> string set" where
  "recorded kk a = (case a of
      APersist k t \<Rightarrow> (case t_raw t of
          Some r \<Rightarrow> (if t_state t = Sent \<and> t_hash t = Some (kk r) then {r} else {})
        | None \<Rightarrow> {})
    | ABroadcast r \<Rightarrow> {})"

fun write_ahead :: "(string \<Rightarrow> string) \<Rightarrow> string set \<Rightarrow> act list \<Rightarrow> bool" where
  "write_ahead kk seen [] = True"
| "write_ahead kk seen (a # as) =
     ((case a of ABroadcast r \<Rightarrow> r \<in> seen | APersist k t \<Rightarrow> True) \<and> write_ahead kk (seen \<union> recorded kk a) as)"

definition seen_in :: "(string \<Rightarrow> string) \<Rightarrow> act list \<Rightarrow> string set" where
  "seen_in kk as = (\<Union>a\<in>set as. recorded kk a)"

lemma write_ahead_append:
  "write_ahead kk S (as @ bs) \<longleftrightarrow> write_ahead kk S as \<and> write_ahead kk (S \<union> seen_in kk as) bs"
  by (induction as arbitrary: S) (auto simp: seen_in_def Un_assoc)

lemma seen_in_append: "seen_in kk (as @ bs) = seen_in kk as \<union> seen_in kk bs"
  by (simp add: seen_in_def)

text \<open>No transaction is signed for a key while an earlier one is unsettled: a write that records a
  new \<open>Sent\<close> never follows directly on a \<open>Sent\<close> or a \<open>Confirmed\<close> of the same key.\<close>

fun last_write :: "string \<Rightarrow> act list \<Rightarrow> task option" where
  "last_write k [] = None"
| "last_write k (a # as) = (case last_write k as of Some t \<Rightarrow> Some t
     | None \<Rightarrow> (case a of APersist k' t \<Rightarrow> (if k' = k then Some t else None) | ABroadcast r \<Rightarrow> None))"

lemma last_write_snoc_persist [simp]: "last_write k (as @ [APersist k' t]) = (if k' = k then Some t else last_write k as)"
  by (induction as) auto

lemma last_write_snoc_broadcast [simp]: "last_write k (as @ [ABroadcast r]) = last_write k as"
  by (induction as) auto

definition may_sign :: "task option \<Rightarrow> bool" where
  "may_sign t = (case t of None \<Rightarrow> True | Some t \<Rightarrow> t_state t \<in> {Ready, Retryable})"

definition no_resign :: "act list \<Rightarrow> bool" where
  "no_resign as \<longleftrightarrow> (\<forall>pre k t post. as = pre @ APersist k t # post \<longrightarrow> t_state t = Sent \<longrightarrow> may_sign (last_write k pre))"

lemma no_resign_snoc: "no_resign (as @ [a]) \<longleftrightarrow> no_resign as \<and>
    (case a of APersist k t \<Rightarrow> t_state t = Sent \<longrightarrow> may_sign (last_write k as) | ABroadcast r \<Rightarrow> True)"
  (is "?l \<longleftrightarrow> no_resign as \<and> ?last")
proof
  assume l: ?l
  have "no_resign as"
    unfolding no_resign_def
  proof (intro allI impI)
    fix pre k t post assume "as = pre @ APersist k t # post" and "t_state t = Sent"
    with l show "may_sign (last_write k pre)"
      unfolding no_resign_def by (metis append.assoc append_Cons)
  qed
  moreover have ?last
    using l unfolding no_resign_def by (cases a) auto
  ultimately show "no_resign as \<and> ?last" ..
next
  assume r: "no_resign as \<and> ?last"
  show ?l
    unfolding no_resign_def
  proof (intro allI impI)
    fix pre k t post assume eq: "as @ [a] = pre @ APersist k t # post" and t: "t_state t = Sent"
    show "may_sign (last_write k pre)"
    proof (cases post rule: rev_cases)
      case Nil
      with eq r t show ?thesis by simp
    next
      case (snoc post' b)
      with eq have "as = pre @ APersist k t # post'" by simp
      with r t show ?thesis unfolding no_resign_def by blast
    qed
  qed
qed

text \<open>The invariant of the sender: the journal is what the trace last wrote, every unsettled task can
  be re-broadcast, and the trace is write-ahead and never re-signs.\<close>

definition tx_inv :: "sender \<Rightarrow> 'r txst \<Rightarrow> bool" where
  "tx_inv c st \<longleftrightarrow> durable (jr st) \<and> tasks_ok (jr st)
     \<and> (\<forall>k. task_of (jr st) k = last_write k (trace st))
     \<and> (\<forall>k t r. task_of (jr st) k = Some t \<longrightarrow> t_state t = Sent \<longrightarrow> t_raw t = Some r \<longrightarrow> r \<in> seen_in (s_keccak c) (trace st))
     \<and> write_ahead (s_keccak c) {} (trace st) \<and> no_resign (trace st)"

lemma trace_persist: "task_of (f (jr st)) k = Some t \<Longrightarrow>
    persist k f st = st\<lparr>jr := f (jr st), trace := trace st @ [APersist k t]\<rparr>"
  by (simp add: persist_def Let_def)

lemma tx_inv_persist:
  assumes t: "\<And>k'. task_of (f (jr st)) k' = (if k' = k then Some t else task_of (jr st) k')"
    and inv: "tx_inv c st" and d: "durable (f (jr st))" and ok: "tasks_ok (f (jr st))"
    and sent: "t_state t = Sent \<Longrightarrow> may_sign (task_of (jr st) k) \<and> t_hash t = map_option (s_keccak c) (t_raw t)"
  shows "tx_inv c (persist k f st)"
proof -
  have tr: "persist k f st = st\<lparr>jr := f (jr st), trace := trace st @ [APersist k t]\<rparr>"
    using t [of k] by (simp add: trace_persist)
  have lw: "task_of (jr st) = (\<lambda>k. last_write k (trace st))"
    using inv by (simp add: tx_inv_def fun_eq_iff)
  have "r \<in> seen_in (s_keccak c) (trace st @ [APersist k t])"
    if "task_of (f (jr st)) k' = Some t'" "t_state t' = Sent" "t_raw t' = Some r" for k' t' r
  proof (cases "k' = k")
    case True
    with that t sent show ?thesis by (auto simp: seen_in_def recorded_def)
  next
    case False
    with that t have "task_of (jr st) k' = Some t'" by simp
    with that inv have "r \<in> seen_in (s_keccak c) (trace st)" by (simp add: tx_inv_def)
    then show ?thesis by (simp add: seen_in_append)
  qed
  moreover have "no_resign (trace st @ [APersist k t])"
    using inv sent lw by (simp add: no_resign_snoc tx_inv_def)
  moreover have "write_ahead (s_keccak c) {} (trace st @ [APersist k t])"
    using inv by (simp add: write_ahead_append tx_inv_def)
  ultimately show ?thesis
    unfolding tr tx_inv_def using d ok t lw by simp
qed

lemma tx_inv_broadcast:
  assumes inv: "tx_inv c st" and "task_of (jr st) k = Some t" "t_state t = Sent" "t_raw t = Some r"
  shows "tx_inv c (broadcast r st)"
proof -
  have "r \<in> seen_in (s_keccak c) (trace st)" using assms by (simp add: tx_inv_def)
  with inv show ?thesis
    by (simp add: tx_inv_def broadcast_def write_ahead_append no_resign_snoc seen_in_append)
qed

lemma tx_inv_parts:
  assumes "tx_inv c st"
  shows "durable (jr st)" and "tasks_ok (jr st)" and "task_of (jr st) k = last_write k (trace st)"
  using assms by (simp_all add: tx_inv_def)

lemma tx_inv_markFailure: "tx_inv c st \<Longrightarrow> tx_inv c (persist k (markFailure now k e q) st)"
  by (rule tx_inv_persist, rule task_of_markFailure) (simp_all add: tx_inv_parts tasks_ok_marks Let_def split: if_splits)

lemma tx_inv_markConfirmed: "tx_inv c st \<Longrightarrow> tx_inv c (persist k (markConfirmed now k h b) st)"
  by (rule tx_inv_persist, rule task_of_markConfirmed) (simp_all add: tx_inv_parts tasks_ok_marks)

lemma tx_inv_reopen: "tx_inv c st \<Longrightarrow> tx_inv c (persist k (reopen now k nt) st)"
  by (rule tx_inv_persist, rule task_of_reopen) (simp_all add: tx_inv_parts tasks_ok_marks)

lemma tx_inv_markSent:
  "tx_inv c st \<Longrightarrow> may_sign (task_of (jr st) k) \<Longrightarrow>
   tx_inv c (persist k (markSent now k (s_keccak c r) n r a m) st)"
  by (rule tx_inv_persist, rule task_of_markSent) (simp_all add: tx_inv_parts tasks_ok_marks)

subsection \<open>Every operation keeps the invariant\<close>

lemma tx_inv_reconcile:
  assumes inv: "tx_inv c st" and t: "task_of (jr st) (t_key t) = Some t" and sent: "t_state t = Sent"
  shows "tx_inv c (snd (reconcile c p now t st))"
proof -
  have "tx_inv c (broadcast r st)" if "t_raw t = Some r" for r
    using t that sent inv by (intro tx_inv_broadcast)
  with inv show ?thesis
    by (auto simp: reconcile_def tx_inv_markFailure tx_inv_markConfirmed split: option.splits sum.splits)
qed

lemma reconcile_other_keys: "k \<noteq> t_key t \<Longrightarrow> task_of (jr (snd (reconcile c p now t st))) k = task_of (jr st) k"
  by (auto simp: reconcile_def persist_def Let_def task_of_marks broadcast_def split: option.splits sum.splits)

lemma tx_inv_reconcile_tasks:
  "tx_inv c st \<Longrightarrow> distinct (map t_key ts) \<Longrightarrow> (\<And>t. t \<in> set ts \<Longrightarrow> task_of (jr st) (t_key t) = Some t \<and> t_state t = Sent)
   \<Longrightarrow> tx_inv c (snd (reconcile_tasks c p now ts st))"
proof (induction ts arbitrary: st)
  case Nil
  then show ?case by simp
next
  case (Cons t ts)
  let ?st1 = "snd (reconcile c p now t st)"
  have inv1: "tx_inv c ?st1" using Cons.prems by (intro tx_inv_reconcile) auto
  have "tx_inv c (snd (reconcile_tasks c p now ts ?st1))"
    using Cons.prems by (intro Cons.IH inv1) (auto simp: reconcile_other_keys image_iff)
  with inv1 show ?case by (auto split: prod.splits sum.splits)
qed

lemma inflight_tasks:
  assumes "tasks_ok j"
  shows "distinct (map t_key (inflight j))"
    and "t \<in> set (inflight j) \<Longrightarrow> task_of j (t_key t) = Some t \<and> t_state t = Sent"
proof -
  have keyed: "t_key t = k" if "(k, t) \<in> set (tasks (mem j))" for k t
    using assms that by (auto simp: tasks_ok_def task_of_def in_object_iff task_ok_def)
  then have eq: "map t_key (map snd (tasks (mem j))) = map fst (tasks (mem j))"
    by (force intro: map_cong)
  have "distinct (map t_key (map snd (tasks (mem j))))"
    unfolding eq using assms by (simp add: tasks_ok_def well_keyed_def)
  then show "distinct (map t_key (inflight j))"
    unfolding inflight_def by (simp add: distinct_map_filter)
  show "task_of j (t_key t) = Some t \<and> t_state t = Sent" if "t \<in> set (inflight j)"
    using that assms keyed by (auto simp: inflight_def tasks_ok_def task_of_def in_object_iff)
qed

lemma tx_inv_reconcileAll:
  assumes "tx_inv c st"
  shows "tx_inv c (snd (reconcileAll c p now st))"
  unfolding reconcileAll_def using assms
proof (rule tx_inv_reconcile_tasks)
  note ok = tx_inv_parts(2) [OF assms]
  show "distinct (map t_key (inflight (jr st)))" using ok by (rule inflight_tasks)
  show "task_of (jr st) (t_key t) = Some t \<and> t_state t = Sent" if "t \<in> set (inflight (jr st))" for t
    using ok that by (rule inflight_tasks)
qed

lemma tx_inv_sign_step:
  assumes "tx_inv c st" and "may_sign (task_of (jr st) (q_key q))" and s: "sign_step c p now q st = Inr (h, r, st1)"
  shows "tx_inv c st1" and "h = s_keccak c r"
    and "\<exists>t. task_of (jr st1) (q_key q) = Some t \<and> t_state t = Sent \<and> t_raw t = Some r"
proof -
  have "h = s_keccak c r \<and> (\<exists>n a m. st1 = persist (q_key q) (markSent now (q_key q) h n r a m) st)"
    using s by (auto simp: sign_step_def Let_def split: sum.splits if_splits option.splits)
  then obtain n a m where h: "h = s_keccak c r"
    and st1: "st1 = persist (q_key q) (markSent now (q_key q) h n r a m) st" by blast
  from h show "h = s_keccak c r" .
  from st1 h assms(1,2) show "tx_inv c st1" by (simp add: tx_inv_markSent)
  from st1 show "\<exists>t. task_of (jr st1) (q_key q) = Some t \<and> t_state t = Sent \<and> t_raw t = Some r"
    by (simp add: persist_def Let_def task_of_marks)
qed

lemma tx_inv_settle: "tx_inv c st \<Longrightarrow> tx_inv c (snd (settle later k h ro st))"
  by (auto simp: settle_def tx_inv_markFailure tx_inv_markConfirmed split: option.splits)

lemma tx_inv_sign_and_send:
  assumes inv: "tx_inv c st" and may: "may_sign (task_of (jr st) (q_key q))"
  shows "tx_inv c (snd (sign_and_send c p now later q st))"
proof (cases "sign_step c p now q st")
  case (Inl s)
  with inv show ?thesis by (cases s) (simp_all add: sign_and_send_def)
next
  case (Inr x)
  then obtain h r st1 where x: "sign_step c p now q st = Inr (h, r, st1)" by (cases x) auto
  note step = tx_inv_sign_step [OF inv may x]
  from step(3) obtain t where t: "task_of (jr st1) (q_key q) = Some t" "t_state t = Sent" "t_raw t = Some r"
    by blast
  have "tx_inv c (broadcast r st1)" by (rule tx_inv_broadcast [OF step(1) t])
  then show ?thesis
    by (auto simp: sign_and_send_def x broadcast_and_wait_def Let_def tx_inv_markFailure
        intro: tx_inv_settle split: sum.splits)
qed

lemma gate_may_sign: "g_go (taskGate t now) \<Longrightarrow> may_sign t"
  by (cases t) (auto simp: may_sign_def split: task_state.splits)

lemma tx_inv_send_new:
  "tx_inv c st \<Longrightarrow> may_sign (task_of (jr st) (q_key q)) \<Longrightarrow> tx_inv c (snd (send_new c p now later q st))"
  by (auto simp: send_new_def Let_def tx_inv_markFailure tx_inv_sign_and_send split: sum.splits)

lemma tx_inv_send:
  assumes inv: "tx_inv c st"
  shows "tx_inv c (snd (send c p now later q st))"
proof (cases "task_of (jr st) (q_key q)")
  case None
  with inv show ?thesis by (simp add: send_def tx_inv_send_new may_sign_def)
next
  case (Some t)
  have key: "t_key t = q_key q"
    using Some inv by (simp add: tx_inv_def tasks_ok_def task_ok_def)
  have new: "g_go (taskGate (Some t) now) \<Longrightarrow> tx_inv c (snd (send_new c p now later q st))"
    using inv gate_may_sign [of "Some t" now] by (intro tx_inv_send_new) (simp_all only: Some)
  have rec: "t_state t = Sent \<Longrightarrow> tx_inv c (snd (reconcile c p now t st))"
    using inv Some key by (intro tx_inv_reconcile) auto
  show ?thesis
  proof (cases "t_state t = Sent")
    case True
    with rec show ?thesis
      by (auto simp: send_def Some split: prod.splits sum.splits)
  next
    case False
    with inv new show ?thesis
      by (cases "t_state t") (auto simp: send_def Some split: option.splits sum.splits)
  qed
qed

lemma tx_inv_restart: "tx_inv c st \<Longrightarrow> tx_inv c (st\<lparr>jr := restart (jr st)\<rparr>)"
proof -
  assume inv: "tx_inv c st"
  then have m: "mem (restart (jr st)) = mem (jr st)" by (simp add: restart_durable tx_inv_parts)
  have "disk (restart (jr st)) = mem (restart (jr st))"
    by (simp add: restart_def open_journal_def Let_def)
  with inv m show ?thesis by (simp add: tx_inv_def tasks_ok_def task_of_def durable_def)
qed

lemma tx_inv_setRecord: "tx_inv c st \<Longrightarrow> tx_inv c (st\<lparr>jr := setRecord now ns i patch (jr st)\<rparr>)"
  by (simp add: tx_inv_def tasks_ok_records) (simp add: setRecord_def)

lemma tx_reach_inv: "tx_reach c st \<Longrightarrow> tx_inv c st"
proof (induction rule: tx_reach.induct)
  case start
  show ?case by (simp add: tx_inv_def no_resign_def) (simp add: task_of_def open_journal_def Let_def)
next
  case (crash st q now p h r st1)
  then show ?case by (blast intro: tx_inv_restart tx_inv_sign_step gate_may_sign)
qed (simp_all add: tx_inv_send tx_inv_reconcileAll tx_inv_restart tx_inv_setRecord tx_inv_reopen)

subsection \<open>A concrete sender and network, for the witnesses\<close>

definition demo_wallet :: wallet where
  "demo_wallet = \<lparr>w_address = ''0xkeeper'', w_sign = (\<lambda>x. replicate (nat (x_nonce x) + 1) (CHR ''s''))\<rparr>"

definition demo_sender :: "bool \<Rightarrow> sender" where
  "demo_sender ex = \<lparr>s_wallet = Some demo_wallet, s_keccak = (\<lambda>r. ''h'' @ r), s_chainId = 5042, s_execute = ex,
     s_gasMultiplierBps = 13000, s_giveUpMs = 900000, s_cap = None\<rparr>"

text \<open>\<open>mined = None\<close>: nothing is ever mined, and the wait times out.\<close>

definition demo_provider :: "receipt option \<Rightarrow> int \<Rightarrow> provider" where
  "demo_provider mined n = \<lparr>p_receipt = (\<lambda>h. Inr mined), p_latest = (\<lambda>a. Inr 7), p_pending = (\<lambda>a. Inr n),
     p_call = (\<lambda>to d v f. Inr ()), p_fee = Inr \<lparr>maxFeePerGas = Some 2, maxPriorityFeePerGas = Some 1, gasPrice = None\<rparr>,
     p_estimate = (\<lambda>to d v f. Inr 100000), p_broadcast = (\<lambda>r. Inr ()), p_wait = (\<lambda>h. WaitThrow ''TIMEOUT'' ''timeout'')\<rparr>"

definition demo_request :: request where
  "demo_request = \<lparr>q_key = ''seal'', q_to = ''0xm'', q_data = ''d'', q_value = 0, q_gasLimit = None, q_label = ''seal'', q_from = None\<rparr>"

definition demo_start :: "nat txst" where
  "demo_start = \<lparr>jr = open_journal None, trace = []\<rparr>"

lemmas demo_defs = demo_wallet_def demo_sender_def demo_provider_def demo_request_def demo_start_def
lemmas send_defs = send_def send_new_def sign_and_send_def sign_step_def broadcast_and_wait_def await_receipt_def
  settle_def limit_of_def above_cap_def fee_fields_of_def s_from_def result_of_def Let_def persist_def broadcast_def

lemma demo_start_reach: "tx_reach c demo_start"
  by (simp add: demo_start_def tx_reach.start)

lemma demo_task_None [simp]: "task_of (open_journal None) k = None"
  by (simp add: task_of_def open_journal_def Let_def)

definition demo_sent :: "nat txst" where
  "demo_sent = snd (send (demo_sender True) (demo_provider None 7) 0 0 demo_request demo_start)"

lemma demo_sent_reach: "tx_reach (demo_sender True) demo_sent"
  unfolding demo_sent_def by (rule tx_reach.send [OF demo_start_reach])

definition demo_task :: task where
  "demo_task = (new_task 0 ''seal'')\<lparr>t_state := Sent, t_hash := Some ''hssssssss'', t_nonce := Some 7, t_raw := Some ''ssssssss'',
     t_sender := Some ''0xkeeper'', t_meta := Some (''seal'', ''0xm''), t_sentAt := Some 0\<rparr>"

lemma demo_sent_eq: "trace demo_sent = [APersist ''seal'' demo_task, ABroadcast ''ssssssss'']"
  "task_of (jr demo_sent) ''seal'' = Some demo_task"
  by (simp_all add: demo_sent_def demo_defs send_defs task_of_marks old_task_def demo_task_def new_task_def
      eval_nat_numeral)

subsection \<open>Guarantees\<close>

text \<open>C2. Write-ahead: whatever the network answers and wherever the process crashes, every transaction
  the sender ever broadcasts had its key, hash and signed bytes durably journaled as \<open>Sent\<close> before.\<close>

theorem tx_broadcast_recorded:
  assumes "tx_reach c st" and tr: "trace st = pre @ ABroadcast r # post"
  shows "\<exists>k t. APersist k t \<in> set pre \<and> t_state t = Sent \<and> t_raw t = Some r \<and> t_hash t = Some (s_keccak c r)"
proof -
  have "write_ahead (s_keccak c) {} (trace st)"
    using tx_reach_inv [OF assms(1)] by (simp add: tx_inv_def)
  then have "r \<in> seen_in (s_keccak c) pre" by (simp add: tr write_ahead_append)
  then obtain a where a: "a \<in> set pre" "r \<in> recorded (s_keccak c) a" by (auto simp: seen_in_def)
  from a(2) obtain k t where "a = APersist k t" and "t_state t = Sent \<and> t_raw t = Some r \<and> t_hash t = Some (s_keccak c r)"
    by (cases a rule: act.exhaust) (auto simp: recorded_def split: option.splits if_splits)
  with a(1) show ?thesis by blast
qed

theorem tx_broadcast_recorded_witness:
  "\<exists>k t. APersist k t \<in> set [APersist ''seal'' demo_task] \<and> t_state t = Sent \<and> t_raw t = Some ''ssssssss''
     \<and> t_hash t = Some (s_keccak (demo_sender True) ''ssssssss'')"
  by (rule tx_broadcast_recorded [OF demo_sent_reach, of _ _ "[]"]) (simp add: demo_sent_eq)



text \<open>A dry run has no effect: with \<open>execute\<close> off and no transaction in flight for the key, a send
  changes neither the journal nor the network, whatever the provider answers.\<close>

theorem dry_run_pure:
  assumes "\<not> s_execute c" and "\<And>t. task_of (jr st) (q_key q) = Some t \<Longrightarrow> t_state t \<noteq> Sent"
  shows "snd (send c p now later q st) = st"
proof -
  have new: "snd (send_new c p now later q st) = st"
    using assms(1) by (simp add: send_new_def Let_def split: sum.splits)
  show ?thesis
  proof (cases "task_of (jr st) (q_key q)")
    case None
    with new show ?thesis by (simp add: send_def)
  next
    case (Some t)
    with assms(2) new show ?thesis
      by (cases "t_state t") (auto simp: send_def split: option.splits sum.splits)
  qed
qed

theorem dry_run_pure_witness:
  "snd (send (demo_sender False) (demo_provider None 7) 0 0 demo_request demo_start) = demo_start"
  by (rule dry_run_pure) (simp_all add: demo_defs)

lemma settle_confirmed:
  "fst (settle later k h ro st) = Inr res \<Longrightarrow> sr_status res = StConfirmed \<Longrightarrow>
   (\<exists>rc. sr_rcpt res = Some rc \<and> r_status rc = 1)
   \<and> (\<exists>t. task_of (jr (snd (settle later k h ro st))) k = Some t \<and> t_state t = Confirmed)"
  by (auto simp: settle_def result_of_def persist_def Let_def task_of_marks split: option.splits if_splits)

lemma sign_and_send_confirmed:
  assumes "fst (sign_and_send c p now later q st) = Inr res" and "sr_status res = StConfirmed"
  shows "(\<exists>rc. sr_rcpt res = Some rc \<and> r_status rc = 1)
   \<and> (\<exists>t. task_of (jr (snd (sign_and_send c p now later q st))) (q_key q) = Some t \<and> t_state t = Confirmed)"
proof (cases "sign_step c p now q st")
  case (Inl x)
  with assms show ?thesis by (cases x) (auto simp: sign_and_send_def result_of_def)
next
  case (Inr x)
  obtain h r st1 where x: "x = (h, r, st1)" by (cases x) auto
  have eq: "sign_and_send c p now later q st = broadcast_and_wait p now later (q_key q) h r st1"
    by (simp add: sign_and_send_def Inr x)
  show ?thesis
  proof (cases "p_broadcast p r")
    case (Inl e)
    with assms show ?thesis
      by (auto simp: eq broadcast_and_wait_def Let_def result_of_def split: if_splits)
  next
    case b: (Inr u)
    show ?thesis
    proof (cases "await_receipt p h")
      case (Inl e)
      with assms b show ?thesis by (simp add: eq broadcast_and_wait_def Let_def)
    next
      case (Inr ro)
      with b have "sign_and_send c p now later q st = settle later (q_key q) h ro (broadcast r st1)"
        by (simp add: eq broadcast_and_wait_def Let_def)
      with assms settle_confirmed show ?thesis by simp
    qed
  qed
qed



text \<open>Settled and waiting tasks are left alone: a confirmed or quarantined task, or one whose backoff
  has not run out, is neither simulated, signed nor written again.\<close>

theorem tx_gate_closed:
  assumes "task_of (jr st) (q_key q) = Some t"
    and "t_state t \<in> {Confirmed, Quarantined} \<or> (t_state t = Retryable \<and> (\<exists>n. t_nextAttemptAt t = Some n \<and> now < n))"
  shows "snd (send c p now later q st) = st \<and> (case fst (send c p now later q st) of
      Inl e \<Rightarrow> t_state t = Confirmed
    | Inr res \<Rightarrow> sr_status res \<in> (case t_state t of Confirmed \<Rightarrow> {StConfirmed, StInflight}
          | Quarantined \<Rightarrow> {StQuarantined} | _ \<Rightarrow> {StBackoff}))"
proof -
  consider "t_state t = Confirmed" | "t_state t = Quarantined"
    | n where "t_state t = Retryable" "t_nextAttemptAt t = Some n" "now < n"
    using assms(2) by auto
  then show ?thesis
  proof cases
    case 1
    then show ?thesis
      by (simp add: send_def assms(1) result_of_def Let_def split: option.split sum.split)
  qed (simp_all add: send_def assms(1) result_of_def)
qed

theorem tx_gate_closed_witness:
  "snd (send (demo_sender True) (demo_provider None 7) 14999 15000 demo_request
      \<lparr>jr = markFailure 0 ''seal'' ''e'' False (open_journal None), trace = []\<rparr>)
   = (\<lparr>jr = markFailure 0 ''seal'' ''e'' False (open_journal None), trace = []\<rparr> :: nat txst)"
proof -
  let ?st = "\<lparr>jr = markFailure 0 ''seal'' ''e'' False (open_journal None), trace = []\<rparr> :: nat txst"
  obtain t where t: "task_of (jr ?st) ''seal'' = Some t" "t_state t = Retryable" "t_nextAttemptAt t = Some 15000"
    by (simp add: task_of_marks Let_def old_task_def new_task_def MAX_ATTEMPTS_def backoff_values)
  show ?thesis
    using tx_gate_closed [of ?st demo_request t 14999 "demo_sender True" "demo_provider None 7" 15000] t
    by (simp add: demo_request_def)
qed

text \<open>Giving up is not a proof: a transaction that is still pending after \<open>giveUpMs\<close> (no receipt, its
  nonce unused) is journaled as failed, and once the backoff is over a send signs and broadcasts a
  second transaction for the same key although the first may still be mined. The header comment of
  \<open>tx.mjs\<close> promises the opposite ("Nothing is re-signed for a key whose earlier tx might still land").\<close>

theorem tx_giveup_reopens:
  assumes "t_state t = Sent" and "t_hash t = Some h" and "t_sender t = Some a" and "t_nonce t = Some n"
    and "task_of (jr st) (t_key t) = Some t" and "t_attempts t + 1 < MAX_ATTEMPTS"
    and "p_receipt p h = Inr None" and "p_latest p a = Inr latest" and "latest \<le> n"
    and "s_giveUpMs c < now - (case t_sentAt t of Some s \<Rightarrow> s | None \<Rightarrow> 0)"
    and "now + backoff (t_attempts t + 1) \<le> now'"
  shows "let st1 = snd (reconcile c p now t st)
     in g_go (taskGate (task_of (jr st1) (t_key t)) now') \<and> trace st1 = trace st @ [APersist (t_key t) (the (task_of (jr st1) (t_key t)))]"
  using assms by (simp add: reconcile_def persist_def Let_def task_of_marks old_task_def)

theorem tx_giveup_reopens_witness:
  "\<exists>r1 r2. r1 \<noteq> r2 \<and> (let st1 = snd (reconcile (demo_sender True) (demo_provider None 8) 900001 demo_task demo_sent);
        st2 = snd (send (demo_sender True) (demo_provider None 8) 915001 915002 demo_request st1)
     in g_go (taskGate (task_of (jr st1) ''seal'') 915001) \<and> ABroadcast r1 \<in> set (trace st2) \<and> ABroadcast r2 \<in> set (trace st2))"
proof -
  let ?st1 = "snd (reconcile (demo_sender True) (demo_provider None 8) 900001 demo_task demo_sent)"
  have key: "t_key demo_task = ''seal''" by (simp add: demo_task_def new_task_def)
  have "backoff 1 = 15000" by (simp add: backoff_values)
  then have st1: "g_go (taskGate (task_of (jr ?st1) ''seal'') 915001)"
    "trace ?st1 = trace demo_sent @ [APersist ''seal'' (the (task_of (jr ?st1) ''seal''))]"
    using tx_giveup_reopens [of demo_task "''hssssssss''" "''0xkeeper''" 7 demo_sent "demo_provider None 8" 7 "demo_sender True" 900001 915001]
    by (simp_all add: key demo_sent_eq Let_def)
      (simp_all add: demo_task_def new_task_def demo_defs MAX_ATTEMPTS_def)
  let ?st2 = "snd (send (demo_sender True) (demo_provider None 8) 915001 915002 demo_request ?st1)"
  obtain t where t: "task_of (jr ?st1) ''seal'' = Some t" "t_state t = Retryable" "t_nextAttemptAt t = Some 915001"
    by (simp add: reconcile_def demo_task_def new_task_def demo_defs persist_def Let_def task_of_marks
        old_task_def demo_sent_eq backoff_values MAX_ATTEMPTS_def)
  have tm: "matches_any [''timeout''] ''timeout''" by code_simp
  have "trace ?st2 = trace ?st1 @ [APersist ''seal'' (the (task_of (jr ?st2) ''seal'')), ABroadcast ''sssssssss'']"
    using t by (simp add: send_defs demo_request_def demo_sender_def demo_provider_def demo_wallet_def task_of_marks eval_nat_numeral)
  with st1(2) have "ABroadcast ''sssssssss'' \<in> set (trace ?st2)" "ABroadcast ''ssssssss'' \<in> set (trace ?st2)"
    by (simp_all add: demo_sent_eq)
  with st1(1) show ?thesis unfolding Let_def by (intro exI [of _ "''ssssssss''"] exI [of _ "''sssssssss''"]) simp
qed

end
