(* ===== verification/Round_Decide.thy ===== *)
theory Round_Decide
  imports Keeper_Prelude "HOL-Library.Countable"
begin

section \<open>Round decisions (\<open>keepers/v3/round/decide.mjs\<close>)\<close>

text \<open>
  The pure rules of the reward-round keeper: which epochs may be sealed, whether a batch is
  admitted, how a queue above the run limit is split into rounds, the minimum output and the
  cost plan signed into the stock quote, and the next step of one on-chain round. The last part
  states the guards of \<open>RewardRoundManager.sol\<close> that those steps must meet.
\<close>

subsection \<open>Constants\<close>

definition ROUND_MIN_BASE :: int where "ROUND_MIN_BASE = 100 * E18"
definition ROUND_MAX :: int where "ROUND_MAX = 10000 * E18"
definition MAX_BATCH_ENTRIES :: int where "MAX_BATCH_ENTRIES = 64"
definition CANCEL_MIN_AGE :: int where "CANCEL_MIN_AGE = 30 * 60"
definition ORACLE_FLOOR_BPS :: int where "ORACLE_FLOOR_BPS = 100"

lemmas round_constants = E18_def DAY_def ROUND_MIN_BASE_def ROUND_MAX_def MAX_BATCH_ENTRIES_def
  CANCEL_MIN_AGE_def USDC_GRID_def ORACLE_FLOOR_BPS_def

subsection \<open>Round status\<close>

datatype round_status = NoRound | Reserved | Funding | Funded | Submitted | Settled | QuarantinedRound
  | Refunded | CancelledUnsent | OtherStatus int

definition status_of :: "int \<Rightarrow> round_status" where
  "status_of n = (if n = 0 then NoRound else if n = 1 then Reserved else if n = 2 then Funding
     else if n = 3 then Funded else if n = 4 then Submitted else if n = 5 then Settled
     else if n = 6 then QuarantinedRound else if n = 7 then Refunded else if n = 8 then CancelledUnsent
     else OtherStatus n)"

definition TERMINAL :: "round_status list" where
  "TERMINAL = [Settled, CancelledUnsent]"

definition ACTIVE :: "round_status list" where
  "ACTIVE = [Reserved, Funding, Funded, Submitted, QuarantinedRound]"

subsection \<open>Sealing and batch admission\<close>

definition minimumBudget :: "int \<Rightarrow> int" where
  "minimumBudget fixedCost18 = (if fixedCost18 > bdiv E18 2 then fixedCost18 * 200 else ROUND_MIN_BASE)"

record epoch_view =
  v_budget :: int
  v_sealed :: bool
  v_nextRoundAt :: "int option"
  v_nowSec :: int

text \<open>The loop \<open>for (epoch = from; epoch < today; epoch++)\<close> with its \<open>continue\<close>s.\<close>

definition sealable :: "epoch_view option \<Rightarrow> bool" where
  "sealable vo = (case vo of None \<Rightarrow> False
     | Some v \<Rightarrow> \<not> (v_sealed v \<or> v_budget v = 0)
         \<and> \<not> (case v_nextRoundAt v of Some n \<Rightarrow> v_nowSec v < n | None \<Rightarrow> False))"

definition sealableEpochs :: "int \<Rightarrow> int option \<Rightarrow> int \<Rightarrow> (int \<Rightarrow> epoch_view option) \<Rightarrow> int list" where
  "sealableEpochs today firstEpoch lookback views =
     (let frm = max (case firstEpoch of Some f \<Rightarrow> f | None \<Rightarrow> 0) (today - lookback)
      in filter (\<lambda>e. sealable (views e)) [frm..today - 1])"

datatype defer_reason = Pending | EmptyBatch | InvalidPreview | CostLimit | BelowMinimum | MarketClosed

datatype plan = Defer defer_reason | Execute "int list" "int list" int

definition planBatch :: "int list \<Rightarrow> int list \<Rightarrow> int \<Rightarrow> int \<Rightarrow> int \<Rightarrow> int \<Rightarrow> bool \<Rightarrow> int \<Rightarrow> plan" where
  "planBatch ids budgets tot minimum activeRounds maxActiveRounds marketOpen runLimit =
     (if activeRounds \<ge> maxActiveRounds then Defer Pending
      else if ids = [] then Defer EmptyBatch
      else if int (length ids) > MAX_BATCH_ENTRIES \<or> length ids \<noteq> length budgets then Defer InvalidPreview
      else if minimum > runLimit then Defer CostLimit
      else if tot < minimum then Defer BelowMinimum
      else if tot > runLimit then Defer InvalidPreview
      else if \<not> marketOpen then Defer MarketClosed
      else Execute ids budgets tot)"

subsection \<open>Order identity\<close>

text \<open>\<open>keccak256\<close> and the ABI encoder are ethers': parameters.\<close>

record entry =
  e_source :: string
  e_pool :: string
  e_epoch :: int
  e_cohort :: int
  e_budget18 :: int
  e_creditTotal :: int
  e_allocationId :: string
  e_assetId :: string
  e_adapterVersion :: int
  e_pricePolicy :: string
  e_eligibilityMode :: int

type_synonym entry_tuple = "string \<times> string \<times> int \<times> int \<times> int \<times> int \<times> string \<times> string \<times> int \<times> string \<times> int"

definition entryTuple :: "entry \<Rightarrow> entry_tuple" where
  "entryTuple e = (e_source e, e_pool e, e_epoch e, e_cohort e, e_budget18 e, e_creditTotal e, e_allocationId e,
     e_assetId e, e_adapterVersion e, e_pricePolicy e, e_eligibilityMode e)"

definition ZERO_HASH :: string where
  "ZERO_HASH = ''0x'' @ replicate 64 (CHR ''0'')"

text \<open>Encoding \<open>amounts[i]\<close> when it is missing throws.\<close>

fun entries_hash_from :: "(string \<Rightarrow> string) \<Rightarrow> (string \<Rightarrow> entry_tuple \<Rightarrow> int \<Rightarrow> string) \<Rightarrow> string \<Rightarrow> entry list \<Rightarrow> int list \<Rightarrow> string result" where
  "entries_hash_from kk enc h [] amounts = Inr h"
| "entries_hash_from kk enc h (e # es) [] = Inl ''invalid BigNumberish value''"
| "entries_hash_from kk enc h (e # es) (a # as) = entries_hash_from kk enc (kk (enc h (entryTuple e) a)) es as"

definition entriesHash :: "(string \<Rightarrow> string) \<Rightarrow> (string \<Rightarrow> entry_tuple \<Rightarrow> int \<Rightarrow> string) \<Rightarrow> entry list \<Rightarrow> int list \<Rightarrow> string result" where
  "entriesHash kk enc entries amounts = entries_hash_from kk enc ZERO_HASH entries amounts"

definition orderIdFor :: "(string \<Rightarrow> string) \<Rightarrow> (int \<times> string \<times> string \<times> int \<times> int \<times> int \<Rightarrow> string) \<Rightarrow>
    int \<Rightarrow> string \<Rightarrow> string \<Rightarrow> int \<Rightarrow> int \<Rightarrow> int \<Rightarrow> string" where
  "orderIdFor kk enc chainId manager h minRaw deadline sourceNonce = kk (enc (chainId, manager, h, minRaw, deadline, sourceNonce))"

subsection \<open>Round size\<close>

definition alignBudget18 :: "int \<Rightarrow> int" where
  "alignBudget18 tot = tot - bmod tot USDC_GRID"

definition roundCap :: "int \<Rightarrow> int \<Rightarrow> int \<Rightarrow> int" where
  "roundCap queued runLimit minimum =
     (let cap = alignBudget18 runLimit in
      if cap = 0 \<or> queued \<le> cap then cap
      else let n = bdiv (queued + cap - 1) cap;
               even = alignBudget18 (bdiv (queued + n - 1) n + USDC_GRID - 1)
           in if even > cap then cap
              else let lst = alignBudget18 queued - (n - 1) * even
                   in if even < minimum \<or> lst < minimum then cap else even)"

subsection \<open>Minimum output and costs\<close>

definition oracleFloorRaw :: "int \<Rightarrow> int" where
  "oracleFloorRaw rawFor = bdiv (rawFor * (10000 - ORACLE_FLOOR_BPS) + 9999) 10000"

definition minRawOut :: "int \<Rightarrow> int \<Rightarrow> nat \<Rightarrow> int \<Rightarrow> int option \<Rightarrow> int result" where
  "minRawOut budget price decimals slippageBps floorRaw =
     (if price \<le> 0 then Inl ''no price''
      else let raw = bdiv (budget * 10 ^ decimals) price;
               mn = bdiv (raw * (10000 - slippageBps) + 9999) 10000;
               flr = oracleFloorRaw (case floorRaw of Some f \<Rightarrow> f | None \<Rightarrow> raw);
               mn2 = (if mn < flr then flr else mn)
           in if mn2 = 0 then Inl ''minRaw rounds to zero'' else Inr mn2)"

record round_costs =
  rc_fees18 :: int
  rc_fixedCost18 :: int
  rc_hubFee18 :: int
  rc_relayFee18 :: int
  rc_lzFee18 :: int

definition planRoundCosts :: "int \<Rightarrow> int \<Rightarrow> int \<Rightarrow> int \<Rightarrow> int \<Rightarrow> int \<Rightarrow> string \<Rightarrow> round_costs result" where
  "planRoundCosts budget relayFee lzFee hubFeeBps lzBufferBps extraFixed costBasis =
     (if costBasis \<noteq> ''external'' \<and> costBasis \<noteq> ''all'' then Inl (''costBasis '' @ costBasis @ '' (external | all)'')
      else let hubFee = bdiv (budget * hubFeeBps) 10000;
               lz = bdiv (lzFee * (10000 + lzBufferBps) + 9999) 10000;
               ext = relayFee + lz
           in Inr \<lparr>rc_fees18 = hubFee + ext, rc_fixedCost18 = ext + extraFixed + (if costBasis = ''all'' then hubFee else 0),
                   rc_hubFee18 = hubFee, rc_relayFee18 = relayFee, rc_lzFee18 = lz\<rparr>)"

datatype quote_check = QuoteOk | QuoteBad string

definition checkAdapterQuote :: "int \<Rightarrow> int \<Rightarrow> int \<Rightarrow> quote_check" where
  "checkAdapterQuote budget fixedCost runLimit =
     (if budget < ROUND_MIN_BASE \<or> budget > runLimit then QuoteBad ''budget outside adapter band''
      else if fixedCost > bdiv budget 200 then QuoteBad ''CostLimit''
      else QuoteOk)"

subsection \<open>The next step of one round\<close>

record round =
  rd_status :: int
  rd_deadline :: int
  rd_submittedAt :: int
  rd_cancelRequested :: bool

record probe =
  pr_status :: int
  pr_raw :: int
  pr_refund :: int

record round_ctx =
  cx_now :: int
  cx_funded :: bool
  cx_dispatched :: bool
  cx_dispatchedAt :: int
  cx_result :: "probe option"
  cx_orphanConsumed :: bool
  cx_fundingAlertSec :: int
  cx_quarantineAfterSec :: int
  cx_cancelAfterSec :: "int option"

datatype alert_level = QuarantineWatch | Quarantine

datatype round_action = CancelUnsent | Start | Finalize | Poke | DispatchFunding | Submit | RequestCancel
  | AlertRound alert_level int | Wait | Done

text \<open>The \<open>reason\<close> texts of a step go to logs and alert messages only and are left out; \<open>AlertRound\<close> keeps
  the level and the \<open>since\<close> the message is computed from.\<close>

definition result_is :: "int \<Rightarrow> round_ctx \<Rightarrow> bool" where
  "result_is n cx = (case cx_result cx of Some r \<Rightarrow> pr_status r = n | None \<Rightarrow> False)"

fun nextRoundAction :: "round \<Rightarrow> round_ctx \<Rightarrow> round_action" where
  "nextRoundAction r cx = (let s = status_of (rd_status r); now = cx_now cx; sub = rd_submittedAt r in
     case s of
       Reserved \<Rightarrow> (if now > rd_deadline r then CancelUnsent else Start)
     | Funding \<Rightarrow>
         (if result_is 2 cx then Finalize
          else if cx_funded cx then Poke
          else if \<not> cx_dispatched cx then DispatchFunding
          else if now - cx_dispatchedAt cx > cx_fundingAlertSec cx then AlertRound QuarantineWatch (cx_dispatchedAt cx)
          else Wait)
     | Funded \<Rightarrow> (if result_is 2 cx then Finalize else Submit)
     | Refunded \<Rightarrow> (if \<not> cx_orphanConsumed cx \<and> result_is 1 cx then Finalize else Done)
     | Settled \<Rightarrow> Done
     | CancelledUnsent \<Rightarrow> Done
     | NoRound \<Rightarrow> Wait
     | OtherStatus n \<Rightarrow> Wait
     | _ \<Rightarrow>
         (if s = QuarantinedRound \<and> sub = 0 then
            (if cx_funded cx then Poke else if result_is 2 cx then Finalize else Wait)
          else if result_is 1 cx \<or> result_is 2 cx then Finalize
          else if (case cx_cancelAfterSec cx of None \<Rightarrow> False
                   | Some c \<Rightarrow> \<not> rd_cancelRequested r \<and> now \<ge> sub + max CANCEL_MIN_AGE c) then RequestCancel
          else if now - sub > cx_quarantineAfterSec cx then AlertRound Quarantine sub
          else Wait))"

declare nextRoundAction.simps [simp del]

subsection \<open>Advancing the head of a group\<close>

function advance_count :: "'i list \<Rightarrow> ('i \<Rightarrow> bool) \<Rightarrow> nat \<Rightarrow> int \<Rightarrow> int" where
  "advance_count groupIds isSkippable i n =
     (if i < length groupIds \<and> n < MAX_BATCH_ENTRIES \<and> isSkippable (groupIds ! i)
      then advance_count groupIds isSkippable (Suc i) (n + 1) else n)"
  by pat_completeness auto
termination
  by (relation "measure (\<lambda>(g, s, i, n). length g - i)") auto

declare advance_count.simps [simp del]

definition shouldAdvance :: "'i list \<Rightarrow> nat \<Rightarrow> ('i \<Rightarrow> bool) \<Rightarrow> int \<Rightarrow> int" where
  "shouldAdvance groupIds cursor isSkippable threshold =
     (let n = advance_count groupIds isSkippable cursor 0
      in if n \<ge> threshold then min n MAX_BATCH_ENTRIES else 0)"

subsection \<open>Sealing\<close>

text \<open>The epochs offered for sealing are exactly the finished days inside the look-back window, not
  before the source's first day, whose view is known, unsealed, non-empty and past its next-round
  time; they come in ascending order without repetition.\<close>

theorem sealableEpochs_spec:
  "set (sealableEpochs today firstEpoch lookback views) =
     {e. e < today \<and> today - lookback \<le> e \<and> (case firstEpoch of Some f \<Rightarrow> f | None \<Rightarrow> 0) \<le> e
       \<and> (\<exists>v. views e = Some v \<and> \<not> v_sealed v \<and> v_budget v \<noteq> 0
            \<and> (case v_nextRoundAt v of Some n \<Rightarrow> n \<le> v_nowSec v | None \<Rightarrow> True))}
   \<and> sorted (sealableEpochs today firstEpoch lookback views) \<and> distinct (sealableEpochs today firstEpoch lookback views)"
  by (auto simp: sealableEpochs_def Let_def sealable_def sorted_wrt_filter not_less split: option.splits)

subsection \<open>Admission\<close>

text \<open>A batch is executed only when every rule of \<open>RewardRoundManager.reserveBatch\<close> the keeper can
  see holds: a free round slot, between 1 and 64 entries with one amount each, and a total between
  the entries' minimum and the live run limit, with the market open; it is executed unchanged.\<close>

theorem planBatch_admits_iff:
  "planBatch ids budgets tot minimum active maxActive open1 runLimit = Execute ids' budgets' tot' \<longleftrightarrow>
     active < maxActive \<and> 1 \<le> length ids \<and> length ids \<le> 64 \<and> length budgets = length ids
     \<and> minimum \<le> tot \<and> tot \<le> runLimit \<and> open1 \<and> ids' = ids \<and> budgets' = budgets \<and> tot' = tot"
proof -
  have "1 \<le> length ids \<longleftrightarrow> ids \<noteq> []" by (cases ids) auto
  then show ?thesis by (auto simp: planBatch_def MAX_BATCH_ENTRIES_def)
qed

lemma minimumBudget_cost: "0 \<le> c \<Longrightarrow> 200 * c \<le> minimumBudget c \<and> ROUND_MIN_BASE \<le> minimumBudget c"
  by (simp add: minimumBudget_def bdiv_nonneg round_constants)

text \<open>The minimum budget makes the adapter's cost cap hold: any total of at least the minimum for a
  fixed cost keeps that cost within half a percent (\<open>budget / 200\<close>), so a batch the planner admits
  under the run limit passes the adapter's own check of the same fixed cost.\<close>

theorem minimum_implies_adapter_ok:
  assumes "0 \<le> cost"
    and "planBatch ids budgets tot (minimumBudget cost) active maxActive open1 runLimit = Execute ids budgets tot"
  shows "checkAdapterQuote tot cost runLimit = QuoteOk"
proof -
  from assms(2) have tot: "minimumBudget cost \<le> tot" "tot \<le> runLimit" by (simp_all add: planBatch_admits_iff)
  with minimumBudget_cost [OF assms(1)] have "ROUND_MIN_BASE \<le> tot" "200 * cost \<le> tot" by linarith+
  moreover from this have "cost \<le> bdiv tot 200"
    using assms(1) by (simp add: bdiv_nonneg)
  ultimately show ?thesis using tot by (simp add: checkAdapterQuote_def)
qed

theorem minimum_implies_adapter_ok_witness:
  "checkAdapterQuote (150 * E18) (7 * 10 ^ 17) ROUND_MAX = QuoteOk"
  by (rule minimum_implies_adapter_ok [of _ "[1]" "[150 * E18]" _ 0 1 True])
    (simp_all add: planBatch_def minimumBudget_def bdiv_nonneg round_constants)

subsection \<open>Order identity\<close>

lemma foldl_hash_inj:
  assumes "\<And>h x h' y. f h x = f h' y \<Longrightarrow> h = h' \<and> g x = g y" and "\<And>h x. f h x \<noteq> h0"
  shows "foldl f h0 xs = foldl f h0 ys \<Longrightarrow> map g xs = map g ys"
proof (induction xs arbitrary: ys rule: rev_induct)
  case Nil
  with assms(2) [symmetric] show ?case by (cases ys rule: rev_cases) simp_all
next
  case (snoc x xs)
  show ?case
  proof (cases ys rule: rev_cases)
    case Nil
    with snoc.prems assms(2) show ?thesis by simp
  next
    case ys: (snoc ys' y)
    with snoc.prems have "f (foldl f h0 xs) x = f (foldl f h0 ys') y" by simp
    then have "foldl f h0 xs = foldl f h0 ys'" and "g x = g y" by (auto dest: assms(1))
    with snoc.IH ys show ?thesis by simp
  qed
qed

lemma entries_hash_foldl:
  "length as = length es \<Longrightarrow> entries_hash_from kk enc h es as =
     Inr (foldl (\<lambda>h (e, a). kk (enc h (entryTuple e) a)) h (zip es as))"
  by (induction kk enc h es as rule: entries_hash_from.induct) auto

lemma zip_tuples:
  "length as = length es \<Longrightarrow> map fst (map (\<lambda>(e, a). (entryTuple e, a)) (zip es as)) = map entryTuple es"
  "length as = length es \<Longrightarrow> map snd (map (\<lambda>(e, a). (entryTuple e, a)) (zip es as)) = as"
  by (induction as es rule: list_induct2) simp_all

text \<open>The entries hash commits to the whole slice list: for a hash without collisions that never
  yields the zero word, and an injective encoder, equal entries hashes of two batches mean the same
  entries with the same amounts in the same order (also for batches of different sizes).\<close>

theorem entriesHash_binds:
  assumes kk: "inj kk" and zero: "ZERO_HASH \<notin> range kk"
    and enc: "\<And>h e a h' e' a'. enc h e a = enc h' e' a' \<Longrightarrow> h = h' \<and> e = e' \<and> a = a'"
    and len: "length as = length es" "length as' = length es'"
    and eq: "entriesHash kk enc es as = entriesHash kk enc es' as'"
  shows "map entryTuple es = map entryTuple es' \<and> as = as'"
proof -
  let ?f = "\<lambda>h (e, a). kk (enc h (entryTuple e) a)"
  have "foldl ?f ZERO_HASH (zip es as) = foldl ?f ZERO_HASH (zip es' as')"
    using eq len by (simp add: entriesHash_def entries_hash_foldl)
  then have m: "map (\<lambda>(e, a). (entryTuple e, a)) (zip es as) = map (\<lambda>(e, a). (entryTuple e, a)) (zip es' as')"
  proof (rule foldl_hash_inj [rotated -1])
    have "kk x \<noteq> ZERO_HASH" for x using zero by (metis rangeI)
    then show "?f h x \<noteq> ZERO_HASH" for h x by (simp add: split_def)
    show "h = h' \<and> (\<lambda>(e, a). (entryTuple e, a)) x = (\<lambda>(e, a). (entryTuple e, a)) y" if "?f h x = ?f h' y" for h x h' y
      using that by (auto simp: split_def dest!: injD [OF kk] enc)
  qed
  from arg_cong [OF m, of "map fst"] arg_cong [OF m, of "map snd"] len
  show ?thesis by (simp only: zip_tuples)
qed

definition demo_encode :: "string \<Rightarrow> entry_tuple \<Rightarrow> int \<Rightarrow> string" where
  "demo_encode h e a = replicate (to_nat (h, e, a)) (CHR ''x'')"

lemma demo_encode_inj: "demo_encode h e a = demo_encode h' e' a' \<Longrightarrow> h = h' \<and> e = e' \<and> a = a'"
  unfolding demo_encode_def by (drule arg_cong [where f = length]) simp

definition demo_entry :: "int \<Rightarrow> entry" where
  "demo_entry n = \<lparr>e_source = ''0xs'', e_pool = ''0xp'', e_epoch = n, e_cohort = 0, e_budget18 = E18, e_creditTotal = 1,
     e_allocationId = ''0xa'', e_assetId = ''0xn'', e_adapterVersion = 1, e_pricePolicy = ''0xq'', e_eligibilityMode = 0\<rparr>"

theorem entriesHash_binds_witness:
  "entriesHash (\<lambda>s. CHR ''k'' # s) demo_encode [demo_entry 1] [5] \<noteq> entriesHash (\<lambda>s. CHR ''k'' # s) demo_encode [demo_entry 1, demo_entry 2] [5, 6]"
proof
  assume "entriesHash (\<lambda>s. CHR ''k'' # s) demo_encode [demo_entry 1] [5] = entriesHash (\<lambda>s. CHR ''k'' # s) demo_encode [demo_entry 1, demo_entry 2] [5, 6]"
  then have "map entryTuple [demo_entry 1] = map entryTuple [demo_entry 1, demo_entry 2] \<and> [5 :: int] = [5, 6]"
    by (intro entriesHash_binds [of "\<lambda>s. CHR ''k'' # s" demo_encode])
      (auto simp: inj_def ZERO_HASH_def dest: demo_encode_inj)
  then show False by simp
qed

subsection \<open>Round size\<close>

lemma align_nonneg: "0 \<le> a \<Longrightarrow> alignBudget18 a = a - a mod USDC_GRID"
  by (simp add: alignBudget18_def bmod_nonneg round_constants)

lemma align_bounds: "0 \<le> a \<Longrightarrow> 0 \<le> alignBudget18 a \<and> alignBudget18 a \<le> a \<and> a < alignBudget18 a + USDC_GRID \<and> USDC_GRID dvd alignBudget18 a"
  by (simp add: align_nonneg grid_floor_dvd USDC_GRID_def zmod_le_nonneg_dividend)

lemma align_mono_grid: "0 \<le> a \<Longrightarrow> USDC_GRID dvd g \<Longrightarrow> g \<le> a \<Longrightarrow> g \<le> alignBudget18 a"
proof -
  assume a: "0 \<le> a" and g: "USDC_GRID dvd g" "g \<le> a"
  have "USDC_GRID dvd alignBudget18 a - g" using align_bounds [OF a] g by (simp add: dvd_diff)
  then have "alignBudget18 a - g \<le> - USDC_GRID \<or> 0 \<le> alignBudget18 a - g"
    by (auto simp: dvd_def USDC_GRID_def)
  with align_bounds [OF a] g(2) show ?thesis by linarith
qed

text \<open>Every round fits: for non-negative inputs the size of a round is whole 6-decimal USDC and
  never above the (aligned) run limit.\<close>

theorem roundCap_bounds:
  assumes "0 \<le> queued" and "0 \<le> runLimit"
  shows "USDC_GRID dvd roundCap queued runLimit minimum \<and> roundCap queued runLimit minimum \<le> alignBudget18 runLimit"
proof -
  let ?cap = "alignBudget18 runLimit"
  have cap: "0 \<le> ?cap" "USDC_GRID dvd ?cap" using align_bounds [OF assms(2)] by simp_all
  have even: "USDC_GRID dvd alignBudget18 (bdiv (queued + bdiv (queued + ?cap - 1) ?cap - 1) (bdiv (queued + ?cap - 1) ?cap) + USDC_GRID - 1)"
    if "?cap < queued"
  proof -
    have "0 \<le> bdiv (queued + ?cap - 1) ?cap" using that cap by (intro bdiv_ge_0) simp_all
    then have "0 \<le> bdiv (queued + bdiv (queued + ?cap - 1) ?cap - 1) (bdiv (queued + ?cap - 1) ?cap)"
      using that cap by (intro bdiv_ge_0) simp_all
    then show ?thesis using align_bounds by (simp add: USDC_GRID_def)
  qed
  show ?thesis
    using cap even by (auto simp: roundCap_def Let_def not_le)
qed

theorem roundCap_bounds_witness:
  "USDC_GRID dvd roundCap (1800 * E18 + 7) (250 * E18 + 3) 0 \<and> roundCap (1800 * E18 + 7) (250 * E18 + 3) 0 \<le> alignBudget18 (250 * E18 + 3)"
  by (rule roundCap_bounds) (simp_all add: E18_def)

text \<open>The even round size: the least whole-grid amount of which \<open>n\<close> cover the queue.\<close>

definition even_round :: "int \<Rightarrow> int \<Rightarrow> int" where
  "even_round queued n = alignBudget18 (bdiv (queued + n - 1) n + USDC_GRID - 1)"

lemma even_round:
  assumes "0 \<le> queued" and "0 < n"
  shows "USDC_GRID dvd even_round queued n" and "queued \<le> n * even_round queued n"
    and "USDC_GRID dvd e \<Longrightarrow> queued \<le> n * e \<Longrightarrow> even_round queued n \<le> e"
proof -
  let ?c = "(queued + n - 1) div n"
  have c: "bdiv (queued + n - 1) n = ?c" "0 \<le> ?c"
    using assms by (simp_all add: bdiv_nonneg pos_imp_zdiv_nonneg_iff)
  have G: "0 < USDC_GRID" by (simp add: USDC_GRID_def)
  have a: "0 \<le> ?c + USDC_GRID - 1" using c G by linarith
  note b = align_bounds [OF a]
  show "USDC_GRID dvd even_round queued n" using b by (simp add: even_round_def c)
  have "?c \<le> even_round queued n" using b by (simp add: even_round_def c)
  with assms(2) ceil_div_le_iff [of n queued "even_round queued n"] show "queued \<le> n * even_round queued n"
    by (simp add: mult.commute)
  assume e: "USDC_GRID dvd e" "queued \<le> n * e"
  then have "?c \<le> e" using ceil_div_le_iff [of n queued e] assms(2) by (simp add: mult.commute)
  show "even_round queued n \<le> e"
  proof (rule ccontr)
    assume "\<not> even_round queued n \<le> e"
    moreover have "USDC_GRID dvd even_round queued n - e"
      using e b by (simp add: even_round_def c dvd_diff)
    ultimately have "USDC_GRID \<le> even_round queued n - e" by (auto dest!: zdvd_imp_le)
    with b \<open>?c \<le> e\<close> show False by (simp add: even_round_def c)
  qed
qed

lemma rounds_needed:
  assumes "0 < cap" and "cap < queued" and n: "n = bdiv (queued + cap - 1) cap"
  shows "2 \<le> n" and "(n - 1) * cap < queued" and "queued \<le> n * cap"
proof -
  have e: "n = (queued + cap - 1) div cap" using assms by (simp add: bdiv_nonneg)
  show "queued \<le> n * cap" using ceil_div_ge [OF assms(1), of queued] by (simp add: e)
  show l: "(n - 1) * cap < queued"
    using ceil_div_less [OF assms(1), of queued] by (simp add: e algebra_simps)
  show "2 \<le> n"
  proof (rule ccontr)
    assume "\<not> 2 \<le> n"
    then have "n * cap \<le> 1 * cap" using assms(1) by (intro mult_right_mono) auto
    with \<open>queued \<le> n * cap\<close> assms(2) show False by simp
  qed
qed

text \<open>Where the queue is above the run limit, the split is even unless a round would be too small.\<close>

lemma roundCap_above:
  assumes L: "0 \<le> runLimit" and cap: "cap = alignBudget18 runLimit" "0 < cap" "cap < queued"
    and n: "n = bdiv (queued + cap - 1) cap"
  shows "even_round queued n \<le> cap"
    and "roundCap queued runLimit minimum =
      (if even_round queued n < minimum \<or> alignBudget18 queued - (n - 1) * even_round queued n < minimum
       then cap else even_round queued n)"
proof -
  note need = rounds_needed [OF cap(2,3) n]
  have dvd: "USDC_GRID dvd cap" using align_bounds [OF L] cap(1) by simp
  show le: "even_round queued n \<le> cap"
    using even_round(3) [of queued n cap] need dvd cap by (simp add: mult.commute)
  show "roundCap queued runLimit minimum =
      (if even_round queued n < minimum \<or> alignBudget18 queued - (n - 1) * even_round queued n < minimum
       then cap else even_round queued n)"
    using cap le by (simp add: roundCap_def Let_def even_round_def n)
qed

text \<open>Draining a queue: each round takes what is queued up to the round size, floored to the grid
  (what \<open>batchPhase\<close> executes when \<open>previewBatch\<close> fills the budget it is given).\<close>

definition next_round :: "int \<Rightarrow> int \<Rightarrow> int \<Rightarrow> int" where
  "next_round queued runLimit minimum = alignBudget18 (min queued (roundCap queued runLimit minimum))"

fun drain :: "nat \<Rightarrow> int \<Rightarrow> int \<Rightarrow> int \<Rightarrow> int list" where
  "drain 0 queued runLimit minimum = []"
| "drain (Suc k) queued runLimit minimum =
     (let r = next_round queued runLimit minimum in r # drain k (queued - r) runLimit minimum)"

definition splits_evenly :: "int \<Rightarrow> int \<Rightarrow> int \<Rightarrow> int \<Rightarrow> bool" where
  "splits_evenly n queued cap minimum \<longleftrightarrow> 2 \<le> n \<and> (n - 1) * cap < queued \<and> queued \<le> n * cap
     \<and> minimum \<le> even_round queued n \<and> minimum \<le> alignBudget18 queued - (n - 1) * even_round queued n"

lemma align_shift:
  assumes "USDC_GRID dvd e" and "0 \<le> q" and "e \<le> q"
  shows "alignBudget18 (q - e) = alignBudget18 q - e"
proof -
  have "(q - e) mod USDC_GRID = q mod USDC_GRID"
    using assms(1) by (metis diff_zero dvd_imp_mod_0 mod_diff_right_eq)
  with assms show ?thesis by (simp add: align_nonneg)
qed

lemma needed_unique:
  assumes "0 < cap" and "2 \<le> n" and "(n - 1) * cap < q" and "q \<le> n * cap"
  shows "bdiv (q + cap - 1) cap = n" and "cap < q"
proof -
  have "1 * cap \<le> (n - 1) * cap" using assms(1,2) by (intro mult_right_mono) auto
  with assms(3) show q: "cap < q" by simp
  have "(q + cap - 1) div cap = n"
    by (rule int_div_pos_eq [where r = "q + cap - 1 - n * cap"]) (use assms in \<open>auto simp: algebra_simps\<close>)
  with assms(1) q show "bdiv (q + cap - 1) cap = n" by (simp add: bdiv_nonneg)
qed

lemma split_step:
  assumes L: "0 \<le> runLimit" "cap = alignBudget18 runLimit" "0 < cap" and sp: "splits_evenly n q cap minimum"
  shows "next_round q runLimit minimum = even_round q n"
    and "minimum \<le> even_round q n" and "even_round q n \<le> cap" and "USDC_GRID dvd even_round q n"
    and "q - even_round q n \<le> (n - 1) * cap" and "(n - 2) * cap < q - even_round q n"
    and "q - even_round q n \<le> (n - 1) * even_round q n"
    and "alignBudget18 (q - even_round q n) = alignBudget18 q - even_round q n"
proof -
  let ?E = "even_round q n"
  have n: "2 \<le> n" "(n - 1) * cap < q" "q \<le> n * cap" "minimum \<le> ?E"
    "minimum \<le> alignBudget18 q - (n - 1) * ?E"
    using sp by (simp_all add: splits_evenly_def)
  note u = needed_unique [OF L(3) n(1,2,3)]
  note ra = roundCap_above [OF L(1,2,3) u(2) u(1) [symmetric]]
  show le: "?E \<le> cap" by (rule ra)
  have q: "0 \<le> q" using u(2) L(3) by simp
  note ev = even_round [of q n]
  show dvd: "USDC_GRID dvd ?E" using ev q n(1) by simp
  have "roundCap q runLimit minimum = ?E" using ra(2) [of minimum] n by simp
  moreover have "min q ?E = ?E" using le u(2) by simp
  moreover have "0 \<le> ?E"
  proof (rule ccontr)
    assume "\<not> 0 \<le> ?E"
    then have "n * ?E < 0" using n(1) by (simp add: mult_pos_neg)
    with ev(2) q n(1) show False by simp
  qed
  ultimately show "next_round q runLimit minimum = ?E"
    using dvd by (simp add: next_round_def align_nonneg)
  show "minimum \<le> ?E" by (rule n)
  have "(n - 1) * q \<le> (n - 1) * (n * cap)" using n by (intro mult_left_mono) auto
  have "q \<le> n * ?E" using ev q n(1) by simp
  then show l: "q - ?E \<le> (n - 1) * ?E" by (simp add: algebra_simps)
  have "(n - 1) * ?E \<le> (n - 1) * cap" using le n(1) by (intro mult_left_mono) auto
  with l show "q - ?E \<le> (n - 1) * cap" by linarith
  show "(n - 2) * cap < q - ?E" using n(2) le by (simp add: algebra_simps)
  show "alignBudget18 (q - ?E) = alignBudget18 q - ?E"
    using dvd q le u(2) by (intro align_shift) auto
qed

lemma split_continues:
  assumes L: "0 \<le> runLimit" "cap = alignBudget18 runLimit" "0 < cap" and sp: "splits_evenly n q cap minimum" and n: "3 \<le> n"
  shows "splits_evenly (n - 1) (q - even_round q n) cap minimum"
proof -
  let ?E = "even_round q n" and ?q = "q - even_round q n"
  note st = split_step [OF L sp]
  have lst: "minimum \<le> alignBudget18 q - (n - 1) * ?E" using sp by (simp add: splits_evenly_def)
  have "0 \<le> (n - 2) * cap" using n L(3) by simp
  with st(6) have q: "0 \<le> ?q" by linarith
  let ?E' = "even_round ?q (n - 1)"
  have E': "?E' \<le> ?E" "?q \<le> (n - 1) * ?E'"
    using even_round(2) [of ?q "n - 1"] even_round(3) [of ?q "n - 1" ?E] q n st by simp_all
  have "(n - 2) * ?E' \<le> (n - 2) * ?E" using E'(1) n by (intro mult_left_mono) auto
  then have m2: "minimum \<le> alignBudget18 ?q - (n - 2) * ?E'"
    using lst st(8) by (simp add: algebra_simps)
  have "alignBudget18 ?q \<le> ?q" using align_bounds [OF q] by simp
  moreover have "(n - 2) * minimum \<le> (n - 2) * ?E" using st(2) n by (intro mult_left_mono) auto
  ultimately have "(n - 1) * minimum \<le> (n - 1) * ?E'"
    using E'(2) lst st(8) by (simp add: algebra_simps)
  then have "minimum \<le> ?E'" using n by (simp add: mult_le_cancel_left)
  with m2 st n show ?thesis by (simp add: splits_evenly_def)
qed

lemma drain_even:
  assumes L: "0 \<le> runLimit" "cap = alignBudget18 runLimit" "0 < cap"
  shows "splits_evenly (int k + 2) q cap minimum \<Longrightarrow>
    list_all (\<lambda>r. minimum \<le> r \<and> r \<le> cap \<and> USDC_GRID dvd r) (drain (k + 2) q runLimit minimum)
    \<and> sum_list (drain (k + 2) q runLimit minimum) = alignBudget18 q"
proof (induction k arbitrary: q)
  case 0
  let ?E = "even_round q 2" and ?q = "q - even_round q 2"
  have sp: "splits_evenly 2 q cap minimum" using "0.prems" by simp
  note st = split_step [OF L sp]
  have q: "0 \<le> ?q" "?q \<le> cap" using st by simp_all
  have "roundCap ?q runLimit minimum = cap" using q L by (simp add: roundCap_def Let_def)
  then have "next_round ?q runLimit minimum = alignBudget18 ?q" using q by (simp add: next_round_def)
  moreover have "minimum \<le> alignBudget18 ?q" using sp st(8) by (simp add: splits_evenly_def)
  moreover have "alignBudget18 ?q \<le> cap" "USDC_GRID dvd alignBudget18 ?q" using align_bounds [OF q(1)] q(2) by linarith+
  ultimately show ?case using st by (simp add: numeral_2_eq_2 Let_def)
next
  case (Suc k)
  let ?n = "int (Suc k) + 2"
  have "3 \<le> ?n" by simp
  note st = split_step [OF L Suc.prems] and sc = split_continues [OF L Suc.prems this]
  have "splits_evenly (int k + 2) (q - even_round q ?n) cap minimum" using sc by (simp add: add.commute)
  from Suc.IH [OF this] st show ?case by (simp add: Let_def)
qed

text \<open>No stranded tail: when the queue is above the run limit and the even split is chosen, draining
  it takes \<open>n = ceil(queued / cap)\<close> rounds, every one of them (the last included) between the round
  minimum and the run limit and on the USDC grid, and together they take the whole queue but for the
  sub-grid dust, although every round is sized again from what is then left.\<close>

theorem roundCap_drains:
  assumes "0 \<le> runLimit" and "0 < alignBudget18 runLimit" and "alignBudget18 runLimit < queued"
    and "roundCap queued runLimit minimum \<noteq> alignBudget18 runLimit"
  shows "let rs = drain (nat (bdiv (queued + alignBudget18 runLimit - 1) (alignBudget18 runLimit))) queued runLimit minimum
     in list_all (\<lambda>r. minimum \<le> r \<and> r \<le> alignBudget18 runLimit \<and> USDC_GRID dvd r) rs \<and> sum_list rs = alignBudget18 queued"
proof -
  define cap where "cap = alignBudget18 runLimit"
  define n where "n = bdiv (queued + cap - 1) cap"
  have L: "0 \<le> runLimit" "cap = alignBudget18 runLimit" "0 < cap" and q: "cap < queued"
    using assms by (simp_all add: cap_def)
  note need = rounds_needed [OF L(3) q n_def]
  have "splits_evenly n queued cap minimum"
    using assms(4) need roundCap_above(2) [OF L q n_def, of minimum]
    by (simp add: splits_evenly_def cap_def [symmetric] split: if_splits)
  moreover obtain k where "n = int k + 2" using need(1) by (metis add.commute zle_iff_zadd)
  ultimately show ?thesis
    using drain_even [OF L, of k queued minimum] by (simp add: Let_def cap_def [symmetric] n_def [symmetric] nat_add_distrib)
qed

theorem roundCap_drains_witness:
  "drain 8 (1800 * E18) (250 * E18) (100 * E18) = replicate 8 (225 * E18)
   \<and> (let rs = drain 8 (1800 * E18) (250 * E18) (100 * E18)
      in list_all (\<lambda>r. 100 * E18 \<le> r \<and> r \<le> 250 * E18 \<and> USDC_GRID dvd r) rs \<and> sum_list rs = 1800 * E18)"
proof
  have al: "alignBudget18 (250 * E18) = 250 * E18" "alignBudget18 (1800 * E18) = 1800 * E18"
    by (simp_all add: align_nonneg round_constants)
  have ne: "roundCap (1800 * E18) (250 * E18) (100 * E18) = 225 * E18" by code_simp
  show "drain 8 (1800 * E18) (250 * E18) (100 * E18) = replicate 8 (225 * E18)" by code_simp
  have "nat (bdiv (1800 * E18 + 250 * E18 - 1) (250 * E18)) = 8" by (simp add: bdiv_nonneg E18_def)
  then show "let rs = drain 8 (1800 * E18) (250 * E18) (100 * E18)
      in list_all (\<lambda>r. 100 * E18 \<le> r \<and> r \<le> 250 * E18 \<and> USDC_GRID dvd r) rs \<and> sum_list rs = 1800 * E18"
    using roundCap_drains [of "250 * E18" "1800 * E18" "100 * E18"] ne by (simp add: al) (simp add: E18_def)
qed

subsection \<open>Minimum output\<close>

text \<open>The signed minimum output is positive, never laxer than the allowed slippage, and always passes
  \<open>SolonStockAdapter\<close>'s oracle floor (\<open>minRaw * 10_000 >= rawFor * 9_900\<close>), rounding included.\<close>

theorem minRawOut_passes_floor:
  assumes "minRawOut budget price decimals slippageBps floorRaw = Inr m"
    and "0 \<le> budget" and "0 \<le> slippageBps" and "slippageBps \<le> 10000"
    and "case floorRaw of Some f \<Rightarrow> 0 \<le> f | None \<Rightarrow> True"
  shows "0 < m \<and> (budget * 10 ^ decimals div price) * (10000 - slippageBps) \<le> m * 10000
     \<and> (case floorRaw of Some f \<Rightarrow> f | None \<Rightarrow> budget * 10 ^ decimals div price) * (10000 - ORACLE_FLOOR_BPS) \<le> m * 10000"
proof -
  define raw where "raw = budget * 10 ^ decimals div price"
  define f where "f = (case floorRaw of Some f \<Rightarrow> f | None \<Rightarrow> raw)"
  from assms(1) have price: "0 < price" by (simp add: minRawOut_def split: if_splits)
  have raw: "0 \<le> raw" using assms(2) price by (simp add: raw_def pos_imp_zdiv_nonneg_iff)
  have f: "0 \<le> f" using assms(5) raw by (simp add: f_def split: option.splits)
  have nn: "0 \<le> raw * (10000 - slippageBps)" "0 \<le> f * 9900" using raw f assms(4) by simp_all
  define mn where "mn = (raw * (10000 - slippageBps) + 9999) div 10000"
  define fl where "fl = (f * 9900 + 9999) div 10000"
  have "bdiv (budget * 10 ^ decimals) price = raw" using assms(2) price by (simp add: bdiv_nonneg raw_def)
  moreover have "bdiv (raw * (10000 - slippageBps) + 9999) 10000 = mn" using nn by (simp add: bdiv_nonneg mn_def)
  moreover have "oracleFloorRaw f = fl" using nn by (simp add: oracleFloorRaw_def ORACLE_FLOOR_BPS_def bdiv_nonneg fl_def)
  ultimately have m: "m = max mn fl" "m \<noteq> 0"
    using assms(1) price by (auto simp: minRawOut_def Let_def f_def max_def split: if_splits)
  have "raw * (10000 - slippageBps) \<le> mn * 10000" "f * 9900 \<le> fl * 10000"
    using ceil_div_ge [of 10000 "raw * (10000 - slippageBps)"] ceil_div_ge [of 10000 "f * 9900"]
    by (simp_all add: mn_def fl_def)
  moreover have "0 \<le> mn" using nn by (simp add: mn_def pos_imp_zdiv_nonneg_iff)
  ultimately show ?thesis using m by (auto simp: raw_def [symmetric] f_def ORACLE_FLOOR_BPS_def split: option.splits)
qed

theorem minRawOut_passes_floor_witness:
  "minRawOut (250 * E18) (180 * E18) 18 99 (Some 1388888888888888888) = Inr 1375138888888888889
   \<and> 1388888888888888888 * (10000 - ORACLE_FLOOR_BPS) \<le> 1375138888888888889 * 10000"
proof -
  have "minRawOut (250 * E18) (180 * E18) 18 99 (Some 1388888888888888888) = Inr 1375138888888888889" by code_simp
  from this minRawOut_passes_floor [OF this] show ?thesis by (simp add: E18_def)
qed

subsection \<open>Costs\<close>

text \<open>The cost plan pays for the order: for an order the adapter check accepts, the fees sent on top
  of the budget cover the hub's buy fee, the Relay fee and the quoted LayerZero fee with its buffer,
  and what leaves the protocol (Relay plus LayerZero) is at most half a percent of the budget.\<close>

theorem planned_costs_cover:
  assumes "planRoundCosts budget relayFee lzFee hubBps bufBps extra basis = Inr costs"
    and "checkAdapterQuote budget (rc_fixedCost18 costs) runLimit = QuoteOk"
    and "0 \<le> lzFee" and "0 \<le> bufBps" and "0 \<le> extra" and "0 \<le> hubBps"
  shows "budget * hubBps div 10000 + relayFee + lzFee \<le> rc_fees18 costs
     \<and> lzFee * (10000 + bufBps) \<le> rc_lzFee18 costs * 10000
     \<and> (rc_relayFee18 costs + rc_lzFee18 costs) * 200 \<le> budget \<and> budget \<le> runLimit"
proof -
  have budget: "ROUND_MIN_BASE \<le> budget" "budget \<le> runLimit" "rc_fixedCost18 costs \<le> bdiv budget 200"
    using assms(2) by (auto simp: checkAdapterQuote_def split: if_splits)
  then have b0: "0 \<le> budget" by (simp add: round_constants)
  define lz where "lz = (lzFee * (10000 + bufBps) + 9999) div 10000"
  have nn: "0 \<le> lzFee * (10000 + bufBps)" "0 \<le> budget * hubBps" using assms b0 by simp_all
  have costs: "rc_fees18 costs = budget * hubBps div 10000 + (relayFee + lz)" "rc_lzFee18 costs = lz" "rc_relayFee18 costs = relayFee"
    "relayFee + lz \<le> rc_fixedCost18 costs"
    using assms(1,5) nn
    by (auto simp: planRoundCosts_def Let_def bdiv_nonneg lz_def pos_imp_zdiv_nonneg_iff split: if_splits)
  have "lzFee * (10000 + bufBps) \<le> lz * 10000"
    using ceil_div_ge [of 10000 "lzFee * (10000 + bufBps)"] by (simp add: lz_def)
  moreover have "lzFee * 10000 \<le> lzFee * (10000 + bufBps)" using assms(3,4) by (intro mult_left_mono) auto
  moreover have "bdiv budget 200 * 200 \<le> budget" using b0 by (simp add: bdiv_nonneg floor_div_mult_le)
  ultimately show ?thesis using costs budget by auto
qed

theorem planned_costs_cover_witness:
  "\<exists>costs. planRoundCosts (250 * E18) (E18 div 2) (E18 div 4) 25 2000 0 ''external'' = Inr costs
     \<and> (rc_relayFee18 costs + rc_lzFee18 costs) * 200 \<le> 250 * E18"
proof -
  define costs where "costs = \<lparr>rc_fees18 = E18 div 2 + E18 div 4 + E18 div 20 + 625 * 10 ^ 15, rc_fixedCost18 = 8 * 10 ^ 17,
     rc_hubFee18 = 625 * 10 ^ 15, rc_relayFee18 = E18 div 2, rc_lzFee18 = 3 * 10 ^ 17\<rparr>"
  have "planRoundCosts (250 * E18) (E18 div 2) (E18 div 4) 25 2000 0 ''external'' = Inr costs"
    by (simp add: planRoundCosts_def Let_def bdiv_nonneg E18_def costs_def)
  moreover from planned_costs_cover [OF this, of ROUND_MAX]
  have "(rc_relayFee18 costs + rc_lzFee18 costs) * 200 \<le> 250 * E18"
    by (simp add: checkAdapterQuote_def bdiv_nonneg round_constants costs_def)
  ultimately show ?thesis by blast
qed

subsection \<open>What the round manager accepts\<close>

text \<open>The \<open>require\<close>s of \<open>start\<close>, \<open>poke\<close>, \<open>submit\<close>, \<open>cancelUnsent\<close>, \<open>requestCancel\<close> and \<open>finalize\<close> in
  \<open>src/v3/RewardRoundManager.sol\<close> on the state of one round: \<open>funded\<close> is the adapter's view, \<open>res\<close> what
  \<open>consumeResult\<close> returns for the proof, \<open>t\<close> the block time.\<close>

fun manager_accepts :: "round \<Rightarrow> int \<Rightarrow> int \<Rightarrow> bool \<Rightarrow> bool \<Rightarrow> int \<Rightarrow> probe \<Rightarrow> round_action \<Rightarrow> bool" where
  "manager_accepts r minRaw budget funded orphanConsumed t res a = (let s = status_of (rd_status r) in case a of
       Start \<Rightarrow> s = Reserved \<and> t \<le> rd_deadline r
     | Poke \<Rightarrow> (s = Funding \<or> (s = QuarantinedRound \<and> rd_submittedAt r = 0)) \<and> funded
     | Submit \<Rightarrow> s = Funded
     | CancelUnsent \<Rightarrow> s = Reserved
     | RequestCancel \<Rightarrow> (s = Submitted \<or> s = QuarantinedRound) \<and> rd_submittedAt r \<noteq> 0
          \<and> t \<ge> rd_submittedAt r + 30 * 60 \<and> \<not> rd_cancelRequested r
     | Finalize \<Rightarrow> (s = Submitted \<or> s = QuarantinedRound \<or> s = Funding \<or> s = Funded \<or> (s = Refunded \<and> \<not> orphanConsumed))
          \<and> (if pr_status res = 0 then pr_raw res = 0 \<and> pr_refund res = 0 \<and> s \<noteq> Refunded
              else if pr_status res = 2 then s \<noteq> Refunded \<and> pr_raw res = 0 \<and> pr_refund res = budget
              else pr_status res = 1 \<and> rd_submittedAt r \<noteq> 0 \<and> pr_raw res \<ge> minRaw \<and> pr_refund res = 0)
     | _ \<Rightarrow> True)"

text \<open>What a probe of the adapter (\<open>consumeResult.staticCall\<close> from the manager) can show: a refund gives
  the whole budget back, a fill is for a submitted order and at least the signed minimum.\<close>

definition probe_ok :: "round \<Rightarrow> int \<Rightarrow> int \<Rightarrow> probe \<Rightarrow> bool" where
  "probe_ok r minRaw budget res \<longleftrightarrow>
     (pr_status res = 2 \<longrightarrow> pr_raw res = 0 \<and> pr_refund res = budget)
     \<and> (pr_status res = 1 \<longrightarrow> rd_submittedAt r \<noteq> 0 \<and> minRaw \<le> pr_raw res \<and> pr_refund res = 0)"

text \<open>\<open>submit\<close> stamps the round, and nothing before it does.\<close>

definition submitted_stamped :: "round \<Rightarrow> bool" where
  "submitted_stamped r \<longleftrightarrow> (status_of (rd_status r) = Submitted \<longrightarrow> rd_submittedAt r \<noteq> 0)
     \<and> (status_of (rd_status r) \<in> {Reserved, Funding, Funded} \<longrightarrow> rd_submittedAt r = 0)"

lemma result_is_iff: "cx_result cx = Some res \<Longrightarrow> result_is n cx \<longleftrightarrow> pr_status res = n"
  by (simp add: result_is_def)





subsection \<open>Advancing a group\<close>

lemma advance_count_take_while:
  "n \<le> MAX_BATCH_ENTRIES \<Longrightarrow> advance_count g sk i n =
     n + int (length (takeWhile sk (take (nat (MAX_BATCH_ENTRIES - n)) (drop i g))))"
proof (induction g sk i n rule: advance_count.induct)
  case (1 g sk i n)
  show ?case
  proof (cases "i < length g \<and> n < MAX_BATCH_ENTRIES")
    case True
    moreover have "nat (MAX_BATCH_ENTRIES - n) = Suc (nat (MAX_BATCH_ENTRIES - (n + 1)))" using True by linarith
    moreover have "drop i g = g ! i # drop (Suc i) g" using True by (simp add: Cons_nth_drop_Suc)
    ultimately show ?thesis
      using "1.IH" by (subst advance_count.simps) auto
  next
    case False
    with "1.prems" show ?thesis by (subst advance_count.simps) auto
  qed
qed

text \<open>The head of a group is advanced by the number of skippable entries it starts with, at most the
  64 the batcher looks at, and only when there are at least \<open>threshold\<close> of them: never past an
  entry that still has budget available.\<close>

theorem shouldAdvance_spec:
  "shouldAdvance g cursor sk threshold =
     (let n = int (length (takeWhile sk (take 64 (drop cursor g)))) in if threshold \<le> n then n else 0)
   \<and> list_all sk (take (nat (shouldAdvance g cursor sk threshold)) (drop cursor g))"
proof -
  define n where "n = length (takeWhile sk (take 64 (drop cursor g)))"
  have c: "advance_count g sk cursor 0 = int n"
    by (simp add: advance_count_take_while MAX_BATCH_ENTRIES_def n_def)
  have "n \<le> length (take 64 (drop cursor g))" unfolding n_def by (rule length_takeWhile_le)
  then have le: "int n \<le> 64" by simp
  have "take n (drop cursor g) = takeWhile sk (take 64 (drop cursor g))"
    using le by (metis n_def takeWhile_eq_take take_take min.absorb1 of_nat_le_iff of_nat_numeral)
  then have "list_all sk (take n (drop cursor g))" by (auto simp: list_all_iff dest: set_takeWhileD)
  with le show ?thesis
    by (simp add: shouldAdvance_def c Let_def MAX_BATCH_ENTRIES_def n_def [symmetric])
qed

end
