(* ===== verification/Push_Decide.thy ===== *)
theory Push_Decide
  imports Keeper_Prelude
begin

section \<open>Daily push decisions (\<open>keepers/v3/push/decide.mjs\<close>)\<close>

text \<open>
  When the payout queue of a day is scanned, whether a day's batch is worth its gas, how many
  accounts one transaction asks for, and whether a batch made progress. Reason texts are
  constructors; the numbers some of them quote are arguments.
\<close>

definition MAX_ACCOUNTS :: int where "MAX_ACCOUNTS = 32"
definition MIN_GAS_BUDGET :: int where "MIN_GAS_BUDGET = 300000"
definition MAX_GAS_BUDGET :: int where "MAX_GAS_BUDGET = 2000000"
definition RESERVE :: int where "RESERVE = 100000"

subsection \<open>The daily cycle\<close>

record day_record =
  completedDay :: "int option"
  skippedDay :: "int option"
  skipReason :: "string option"

datatype scan_decision = Scan | BeforeWindow | EmptyQueue | CycleComplete | SkippedToday string | NotYet

definition queueDecision :: "int \<Rightarrow> int \<Rightarrow> int \<Rightarrow> day_record option \<Rightarrow> scan_decision" where
  "queueDecision nowSec nextScanAt upperBound rec =
     (if \<not> scanWindowOpen nowSec then BeforeWindow
      else if upperBound = 0 then EmptyQueue
      else let today = utcDay nowSec in
        if (case rec of Some r \<Rightarrow> completedDay r = Some today | None \<Rightarrow> False) then CycleComplete
        else if (case rec of Some r \<Rightarrow> skippedDay r = Some today | None \<Rightarrow> False)
          then SkippedToday (case rec of Some r \<Rightarrow> (case skipReason r of Some t \<Rightarrow> t | None \<Rightarrow> ''skipped today'') | None \<Rightarrow> [])
        else if nowSec < nextScanAt then NotYet
        else Scan)"

text \<open>At most one completed cycle a day: once a day's cycle is recorded as complete, the queue is not
  scanned again before 00:10 UTC of a later day (whatever the contract's own schedule says).\<close>

theorem one_cycle_per_day:
  assumes "queueDecision nowSec nextScanAt upperBound (Some r) = Scan" and "completedDay r = Some d" and "d \<le> utcDay nowSec" and "0 \<le> nowSec"
  shows "(d + 1) * DAY + SCAN_OFFSET \<le> nowSec \<and> nextScanAt \<le> nowSec \<and> upperBound \<noteq> 0"
proof -
  from assms(1,2) have w: "scanWindowOpen nowSec" and ne: "d \<noteq> utcDay nowSec" and rest: "nextScanAt \<le> nowSec" "upperBound \<noteq> 0"
    by (auto simp: queueDecision_def Let_def split: if_splits)
  from ne assms(3) have "d + 1 \<le> utcDay nowSec" by simp
  then have "(d + 1) * DAY \<le> utcDay nowSec * DAY" by (intro mult_right_mono) (simp_all add: DAY_def)
  moreover have "utcDay nowSec * DAY + SCAN_OFFSET \<le> nowSec" using w assms(4) by (simp only: scanWindow_time)
  ultimately have "(d + 1) * DAY + SCAN_OFFSET \<le> nowSec" by linarith
  with rest show ?thesis by simp
qed

theorem one_cycle_per_day_witness:
  "queueDecision (20001 * DAY + 600) 0 5 (Some \<lparr>completedDay = Some 20000, skippedDay = None, skipReason = None\<rparr>) = Scan
   \<and> (20000 + 1) * DAY + SCAN_OFFSET \<le> 20001 * DAY + 600"
proof -
  have s: "queueDecision (20001 * DAY + 600) 0 5 (Some \<lparr>completedDay = Some 20000, skippedDay = None, skipReason = None\<rparr>) = Scan"
    by code_simp
  have "20000 \<le> utcDay (20001 * DAY + 600)" by code_simp
  with one_cycle_per_day [OF s, of 20000] s show ?thesis by (simp add: DAY_def)
qed

subsection \<open>Is the day worth its gas?\<close>

datatype day_plan = NoPrice | NobodyReady int int int | TooCostly int int int | RunDay int int int int

definition usd18 :: "int \<Rightarrow> int \<Rightarrow> int" where
  "usd18 rawReady priceUSD18 = bdiv (rawReady * priceUSD18) E18"

fun tally :: "int \<Rightarrow> int \<Rightarrow> int list \<Rightarrow> int \<times> int \<Rightarrow> int \<times> int" where
  "tally price minimum [] acc = acc"
| "tally price minimum (a # as) (pushable, value) =
     (let usd = usd18 a price in
      tally price minimum as (if usd \<ge> minimum then (pushable + 1, value + usd) else (pushable, value)))"

definition dayPlan :: "int list \<Rightarrow> int \<Rightarrow> int \<Rightarrow> int \<Rightarrow> int \<Rightarrow> int \<Rightarrow> int \<Rightarrow> int \<Rightarrow> nat \<Rightarrow> day_plan" where
  "dayPlan accounts priceUSD18 minimumUSD18 gasPriceWei perAccountGas fixedGas pageSize maxCostBps cursor =
     (if priceUSD18 = 0 then NoPrice
      else let (pushable, value) = tally priceUSD18 minimumUSD18 (drop cursor accounts) (0, 0);
               remaining = int (length accounts) - int cursor;
               pages = - ((- remaining) div pageSize);
               gas = pages * fixedGas + remaining * perAccountGas;
               cost = gas * gasPriceWei
           in if pushable = 0 then NobodyReady pushable value cost
              else if cost * 10000 > value * maxCostBps then TooCostly pushable value cost
              else RunDay pushable value cost pages)"

lemma tally_eq: "tally p m as (n, v) =
    (n + int (length (filter (\<lambda>a. m \<le> usd18 a p) as)), v + sum_of (\<lambda>a. usd18 a p) (filter (\<lambda>a. m \<le> usd18 a p) as))"
  by (induction as arbitrary: n v) (auto simp: Let_def sum_of_eq)

text \<open>A day runs only when it pays: the value pushed is exactly that of the accounts from the cursor on
  whose payout reaches the minimum, there is at least one, the pages cover the rest of the queue, and
  the gas of all of them costs at most \<open>maxCostBps\<close> of that value.\<close>

theorem dayPlan_runs_iff:
  assumes "0 < pageSize"
  shows "dayPlan accounts price minimum gasPrice perAccountGas fixedGas pageSize maxCostBps cursor = RunDay n v c p \<longleftrightarrow>
    (let ready = filter (\<lambda>a. minimum \<le> usd18 a price) (drop cursor accounts);
         remaining = int (length accounts) - int cursor
     in price \<noteq> 0 \<and> ready \<noteq> [] \<and> n = int (length ready) \<and> v = sum_list (map (\<lambda>a. usd18 a price) ready)
        \<and> remaining \<le> p * pageSize \<and> p * pageSize < remaining + pageSize
        \<and> c = (p * fixedGas + remaining * perAccountGas) * gasPrice \<and> c * 10000 \<le> v * maxCostBps)"
proof -
  define r where "r = int (length accounts) - int cursor"
  define P where "P = - ((- r) div pageSize)"
  have p: "r \<le> p * pageSize \<and> p * pageSize < r + pageSize \<longleftrightarrow> p = - ((- r) div pageSize)"
  proof
    assume a: "r \<le> p * pageSize \<and> p * pageSize < r + pageSize"
    have "(- r) div pageSize = - p"
      by (rule int_div_pos_eq [where r = "p * pageSize - r"]) (use a in \<open>auto simp: algebra_simps\<close>)
    then show "p = - ((- r) div pageSize)" by simp
  next
    assume "p = - ((- r) div pageSize)"
    then have "p * pageSize = - (pageSize * ((- r) div pageSize))" by simp
    moreover have "pageSize * ((- r) div pageSize) + (- r) mod pageSize = - r" by (rule mult_div_mod_eq)
    ultimately have "p * pageSize = r + (- r) mod pageSize" by linarith
    with assms show "r \<le> p * pageSize \<and> p * pageSize < r + pageSize" by simp
  qed
  then have p2: "r \<le> p * pageSize \<and> p * pageSize < r + pageSize \<and> X \<longleftrightarrow> p = P \<and> X" for X
    unfolding P_def by blast
  show ?thesis
    unfolding dayPlan_def tally_eq Let_def r_def [symmetric] P_def [symmetric] p2
    by (auto simp: sum_of_eq)
qed

theorem dayPlan_runs_iff_witness:
  "dayPlan [3 * E18, 1, 5 * E18] E18 (2 * E18) 1000000000 60000 200000 32 50 0 = RunDay 2 (8 * E18) 380000000000000 1
   \<and> 380000000000000 * 10000 \<le> 8 * E18 * 50"
proof -
  have r: "dayPlan [3 * E18, 1, 5 * E18] E18 (2 * E18) 1000000000 60000 200000 32 50 0 = RunDay 2 (8 * E18) 380000000000000 1"
    by code_simp
  with dayPlan_runs_iff [of 32 "[3 * E18, 1, 5 * E18]" E18 "2 * E18" 1000000000 60000 200000 50 0 2 "8 * E18" 380000000000000 1]
  show ?thesis by (simp add: Let_def E18_def)
qed

subsection \<open>Gas\<close>

definition clampGasBudget :: "int \<Rightarrow> int" where
  "clampGasBudget gasBudget = min MAX_GAS_BUDGET (max MIN_GAS_BUDGET gasBudget)"

record gas_params =
  gp_gasBudget :: int
  gp_perAccountGas :: int
  gp_maxTxGas :: int
  gp_wanted :: int
  gp_overhead :: int

record gas_result =
  gr_gasBudget :: int
  gr_maxAccounts :: int
  gr_gasLimit :: int

text \<open>With \<open>perAccountGas = 0\<close> the quotient is \<open>Infinity\<close>, or \<open>NaN\<close> when nothing is left either, and
  \<open>BigInt(NaN)\<close> throws.\<close>

definition gasPlan :: "gas_params \<Rightarrow> gas_result result" where
  "gasPlan p =
     (let budget = clampGasBudget (gp_gasBudget p);
          flr = 2 * budget + RESERVE + gp_overhead p;
          per = gp_perAccountGas p
      in if gp_maxTxGas p < flr + per then Inl ''maxTxGas cannot fit one account''
         else if per = 0 \<and> gp_maxTxGas p = flr then Inl ''RangeError''
         else let fit = (gp_maxTxGas p - flr) div per;
                  cap = min MAX_ACCOUNTS (gp_wanted p);
                  maxAccounts = max 1 (if per = 0 then cap else min cap fit)
              in Inr \<lparr>gr_gasBudget = budget, gr_maxAccounts = maxAccounts, gr_gasLimit = flr + maxAccounts * per\<rparr>)"

definition gas_ok :: "gas_params \<Rightarrow> bool" where
  "gas_ok p \<longleftrightarrow> 0 < gp_perAccountGas p \<and> (case gasPlan p of Inl e \<Rightarrow> False | Inr r \<Rightarrow> True)"

definition planned :: "gas_params \<Rightarrow> gas_result" where
  "planned p = (case gasPlan p of Inr r \<Rightarrow> r | Inl e \<Rightarrow> \<lparr>gr_gasBudget = 0, gr_maxAccounts = 0, gr_gasLimit = 0\<rparr>)"

definition push_reserve :: "gas_params \<Rightarrow> int" where
  "push_reserve p = 2 * gr_gasBudget (planned p) + RESERVE"

interpretation push_gas: capped_gas_plan gas_ok "\<lambda>p. gr_maxAccounts (planned p)" gp_overhead gp_perAccountGas
  push_reserve "\<lambda>p. gr_gasLimit (planned p)" gp_maxTxGas
proof unfold_locales
  fix p assume ok: "gas_ok p"
  show "gr_gasLimit (planned p) = gp_overhead p + push_reserve p + gr_maxAccounts (planned p) * gp_perAccountGas p"
    using ok by (auto simp: gas_ok_def planned_def push_reserve_def gasPlan_def Let_def split: if_splits)
  show "0 \<le> gp_perAccountGas p" using ok by (simp add: gas_ok_def)
  show "1 \<le> gr_maxAccounts (planned p) \<and> gr_maxAccounts (planned p) \<le> 32"
    using ok by (auto simp: gas_ok_def planned_def gasPlan_def Let_def MAX_ACCOUNTS_def split: if_splits)
  define flr where "flr = 2 * clampGasBudget (gp_gasBudget p) + RESERVE + gp_overhead p"
  define per where "per = gp_perAccountGas p"
  define n where "n = max 1 (min (min MAX_ACCOUNTS (gp_wanted p)) ((gp_maxTxGas p - flr) div per))"
  have per: "0 < per" and fits: "flr + per \<le> gp_maxTxGas p" and lim: "gr_gasLimit (planned p) = flr + n * per"
    using ok by (auto simp: gas_ok_def planned_def gasPlan_def Let_def flr_def per_def n_def split: if_splits)
  have "n * per \<le> gp_maxTxGas p - flr"
  proof (cases "n = 1")
    case True
    with fits show ?thesis by simp
  next
    case False
    then have "n \<le> (gp_maxTxGas p - flr) div per" by (simp add: n_def)
    then have "n * per \<le> ((gp_maxTxGas p - flr) div per) * per" using per by simp
    also have "\<dots> \<le> gp_maxTxGas p - flr" by (rule floor_div_mult_le [OF per])
    finally show ?thesis .
  qed
  with lim show "gr_gasLimit (planned p) \<le> gp_maxTxGas p" by simp
qed

text \<open>A push batch cannot stop silently: whenever a gas plan exists, the transaction gas it sends is
  under the ceiling, asks for 1 to 32 accounts, and leaves the contract's guard
  \<open>2 x gasBudget + 100k\<close> before every account asked for, if each account uses at most its estimate;
  the gas budget passed on is within what the contract allows.\<close>

theorem gasPlan_guard_holds:
  assumes "gasPlan p = Inr r" and "0 < gp_perAccountGas p"
    and "i < gr_maxAccounts r" and "used \<le> gp_overhead p + i * gp_perAccountGas p"
  shows "2 * gr_gasBudget r + RESERVE \<le> gr_gasLimit r - used \<and> gr_gasLimit r \<le> gp_maxTxGas p
     \<and> 1 \<le> gr_maxAccounts r \<and> gr_maxAccounts r \<le> MAX_ACCOUNTS \<and> 300000 \<le> gr_gasBudget r \<and> gr_gasBudget r \<le> 2000000"
proof -
  have ok: "gas_ok p" and r: "planned p = r" using assms(1,2) by (simp_all add: gas_ok_def planned_def)
  have "gr_gasBudget r = clampGasBudget (gp_gasBudget p)"
    using assms(1) by (auto simp: gasPlan_def Let_def split: if_splits)
  then have "300000 \<le> gr_gasBudget r \<and> gr_gasBudget r \<le> 2000000"
    by (simp add: clampGasBudget_def MIN_GAS_BUDGET_def MAX_GAS_BUDGET_def)
  with push_gas.reserve_left [OF ok, of i used] push_gas.under_cap [OF ok] push_gas.items [OF ok] assms(3,4)
  show ?thesis by (simp add: r push_reserve_def MAX_ACCOUNTS_def)
qed

theorem gasPlan_guard_holds_witness:
  "\<exists>r. gasPlan \<lparr>gp_gasBudget = 100000, gp_perAccountGas = 400000, gp_maxTxGas = 5000000, gp_wanted = 32, gp_overhead = 120000\<rparr> = Inr r
     \<and> gr_maxAccounts r = 10 \<and> 2 * gr_gasBudget r + RESERVE \<le> gr_gasLimit r - (120000 + 9 * 400000)"
proof -
  let ?p = "\<lparr>gp_gasBudget = 100000, gp_perAccountGas = 400000, gp_maxTxGas = 5000000, gp_wanted = 32, gp_overhead = 120000\<rparr>"
  have r: "gasPlan ?p = Inr \<lparr>gr_gasBudget = 300000, gr_maxAccounts = 10, gr_gasLimit = 4820000\<rparr>"
    by (simp add: gasPlan_def Let_def clampGasBudget_def MIN_GAS_BUDGET_def MAX_GAS_BUDGET_def MAX_ACCOUNTS_def RESERVE_def)
  from gasPlan_guard_holds [OF r, of 9 "120000 + 9 * 400000"] r show ?thesis by simp
qed

subsection \<open>Progress of a batch\<close>

record progress =
  moved :: bool
  complete :: bool

definition progressOf :: "int \<Rightarrow> int \<Rightarrow> int \<Rightarrow> int \<Rightarrow> progress" where
  "progressOf before after processedEvents upperBound =
     (let wrapped = (before = upperBound);
          mv = (if wrapped then after > 0 \<or> processedEvents > 0 else after > before)
      in \<lparr>moved = mv, complete = (after = upperBound \<and> (mv \<or> processedEvents > 0))\<rparr>)"

text \<open>Batches of one cycle that moved without completing it: cursor and processed events after each.\<close>

fun unfinished_batches :: "int \<Rightarrow> int \<Rightarrow> (int \<times> int) list \<Rightarrow> bool" where
  "unfinished_batches upperBound before [] = True"
| "unfinished_batches upperBound before ((after, ev) # bs) =
     (after \<le> upperBound \<and> moved (progressOf before after ev upperBound) \<and> \<not> complete (progressOf before after ev upperBound)
      \<and> unfinished_batches upperBound after bs)"

text \<open>A cycle ends: from a cursor inside the queue, at most \<open>upperBound - cursor - 1\<close> batches can move
  without completing the cycle, so a keeper that only counts moved batches finishes the queue.\<close>

theorem push_cycle_bounded:
  assumes "before < upperBound" and "unfinished_batches upperBound before bs"
  shows "int (length bs) < upperBound - before"
  using assms
proof (induction bs arbitrary: before)
  case Nil
  then show ?case by simp
next
  case (Cons b bs)
  obtain a ev where b: "b = (a, ev)" by (cases b)
  with Cons.prems have "before < a" "a < upperBound" "unfinished_batches upperBound a bs"
    by (auto simp: progressOf_def Let_def split: if_splits)
  with Cons.IH [of a] show ?case by simp
qed

theorem push_cycle_bounded_witness:
  "unfinished_batches 100 0 [(32, 32), (64, 30), (96, 32)] \<and> int (length [(32, 32), (64, 30), (96 :: int, 32 :: int)]) < 100 - 0"
proof -
  have "unfinished_batches 100 0 [(32, 32), (64, 30), (96, 32)]" by (simp add: progressOf_def)
  from this push_cycle_bounded [OF _ this] show ?thesis by simp
qed

end
