(* ===== verification/Desk_Decide.thy ===== *)
theory Desk_Decide
  imports Keeper_Prelude
begin

section \<open>Desk payout decisions (\<open>keepers/v3/desk/decide.mjs\<close>)\<close>

text \<open>
  What a Desk card can claim from a reward stream, the stage of a USDC-quoted stream, the grouping
  of ready streams into payout queues, the gas of one batch and the bookkeeping of a queue's passes.
\<close>

definition P27 :: int where "P27 = 10 ^ 27"
definition MAX_CARDS :: int where "MAX_CARDS = 32"
definition MAX_KEYS :: int where "MAX_KEYS = 20"

record desk_params =
  maxKeysPerQueue :: int
  marginBps :: int
  dp_maxTxGas :: int
  dp_fixedGas :: int
  perCardGas :: int
  perKeyCardGas :: int
  maxPasses :: int

definition DESK_DEFAULTS :: desk_params where
  "DESK_DEFAULTS = \<lparr>maxKeysPerQueue = 8, marginBps = 1000, dp_maxTxGas = 15000000, dp_fixedGas = 150000,
     perCardGas = 40000, perKeyCardGas = 60000, maxPasses = 3\<rparr>"

subsection \<open>Streams\<close>

definition epochOver :: "int \<Rightarrow> int \<Rightarrow> bool" where
  "epochOver nowSec epoch = (nowSec \<ge> (epoch + 1) * DAY)"

definition perCardRaw :: "int \<Rightarrow> int \<Rightarrow> int \<Rightarrow> int \<Rightarrow> int" where
  "perCardRaw kind counter totalCredit27 purchasedRaw =
     (if kind = 1 then bdiv counter P27
      else if totalCredit27 = 0 then 0
      else bdiv (counter * purchasedRaw) totalCredit27)"

definition usdOf :: "int \<Rightarrow> int \<Rightarrow> int" where
  "usdOf raw price18 = bdiv (raw * price18) E18"

datatype stage = WaitEpoch | EmptyStream | SealStream | CreateEntry | FindEntry | SyncEntry | ReadyStage | Unbuyable | AwaitRound

record stream_view =
  sv_epoch :: int
  sv_budget :: int
  sv_sealed :: bool
  sv_entrySource :: bool
  sv_entryId :: "int option"
  sv_delivered :: int
  sv_purchasedRaw :: int
  sv_available :: int
  sv_pending :: int
  sv_sealedFor :: "int option"

definition kind0Stage :: "int \<Rightarrow> int \<Rightarrow> stream_view \<Rightarrow> stage" where
  "kind0Stage now unbuyableAfterSec v =
     (if \<not> epochOver now (sv_epoch v) then WaitEpoch
      else if \<not> sv_sealed v then
        (if sv_budget v < USDC_GRID then EmptyStream else if sv_entrySource v then SealStream else CreateEntry)
      else if sv_entryId v = None then FindEntry
      else if sv_delivered v > sv_purchasedRaw v then SyncEntry
      else let bought = (sv_pending v = 0 \<and> sv_available v < USDC_GRID)
        in if bought \<and> sv_purchasedRaw v > 0 then ReadyStage
           else if bought \<and> sv_delivered v = 0 \<and> (case sv_sealedFor v of Some s \<Rightarrow> s > unbuyableAfterSec | None \<Rightarrow> False) then Unbuyable
           else AwaitRound)"

subsection \<open>Grouping ready streams into queues\<close>

record ready =
  rk_key :: string
  rk_asset :: string
  rk_perCard :: int
  rk_readyAt :: int

record open_group =
  og_asset :: string
  og_keys :: "string list"
  og_value :: int

record groups =
  gs_open :: "open_group list"
  gs_hold :: "string list"
  gs_dust :: "(string \<times> int) list"

text \<open>The grouping by lower-cased asset: a \<open>Map\<close> in the order of first appearance.\<close>

definition by_asset :: "ready list \<Rightarrow> (string \<times> ready list) list" where
  "by_asset rs = foldl (\<lambda>m r. let a = lower (rk_asset r) in put a ((case get m a of Some l \<Rightarrow> l | None \<Rightarrow> []) @ [r]) m) [] rs"

definition price_of :: "(string \<times> int) list \<Rightarrow> string \<Rightarrow> int" where
  "price_of prices asset = (case filter (\<lambda>(k, v). lower k = asset) prices of (k, v) # _ \<Rightarrow> v | [] \<Rightarrow> 0)"

definition oldest_first :: "ready \<Rightarrow> ready \<Rightarrow> int" where
  "oldest_first x y = (if rk_readyAt x - rk_readyAt y \<noteq> 0 then rk_readyAt x - rk_readyAt y
     else if rk_perCard y > rk_perCard x then 1 else -1)"

definition group_value :: "int \<Rightarrow> ready list \<Rightarrow> int" where
  "group_value price g = usdOf (foldl (\<lambda>t r. t + rk_perCard r) 0 g) price"

lemma take_Cons_nonempty: "x # xs = take n ys \<Longrightarrow> ys \<noteq> [] \<and> 0 < n"
  by (cases n; cases ys) auto

text \<open>The \<open>for (;;)\<close> loop over one asset's streams; \<open>cap\<close> is at least 1 (\<open>plan_cap\<close>).\<close>

function pack :: "int \<Rightarrow> int \<Rightarrow> nat \<Rightarrow> ready list \<Rightarrow> groups \<Rightarrow> groups" where
  "pack price need cap rest gs =
     (let group = take cap rest in
      case group of
        [] \<Rightarrow> gs
      | g # _ \<Rightarrow>
         (if group_value price group \<ge> need
          then pack price need cap (drop (length group) rest)
                 (gs\<lparr>gs_open := gs_open gs @ [\<lparr>og_asset = rk_asset g, og_keys = map rk_key group, og_value = group_value price group\<rparr>]\<rparr>)
          else if length group = cap
          then pack price need cap (drop 1 rest) (gs\<lparr>gs_dust := gs_dust gs @ [(rk_key g, usdOf (rk_perCard g) price)]\<rparr>)
          else gs\<lparr>gs_hold := gs_hold gs @ map rk_key group\<rparr>))"
  by pat_completeness auto
termination
  by (relation "measure (\<lambda>(price, need, cap, rest, gs). length rest)") (auto dest!: take_Cons_nonempty)

declare pack.simps [simp del]

definition plan_cap :: "int \<Rightarrow> nat" where
  "plan_cap maxKeys = nat (min (max 1 maxKeys) MAX_KEYS)"

definition need_of :: "int \<Rightarrow> int \<Rightarrow> int" where
  "need_of minimumUSD18 margin = bdiv (minimumUSD18 * (10000 + margin)) 10000"

definition plan_asset :: "(string \<times> int) list \<Rightarrow> int \<Rightarrow> nat \<Rightarrow> groups \<Rightarrow> string \<times> ready list \<Rightarrow> groups" where
  "plan_asset prices need cap gs al =
     (let price = price_of prices (fst al); rest = js_sort oldest_first (snd al) in
      if price = 0 then gs\<lparr>gs_hold := gs_hold gs @ map rk_key rest\<rparr>
      else pack price need cap rest gs)"

definition planGroups :: "ready list \<Rightarrow> (string \<times> int) list \<Rightarrow> int \<Rightarrow> int \<Rightarrow> int \<Rightarrow> groups" where
  "planGroups rs prices minimumUSD18 maxKeys margin =
     foldl (plan_asset prices (need_of minimumUSD18 margin) (plan_cap maxKeys))
       \<lparr>gs_open = [], gs_hold = [], gs_dust = []\<rparr> (by_asset rs)"

subsection \<open>Gas of one batch\<close>

record desk_gas =
  dg_cards :: int
  dg_gasLimit :: int
  dg_reserve :: int

definition deskGasPlan :: "desk_params \<Rightarrow> int \<Rightarrow> int \<Rightarrow> desk_gas" where
  "deskGasPlan p keys wanted =
     (let reserve = 500000 * keys + 100000;
          perCard = perCardGas p + perKeyCardGas p * keys;
          room = dp_maxTxGas p - dp_fixedGas p - reserve;
          fit = (if perCard > 0 then room div perCard else wanted);
          cards = max 1 (min (min wanted MAX_CARDS) fit)
      in \<lparr>dg_cards = cards, dg_gasLimit = dp_fixedGas p + reserve + cards * perCard, dg_reserve = reserve\<rparr>)"

subsection \<open>Passes over a queue\<close>

record pass_record =
  ps_cursor :: "int option"
  ps_paid :: "int option"
  ps_failed :: "int option"
  ps_passes :: "int option"
  ps_done :: bool
  ps_lastPass :: "(int \<times> int) option"

record pass_update =
  pu_moved :: bool
  pu_complete :: bool
  pu_patch :: "pass_record option"
  pu_alert :: bool

definition or0 :: "int option \<Rightarrow> int" where
  "or0 x = (case x of Some n \<Rightarrow> n | None \<Rightarrow> 0)"

text \<open>An empty patch \<open>{}\<close> is \<open>None\<close>.\<close>

definition passUpdate :: "pass_record \<Rightarrow> int \<Rightarrow> int \<Rightarrow> int \<Rightarrow> int \<Rightarrow> int \<Rightarrow> int \<Rightarrow> pass_update" where
  "passUpdate rec start after upperBound paid failed maxP =
     (if after = start then \<lparr>pu_moved = False, pu_complete = False, pu_patch = None, pu_alert = False\<rparr>
      else let passPaid = or0 (ps_paid rec) + paid; passFailed = or0 (ps_failed rec) + failed in
        if after \<noteq> upperBound
        then \<lparr>pu_moved = True, pu_complete = False,
               pu_patch = Some (rec\<lparr>ps_cursor := Some after, ps_paid := Some passPaid, ps_failed := Some passFailed\<rparr>), pu_alert = False\<rparr>
        else let passes = or0 (ps_passes rec) + 1; dn = (passFailed = 0 \<or> passes \<ge> maxP);
                 patch = rec\<lparr>ps_cursor := Some after, ps_passes := Some passes, ps_paid := Some 0, ps_failed := Some 0,
                             ps_lastPass := Some (passPaid, passFailed)\<rparr>
             in \<lparr>pu_moved = True, pu_complete = True, pu_patch = Some (if dn then patch\<lparr>ps_done := True\<rparr> else patch),
                  pu_alert = (passFailed > 0 \<and> passes \<ge> maxP)\<rparr>)"

subsection \<open>Grouping: nothing is lost, every open group is worth its gas\<close>

definition keys_in :: "groups \<Rightarrow> string multiset" where
  "keys_in gs = mset (concat (map og_keys (gs_open gs))) + mset (gs_hold gs) + mset (map fst (gs_dust gs))"

lemma keys_in_simps [simp]:
  "keys_in (gs\<lparr>gs_open := gs_open gs @ [g]\<rparr>) = keys_in gs + mset (og_keys g)"
  "keys_in (gs\<lparr>gs_hold := gs_hold gs @ ks\<rparr>) = keys_in gs + mset ks"
  "keys_in (gs\<lparr>gs_dust := gs_dust gs @ [(k, v)]\<rparr>) = add_mset k (keys_in gs)"
  by (simp_all add: keys_in_def)

text \<open>What may be opened at a given price: one to \<open>cap\<close> streams of the list, worth at least \<open>need\<close>.\<close>

definition opened_ok :: "int \<Rightarrow> int \<Rightarrow> nat \<Rightarrow> ready list \<Rightarrow> open_group \<Rightarrow> bool" where
  "opened_ok price need cap rs og \<longleftrightarrow> (\<exists>g. g \<noteq> [] \<and> length g \<le> cap \<and> set g \<subseteq> set rs \<and> og_keys og = map rk_key g
     \<and> og_asset og = rk_asset (hd g) \<and> og_value og = group_value price g \<and> need \<le> og_value og)"

lemma pack_keys: "0 < cap \<Longrightarrow> keys_in (pack price need cap rest gs) = keys_in gs + mset (map rk_key rest)"
proof (induction price need cap rest gs rule: pack.induct)
  case (1 price need cap rest gs)
  show ?case
  proof (cases rest)
    case Nil
    then show ?thesis by (subst pack.simps) simp
  next
    case (Cons r rs)
    let ?g = "take cap rest"
    obtain c where c: "cap = Suc c" using "1.prems" by (cases cap) auto
    have g: "?g = r # take c rs" by (simp add: Cons c)
    have split: "mset (map rk_key rest) = mset (map rk_key ?g) + mset (map rk_key (drop (length ?g) rest))"
      by (metis append_take_drop_id append_eq_conv_conj length_take map_append min.commute mset_append take_take)
    show ?thesis
    proof (cases "need \<le> group_value price ?g")
      case True
      with "1.IH"(1) [OF refl g True] "1.prems" split show ?thesis
        by (subst pack.simps) (simp add: Let_def g)
    next
      case False
      show ?thesis
      proof (cases "length ?g = cap")
        case True
        with "1.IH"(2) [OF refl g False True] "1.prems" False show ?thesis
          by (subst pack.simps) (simp add: Let_def g, simp add: Cons)
      next
        case short: False
        then have "?g = rest" by (simp add: take_all_iff min_def split: if_splits)
        with False short g show ?thesis by (subst pack.simps) (simp add: Let_def)
      qed
    qed
  qed
qed

lemma pack_opened:
  "(\<And>og. og \<in> set (gs_open gs) \<Longrightarrow> P og) \<Longrightarrow> (\<And>og. opened_ok price need cap rest og \<Longrightarrow> P og) \<Longrightarrow>
   og \<in> set (gs_open (pack price need cap rest gs)) \<Longrightarrow> P og"
proof (induction price need cap rest gs arbitrary: og rule: pack.induct)
  case (1 price need cap rest gs)
  let ?g = "take cap rest"
  have mono: "opened_ok price need cap rest og" if "opened_ok price need cap (drop n rest) og" for n og
    using that set_drop_subset [of n rest] unfolding opened_ok_def by blast
  show ?case
  proof (cases ?g)
    case Nil
    with "1.prems" show ?thesis by (subst (asm) pack.simps) simp
  next
    case (Cons r rs)
    have now: "opened_ok price need cap rest \<lparr>og_asset = rk_asset r, og_keys = map rk_key ?g, og_value = group_value price ?g\<rparr>"
      if "need \<le> group_value price ?g"
    proof -
      have "length ?g \<le> cap" "set ?g \<subseteq> set rest" by (simp_all add: set_take_subset)
      with that show ?thesis unfolding opened_ok_def by (intro exI [of _ ?g]) (simp add: Cons)
    qed
    show ?thesis
    proof (cases "need \<le> group_value price ?g")
      case True
      let ?gs = "gs\<lparr>gs_open := gs_open gs @ [\<lparr>og_asset = rk_asset r, og_keys = map rk_key ?g, og_value = group_value price ?g\<rparr>]\<rparr>"
      have "pack price need cap rest gs = pack price need cap (drop (length ?g) rest) ?gs"
        using True Cons by (subst pack.simps) (simp add: Let_def)
      with "1.IH"(1) [OF refl Cons True, of og] "1.prems" now [OF True] mono show ?thesis by auto
    next
      case False
      show ?thesis
      proof (cases "length ?g = cap")
        case True
        have "pack price need cap rest gs = pack price need cap (drop 1 rest) (gs\<lparr>gs_dust := gs_dust gs @ [(rk_key r, usdOf (rk_perCard r) price)]\<rparr>)"
          using True False Cons by (subst pack.simps) (simp add: Let_def)
        with "1.IH"(2) [OF refl Cons False True, of og] "1.prems" mono show ?thesis by auto
      next
        case short: False
        with "1.prems" False Cons show ?thesis by (subst (asm) pack.simps) (simp add: Let_def)
      qed
    qed
  qed
qed

lemma by_asset_mset: "mset (concat (map snd (by_asset rs))) = mset rs"
proof -
  have upd: "mset (concat (map snd (put a ((case get m a of Some l \<Rightarrow> l | None \<Rightarrow> []) @ [r]) m))) =
      add_mset r (mset (concat (map snd m)))" for a :: string and r :: ready and m
    by (induction m) auto
  have "mset (concat (map snd (foldl (\<lambda>m r. let a = lower (rk_asset r) in
      put a ((case get m a of Some l \<Rightarrow> l | None \<Rightarrow> []) @ [r]) m) m rs))) = mset (concat (map snd m)) + mset rs" for m
    by (induction rs arbitrary: m) (simp_all add: Let_def upd)
  then show ?thesis by (simp add: by_asset_def)
qed

lemma set_putD: "(a, l) \<in> set (put b v m) \<Longrightarrow> (a, l) \<in> set m \<or> (a = b \<and> l = v)" for a b :: string
  by (induction m) (auto split: if_splits)

definition asset_step :: "(string \<times> ready list) list \<Rightarrow> ready \<Rightarrow> (string \<times> ready list) list" where
  "asset_step m r = (let a = lower (rk_asset r) in put a ((case get m a of Some l \<Rightarrow> l | None \<Rightarrow> []) @ [r]) m)"

definition groups_of :: "ready list \<Rightarrow> (string \<times> ready list) list \<Rightarrow> bool" where
  "groups_of all m \<longleftrightarrow> (\<forall>a l r. (a, l) \<in> set m \<longrightarrow> r \<in> set l \<longrightarrow> lower (rk_asset r) = a \<and> r \<in> set all)"

lemma groups_of_step:
  assumes m: "groups_of all m" and x: "x \<in> set all"
  shows "groups_of all (asset_step m x)"
proof -
  define old where "old = (case get m (lower (rk_asset x)) of Some l \<Rightarrow> l | None \<Rightarrow> [])"
  have step: "asset_step m x = put (lower (rk_asset x)) (old @ [x]) m"
    by (simp add: asset_step_def old_def Let_def)
  have "old = [] \<or> (lower (rk_asset x), old) \<in> set m"
    using map_of_SomeD [of m "lower (rk_asset x)"] unfolding old_def by (simp split: option.splits)
  with m have old: "lower (rk_asset r) = lower (rk_asset x) \<and> r \<in> set all" if "r \<in> set old" for r
    using that unfolding groups_of_def by fastforce
  have "lower (rk_asset r) = a \<and> r \<in> set all" if al: "(a, l) \<in> set (asset_step m x)" and r: "r \<in> set l" for a l r
    using set_putD [OF al [unfolded step]] m x r old unfolding groups_of_def by auto
  then show ?thesis unfolding groups_of_def by blast
qed

lemma groups_of_foldl: "groups_of all m \<Longrightarrow> set rs \<subseteq> set all \<Longrightarrow> groups_of all (foldl asset_step m rs)"
proof (induction rs arbitrary: m)
  case (Cons x rs)
  then show ?case by (simp add: groups_of_step)
qed simp

lemma by_asset_assets: "(a, l) \<in> set (by_asset rs) \<Longrightarrow> r \<in> set l \<Longrightarrow> lower (rk_asset r) = a \<and> r \<in> set rs"
proof -
  have "by_asset rs = foldl asset_step [] rs"
    by (simp add: by_asset_def asset_step_def [abs_def])
  moreover have "groups_of rs (foldl asset_step [] rs)"
    by (rule groups_of_foldl) (simp_all add: groups_of_def)
  ultimately show "(a, l) \<in> set (by_asset rs) \<Longrightarrow> r \<in> set l \<Longrightarrow> lower (rk_asset r) = a \<and> r \<in> set rs"
    unfolding groups_of_def by simp
qed

lemma plan_cap_bounds: "0 < plan_cap maxKeys \<and> plan_cap maxKeys \<le> 20"
  by (auto simp: plan_cap_def MAX_KEYS_def min_def max_def)

lemma plan_asset_keys: "0 < cap \<Longrightarrow> keys_in (plan_asset prices need cap gs al) = keys_in gs + mset (map rk_key (snd al))"
  by (simp add: plan_asset_def Let_def pack_keys mset_js_sort)

text \<open>Grouping loses and duplicates nothing: every ready stream ends in exactly one place, an opened
  queue, the held streams or the dust, whatever the prices, limits and ties.\<close>

theorem planGroups_partition: "keys_in (planGroups rs prices minimum maxKeys margin) = mset (map rk_key rs)"
proof -
  have "keys_in (foldl (plan_asset prices need cap) gs als) = keys_in gs + mset (map rk_key (concat (map snd als)))"
    if "0 < cap" for gs als need cap
    using that by (induction als arbitrary: gs) (simp_all add: plan_asset_keys add.assoc)
  then show ?thesis
    using plan_cap_bounds arg_cong [OF by_asset_mset, of "image_mset rk_key" rs]
    by (simp add: planGroups_def keys_in_def)
qed

text \<open>Every queue that is opened is worth it: it holds between 1 and 20 ready streams of one asset
  with a price, and one first-generation card's share of them is worth at least the distributor's
  minimum plus the margin; the value reported for it is that share at that price.\<close>

theorem planGroups_open_worth:
  "list_all (\<lambda>og. \<exists>g a. g \<noteq> [] \<and> length g \<le> 20 \<and> set g \<subseteq> set rs \<and> list_all (\<lambda>r. lower (rk_asset r) = a) g
       \<and> og_keys og = map rk_key g \<and> price_of prices a \<noteq> 0
       \<and> og_value og = usdOf (sum_list (map rk_perCard g)) (price_of prices a) \<and> need_of minimum margin \<le> og_value og)
     (gs_open (planGroups rs prices minimum maxKeys margin))"
proof -
  define P :: "open_group \<Rightarrow> bool" where "P og \<longleftrightarrow> (\<exists>g a. g \<noteq> [] \<and> length g \<le> 20 \<and> set g \<subseteq> set rs \<and> list_all (\<lambda>r. lower (rk_asset r) = a) g
       \<and> og_keys og = map rk_key g \<and> price_of prices a \<noteq> 0
       \<and> og_value og = usdOf (sum_list (map rk_perCard g)) (price_of prices a) \<and> need_of minimum margin \<le> og_value og)" for og
  let ?step = "plan_asset prices (need_of minimum margin) (plan_cap maxKeys)"
  have step: "P og" if al: "(a, l) \<in> set (by_asset rs)" and gs: "\<And>og. og \<in> set (gs_open gs) \<Longrightarrow> P og"
    and og: "og \<in> set (gs_open (?step gs (a, l)))" for gs a l og
  proof (cases "price_of prices a = 0")
    case True
    with og gs show ?thesis by (simp add: plan_asset_def Let_def)
  next
    case False
    have new: "P og" if "opened_ok (price_of prices a) (need_of minimum margin) (plan_cap maxKeys) (js_sort oldest_first l) og" for og
    proof -
      from that obtain g where g: "g \<noteq> []" "length g \<le> plan_cap maxKeys" "set g \<subseteq> set l" "og_keys og = map rk_key g"
        "og_value og = group_value (price_of prices a) g" "need_of minimum margin \<le> og_value og"
        by (auto simp: opened_ok_def)
      from g(3) by_asset_assets [OF al] have "set g \<subseteq> set rs" "list_all (\<lambda>r. lower (rk_asset r) = a) g"
        by (auto simp: list_all_iff)
      with g False plan_cap_bounds [of maxKeys] show ?thesis
        unfolding P_def by (intro exI [of _ g] exI [of _ a]) (simp add: group_value_def foldl_plus)
    qed
    from og False have "og \<in> set (gs_open (pack (price_of prices a) (need_of minimum margin) (plan_cap maxKeys) (js_sort oldest_first l) gs))"
      by (simp add: plan_asset_def Let_def)
    then show ?thesis using gs new by (rule pack_opened [rotated 2])
  qed
  have "set als \<subseteq> set (by_asset rs) \<Longrightarrow> (\<And>og. og \<in> set (gs_open gs) \<Longrightarrow> P og) \<Longrightarrow> og \<in> set (gs_open (foldl ?step gs als)) \<Longrightarrow> P og" for als gs og
  proof (induction als arbitrary: gs)
    case (Cons al als)
    obtain a l where al: "al = (a, l)" by (cases al)
    have "(a, l) \<in> set (by_asset rs)" using Cons.prems(1) al by simp
    note new = step [OF this Cons.prems(2)]
    show ?case
    proof (rule Cons.IH)
      show "set als \<subseteq> set (by_asset rs)" using Cons.prems(1) by simp
      show "og \<in> set (gs_open (foldl ?step (?step gs (a, l)) als))" using Cons.prems(3) al by simp
    qed (rule new)
  qed simp
  from this [OF subset_refl, of "\<lparr>gs_open = [], gs_hold = [], gs_dust = []\<rparr>"]
  have "\<forall>og\<in>set (gs_open (planGroups rs prices minimum maxKeys margin)). P og"
    by (simp add: planGroups_def)
  then show ?thesis by (simp only: list_all_iff P_def)
qed

subsection \<open>Gas of one batch\<close>

text \<open>The plan as an instance of the gas contract shared with the holder push: \<open>(p, keys, wanted)\<close>.\<close>

type_synonym desk_batch = "desk_params \<times> int \<times> int"

definition desk_ok :: "desk_batch \<Rightarrow> bool" where
  "desk_ok = (\<lambda>(p, keys, wanted). 0 \<le> keys \<and> 0 < perCardGas p \<and> 0 \<le> perKeyCardGas p
     \<and> dp_fixedGas p + (500000 * keys + 100000) + (perCardGas p + perKeyCardGas p * keys) \<le> dp_maxTxGas p)"

definition desk_plan :: "desk_batch \<Rightarrow> desk_gas" where
  "desk_plan = (\<lambda>(p, keys, wanted). deskGasPlan p keys wanted)"

lemma desk_cards: "1 \<le> dg_cards (deskGasPlan p keys wanted) \<and> dg_cards (deskGasPlan p keys wanted) \<le> 32"
  by (simp add: deskGasPlan_def Let_def MAX_CARDS_def)

interpretation desk_gas: capped_gas_plan desk_ok "\<lambda>b. dg_cards (desk_plan b)" "\<lambda>(p, _). dp_fixedGas p"
  "\<lambda>(p, keys, _). perCardGas p + perKeyCardGas p * keys" "\<lambda>b. dg_reserve (desk_plan b)" "\<lambda>b. dg_gasLimit (desk_plan b)"
  "\<lambda>(p, _). dp_maxTxGas p"
proof unfold_locales
  fix b :: desk_batch assume ok: "desk_ok b"
  obtain p keys wanted where b: "b = (p, keys, wanted)" by (rule prod_cases3)
  show "dg_gasLimit (desk_plan b) = (\<lambda>(p, _). dp_fixedGas p) b + dg_reserve (desk_plan b)
      + dg_cards (desk_plan b) * (\<lambda>(p, keys, _). perCardGas p + perKeyCardGas p * keys) b"
    by (simp add: b desk_plan_def deskGasPlan_def Let_def)
  show "0 \<le> (\<lambda>(p, keys, _). perCardGas p + perKeyCardGas p * keys) b" using ok by (simp add: b desk_ok_def)
  show "1 \<le> dg_cards (desk_plan b) \<and> dg_cards (desk_plan b) \<le> 32" by (simp add: b desk_plan_def desk_cards)
  define per where "per = perCardGas p + perKeyCardGas p * keys"
  define room where "room = dp_maxTxGas p - dp_fixedGas p - (500000 * keys + 100000)"
  define n where "n = max 1 (min (min wanted MAX_CARDS) (room div per))"
  have per: "0 < per" "per \<le> room"
    using ok by (auto simp: b desk_ok_def per_def room_def intro: add_pos_nonneg mult_nonneg_nonneg)
  have "n * per \<le> room"
  proof (cases "n = 1")
    case False
    then have "n \<le> room div per" by (auto simp: n_def)
    then have "n * per \<le> room div per * per" using per by (intro mult_right_mono) auto
    also have "\<dots> \<le> room" using per by (simp add: floor_div_mult_le)
    finally show ?thesis .
  qed (use per in simp)
  moreover have "dg_gasLimit (desk_plan b) = dp_fixedGas p + (500000 * keys + 100000) + n * per"
    using per by (simp add: b desk_plan_def deskGasPlan_def Let_def n_def per_def room_def)
  ultimately show "dg_gasLimit (desk_plan b) \<le> (\<lambda>(p, _). dp_maxTxGas p) b" by (simp add: b room_def)
qed

text \<open>The gas plan of a payout batch with the default limits: for any queue the contract can hold
  (at most 20 streams) the plan stays under the transaction gas cap, and before every card of the batch
  the gas left is still the 500k-per-stream-plus-100k the contract demands, so a batch never returns
  without progress for lack of gas.\<close>

theorem deskGasPlan_progress:
  assumes "0 \<le> keys" "keys \<le> MAX_KEYS" and "i < dg_cards (deskGasPlan DESK_DEFAULTS keys wanted)"
    and "used \<le> dp_fixedGas DESK_DEFAULTS + i * (perCardGas DESK_DEFAULTS + perKeyCardGas DESK_DEFAULTS * keys)"
  shows "500000 * keys + 100000 \<le> dg_gasLimit (deskGasPlan DESK_DEFAULTS keys wanted) - used
    \<and> dg_gasLimit (deskGasPlan DESK_DEFAULTS keys wanted) \<le> 15000000 \<and> 1 \<le> dg_cards (deskGasPlan DESK_DEFAULTS keys wanted)"
proof (intro conjI)
  have ok: "desk_ok (DESK_DEFAULTS, keys, wanted)"
    using assms(1,2) by (simp add: desk_ok_def DESK_DEFAULTS_def MAX_KEYS_def)
  have "dg_reserve (deskGasPlan DESK_DEFAULTS keys wanted) = 500000 * keys + 100000"
    by (simp add: deskGasPlan_def Let_def)
  with desk_gas.reserve_left [OF ok, of i used] assms(3,4)
  show "500000 * keys + 100000 \<le> dg_gasLimit (deskGasPlan DESK_DEFAULTS keys wanted) - used"
    by (simp add: desk_plan_def)
  show "dg_gasLimit (deskGasPlan DESK_DEFAULTS keys wanted) \<le> 15000000"
    using desk_gas.under_cap [OF ok] by (simp add: desk_plan_def DESK_DEFAULTS_def)
  show "1 \<le> dg_cards (deskGasPlan DESK_DEFAULTS keys wanted)" using desk_cards by blast
qed

theorem deskGasPlan_progress_witness:
  "500000 * (8::int) + 100000 \<le> dg_gasLimit (deskGasPlan DESK_DEFAULTS 8 32) - 670000
   \<and> dg_gasLimit (deskGasPlan DESK_DEFAULTS 8 32) = 14650000"
proof -
  have "dg_cards (deskGasPlan DESK_DEFAULTS 8 32) = 20" "dg_gasLimit (deskGasPlan DESK_DEFAULTS 8 32) = 14650000"
    by code_simp+
  with deskGasPlan_progress [of 8 1 32 670000] show ?thesis by (simp add: MAX_KEYS_def DESK_DEFAULTS_def)
qed

subsection \<open>The passes of a queue\<close>

text \<open>The batches \<open>(cursor after, paid, failed)\<close> of one pass, folded as the keeper folds them: each
  scans from the cursor the previous one left, and the patch becomes the record.\<close>

fun pass_run :: "pass_record \<Rightarrow> int \<Rightarrow> int \<Rightarrow> int \<Rightarrow> (int \<times> int \<times> int) list \<Rightarrow> pass_record \<times> bool" where
  "pass_run rec start upper maxP [] = (rec, False)"
| "pass_run rec start upper maxP ((after, paid, failed) # bs) =
     (let u = passUpdate rec start after upper paid failed maxP;
          rec' = (case pu_patch u of Some r \<Rightarrow> r | None \<Rightarrow> rec);
          (r, al) = pass_run rec' after upper maxP bs
      in (r, pu_alert u \<or> al))"

definition paid_in :: "(int \<times> int \<times> int) list \<Rightarrow> int" where
  "paid_in bs = sum_list (map (\<lambda>(_, p, _). p) bs)"

definition failed_in :: "(int \<times> int \<times> int) list \<Rightarrow> int" where
  "failed_in bs = sum_list (map (\<lambda>(_, _, f). f) bs)"

lemma pass_sums [simp]:
  "paid_in [] = 0" "paid_in ((a, p, f) # bs) = p + paid_in bs"
  "failed_in [] = 0" "failed_in ((a, p, f) # bs) = f + failed_in bs"
  by (simp_all add: paid_in_def failed_in_def)

text \<open>Over a whole pass of a queue (any number of batches, the cursor strictly advancing to the last
  card) the record ends with the totals of all its batches, the pass counted once and the running sums
  reset; the queue is done exactly when no card failed in the pass or the pass limit is reached, and the
  alert is raised exactly when cards still failed at the limit.\<close>

theorem passUpdate_pass_totals:
  assumes "bs \<noteq> []" and "sorted_wrt (<) (start # map fst bs)" and "fst (last bs) = upper"
    and "\<not> ps_done rec"
  shows "pass_run rec start upper maxP bs =
    (rec\<lparr>ps_cursor := Some upper, ps_passes := Some (or0 (ps_passes rec) + 1), ps_paid := Some 0, ps_failed := Some 0,
        ps_lastPass := Some (or0 (ps_paid rec) + paid_in bs, or0 (ps_failed rec) + failed_in bs),
        ps_done := (or0 (ps_failed rec) + failed_in bs = 0 \<or> or0 (ps_passes rec) + 1 \<ge> maxP)\<rparr>,
     or0 (ps_failed rec) + failed_in bs > 0 \<and> or0 (ps_passes rec) + 1 \<ge> maxP)"
  using assms
proof (induction bs arbitrary: rec start)
  case (Cons b bs)
  obtain after paid failed where b: "b = (after, paid, failed)" by (cases b)
  show ?case
  proof (cases "bs = []")
    case True
    with Cons.prems show ?thesis by (simp add: b passUpdate_def Let_def)
  next
    case False
    from Cons.prems(2) have "start \<noteq> after" by (auto simp: b)
    moreover from Cons.prems(2,3) False have "after \<noteq> upper"
      by (auto simp: b dest!: last_in_set)
    moreover note Cons.IH [OF False, of after "rec\<lparr>ps_cursor := Some after, ps_paid := Some (or0 (ps_paid rec) + paid), ps_failed := Some (or0 (ps_failed rec) + failed)\<rparr>"]
    ultimately show ?thesis
      using Cons.prems False by (auto simp: b passUpdate_def Let_def or0_def add.assoc)
  qed
qed simp

definition fresh_pass :: pass_record where
  "fresh_pass = \<lparr>ps_cursor = None, ps_paid = None, ps_failed = None, ps_passes = None, ps_done = False, ps_lastPass = None\<rparr>"

theorem passUpdate_pass_totals_witness:
  "pass_run fresh_pass 0 50 3 [(20, 20, 0), (40, 19, 1), (50, 10, 0)] =
     (fresh_pass\<lparr>ps_cursor := Some 50, ps_passes := Some 1, ps_paid := Some 0, ps_failed := Some 0, ps_lastPass := Some (49, 1)\<rparr>, False)"
  using passUpdate_pass_totals [of "[(20, 20, 0), (40, 19, 1), (50, 10, 0)]" 0 50 fresh_pass 3]
  by (simp add: fresh_pass_def or0_def)

end
