(* ===== verification/Keeper_Base.thy ===== *)
theory Keeper_Base
  imports Tx
begin

section \<open>What every keeper runs on\<close>

text \<open>
  A keeper's tick reads the chain, writes records to its journal, sends transactions through the
  sender of \<open>lib/tx.mjs\<close> and reports what it did. The state of a tick is the journal, the history
  of the transactions asked for so far (key and call), and the reports (summary entries and alerts).

  The chain is not part of the repository. Every read is a function of the history at the moment of
  the read, so a read after a transaction may differ in any way from one before it, and it may throw
  (\<open>Inl\<close>). A transaction asked from the sender yields what \<open>TxSender.call\<close> returns and the task table
  it leaves: \<open>TxSender\<close> touches no record (\<open>send_keeps_records\<close> below), so the table is all it changes.
\<close>

subsection \<open>State and primitive steps\<close>

record ('r, 'c, 'o) kst =
  kj :: "'r journal"
  hist :: "(string \<times> 'c) list"
  outs :: "'o list"

type_synonym ('s, 'a) op = "'s \<Rightarrow> 'a result \<times> 's"
type_synonym 'c history = "(string \<times> 'c) list"
type_synonym 'c caller = "'c history \<Rightarrow> string \<Rightarrow> 'c \<Rightarrow> task object \<Rightarrow> send_result result \<times> task object"

definition ret :: "'a \<Rightarrow> ('s, 'a) op" where
  "ret x st = (Inr x, st)"

definition throw :: "string \<Rightarrow> ('s, 'a) op" where
  "throw e st = (Inl e, st)"

definition bindk :: "('s, 'a) op \<Rightarrow> ('a \<Rightarrow> ('s, 'b) op) \<Rightarrow> ('s, 'b) op" where
  "bindk m f st = (case m st of (Inl e, st1) \<Rightarrow> (Inl e, st1) | (Inr x, st1) \<Rightarrow> f x st1)"

definition thenk :: "('s, 'a) op \<Rightarrow> ('s, 'b) op \<Rightarrow> ('s, 'b) op" where
  "thenk m n = bindk m (\<lambda>_. n)"

text \<open>\<open>try { m } catch (e) { h }\<close>.\<close>

definition tryk :: "('s, 'a) op \<Rightarrow> (string \<Rightarrow> ('s, 'a) op) \<Rightarrow> ('s, 'a) op" where
  "tryk m h st = (case m st of (Inl e, st1) \<Rightarrow> h e st1 | (Inr x, st1) \<Rightarrow> (Inr x, st1))"

text \<open>\<open>for (const x of xs) await f(x)\<close>.\<close>

fun each :: "('a \<Rightarrow> ('s, unit) op) \<Rightarrow> 'a list \<Rightarrow> ('s, unit) op" where
  "each f [] = ret ()"
| "each f (x # xs) = thenk (f x) (each f xs)"

text \<open>A loop that collects what each round returns.\<close>

fun collect :: "('a \<Rightarrow> ('s, 'b) op) \<Rightarrow> 'a list \<Rightarrow> ('s, 'b list) op" where
  "collect f [] = ret []"
| "collect f (x # xs) = bindk (f x) (\<lambda>y. bindk (collect f xs) (\<lambda>ys. ret (y # ys)))"

definition rd :: "('c history \<Rightarrow> 'a result) \<Rightarrow> (('r, 'c, 'o) kst, 'a) op" where
  "rd f st = (f (hist st), st)"

text \<open>A read whose failure is caught.\<close>

definition try_read :: "('c history \<Rightarrow> 'a result) \<Rightarrow> (('r, 'c, 'o) kst, 'a option) op" where
  "try_read f = tryk (bindk (rd f) (\<lambda>x. ret (Some x))) (\<lambda>_. ret None)"

definition emit :: "'o \<Rightarrow> (('r, 'c, 'o) kst, unit) op" where
  "emit x st = (Inr (), st\<lparr>outs := outs st @ [x]\<rparr>)"

definition getj :: "('r journal \<Rightarrow> 'a) \<Rightarrow> (('r, 'c, 'o) kst, 'a) op" where
  "getj f st = (Inr (f (kj st)), st)"

definition modj :: "('r journal \<Rightarrow> 'r journal) \<Rightarrow> (('r, 'c, 'o) kst, unit) op" where
  "modj f st = (Inr (), st\<lparr>kj := f (kj st)\<rparr>)"

text \<open>The sender's task table after a call, in memory and on disk (every change of it is saved).\<close>

definition with_tasks :: "task object \<Rightarrow> 'r journal \<Rightarrow> 'r journal" where
  "with_tasks ts j = save (j\<lparr>mem := (mem j)\<lparr>tasks := ts\<rparr>\<rparr>)"

definition call :: "'c caller \<Rightarrow> string \<Rightarrow> 'c \<Rightarrow> (('r, 'c, 'o) kst, send_result) op" where
  "call net k c st = (case net (hist st) k c (tasks (mem (kj st))) of
     (r, ts) \<Rightarrow> (r, st\<lparr>kj := with_tasks ts (kj st), hist := hist st @ [(k, c)]\<rparr>))"

text \<open>\<open>TxSender.reconcileAll\<close>, and a record written at the journal's clock.\<close>

type_synonym 'c settler = "'c history \<Rightarrow> task object \<Rightarrow> unit result \<times> task object"

definition settle_all :: "'c settler \<Rightarrow> (('r, 'c, 'o) kst, unit) op" where
  "settle_all f st = (case f (hist st) (tasks (mem (kj st))) of (r, ts) \<Rightarrow> (r, st\<lparr>kj := with_tasks ts (kj st)\<rparr>))"

definition put_rec :: "('c history \<Rightarrow> int) \<Rightarrow> string \<Rightarrow> string \<Rightarrow> ('r option \<Rightarrow> 'r) \<Rightarrow> (('r, 'c, 'o) kst, unit) op" where
  "put_rec clock ns i patch st = (Inr (), st\<lparr>kj := setRecord (clock (hist st)) ns i patch (kj st)\<rparr>)"

definition call_at :: "'c caller \<Rightarrow> string result \<Rightarrow> 'c \<Rightarrow> (('r, 'c, 'o) kst, send_result) op" where
  "call_at net key c = (case key of Inl e \<Rightarrow> throw e | Inr k \<Rightarrow> call net k c)"

definition sent_ok :: "send_result \<Rightarrow> bool" where
  "sent_ok r = (sr_status r = StConfirmed)"

definition progressed :: "send_result \<Rightarrow> bool" where
  "progressed r = (sr_status r = StConfirmed \<or> sr_status r = StDryRun)"

lemmas step_defs = ret_def throw_def bindk_def thenk_def tryk_def rd_def emit_def getj_def modj_def

subsection \<open>The sender behind \<open>call\<close>\<close>

text \<open>\<open>TxSender.call\<close> encodes the call and hands it to \<open>send\<close>; \<open>encode\<close> is the contract's ABI.\<close>

definition tx_call :: "sender \<Rightarrow> ('c history \<Rightarrow> provider \<times> int \<times> int) \<Rightarrow> (string \<Rightarrow> 'c \<Rightarrow> request) \<Rightarrow> 'c caller" where
  "tx_call c world encode h k x ts =
     (case world h of (p, now, later) \<Rightarrow>
      (case send c p now later ((encode k x)\<lparr>q_key := k\<rparr>) \<lparr>jr = (open_journal (Some \<lparr>tasks = ts, records = []\<rparr>) :: unit journal), trace = []\<rparr> of
         (r, st) \<Rightarrow> (r, tasks (mem (jr st)))))"

definition recs :: "'r txst \<Rightarrow> (int \<times> 'r) object object" where
  "recs st = records (mem (jr st))"

lemma recs_broadcast [simp]: "recs (broadcast r st) = recs st"
  by (simp add: recs_def broadcast_def)

lemma recs_persist:
  "(\<And>j. records (mem (f j)) = records (mem j)) \<Longrightarrow> recs (persist k f st) = recs st"
  by (simp add: recs_def persist_def Let_def)

lemma records_marks [simp]:
  "records (mem (markSent now k h n r from meta j)) = records (mem j)"
  "records (mem (markConfirmed now k h b j)) = records (mem j)"
  "records (mem (markFailure now k err q j)) = records (mem j)"
  by (simp_all add: markSent_def markConfirmed_def markFailure_def upsertTask_def Let_def event_def save_def)

lemmas recs_marks [simp] = recs_persist [OF records_marks(1)] recs_persist [OF records_marks(2)] recs_persist [OF records_marks(3)]

lemma recs_reconcile [simp]: "recs (snd (reconcile c p now t st)) = recs st"
  by (simp add: reconcile_def split: option.splits sum.splits)

lemma recs_reconcileD: "reconcile c p now t st = (x, st1) \<Longrightarrow> recs st1 = recs st"
  using recs_reconcile [of c p now t st] by (simp del: recs_reconcile)

lemma recs_settle [simp]: "recs (snd (settle later k h ro st)) = recs st"
  by (simp add: settle_def split: option.splits)

lemma recs_broadcast_and_wait [simp]: "recs (snd (broadcast_and_wait p now later k h r st)) = recs st"
  by (simp add: broadcast_and_wait_def Let_def split: sum.splits)

lemma recs_sign_step: "sign_step c p now q st = Inr (h, r, st1) \<Longrightarrow> recs st1 = recs st"
  by (auto simp: sign_step_def Let_def split: sum.splits option.splits if_splits)

lemma recs_send_new [simp]: "recs (snd (send_new c p now later q st)) = recs st"
proof -
  have "recs (snd (sign_and_send c p now later q st)) = recs st"
    by (auto simp: sign_and_send_def dest: recs_sign_step split: sum.splits stop.splits)
  then show ?thesis by (simp add: send_new_def Let_def split: sum.splits)
qed

text \<open>The sender leaves the records of the keeper alone.\<close>

lemma send_keeps_records: "recs (snd (send c p now later q st)) = recs st"
proof -
  have "recs (snd (case reconcile c p now t st of (Inl e, st1) \<Rightarrow> (Inl e, st1)
      | (Inr (s, ro), st1) \<Rightarrow> (if s = Confirmed then (Inr (a ro), st1) else if s = Sent then (Inr b, st1) else (Inr d, st1)))) = recs st"
    for t b d and a :: "receipt option \<Rightarrow> send_result"
    by (auto split: prod.splits sum.splits dest: recs_reconcileD)
  then show ?thesis
    by (cases "task_of (jr st) (q_key q)"; cases "taskGate (task_of (jr st) (q_key q)) now")
       (simp_all add: send_def Let_def del: taskGate.simps split: option.splits sum.splits)
qed

subsection \<open>Invariants of a tick\<close>

text \<open>\<open>keeps I m\<close>: the step \<open>m\<close> preserves \<open>I\<close>, whether it returns or throws. \<open>gives I m P\<close>: besides,
  what it returns satisfies \<open>P\<close> in the state it leaves.\<close>

definition keeps :: "('s \<Rightarrow> bool) \<Rightarrow> ('s, 'a) op \<Rightarrow> bool" where
  "keeps I m \<longleftrightarrow> (\<forall>st. I st \<longrightarrow> I (snd (m st)))"

definition gives :: "('s \<Rightarrow> bool) \<Rightarrow> ('s, 'a) op \<Rightarrow> ('a \<Rightarrow> bool) \<Rightarrow> bool" where
  "gives I m P \<longleftrightarrow> (\<forall>st x. I st \<longrightarrow> fst (m st) = Inr x \<longrightarrow> P x)"

named_theorems keeping

lemma keepsD: "keeps I m \<Longrightarrow> I st \<Longrightarrow> I (snd (m st))"
  by (simp add: keeps_def)

lemma keeps_ret [keeping]: "keeps I (ret x)"
  by (simp add: keeps_def ret_def)

lemma keeps_throw [keeping]: "keeps I (throw e)"
  by (simp add: keeps_def throw_def)

lemma keeps_bind_gives: "keeps I m \<Longrightarrow> gives I m P \<Longrightarrow> (\<And>x. P x \<Longrightarrow> keeps I (f x)) \<Longrightarrow> keeps I (bindk m f)"
  by (force simp: keeps_def gives_def bindk_def split: prod.splits sum.splits)

lemma keeps_bind [keeping]: "keeps I m \<Longrightarrow> (\<And>x. keeps I (f x)) \<Longrightarrow> keeps I (bindk m f)"
  by (rule keeps_bind_gives [of _ _ "\<lambda>_. True"]) (simp_all add: gives_def)

lemma keeps_then [keeping]: "keeps I m \<Longrightarrow> keeps I n \<Longrightarrow> keeps I (thenk m n)"
  by (simp add: thenk_def keeps_bind)

lemma keeps_try [keeping]: "keeps I m \<Longrightarrow> (\<And>e. keeps I (h e)) \<Longrightarrow> keeps I (tryk m h)"
  by (force simp: keeps_def tryk_def split: prod.splits sum.splits)

lemma keeps_each [keeping]: "(\<And>x. x \<in> set xs \<Longrightarrow> keeps I (f x)) \<Longrightarrow> keeps I (each f xs)"
  by (induction xs) (simp_all add: keeps_ret keeps_then)

lemma keeps_collect [keeping]: "(\<And>x. x \<in> set xs \<Longrightarrow> keeps I (f x)) \<Longrightarrow> keeps I (collect f xs)"
  by (induction xs) (simp_all add: keeping)

lemma keeps_rd [keeping]: "keeps I (rd f)"
  by (simp add: keeps_def rd_def)

lemma keeps_try_read [keeping]: "keeps I (try_read f)"
  by (simp add: try_read_def keeping)

lemma keeps_getj [keeping]: "keeps I (getj f)"
  by (simp add: keeps_def getj_def)

lemma keeps_if [keeping]: "(b \<Longrightarrow> keeps I m) \<Longrightarrow> (\<not> b \<Longrightarrow> keeps I n) \<Longrightarrow> keeps I (if b then m else n)"
  by simp

lemma keeps_case_option [keeping]:
  "(x = None \<Longrightarrow> keeps I m) \<Longrightarrow> (\<And>y. x = Some y \<Longrightarrow> keeps I (f y)) \<Longrightarrow> keeps I (case x of None \<Rightarrow> m | Some y \<Rightarrow> f y)"
  by (cases x) simp_all

lemma keeps_case_sum [keeping]:
  "(\<And>y. x = Inl y \<Longrightarrow> keeps I (g y)) \<Longrightarrow> (\<And>y. x = Inr y \<Longrightarrow> keeps I (f y)) \<Longrightarrow> keeps I (case x of Inl y \<Rightarrow> g y | Inr y \<Rightarrow> f y)"
  by (cases x) simp_all

lemma keeps_let [keeping]: "(\<And>x. x = t \<Longrightarrow> keeps I (f x)) \<Longrightarrow> keeps I (let x = t in f x)"
  by (simp add: Let_def)

lemma keeps_case_prod [keeping]: "(\<And>a b. x = (a, b) \<Longrightarrow> keeps I (f a b)) \<Longrightarrow> keeps I (case x of (a, b) \<Rightarrow> f a b)"
  by (cases x) simp

text \<open>The tick writes what it changes at once: memory and disk agree after every step.\<close>

definition saved :: "('r, 'c, 'o) kst \<Rightarrow> bool" where
  "saved st \<longleftrightarrow> disk (kj st) = mem (kj st)"

lemma call_hist: "hist (snd (call net k c st)) = hist st @ [(k, c)]"
  by (simp add: call_def split: prod.splits)

lemma call_records: "records (mem (kj (snd (call net k c st)))) = records (mem (kj st))"
  by (simp add: call_def with_tasks_def save_def split: prod.splits)

lemma record_of_call [simp]: "record_of (kj (snd (call net k c st))) i = record_of (kj st) i"
  by (simp add: record_of_def ns_of_def call_records)

lemma ns_of_with_tasks [simp]: "ns_of (with_tasks ts j) ns = ns_of j ns"
  by (simp add: ns_of_def with_tasks_def save_def)

lemma record_of_with_tasks [simp]: "record_of (with_tasks ts j) k = record_of j k"
  by (simp add: record_of_def)

lemma ns_of_setRecord: "ns_of (setRecord now ns i p j) ns' = (if ns' = ns then put i (now, p (record_of j (ns, i))) (ns_of j ns) else ns_of j ns')"
  by (simp add: ns_of_def setRecord_def put_record_def event_def save_def get_put)

lemma keeps_saved_call [keeping]: "keeps saved (call net k c)"
  by (simp add: keeps_def saved_def call_def with_tasks_def save_def split: prod.splits)

lemma keeps_saved_settle_all [keeping]: "keeps saved (settle_all f)"
  by (simp add: keeps_def saved_def settle_all_def with_tasks_def save_def split: prod.splits)

lemma keeps_call_at [keeping]: "(\<And>k. key = Inr k \<Longrightarrow> keeps I (call net k c)) \<Longrightarrow> keeps I (call_at net key c)"
  by (auto simp: call_at_def intro: keeping split: sum.splits)

lemma keeps_saved_put_rec [keeping]: "keeps saved (put_rec clock ns i patch)"
  by (simp add: keeps_def saved_def put_rec_def setRecord_def put_record_def save_def event_def)

lemma record_of_put_rec [simp]: "record_of (kj (snd (put_rec clock ns i patch st))) k =
    (if k = (ns, i) then Some (patch (record_of (kj st) (ns, i))) else record_of (kj st) k)"
  by (cases k) (auto simp: put_rec_def record_of_setRecord)

lemma hist_prims [simp]:
  "hist (snd (put_rec clock ns i patch st)) = hist st" "hist (snd (emit x st)) = hist st" "hist (snd (modj f st)) = hist st"
  "hist (snd (settle_all s st)) = hist st" "hist (snd (rd g st)) = hist st" "hist (snd (getj h st)) = hist st"
  by (simp_all add: put_rec_def emit_def modj_def settle_all_def rd_def getj_def split: prod.splits)

lemma keeps_saved_emit [keeping]: "keeps saved (emit x)"
  by (simp add: keeps_def saved_def emit_def)

lemma keeps_saved_setRecord [keeping]: "keeps saved (modj (setRecord now ns i patch))"
  by (simp add: keeps_def saved_def modj_def setRecord_def put_record_def save_def event_def)

lemma keeps_saved_clearRecord [keeping]: "keeps saved (modj (clearRecord ns i))"
  by (simp add: keeps_def saved_def modj_def clearRecord_def save_def event_def)

subsection \<open>Weakest preconditions\<close>

text \<open>\<open>wp m Q E st\<close>: from \<open>st\<close>, a return of \<open>m\<close> satisfies \<open>Q\<close> and a throw leaves a state in \<open>E\<close>. The
  rules follow the program text; a read is remembered as the fact it established.\<close>

definition wp :: "('s, 'a) op \<Rightarrow> ('a \<Rightarrow> 's \<Rightarrow> bool) \<Rightarrow> ('s \<Rightarrow> bool) \<Rightarrow> 's \<Rightarrow> bool" where
  "wp m Q E st \<longleftrightarrow> (case m st of (Inl e, st1) \<Rightarrow> E st1 | (Inr x, st1) \<Rightarrow> Q x st1)"

named_theorems wps

lemma keeps_wp: "keeps I m \<longleftrightarrow> (\<forall>st. I st \<longrightarrow> wp m (\<lambda>_. I) I st)"
proof -
  have "I (snd (m st)) \<longleftrightarrow> wp m (\<lambda>_. I) I st" for st
    by (simp add: wp_def split: prod.splits sum.splits)
  then show ?thesis by (simp add: keeps_def)
qed

lemma wp_keeps: "(\<And>st. I st \<Longrightarrow> wp m (\<lambda>_. I) I st) \<Longrightarrow> keeps I m"
  by (simp add: keeps_wp)

lemma wp_of_keeps: "keeps I m \<Longrightarrow> I st \<Longrightarrow> wp m (\<lambda>_. I) I st"
  by (simp add: keeps_wp)

lemma wp_cons: "wp m Q E st \<Longrightarrow> (\<And>x st1. Q x st1 \<Longrightarrow> Q' x st1) \<Longrightarrow> (\<And>st1. E st1 \<Longrightarrow> E' st1) \<Longrightarrow> wp m Q' E' st"
  by (simp add: wp_def split: prod.splits sum.splits)

lemma wp_ret [wps]: "Q x st \<Longrightarrow> wp (ret x) Q E st"
  by (simp add: wp_def ret_def)

lemma wp_throw [wps]: "E st \<Longrightarrow> wp (throw e) Q E st"
  by (simp add: wp_def throw_def)

lemma wp_bind [wps]: "wp m (\<lambda>x. wp (f x) Q E) E st \<Longrightarrow> wp (bindk m f) Q E st"
  by (simp add: wp_def bindk_def split: prod.splits sum.splits)

lemma wp_then [wps]: "wp m (\<lambda>_. wp n Q E) E st \<Longrightarrow> wp (thenk m n) Q E st"
  by (simp add: wp_def thenk_def bindk_def split: prod.splits sum.splits)

lemma wp_try [wps]: "wp m Q (\<lambda>st1. \<forall>e. wp (h e) Q E st1) st \<Longrightarrow> wp (tryk m h) Q E st"
  by (cases "m st"; cases "fst (m st)") (auto simp: wp_def tryk_def)

lemma wp_rd [wps]: "(\<And>x. f (hist st) = Inr x \<Longrightarrow> Q x st) \<Longrightarrow> E st \<Longrightarrow> wp (rd f) Q E st"
  by (simp add: wp_def rd_def split: sum.splits)

lemma wp_try_read [wps]: "(\<And>x. f (hist st) = Inr x \<Longrightarrow> Q (Some x) st) \<Longrightarrow> Q None st \<Longrightarrow> wp (try_read f) Q E st"
  by (simp add: wp_def try_read_def tryk_def bindk_def rd_def ret_def split: sum.splits)

lemma wp_getj [wps]: "Q (f (kj st)) st \<Longrightarrow> wp (getj f) Q E st"
  by (simp add: wp_def getj_def)

lemma wp_modj [wps]: "Q () (st\<lparr>kj := f (kj st)\<rparr>) \<Longrightarrow> wp (modj f) Q E st"
  by (simp add: wp_def modj_def)

lemma wp_emit [wps]: "Q () (st\<lparr>outs := outs st @ [x]\<rparr>) \<Longrightarrow> wp (emit x) Q E st"
  by (simp add: wp_def emit_def)

lemma wp_put_rec [wps]: "Q () (st\<lparr>kj := setRecord (clock (hist st)) ns i patch (kj st)\<rparr>) \<Longrightarrow> wp (put_rec clock ns i patch) Q E st"
  by (simp add: wp_def put_rec_def)

lemma wp_call [wps]:
  "(\<And>r ts. net (hist st) k c (tasks (mem (kj st))) = (Inr r, ts) \<Longrightarrow>
      Q r (st\<lparr>kj := with_tasks ts (kj st), hist := hist st @ [(k, c)]\<rparr>)) \<Longrightarrow>
   (\<And>ts. E (st\<lparr>kj := with_tasks ts (kj st), hist := hist st @ [(k, c)]\<rparr>)) \<Longrightarrow> wp (call net k c) Q E st"
  by (simp add: wp_def call_def split: prod.splits sum.splits)

lemma wp_call_at [wps]:
  "(\<And>k. key = Inr k \<Longrightarrow> wp (call net k c) Q E st) \<Longrightarrow> (\<And>e. key = Inl e \<Longrightarrow> E st) \<Longrightarrow> wp (call_at net key c) Q E st"
  by (simp add: call_at_def wp_throw split: sum.splits)

lemma wp_settle_all [wps]:
  "(\<And>ts. Q () (st\<lparr>kj := with_tasks ts (kj st)\<rparr>)) \<Longrightarrow> (\<And>ts. E (st\<lparr>kj := with_tasks ts (kj st)\<rparr>)) \<Longrightarrow> wp (settle_all f) Q E st"
  by (simp add: wp_def settle_all_def split: prod.splits sum.splits)

lemma wp_if [wps]: "(b \<Longrightarrow> wp m Q E st) \<Longrightarrow> (\<not> b \<Longrightarrow> wp n Q E st) \<Longrightarrow> wp (if b then m else n) Q E st"
  by simp

lemma wp_let [wps]: "(\<And>x. x = t \<Longrightarrow> wp (f x) Q E st) \<Longrightarrow> wp (let x = t in f x) Q E st"
  by (simp add: Let_def)

lemma wp_option [wps]:
  "(x = None \<Longrightarrow> wp m Q E st) \<Longrightarrow> (\<And>y. x = Some y \<Longrightarrow> wp (f y) Q E st) \<Longrightarrow> wp (case x of None \<Rightarrow> m | Some y \<Rightarrow> f y) Q E st"
  by (cases x) simp_all

lemma wp_sum [wps]:
  "(\<And>y. x = Inl y \<Longrightarrow> wp (g y) Q E st) \<Longrightarrow> (\<And>y. x = Inr y \<Longrightarrow> wp (f y) Q E st) \<Longrightarrow> wp (case x of Inl y \<Rightarrow> g y | Inr y \<Rightarrow> f y) Q E st"
  by (cases x) simp_all

lemma wp_prod [wps]: "(\<And>a b. x = (a, b) \<Longrightarrow> wp (f a b) Q E st) \<Longrightarrow> wp (case x of (a, b) \<Rightarrow> f a b) Q E st"
  by (cases x) simp

lemma wp_each:
  assumes "\<And>x st1. x \<in> set xs \<Longrightarrow> I st1 \<Longrightarrow> wp (f x) (\<lambda>_. I) E st1" and "I st"
  shows "wp (each f xs) (\<lambda>_. I) E st"
  using assms
proof (induction xs arbitrary: st)
  case (Cons x xs)
  from Cons.prems have x: "wp (f x) (\<lambda>_. I) E st" by simp
  have xs: "wp (each f xs) (\<lambda>_. I) E st1" if "I st1" for st1
    by (rule Cons.IH) (use Cons.prems(1) that in auto)
  show ?case unfolding each.simps by (rule wp_then, rule wp_cons [OF x]) (use xs in auto)
qed (simp add: wps)

subsection \<open>What was asked, and in which history\<close>

text \<open>\<open>asked Q h\<close>: every call of the history was made in a prefix that justifies it.\<close>

definition asked :: "('c history \<Rightarrow> string \<Rightarrow> 'c \<Rightarrow> bool) \<Rightarrow> 'c history \<Rightarrow> bool" where
  "asked Q h \<longleftrightarrow> (\<forall>n < length h. Q (take n h) (fst (h ! n)) (snd (h ! n)))"

lemma asked_Nil [simp]: "asked Q []"
  by (simp add: asked_def)

lemma asked_snoc [simp]: "asked Q (h @ [(k, c)]) \<longleftrightarrow> asked Q h \<and> Q h k c"
  by (auto simp: asked_def nth_append less_Suc_eq)

lemma askedD: "asked Q h \<Longrightarrow> h = h1 @ (k, c) # h2 \<Longrightarrow> Q h1 k c"
  unfolding asked_def by (drule spec [of _ "length h1"]) simp

lemma asked_snoc2 [simp]: "asked Q (h @ [(k, c), (k', c')]) \<longleftrightarrow> asked Q h \<and> Q h k c \<and> Q (h @ [(k, c)]) k' c'"
  using asked_snoc [of Q "h @ [(k, c)]"] by simp

definition earlier :: "'c history \<Rightarrow> 'c history \<Rightarrow> bool" where
  "earlier h1 h \<longleftrightarrow> (\<exists>h2. h = h1 @ h2)"

lemma earlier_refl [simp]: "earlier h h"
  by (simp add: earlier_def)

lemma earlier_snoc: "earlier h1 h \<Longrightarrow> earlier h1 (h @ h2)"
  by (auto simp: earlier_def)

lemma collect_length: "collect f xs st = (Inr ys, st1) \<Longrightarrow> length ys = length xs"
  by (induction xs arbitrary: st ys) (auto simp: ret_def bindk_def split: sum.splits prod.splits)

lemma wp_pure: "(\<And>I. keeps I m) \<Longrightarrow> (\<And>x. m st = (Inr x, st) \<Longrightarrow> Q x st) \<Longrightarrow> E st \<Longrightarrow> wp m Q E st"
  using keepsD [of "\<lambda>x. x = st" m st] by (cases "m st") (auto simp: wp_def split: sum.splits)

text \<open>Steps that ask for nothing.\<close>

definition silent :: "(('r, 'c, 'o) kst, 'a) op \<Rightarrow> bool" where
  "silent m \<longleftrightarrow> (\<forall>st. hist (snd (m st)) = hist st)"

lemma silent_keeps: "(\<And>h. keeps (\<lambda>st. hist st = h) m) \<Longrightarrow> silent m"
  by (simp add: silent_def keeps_def)

lemma wp_silent: "silent m \<Longrightarrow> (\<And>x st1. hist st1 = hist st \<Longrightarrow> Q x st1) \<Longrightarrow> (\<And>st1. hist st1 = hist st \<Longrightarrow> E st1) \<Longrightarrow> wp m Q E st"
  by (cases "m st") (force simp: silent_def wp_def split: sum.splits)

lemma at_prims [keeping]:
  "keeps (\<lambda>st. hist st = h) (emit x)" "keeps (\<lambda>st. hist st = h) (put_rec clock ns i f)" "keeps (\<lambda>st. hist st = h) (modj g)"
  "keeps (\<lambda>st. hist st = h) (settle_all s)"
  by (simp_all add: keeps_def)

subsection \<open>Crashes\<close>

lemma record_of_restart: "saved st \<Longrightarrow> record_of (kj (st\<lparr>kj := restart (kj st)\<rparr>)) = record_of (kj st)"
  by (intro ext) (simp add: record_of_def ns_of_def restart_def open_journal_def Let_def saved_def)

lemma ns_of_restart: "saved st \<Longrightarrow> ns_of (restart (kj st)) = ns_of (kj st)"
  by (intro ext) (simp add: ns_of_def restart_def open_journal_def Let_def saved_def)

lemma saved_restart: "saved (st\<lparr>kj := restart (kj st)\<rparr>)"
  by (simp add: saved_def restart_def open_journal_def Let_def)

end
