(* ===== verification/Quotes.thy ===== *)
theory Quotes
  imports Keeper_Base
begin

section \<open>Signed quotes (\<open>keepers/v3/lib/quotes.mjs\<close>)\<close>

text \<open>
  The three quotes the keepers sign: stock buys, SOLON buybacks and fee conversions. A digest is the
  hash of a typed message; the ABI coder and keccak are third-party code, so a hash of the message's
  fields is a parameter \<open>H\<close> (with \<open>inj H\<close> where binding is claimed). Messages list name and value of
  every field in the order of the source.
\<close>

subsection \<open>Messages\<close>

datatype field = FS string | FI int

datatype message =
    TypedData string string int string "(string \<times> field) list" \<comment> \<open>EIP-712 domain and values\<close>
  | Encoded string "field list" \<comment> \<open>tag and ABI-encoded values\<close>

record stock_config =
  sk_asset :: string
  sk_underlying :: string
  sk_hub :: string
  sk_path :: string
  sk_destinationChain :: int
  sk_vault :: string
  sk_opsVault :: string

record stock_quote =
  sq_orderId :: string
  sq_budget18 :: int
  sq_minRawOut :: int
  sq_deadline :: int
  sq_nonce :: int
  sq_fees18 :: int
  sq_fixedCost18 :: int

definition stockQuoteDigest :: "(message \<Rightarrow> string) \<Rightarrow> string \<Rightarrow> int \<Rightarrow> string \<Rightarrow> stock_config \<Rightarrow> stock_quote \<Rightarrow> string" where
  "stockQuoteDigest H selector chainId adapter c q = H (TypedData ''SolonStockAdapter'' ''3'' chainId adapter
     [(''orderId'', FS (sq_orderId q)), (''asset'', FS (sk_asset c)), (''underlying'', FS (sk_underlying c)),
      (''hub'', FS (sk_hub c)), (''path'', FS (sk_path c)), (''destinationChain'', FI (sk_destinationChain c)),
      (''vault'', FS (sk_vault c)), (''refundVault'', FS (sk_vault c)), (''selector'', FS selector),
      (''budget18'', FI (sq_budget18 q)), (''minRawOut'', FI (sq_minRawOut q)), (''deadline'', FI (sq_deadline q)),
      (''nonce'', FI (sq_nonce q)), (''fees18'', FI (sq_fees18 q)), (''fixedCost18'', FI (sq_fixedCost18 q)),
      (''opsVault'', FS (sk_opsVault c))])"

definition encodeStockQuoteData :: "stock_quote \<Rightarrow> string \<Rightarrow> field list" where
  "encodeStockQuoteData q signature = [FS (sq_orderId q), FI (sq_budget18 q), FI (sq_minRawOut q), FI (sq_deadline q),
     FI (sq_nonce q), FI (sq_fees18 q), FI (sq_fixedCost18 q), FS signature]"

record buyback_config =
  bc_solon :: string
  bc_router :: string
  bc_path :: string
  bc_signer :: string
  bc_protocolDesk :: string

record buyback_quote =
  bq_lotId :: string
  bq_budget :: int
  bq_minOut :: int
  bq_pricePolicyVersion :: int
  bq_quotedAt :: int
  bq_deadline :: int
  bq_nonce :: int

definition buybackQuoteDigest :: "(message \<Rightarrow> string) \<Rightarrow> int \<Rightarrow> string \<Rightarrow> buyback_config \<Rightarrow> string \<Rightarrow> buyback_quote \<Rightarrow> string" where
  "buybackQuoteDigest H chainId executor c recipient q = H (TypedData ''SolonBuyback'' ''3'' chainId executor
     [(''lotId'', FS (bq_lotId q)), (''budget'', FI (bq_budget q)), (''minOut'', FI (bq_minOut q)),
      (''pricePolicyVersion'', FI (bq_pricePolicyVersion q)), (''quotedAt'', FI (bq_quotedAt q)), (''deadline'', FI (bq_deadline q)),
      (''nonce'', FI (bq_nonce q)), (''solon'', FS (bc_solon c)), (''router'', FS (bc_router c)), (''path'', FS (bc_path c)),
      (''recipient'', FS recipient)])"

record conv_binding =
  cb_router :: string
  cb_sellRoute :: string
  cb_path :: string
  cb_version :: int
  cb_ops :: string
  cb_lpFeePpm :: int

record conv_quote =
  cq_lotId :: string
  cq_asset :: string
  cq_raw :: int
  cq_minUSDC18 :: int
  cq_value18 :: int
  cq_issuedAt :: int
  cq_deadline :: int
  cq_nonce :: int
  cq_fees18 :: int

definition conversion_fields :: "conv_quote \<Rightarrow> field list" where
  "conversion_fields q = [FS (cq_lotId q), FS (cq_asset q), FI (cq_raw q), FI (cq_minUSDC18 q), FI (cq_value18 q),
     FI (cq_issuedAt q), FI (cq_deadline q), FI (cq_nonce q), FI (cq_fees18 q)]"

definition conversionQuoteDigest :: "(message \<Rightarrow> string) \<Rightarrow> int \<Rightarrow> string \<Rightarrow> conv_binding \<Rightarrow> conv_quote \<Rightarrow> string" where
  "conversionQuoteDigest H chainId converter b q = H (Encoded ''V2FeeConversionV1'' (conversion_fields q @
     [FI chainId, FS converter, FS (cb_router b), FS (cb_sellRoute b), FS (cb_path b), FI (cb_version b), FS (cb_ops b), FI (cb_lpFeePpm b)]))"

definition encodeConversionQuoteData :: "conv_quote \<Rightarrow> string \<Rightarrow> field list" where
  "encodeConversionQuoteData q signature = conversion_fields q @ [FS signature]"

subsection \<open>The converter's floor\<close>

definition conversionMinFloor :: "int \<Rightarrow> int \<Rightarrow> int" where
  "conversionMinFloor value18 lpFeePpm =
     (let num = value18 * (1000000 - lpFeePpm) * 9900; den = 10000000000 in bdiv (num + den - 1) den)"

subsection \<open>Sign only what the contract will check\<close>

record quote_signer =
  qs_address :: string
  qs_sign :: "string \<Rightarrow> string"

definition signChecked :: "string \<Rightarrow> ('s, string) op \<Rightarrow> quote_signer \<Rightarrow> string option \<Rightarrow> ('s, string) op" where
  "signChecked local onchain signer expectedSigner =
     bindk onchain (\<lambda>remote.
       if lower remote \<noteq> lower local then throw ''digest mismatch''
       else if (case expectedSigner of Some e \<Rightarrow> e \<noteq> [] \<and> lower e \<noteq> lower (qs_address signer) | None \<Rightarrow> False)
       then throw ''contract signer is not our quote signer''
       else ret (qs_sign signer local))"

lemma wp_signChecked:
  assumes "wp onchain (\<lambda>remote st1. E st1 \<and> (lower remote = lower local \<longrightarrow> Q (qs_sign signer local) st1)) E st"
  shows "wp (signChecked local onchain signer expectedSigner) Q E st"
  unfolding signChecked_def by (rule wp_bind, rule wp_cons [OF assms]) (auto intro!: wps)

lemma wp_signed [wps]:
  "(\<And>remote. onchain (hist st) = Inr remote \<Longrightarrow> lower remote = lower local \<Longrightarrow> Q (qs_sign signer local) st) \<Longrightarrow> E st \<Longrightarrow>
   wp (signChecked local (rd onchain) signer expected) Q E st"
  by (intro wp_signChecked wps) auto

lemma keeps_signChecked [keeping]: "keeps I onchain \<Longrightarrow> keeps I (signChecked local onchain signer e)"
  unfolding signChecked_def by (intro keeping) auto

text \<open>The minimum a conversion quote asks for is exactly the least the converter accepts: an integer
  amount of USDC passes the contract's check, rounded up there, precisely when it is at least this
  floor; and it never asks for more than 99 percent of the value, rounded up.\<close>

theorem conversionMinFloor_exact:
  assumes "0 \<le> value18" "0 \<le> lpFeePpm" "lpFeePpm \<le> 1000000"
  shows "(conversionMinFloor value18 lpFeePpm \<le> out \<longleftrightarrow> value18 * (1000000 - lpFeePpm) * 9900 \<le> out * 10000000000)
    \<and> conversionMinFloor value18 lpFeePpm * 100 < value18 * 99 + 100"
proof -
  let ?num = "value18 * (1000000 - lpFeePpm) * 9900"
  have num: "0 \<le> ?num" using assms by simp
  have floor: "conversionMinFloor value18 lpFeePpm = (?num + 10000000000 - 1) div 10000000000"
    using num by (simp add: conversionMinFloor_def Let_def bdiv_nonneg)
  have "value18 * (1000000 - lpFeePpm) \<le> value18 * 1000000" using assms by (intro mult_left_mono) auto
  then have "?num \<le> value18 * 9900000000" by simp
  moreover have "(?num + 10000000000 - 1) div 10000000000 * 10000000000 < ?num + 10000000000"
    by (rule ceil_div_less) simp
  ultimately show ?thesis
    unfolding floor by (intro conjI ceil_div_le_iff) simp_all
qed

theorem conversionMinFloor_exact_witness:
  "conversionMinFloor (250 * E18) 10000 = 245025 * 10 ^ 15 \<and> (250 * E18) * (1000000 - 10000) * 9900 \<le> conversionMinFloor (250 * E18) 10000 * 10000000000"
proof -
  have "conversionMinFloor (250 * E18) 10000 = 245025 * 10 ^ 15" by code_simp
  with conversionMinFloor_exact [of "250 * E18" 10000 "245025 * 10 ^ 15"] show ?thesis by (simp add: E18_def)
qed

end
