(* ===== verification/Ingress_Decide.thy ===== *)
theory Ingress_Decide
  imports Keeper_Prelude
begin

section \<open>Fee ingress decisions (\<open>keepers/v3/ingress/decide.mjs\<close>)\<close>

text \<open>
  When fees are collected, how the router will split a funded lot, the next action of a lot, the
  chunks and minimum output of a buyback, the plan of the protocol desk vault, and the evidence a
  collect receipt gives.
\<close>

definition SOLON_V2 :: int where "SOLON_V2 = 1"
definition OTHER_V2 :: int where "OTHER_V2 = 2"
datatype ingress_lot = ILNone | ILObserved | ILFunded
datatype router_lot = RLNone | RLRawFunded | RLRouted | RLConverting | RLDone

definition MAX_BUYBACK :: int where "MAX_BUYBACK = 1000 * E18"
definition ZERO :: string where "ZERO = ''0x0000000000000000000000000000000000000000''"

subsection \<open>Collect\<close>

datatype collect_decision = Collect | BelowThreshold | CostTooHigh

definition collectDecision :: "int \<Rightarrow> int \<Rightarrow> int \<Rightarrow> int \<Rightarrow> collect_decision" where
  "collectDecision feesUsd18 thresholdUsd18 execCostUsd18 maxCostBps =
     (if feesUsd18 < thresholdUsd18 then BelowThreshold
      else if execCostUsd18 * 10000 > feesUsd18 * maxCostBps then CostTooHigh
      else Collect)"

subsection \<open>The routing of a lot\<close>

record half =
  hf_stock :: int
  hf_remainder :: int

definition stockHalf :: "int \<Rightarrow> int \<Rightarrow> half" where
  "stockHalf amount remainder =
     (let fraction = bmod amount 2 + remainder
      in \<lparr>hf_stock = bdiv amount 2 + bdiv fraction 2, hf_remainder = bmod fraction 2\<rparr>)"

record routing =
  ro_stockUSDC18 :: int
  ro_buybackUSDC18 :: int
  ro_protocolDesk :: bool
  ro_burnRaw :: int
  ro_convertRaw :: int
  ro_remainder :: int

definition expectedRouting :: "int \<Rightarrow> string \<Rightarrow> int \<Rightarrow> int \<Rightarrow> routing result" where
  "expectedRouting kind token amount remainder =
     (if kind = SOLON_V2 then
        (let h = stockHalf amount remainder; stock = hf_stock h; r = hf_remainder h in
         if token = ZERO
         then Inr \<lparr>ro_stockUSDC18 = stock, ro_buybackUSDC18 = amount - stock, ro_protocolDesk = False, ro_burnRaw = 0,
                   ro_convertRaw = 0, ro_remainder = r\<rparr>
         else Inr \<lparr>ro_stockUSDC18 = 0, ro_buybackUSDC18 = 0, ro_protocolDesk = False, ro_burnRaw = amount - stock,
                   ro_convertRaw = stock, ro_remainder = r\<rparr>)
      else if kind = OTHER_V2 then
        (if token = ZERO
         then Inr \<lparr>ro_stockUSDC18 = 0, ro_buybackUSDC18 = amount, ro_protocolDesk = True, ro_burnRaw = 0, ro_convertRaw = 0,
                   ro_remainder = remainder\<rparr>
         else Inr \<lparr>ro_stockUSDC18 = 0, ro_buybackUSDC18 = 0, ro_protocolDesk = True, ro_burnRaw = 0, ro_convertRaw = amount,
                   ro_remainder = remainder\<rparr>)
      else Inl ''unknown source kind'')"

datatype lot_action = Record | AwaitAudit | Fund | QuarantineLot string | Route | Convert | Done | WaitRouter

definition lotNextAction :: "ingress_lot \<Rightarrow> bool \<Rightarrow> router_lot \<Rightarrow> bool \<Rightarrow> bool \<Rightarrow> lot_action" where
  "lotNextAction ingressState admitted routerState native hasSignatures =
     (if ingressState = ILNone then (if hasSignatures then Record else AwaitAudit)
      else if ingressState = ILObserved then
        (if admitted then Fund else QuarantineLot ''lot not admitted (source/cutover/policy mismatch)'')
      else if native then (if routerState = RLDone then Done else WaitRouter)
      else (case routerState of RLRawFunded \<Rightarrow> Route | RLRouted \<Rightarrow> Convert | RLDone \<Rightarrow> Done | _ \<Rightarrow> WaitRouter))"

subsection \<open>Buybacks\<close>

datatype buy_chunk = NoBuy string | Buy int

definition buybackChunk :: "int \<Rightarrow> int \<Rightarrow> bool \<Rightarrow> int \<Rightarrow> buy_chunk" where
  "buybackChunk budget spent executed minBuy18 =
     (if executed \<or> budget = 0 then NoBuy (if executed then ''executed'' else ''unfunded'')
      else let remaining = budget - spent in
        if remaining < minBuy18 then NoBuy ''below minimum buy''
        else Buy (if remaining > MAX_BUYBACK then MAX_BUYBACK else remaining))"

definition buybackMinOut :: "int \<Rightarrow> int \<Rightarrow> int \<Rightarrow> int result" where
  "buybackMinOut budget18 solonPerUsdc18 slippageBps =
     (if solonPerUsdc18 \<le> 0 then Inl ''no SOLON price''
      else let out = bdiv (budget18 * solonPerUsdc18) E18; mn = bdiv (out * (10000 - slippageBps)) 10000
        in if mn = 0 then Inl ''minOut rounds to zero'' else Inr mn)"

subsection \<open>The protocol desk vault\<close>

datatype desk_plan = Sweep | NoPlan string | Mint int

definition deskPlan :: "int \<Rightarrow> int \<Rightarrow> int \<Rightarrow> int \<Rightarrow> int \<Rightarrow> int \<Rightarrow> bool \<Rightarrow> desk_plan" where
  "deskPlan pendingSolon perDesk protocolMinted protocolMax totalSupply maxSupply opsSurchargeAvailable =
     (if protocolMinted \<ge> protocolMax \<or> totalSupply \<ge> maxSupply
      then (if pendingSolon > 0 then Sweep else NoPlan '''')
      else let cards = bdiv pendingSolon perDesk in
        if cards = 0 then NoPlan ''below one card''
        else if \<not> opsSurchargeAvailable then NoPlan ''OpsShortfall (surcharge)''
        else Mint (if cards > 20 then 20 else cards))"

subsection \<open>Evidence of a collect receipt\<close>

record transfer =
  tf_token :: string
  tf_to :: string
  tf_value :: int
  tf_logIndex :: int

record evidence =
  ev_source :: string
  ev_collectTx :: string
  ev_collectBlock :: int
  ev_logIndex :: int
  ev_token :: string
  ev_amount :: int
  ev_policyVersion :: int

datatype mismatch = NoViewTransfer int | DeltaNotView int int

definition transfers_to :: "string \<Rightarrow> string \<Rightarrow> transfer list \<Rightarrow> transfer list" where
  "transfers_to token rcpt ts = filter (\<lambda>t. lower (tf_token t) = lower token \<and> lower (tf_to t) = rcpt) ts"

definition first_index :: "transfer list \<Rightarrow> int" where
  "first_index logs = (case logs of t # _ \<Rightarrow> tf_logIndex t | [] \<Rightarrow> 0)"

text \<open>The round of the loop for one token: no evidence, or one with the mismatch that bars it.\<close>

definition evidence_of :: "string \<Rightarrow> string \<Rightarrow> int \<Rightarrow> string \<Rightarrow> transfer list \<Rightarrow> int \<Rightarrow> string \<Rightarrow> int \<Rightarrow> string
    \<Rightarrow> (evidence \<times> mismatch option) option" where
  "evidence_of sourceKey collectTx collectBlock rcpt transfers nativeDelta nativeViewToken policyVersion token =
     (let ev = (\<lambda>logs amount tok. \<lparr>ev_source = sourceKey, ev_collectTx = collectTx, ev_collectBlock = collectBlock,
               ev_logIndex = first_index logs, ev_token = tok, ev_amount = amount, ev_policyVersion = policyVersion\<rparr>) in
      if token = ZERO then
        (if nativeDelta \<le> 0 then None
         else let logs = transfers_to nativeViewToken rcpt transfers;
                  view18 = sum_of tf_value logs * 10 ^ 12;
                  diff = (if nativeDelta > view18 then nativeDelta - view18 else view18 - nativeDelta);
                  mismatch = (if logs = [] then Some (NoViewTransfer nativeDelta)
                     else if diff \<ge> 10 ^ 12 then Some (DeltaNotView nativeDelta (bdiv view18 (10 ^ 12))) else None)
              in Some (ev logs nativeDelta ZERO, mismatch))
      else let logs = transfers_to token rcpt transfers; amount = sum_of tf_value logs
        in if amount = 0 then None else Some (ev logs amount token, None))"

definition evidenceFromCollect :: "string \<Rightarrow> string \<Rightarrow> int \<Rightarrow> string \<Rightarrow> string list \<Rightarrow> transfer list \<Rightarrow> int \<Rightarrow> string \<Rightarrow> int
    \<Rightarrow> (evidence \<times> mismatch option) list" where
  "evidenceFromCollect sourceKey collectTx collectBlock platformRecipient tokens transfers nativeDelta nativeViewToken policyVersion =
     List.map_filter (evidence_of sourceKey collectTx collectBlock (lower platformRecipient) transfers nativeDelta nativeViewToken policyVersion) tokens"

subsection \<open>Splits conserve value\<close>

text \<open>The lots of one asset routed one after the other, each with the remainder the previous one left.\<close>

fun halves :: "int \<Rightarrow> int list \<Rightarrow> int list \<times> int" where
  "halves r [] = ([], r)"
| "halves r (a # as) = (let h = stockHalf a r; (ss, r') = halves (hf_remainder h) as in (hf_stock h # ss, r'))"

lemma stockHalf_exact:
  assumes "0 \<le> a" "0 \<le> r" "r \<le> 1"
  shows "2 * hf_stock (stockHalf a r) + hf_remainder (stockHalf a r) = a + r"
    and "0 \<le> hf_remainder (stockHalf a r)" "hf_remainder (stockHalf a r) \<le> 1"
    and "0 \<le> hf_stock (stockHalf a r)"
proof -
  have eq: "stockHalf a r = \<lparr>hf_stock = a div 2 + (a mod 2 + r) div 2, hf_remainder = (a mod 2 + r) mod 2\<rparr>"
    using assms by (simp add: stockHalf_def Let_def bdiv_nonneg bmod_nonneg)
  show "2 * hf_stock (stockHalf a r) + hf_remainder (stockHalf a r) = a + r" unfolding eq by simp
  show "0 \<le> hf_remainder (stockHalf a r)" "hf_remainder (stockHalf a r) \<le> 1" unfolding eq by simp_all
  show "0 \<le> hf_stock (stockHalf a r)" using assms unfolding eq by (simp add: pos_imp_zdiv_nonneg_iff)
qed

lemma stockHalf_le:
  assumes "0 < a" "0 \<le> r" "r \<le> 1"
  shows "hf_stock (stockHalf a r) \<le> a"
  using stockHalf_exact [of a r] assms by linarith

lemma half_unique: "2 * s + r = t \<Longrightarrow> 0 \<le> r \<Longrightarrow> r \<le> 1 \<Longrightarrow> s = t div 2 \<and> r = t mod (2 :: int)"
  by presburger

text \<open>The odd-unit remainder makes the split fair over time: whatever the amounts of the lots of an
  asset, the stock halves of all lots so far are exactly half of the total, rounded down, and the
  remainder is the unit that does not divide.\<close>

theorem stockHalf_fair:
  assumes "list_all ((\<le>) 0) amounts"
  shows "sum_list (fst (halves 0 amounts)) = sum_list amounts div 2 \<and> snd (halves 0 amounts) = sum_list amounts mod 2"
proof -
  have "0 \<le> r \<Longrightarrow> r \<le> 1 \<Longrightarrow> list_all ((\<le>) 0) xs \<Longrightarrow>
      2 * sum_list (fst (halves r xs)) + snd (halves r xs) = sum_list xs + r \<and> 0 \<le> snd (halves r xs) \<and> snd (halves r xs) \<le> 1" for r xs
  proof (induction xs arbitrary: r)
    case (Cons a as)
    from Cons.prems have a: "0 \<le> a" by simp
    note h = stockHalf_exact [OF a Cons.prems(1,2)]
    with Cons.IH [OF h(2,3)] Cons.prems show ?case by (auto simp: Let_def split: prod.splits)
  qed simp
  from this [of 0 amounts] assms show ?thesis by (intro half_unique) simp_all
qed

theorem stockHalf_fair_witness:
  "fst (halves 0 [7, 3, 5, 4]) = [3, 2, 2, 2] \<and> sum_list (fst (halves 0 [7, 3, 5, 4])) = 19 div 2"
proof -
  have "halves 0 [7, 3, 5, 4] = ([3, 2, 2, 2], 1)" by code_simp
  with stockHalf_fair [of "[7, 3, 5, 4]"] show ?thesis by simp
qed

text \<open>The routing of a lot conserves its amount: what goes to stock, buyback, burn and conversion adds
  up to exactly the amount funded, no part is negative, and nothing of a lot of another launchpad
  (kind 2) is burnt or kept for stock.\<close>

theorem expectedRouting_conserves:
  assumes "expectedRouting kind token amount remainder = Inr r" and "0 < amount" "0 \<le> remainder" "remainder \<le> 1"
  shows "ro_stockUSDC18 r + ro_buybackUSDC18 r + ro_burnRaw r + ro_convertRaw r = amount
    \<and> 0 \<le> ro_stockUSDC18 r \<and> 0 \<le> ro_buybackUSDC18 r \<and> 0 \<le> ro_burnRaw r \<and> 0 \<le> ro_convertRaw r
    \<and> 0 \<le> ro_remainder r \<and> ro_remainder r \<le> 1
    \<and> (kind = OTHER_V2 \<longrightarrow> ro_stockUSDC18 r = 0 \<and> ro_burnRaw r = 0 \<and> ro_protocolDesk r)"
proof -
  have "0 \<le> amount" using assms(2) by simp
  note h = stockHalf_exact [OF this assms(3,4)] stockHalf_le [OF assms(2-4)]
  with assms show ?thesis
    by (simp add: expectedRouting_def Let_def SOLON_V2_def OTHER_V2_def split: if_splits) auto
qed

theorem expectedRouting_conserves_witness:
  "\<exists>r. expectedRouting 1 ZERO 7 1 = Inr r \<and> ro_stockUSDC18 r = 4 \<and> ro_buybackUSDC18 r = 3
     \<and> ro_stockUSDC18 r + ro_buybackUSDC18 r + ro_burnRaw r + ro_convertRaw r = 7"
proof -
  have "expectedRouting 1 ZERO 7 1 = Inr \<lparr>ro_stockUSDC18 = 4, ro_buybackUSDC18 = 3, ro_protocolDesk = False, ro_burnRaw = 0,
      ro_convertRaw = 0, ro_remainder = 0\<rparr>"
    by (simp add: expectedRouting_def stockHalf_def Let_def SOLON_V2_def bmod_def bdiv_def)
  from expectedRouting_conserves [OF this] this show ?thesis by simp
qed

subsection \<open>Buybacks drain a lot\<close>

text \<open>Confirmed buybacks of one lot, each spending the chunk the keeper chose.\<close>

function chunks :: "int \<Rightarrow> int \<Rightarrow> int \<Rightarrow> int list" where
  "chunks budget spent minBuy18 = (if minBuy18 \<le> 0 then [] else
     (case buybackChunk budget spent False minBuy18 of NoBuy _ \<Rightarrow> [] | Buy a \<Rightarrow> a # chunks budget (spent + a) minBuy18))"
  by pat_completeness auto
termination
  by (relation "measure (\<lambda>(budget, spent, _). nat (budget - spent))")
     (auto simp: buybackChunk_def Let_def MAX_BUYBACK_def E18_def split: if_splits)

declare chunks.simps [simp del]

text \<open>The buybacks of a lot end: repeated chunks are each between the minimum buy and 1000 USD, together
  never spend more than the budget, and leave less than the minimum buy unspent.\<close>

theorem buyback_drains:
  assumes "0 < minBuy18" "minBuy18 \<le> MAX_BUYBACK" "0 < budget" "spent \<le> budget"
  shows "list_all (\<lambda>a. minBuy18 \<le> a \<and> a \<le> MAX_BUYBACK) (chunks budget spent minBuy18)
    \<and> sum_list (chunks budget spent minBuy18) \<le> budget - spent
    \<and> budget - spent - sum_list (chunks budget spent minBuy18) < minBuy18"
  using assms
proof (induction budget spent minBuy18 rule: chunks.induct)
  case (1 budget spent minBuy18)
  show ?case
  proof (cases "buybackChunk budget spent False minBuy18")
    case (NoBuy r)
    with 1 show ?thesis by (subst (1 2 3) chunks.simps) (auto simp: buybackChunk_def Let_def split: if_splits)
  next
    case (Buy a)
    have a: "minBuy18 \<le> a" "a \<le> MAX_BUYBACK" "a \<le> budget - spent"
      using Buy "1.prems" by (auto simp: buybackChunk_def Let_def split: if_splits)
    have "chunks budget spent minBuy18 = a # chunks budget (spent + a) minBuy18"
      using Buy "1.prems" by (subst chunks.simps) simp
    with "1.IH" [OF _ Buy] "1.prems" a show ?thesis by simp
  qed
qed

theorem buyback_drains_witness:
  "chunks (2500 * E18) 0 E18 = [1000 * E18, 1000 * E18, 500 * E18] \<and> sum_list (chunks (2500 * E18) 0 E18) \<le> 2500 * E18"
proof -
  have "chunks (2500 * E18) 0 E18 = [1000 * E18, 1000 * E18, 500 * E18]" by code_simp
  with buyback_drains [of E18 "2500 * E18" 0] show ?thesis by (simp add: E18_def MAX_BUYBACK_def)
qed

subsection \<open>Evidence\<close>

text \<open>Evidence that may be funded is backed by transfers to the platform recipient in the same receipt:
  the ERC20 amount is exactly the sum of its transfers, the native amount is within one 6-decimal unit
  of the 0x3600 view transfers (and there is at least one), amounts are non-zero and the source,
  transaction and policy are those of the collect.\<close>

theorem evidence_backed:
  assumes "(e, None) \<in> set (evidenceFromCollect sourceKey collectTx collectBlock recipient tokens transfers delta view policy)"
  shows "ev_amount e \<noteq> 0 \<and> ev_token e \<in> set tokens \<and> ev_source e = sourceKey \<and> ev_collectTx e = collectTx
    \<and> (ev_token e = ZERO \<longrightarrow> ev_amount e = delta \<and> transfers_to view (lower recipient) transfers \<noteq> []
         \<and> \<bar>ev_amount e - sum_list (map tf_value (transfers_to view (lower recipient) transfers)) * 10 ^ 12\<bar> < 10 ^ 12)
    \<and> (ev_token e \<noteq> ZERO \<longrightarrow> ev_amount e = sum_list (map tf_value (transfers_to (ev_token e) (lower recipient) transfers)))"
proof -
  from assms obtain token where token: "token \<in> set tokens"
    "evidence_of sourceKey collectTx collectBlock (lower recipient) transfers delta view policy token = Some (e, None)"
    by (auto simp: evidenceFromCollect_def List.map_filter_def)
  then show ?thesis
    by (cases "token = ZERO") (auto simp: evidence_of_def Let_def sum_of_eq split: if_splits)
qed

definition demo_transfers :: "transfer list" where
  "demo_transfers = [\<lparr>tf_token = ''0x36'', tf_to = ''0xab'', tf_value = 5, tf_logIndex = 3\<rparr>]"

theorem evidence_backed_witness:
  "\<exists>e. evidenceFromCollect ''s'' ''t'' 9 ''0xAB'' [ZERO] demo_transfers 5000000000007 ''0x36'' 1 = [(e, None)] \<and> ev_amount e = 5000000000007
     \<and> \<bar>ev_amount e - sum_list (map tf_value (transfers_to ''0x36'' (lower ''0xAB'') demo_transfers)) * 10 ^ 12\<bar> < 10 ^ 12"
proof -
  let ?es = "evidenceFromCollect ''s'' ''t'' 9 ''0xAB'' [ZERO] demo_transfers 5000000000007 ''0x36'' 1"
  let ?e = "\<lparr>ev_source = ''s'', ev_collectTx = ''t'', ev_collectBlock = 9, ev_logIndex = 3, ev_token = ZERO, ev_amount = 5000000000007, ev_policyVersion = 1\<rparr>"
  have es: "?es = [(?e, None)]" by code_simp
  then have "(?e, None) \<in> set ?es" by simp
  from evidence_backed [OF this] es show ?thesis by (intro exI [of _ ?e]) simp
qed

end
