(* ===== verification/Ingress_Keeper.thy ===== *)
theory Ingress_Keeper
  imports Quotes Ingress_Decide Journal_Codec
begin

section \<open>The fee ingress keeper (\<open>keepers/v3/ingress/keeper.mjs\<close>)\<close>

text \<open>
  One tick: collect fees into lots, advance every lot one step, run the buybacks of the lots, burn what
  was bought and serve the protocol desk vault. \<open>lots\<close> and \<open>burns\<close> are the two record namespaces. The
  chain (\<open>ie_\<close> fields that take the history), the auditors, the price source and the hash function are
  parameters. \<open>ie_now\<close> is what \<open>now()\<close> returns: the injected clock, or the time of the latest block read
  at the start of the tick (\<open>ie_latest\<close>). The log texts of the summary are kept as the datatype \<open>ireport\<close>.
\<close>

subsection \<open>State and environment\<close>

record lot =
  lt_evidence :: evidence
  lt_kind :: int
  lt_name :: string
  lt_observedAt :: int
  lt_quarantined :: bool
  lt_reason :: string
  lt_lotId :: "string option"
  lt_fundedAt :: "int option"
  lt_buybackLots :: "string list option"
  lt_done :: bool

record burn =
  bn_amount :: int
  bn_burned :: bool

datatype irec = RLot lot | RBurn burn

record collect_target =
  ct_splitter :: string
  ct_positionId :: int

record source =
  sc_name :: string
  sc_key :: string
  sc_kind :: int
  sc_tokens :: "string list"
  sc_policyVersion :: int
  sc_collect :: "collect_target option"

datatype icall = CollectFees string int
  | RecordLot evidence "(int \<times> string) list"
  | Approve string string int
  | FundLot string int
  | RouteLot string
  | ConvertLot string "field list"
  | ExecuteBuy buyback_quote string
  | BurnPending string
  | MintAvailable int
  | SweepOverflow

datatype ireport = Action string send_status | Skip string string | CollectNoSigner | Seam string | Quarantined_lot string | Alert string

record collect_receipt =
  cr_hash :: string
  cr_block :: int
  cr_gasUsed :: int
  cr_gasPrice :: "int option"
  cr_transfers :: "transfer list"

record pending_lot =
  pd_token :: string
  pd_raw :: int
  pd_kind :: int

record buy_lot =
  bl_budget :: int
  bl_spent :: int
  bl_executed :: bool
  bl_protocolDesk :: bool

record vault_view =
  vv_address :: string
  vv_pendingSolon :: int
  vv_perDesk :: int
  vv_protocolMinted :: int
  vv_totalSupply :: int
  vv_maxSupply :: int

type_synonym ih = "icall history"

record ienv =
  ie_sources :: "source list"
  ie_collectEnabled :: bool
  ie_thresholdUsd18 :: int
  ie_minBuy18 :: int
  ie_buybackSlippageBps :: int
  ie_conversionTtl :: int
  ie_chainId :: int
  ie_from :: "string option"
  ie_ingress :: string
  ie_router :: string
  ie_executor :: string
  ie_deskVault :: "string option"
  ie_H :: "message \<Rightarrow> string"
  ie_receiptKey :: "evidence \<Rightarrow> string"
  ie_lotId :: "string \<Rightarrow> string"
  ie_ms :: "ih \<Rightarrow> int"
  ie_now :: "ih \<Rightarrow> int"
  ie_latest :: "(ih \<Rightarrow> int result) option"
  ie_fees :: "(source \<Rightarrow> ih \<Rightarrow> int result) option"
  ie_receipt :: "ih \<Rightarrow> collect_receipt result"
  ie_balance :: "string \<Rightarrow> int \<Rightarrow> ih \<Rightarrow> int result"
  ie_digest :: "evidence \<Rightarrow> ih \<Rightarrow> string result"
  ie_lotInfo :: "string \<Rightarrow> ih \<Rightarrow> (ingress_lot \<times> bool) result"
  ie_routerState :: "string \<Rightarrow> ih \<Rightarrow> router_lot result"
  ie_auditors :: "(string \<Rightarrow> (int \<times> string) list result) option"
  ie_auditorAt :: "int \<Rightarrow> ih \<Rightarrow> string option"
  ie_recover :: "string \<Rightarrow> string \<Rightarrow> string"
  ie_allowance :: "string \<Rightarrow> ih \<Rightarrow> int result"
  ie_pending :: "string \<Rightarrow> ih \<Rightarrow> pending_lot result"
  ie_assetConverter :: "string \<Rightarrow> ih \<Rightarrow> string result"
  ie_converter :: "ih \<Rightarrow> string result"
  ie_nextConversionId :: "string \<Rightarrow> ih \<Rightarrow> string result"
  ie_binding :: "string \<Rightarrow> ih \<Rightarrow> conv_binding result"
  ie_convSigner :: "string \<Rightarrow> ih \<Rightarrow> string result"
  ie_convDigest :: "string \<Rightarrow> conv_quote \<Rightarrow> ih \<Rightarrow> string result"
  ie_quoteSigner :: "quote_signer option"
  ie_usdValue18 :: "(string \<Rightarrow> int \<Rightarrow> ih \<Rightarrow> int result) option"
  ie_solonPerUsdc18 :: "(ih \<Rightarrow> int result) option"
  ie_nonce :: "ih \<Rightarrow> int"
  ie_lots :: "string \<Rightarrow> ih \<Rightarrow> buy_lot result"
  ie_config :: "ih \<Rightarrow> buyback_config result"
  ie_pricePolicy :: "ih \<Rightarrow> int result"
  ie_vault :: "ih \<Rightarrow> string result"
  ie_buyDigest :: "buyback_quote \<Rightarrow> ih \<Rightarrow> string result"
  ie_bought :: "ih \<Rightarrow> (string \<times> int) list"
  ie_burnState :: "string \<Rightarrow> ih \<Rightarrow> int result"
  ie_vaultView :: "ih \<Rightarrow> vault_view result"

type_synonym 'a iop = "((irec, icall, ireport) kst, 'a) op"

definition ikey :: "ienv \<Rightarrow> string \<Rightarrow> string \<Rightarrow> string result" where
  "ikey v contract op = taskKey (show_int (ie_chainId v)) contract op ''1''"

definition lots_of :: "irec journal \<Rightarrow> lot list" where
  "lots_of j = List.map_filter (\<lambda>r. case r of RLot l \<Rightarrow> Some l | RBurn _ \<Rightarrow> None) (records_in j ''lots'')"

definition burns_of :: "irec journal \<Rightarrow> (string \<times> burn) list" where
  "burns_of j = List.map_filter (\<lambda>(i, r). case r of RBurn b \<Rightarrow> Some (i, b) | RLot _ \<Rightarrow> None) (entries j ''burns'')"

text \<open>A patch of a lot record; a lot that is not there yet starts with every optional field missing.\<close>

definition new_lot :: "evidence \<Rightarrow> lot" where
  "new_lot e = \<lparr>lt_evidence = e, lt_kind = 0, lt_name = [], lt_observedAt = 0, lt_quarantined = False, lt_reason = [],
     lt_lotId = None, lt_fundedAt = None, lt_buybackLots = None, lt_done = False\<rparr>"

definition patch_lot :: "evidence \<Rightarrow> (lot \<Rightarrow> lot) \<Rightarrow> irec option \<Rightarrow> irec" where
  "patch_lot e f r = (case r of Some (RLot l) \<Rightarrow> RLot (f l) | _ \<Rightarrow> RLot (f (new_lot e)))"

definition patch_burn :: "(burn \<Rightarrow> burn) \<Rightarrow> irec option \<Rightarrow> irec" where
  "patch_burn f r = (case r of Some (RBurn b) \<Rightarrow> RBurn (f b) | _ \<Rightarrow> RBurn (f \<lparr>bn_amount = 0, bn_burned = False\<rparr>))"

definition set_lot :: "ienv \<Rightarrow> string \<Rightarrow> evidence \<Rightarrow> (lot \<Rightarrow> lot) \<Rightarrow> unit iop" where
  "set_lot v rid e f = put_rec (ie_ms v) ''lots'' rid (patch_lot e f)"

definition set_burn :: "ienv \<Rightarrow> string \<Rightarrow> (burn \<Rightarrow> burn) \<Rightarrow> unit iop" where
  "set_burn v i f = put_rec (ie_ms v) ''burns'' i (patch_burn f)"

definition report :: "string \<Rightarrow> send_result \<Rightarrow> unit iop" where
  "report kind res = emit (Action kind (sr_status res))"

definition clock :: "ienv \<Rightarrow> int iop" where
  "clock v = rd (\<lambda>h. Inr (ie_now v h))"

subsection \<open>1. Collect\<close>

definition observe_evidence :: "ienv \<Rightarrow> source \<Rightarrow> evidence \<times> mismatch option \<Rightarrow> unit iop" where
  "observe_evidence v s = (\<lambda>(e, mm).
     let receiptKey = ie_receiptKey v e in
     bindk (clock v) (\<lambda>now.
     case mm of
       Some m \<Rightarrow>
         thenk (set_lot v receiptKey e (\<lambda>l. l\<lparr>lt_evidence := e, lt_kind := sc_kind s, lt_name := sc_name s, lt_observedAt := now,
              lt_quarantined := True, lt_reason := ''native fee does not match the view''\<rparr>))
        (thenk (emit (Quarantined_lot receiptKey)) (emit (Alert (''collect-'' @ receiptKey))))
     | None \<Rightarrow> set_lot v receiptKey e (\<lambda>l. l\<lparr>lt_evidence := e, lt_kind := sc_kind s, lt_name := sc_name s, lt_observedAt := now\<rparr>)))"

definition VIEW_TOKEN :: string where
  "VIEW_TOKEN = ''0x3600000000000000000000000000000000000000''"

definition maybeCollect :: "ienv \<Rightarrow> icall caller \<Rightarrow> source \<Rightarrow> collect_target \<Rightarrow> unit iop" where
  "maybeCollect v net s target =
     bindk (case ie_fees v of Some f \<Rightarrow> rd (f s) | None \<Rightarrow> ret 0) (\<lambda>est.
     if collectDecision est (ie_thresholdUsd18 v) 0 100 \<noteq> Collect then emit (Skip ''collect'' (sc_name s))
     else case ie_from v of None \<Rightarrow> emit CollectNoSigner
     | Some recipient \<Rightarrow>
        bindk (clock v) (\<lambda>now.
        bindk (call_at net (ikey v (ct_splitter target) (''collect:'' @ sc_name s @ '':'' @ show_int (now div 300)))
                (CollectFees (ct_splitter target) (ct_positionId target))) (\<lambda>res.
        thenk (report ''collect'' res)
        (if sr_status res \<noteq> StConfirmed then ret ()
         else
          bindk (rd (ie_receipt v)) (\<lambda>r.
          bindk (rd (ie_balance v recipient (cr_block r - 1))) (\<lambda>before.
          bindk (rd (ie_balance v recipient (cr_block r))) (\<lambda>after.
          let nativeDelta = after - before + cr_gasUsed r * (case cr_gasPrice r of Some p \<Rightarrow> p | None \<Rightarrow> 0) in
          each (observe_evidence v s)
            (evidenceFromCollect (sc_key s) (cr_hash r) (cr_block r) recipient (sc_tokens s) (cr_transfers r)
               nativeDelta VIEW_TOKEN (sc_policyVersion s)))))))))"

subsection \<open>2/3. Record, fund, route, convert\<close>

definition check_auditor :: "ienv \<Rightarrow> string \<Rightarrow> int \<times> string \<Rightarrow> unit iop" where
  "check_auditor v digest = (\<lambda>(i, sig).
     bindk (rd (\<lambda>h. Inr (ie_auditorAt v i h))) (\<lambda>expected.
     if (case expected of None \<Rightarrow> True | Some a \<Rightarrow> lower (ie_recover v digest sig) \<noteq> lower a)
     then throw ''auditor signature does not match on-chain auditor'' else ret ()))"

definition record_lot :: "ienv \<Rightarrow> icall caller \<Rightarrow> string \<Rightarrow> evidence \<Rightarrow> string \<Rightarrow> string \<Rightarrow> unit iop" where
  "record_lot v net rid e digest lotId =
     (case ie_auditors v of None \<Rightarrow> throw ''no auditors'' | Some sign \<Rightarrow>
      bindk (rd (\<lambda>_. sign digest)) (\<lambda>sigs.
      thenk (each (check_auditor v digest) sigs)
      (bindk (call_at net (ikey v (ie_ingress v) (''record:'' @ rid)) (RecordLot e sigs)) (\<lambda>res.
       thenk (report ''recordLot'' res)
       (if sent_ok res then set_lot v rid e (\<lambda>l. l\<lparr>lt_lotId := Some lotId\<rparr>) else ret ())))))"

definition fund_lot :: "ienv \<Rightarrow> icall caller \<Rightarrow> string \<Rightarrow> evidence \<Rightarrow> string \<Rightarrow> bool \<Rightarrow> unit iop" where
  "fund_lot v net rid e lotId native =
     bindk (if native then ret True
        else bindk (rd (ie_allowance v (ev_token e))) (\<lambda>allowed.
          if allowed < ev_amount e
          then bindk (call_at net (ikey v (ev_token e) (''approve:'' @ lotId)) (Approve (ev_token e) (ie_ingress v) (ev_amount e)))
                 (\<lambda>ar. ret (sent_ok ar))
          else ret True)) (\<lambda>go.
     if \<not> go then ret () else
     bindk (call_at net (ikey v (ie_ingress v) (''fund:'' @ lotId)) (FundLot lotId (if native then ev_amount e else 0))) (\<lambda>res.
     thenk (report ''fundLot'' res)
     (if sent_ok res
      then bindk (clock v) (\<lambda>now. set_lot v rid e (\<lambda>l. l\<lparr>lt_fundedAt := Some now, lt_buybackLots := Some (if native then [lotId] else [])\<rparr>))
      else ret ())))"

definition convert :: "ienv \<Rightarrow> icall caller \<Rightarrow> string \<Rightarrow> evidence \<Rightarrow> string \<Rightarrow> unit iop" where
  "convert v net rid e lotId =
     bindk (rd (ie_pending v lotId)) (\<lambda>pend.
     bindk (rd (ie_assetConverter v (pd_token pend))) (\<lambda>ac.
     bindk (if ac \<noteq> ZERO then ret ac else rd (ie_converter v)) (\<lambda>selected.
     if selected = ZERO then emit (Seam ''V2FeeConverter for asset'') else
     bindk (rd (ie_nextConversionId v lotId)) (\<lambda>slice.
     case (ie_quoteSigner v, ie_usdValue18 v) of
       (Some signer, Some usdValue18) \<Rightarrow>
         bindk (rd (ie_binding v selected)) (\<lambda>binding.
         bindk (rd (usdValue18 (pd_token pend) (pd_raw pend))) (\<lambda>value18.
         if value18 = 0 \<or> value18 > 1000 * E18 then emit (Skip ''convert'' ''value outside (0,$1000]; split needed'') else
         bindk (clock v) (\<lambda>issuedAt.
         bindk (rd (\<lambda>h. Inr (ie_nonce v h))) (\<lambda>nonce.
         let q = \<lparr>cq_lotId = slice, cq_asset = pd_token pend, cq_raw = pd_raw pend,
                  cq_minUSDC18 = conversionMinFloor value18 (cb_lpFeePpm binding), cq_value18 = value18, cq_issuedAt = issuedAt,
                  cq_deadline = issuedAt + ie_conversionTtl v, cq_nonce = nonce, cq_fees18 = 0\<rparr> in
         bindk (rd (ie_convSigner v selected)) (\<lambda>expected.
         bindk (signChecked (conversionQuoteDigest (ie_H v) (ie_chainId v) selected binding q) (rd (ie_convDigest v selected q)) signer (Some expected)) (\<lambda>sig.
         bindk (call_at net (ikey v (ie_router v) (''convert:'' @ slice)) (ConvertLot lotId (encodeConversionQuoteData q sig))) (\<lambda>res.
         thenk (report ''convertLot'' res)
         (if sent_ok res \<and> pd_kind pend = 2
          then set_lot v rid e (\<lambda>l. l\<lparr>lt_buybackLots := Some ((case lt_buybackLots l of Some ls \<Rightarrow> ls | None \<Rightarrow> []) @ [slice])\<rparr>)
          else ret ()))))))))
     | _ \<Rightarrow> emit (Seam ''conversion quote signer/price'')))))"

definition advanceLot :: "ienv \<Rightarrow> icall caller \<Rightarrow> lot \<Rightarrow> unit iop" where
  "advanceLot v net l =
     (if lt_done l \<or> lt_quarantined l then ret () else
      let e = lt_evidence l; native = (ev_token e = ZERO); rid = ie_receiptKey v e in
      bindk (rd (ie_digest v e)) (\<lambda>digest.
      let lotId = ie_lotId v digest in
      bindk (rd (ie_lotInfo v lotId)) (\<lambda>(istate, admitted).
      bindk (rd (ie_routerState v lotId)) (\<lambda>rstate.
      case lotNextAction istate admitted rstate native (ie_auditors v \<noteq> None) of
        AwaitAudit \<Rightarrow> emit (Seam ''auditor signatures'')
      | Record \<Rightarrow> record_lot v net rid e digest lotId
      | QuarantineLot reason \<Rightarrow>
          thenk (set_lot v rid e (\<lambda>l. l\<lparr>lt_quarantined := True, lt_lotId := Some lotId, lt_reason := reason\<rparr>))
         (thenk (emit (Quarantined_lot lotId)) (emit (Alert (''lot-'' @ lotId))))
      | Fund \<Rightarrow> fund_lot v net rid e lotId native
      | Route \<Rightarrow> bindk (call_at net (ikey v (ie_router v) (''route:'' @ lotId)) (RouteLot lotId)) (\<lambda>res. report ''routeLot'' res)
      | Convert \<Rightarrow> convert v net rid e lotId
      | Done \<Rightarrow> set_lot v rid e (\<lambda>l. l\<lparr>lt_done := True\<rparr>)
      | WaitRouter \<Rightarrow> ret ()))))"

definition advanceLots :: "ienv \<Rightarrow> icall caller \<Rightarrow> unit iop" where
  "advanceLots v net = bindk (getj lots_of) (each (advanceLot v net))"

subsection \<open>4. Buybacks\<close>

definition buyback_ids :: "irec journal \<Rightarrow> string list" where
  "buyback_ids j = rev (remdups (rev (concat (map (\<lambda>l. case lt_buybackLots l of Some ls \<Rightarrow> ls | None \<Rightarrow> []) (lots_of j)))))"

definition runBuyback :: "ienv \<Rightarrow> icall caller \<Rightarrow> string \<Rightarrow> unit iop" where
  "runBuyback v net i =
     bindk (rd (ie_lots v i)) (\<lambda>bl.
     case buybackChunk (bl_budget bl) (bl_spent bl) (bl_executed bl) (ie_minBuy18 v) of
       NoBuy _ \<Rightarrow> ret ()
     | Buy amount \<Rightarrow>
       (case (ie_quoteSigner v, ie_solonPerUsdc18 v) of
          (Some signer, Some solonPerUsdc18) \<Rightarrow>
            bindk (rd (ie_config v)) (\<lambda>config.
            bindk (clock v) (\<lambda>quotedAt.
            bindk (rd solonPerUsdc18) (\<lambda>price.
            bindk (rd (\<lambda>_. buybackMinOut amount price (ie_buybackSlippageBps v))) (\<lambda>minOut.
            bindk (rd (ie_pricePolicy v)) (\<lambda>policy.
            bindk (rd (\<lambda>h. Inr (ie_nonce v h))) (\<lambda>nonce.
            let q = \<lparr>bq_lotId = i, bq_budget = amount, bq_minOut = minOut, bq_pricePolicyVersion = policy, bq_quotedAt = quotedAt,
                     bq_deadline = quotedAt + 50, bq_nonce = nonce\<rparr> in
            bindk (if bl_protocolDesk bl then ret (bc_protocolDesk config) else rd (ie_vault v)) (\<lambda>recipient.
            bindk (signChecked (buybackQuoteDigest (ie_H v) (ie_chainId v) (ie_executor v) config recipient q)
                     (rd (ie_buyDigest v q)) signer (Some (bc_signer config))) (\<lambda>sig.
            bindk (call_at net (ikey v (ie_executor v) (''buy:'' @ i @ '':'' @ show_int (bl_spent bl))) (ExecuteBuy q sig)) (\<lambda>res.
            thenk (report ''buyback'' res)
            (if sent_ok res
             then bindk (rd (\<lambda>h. Inr (ie_bought v h)))
                    (\<lambda>logs. each (\<lambda>(lotId, received). if bl_protocolDesk bl then ret () else set_burn v lotId (\<lambda>b. b\<lparr>bn_amount := received\<rparr>)) logs)
             else ret ()))))))))))
        | _ \<Rightarrow> emit (Seam ''buyback quote signer/price'')))"

definition runBuybacks :: "ienv \<Rightarrow> icall caller \<Rightarrow> unit iop" where
  "runBuybacks v net = bindk (getj buyback_ids) (each (runBuyback v net))"

subsection \<open>5. Burn and protocol desk\<close>

definition burn_one :: "ienv \<Rightarrow> icall caller \<Rightarrow> string \<Rightarrow> string \<times> burn \<Rightarrow> unit iop" where
  "burn_one v net vault = (\<lambda>(i, b).
     if bn_burned b then ret () else
     bindk (rd (ie_burnState v i)) (\<lambda>s.
     if s \<noteq> 1 then (if s = 2 then set_burn v i (\<lambda>b. b\<lparr>bn_burned := True\<rparr>) else ret ())
     else bindk (call_at net (ikey v vault (''burn:'' @ i)) (BurnPending i)) (\<lambda>res. report ''burnPending'' res)))"

definition runBurnAndDesk :: "ienv \<Rightarrow> icall caller \<Rightarrow> unit iop" where
  "runBurnAndDesk v net =
     bindk (rd (ie_vault v)) (\<lambda>vault.
     bindk (getj burns_of) (\<lambda>burns.
     thenk (each (burn_one v net vault) burns)
     (case ie_deskVault v of None \<Rightarrow> ret ()
      | Some dv \<Rightarrow>
        bindk (rd (ie_vaultView v)) (\<lambda>w.
        case deskPlan (vv_pendingSolon w) (vv_perDesk w) (vv_protocolMinted w) 1000 (vv_totalSupply w) (vv_maxSupply w) True of
          Mint cards \<Rightarrow> bindk (call_at net (ikey v dv (''mint:'' @ show_int (vv_protocolMinted w))) (MintAvailable cards)) (\<lambda>res. report ''deskMint'' res)
        | Sweep \<Rightarrow> bindk (call_at net (ikey v dv (''sweep:'' @ show_int (vv_pendingSolon w))) SweepOverflow) (\<lambda>res. report ''deskSweep'' res)
        | NoPlan _ \<Rightarrow> ret ()))))"

subsection \<open>The tick\<close>

definition ingress_tick :: "ienv \<Rightarrow> icall caller \<Rightarrow> icall settler \<Rightarrow> unit iop" where
  "ingress_tick v net settler =
     thenk (case ie_latest v of Some f \<Rightarrow> bindk (rd f) (\<lambda>_. ret ()) | None \<Rightarrow> ret ())
     (thenk (settle_all settler)
     (thenk (each (\<lambda>s. case sc_collect s of Some t \<Rightarrow> (if ie_collectEnabled v then maybeCollect v net s t else ret ()) | None \<Rightarrow> ret ()) (ie_sources v))
     (thenk (advanceLots v net)
     (thenk (runBuybacks v net) (runBurnAndDesk v net)))))"

end
