(* ===== verification/Ingress_Safety.thy ===== *)
theory Ingress_Safety
  imports Ingress_Keeper
begin

section \<open>What the ingress keeper asks for, and when\<close>

subsection \<open>Justified calls\<close>

definition admitted_at :: "ienv \<Rightarrow> evidence \<Rightarrow> string \<Rightarrow> ih \<Rightarrow> bool" where
  "admitted_at v e lotId h \<longleftrightarrow> (\<exists>digest. ie_digest v e h = Inr digest \<and> lotId = ie_lotId v digest \<and> ie_lotInfo v lotId h = Inr (ILObserved, True))"

text \<open>The reason the chain and the signers gave for a call, in the history it was made in.\<close>

fun justified :: "ienv \<Rightarrow> ih \<Rightarrow> string \<Rightarrow> icall \<Rightarrow> bool" where
  "justified v h k (FundLot lotId value) = (\<exists>h1 e. earlier h1 h \<and> admitted_at v e lotId h1 \<and> value = (if ev_token e = ZERO then ev_amount e else 0))"
| "justified v h k (RecordLot e sigs) = (\<exists>digest. ie_digest v e h = Inr digest \<and>
     list_all (\<lambda>(i, sig). \<exists>a. ie_auditorAt v i h = Some a \<and> lower (ie_recover v digest sig) = lower a) sigs)"
| "justified v h k (ExecuteBuy q sig) = (\<exists>bl signer digest remote config. ie_lots v (bq_lotId q) h = Inr bl \<and> ie_config v h = Inr config
     \<and> \<not> bl_executed bl \<and> min (ie_minBuy18 v) MAX_BUYBACK \<le> bq_budget q \<and> bq_budget q \<le> MAX_BUYBACK \<and> bq_budget q \<le> bl_budget bl - bl_spent bl
     \<and> bq_deadline q = bq_quotedAt q + 50 \<and> bq_minOut q \<noteq> 0
     \<and> ie_quoteSigner v = Some signer \<and> sig = qs_sign signer digest \<and> ie_buyDigest v q h = Inr remote \<and> lower remote = lower digest)"
| "justified v h k (ConvertLot lotId payload) = (\<exists>q sig signer digest remote conv b. payload = encodeConversionQuoteData q sig
     \<and> ie_nextConversionId v lotId h = Inr (cq_lotId q) \<and> cq_value18 q \<noteq> 0 \<and> cq_value18 q \<le> 1000 * E18
     \<and> ie_binding v conv h = Inr b \<and> cq_minUSDC18 q = conversionMinFloor (cq_value18 q) (cb_lpFeePpm b)
     \<and> ie_quoteSigner v = Some signer \<and> sig = qs_sign signer digest \<and> ie_convDigest v conv q h = Inr remote \<and> lower remote = lower digest)"
| "justified v h k (BurnPending i) = (ie_burnState v i h = Inr 1)"
| "justified v h k (MintAvailable n) = (n \<noteq> 0 \<and> n \<le> 20)"
| "justified v h k (RouteLot lotId) = (ie_routerState v lotId h = Inr RLRawFunded)"
| "justified v h k c = True"

definition just :: "ienv \<Rightarrow> (irec, icall, ireport) kst \<Rightarrow> bool" where
  "just v st \<longleftrightarrow> asked (justified v) (hist st)"

lemma just_prims [simp]:
  "just v (st\<lparr>kj := j\<rparr>) = just v st"
  "just v (st\<lparr>outs := os\<rparr>) = just v st"
  "just v (st\<lparr>hist := h\<rparr>) = asked (justified v) h"
  "just v (st\<lparr>kj := j, hist := h\<rparr>) = asked (justified v) h"
  "asked (justified v) (hist st) = just v st"
  by (simp_all add: just_def)

lemma wp_set_lot [wps]: "(\<And>j. Q () (st\<lparr>kj := j\<rparr>)) \<Longrightarrow> wp (set_lot v rid e f) Q E st"
  by (simp add: set_lot_def wp_put_rec)

lemma wp_set_burn [wps]: "(\<And>j. Q () (st\<lparr>kj := j\<rparr>)) \<Longrightarrow> wp (set_burn v i f) Q E st"
  by (simp add: set_burn_def wp_put_rec)

lemma wp_report [wps]: "Q () (st\<lparr>outs := outs st @ [Action k (sr_status res)]\<rparr>) \<Longrightarrow> wp (report k res) Q E st"
  by (simp add: report_def wp_emit)

lemma wp_clock [wps]: "Q (ie_now v (hist st)) st \<Longrightarrow> E st \<Longrightarrow> wp (clock v) Q E st"
  by (auto simp: clock_def intro!: wps)

subsection \<open>Each operation\<close>

lemma just_observe: "just v st \<Longrightarrow> wp (observe_evidence v s x) (\<lambda>_. just v) (just v) st"
  unfolding observe_evidence_def by (intro wps) auto

lemma just_collect: "just v st \<Longrightarrow> wp (maybeCollect v net s t) (\<lambda>_. just v) (just v) st"
  unfolding maybeCollect_def by (intro wps wp_each just_observe) simp_all

lemma check_auditors:
  "just v st \<Longrightarrow> wp (each (check_auditor v digest) sigs) (\<lambda>_ st1. st1 = st \<and>
     list_all (\<lambda>(i, sig). \<exists>a. ie_auditorAt v i (hist st) = Some a \<and> lower (ie_recover v digest sig) = lower a) sigs) (just v) st"
proof (induction sigs)
  case (Cons s sigs)
  obtain i sig where s: "s = (i, sig)" by (cases s)
  show ?case unfolding each.simps s check_auditor_def prod.case
    by (intro wps) (auto intro: wp_cons [OF Cons.IH [OF Cons.prems, unfolded check_auditor_def]] Cons.prems split: option.splits)
qed (auto intro: wps)

lemma just_record_lot:
  "just v st \<Longrightarrow> ie_digest v e (hist st) = Inr digest \<Longrightarrow> wp (record_lot v net rid e digest lotId) (\<lambda>_. just v) (just v) st"
  unfolding record_lot_def
  by (intro wps wp_cons [OF check_auditors]) auto

lemma just_fund_lot:
  "just v st \<Longrightarrow> admitted_at v e lotId (hist st) \<Longrightarrow> wp (fund_lot v net rid e lotId (ev_token e = ZERO)) (\<lambda>_. just v) (just v) st"
  unfolding fund_lot_def
  by (intro wps) (auto intro: earlier_snoc intro!: exI [of _ "hist st"] exI [of _ e])

lemma justified_Convert:
  "ie_binding v conv h = Inr b \<Longrightarrow> ie_convDigest v conv q h = Inr remote \<Longrightarrow> ie_nextConversionId v lotId h = Inr (cq_lotId q) \<Longrightarrow>
   cq_value18 q \<noteq> 0 \<and> \<not> 1000 * E18 < cq_value18 q \<Longrightarrow> cq_minUSDC18 q = conversionMinFloor (cq_value18 q) (cb_lpFeePpm b) \<Longrightarrow>
   ie_quoteSigner v = Some signer \<Longrightarrow> lower remote = lower digest \<Longrightarrow>
   justified v h k (ConvertLot lotId (encodeConversionQuoteData q (qs_sign signer digest)))"
  unfolding justified.simps by (rule exI [of _ q], rule exI [of _ "qs_sign signer digest"]) (auto simp: linorder_not_less)

lemma justified_Buy:
  "ie_lots v (bq_lotId q) h = Inr bl \<Longrightarrow> ie_config v h = Inr config \<Longrightarrow> ie_buyDigest v q h = Inr remote \<Longrightarrow>
   buybackChunk (bl_budget bl) (bl_spent bl) (bl_executed bl) (ie_minBuy18 v) = Buy (bq_budget q) \<Longrightarrow>
   buybackMinOut (bq_budget q) price slip = Inr (bq_minOut q) \<Longrightarrow> bq_deadline q = bq_quotedAt q + 50 \<Longrightarrow>
   ie_quoteSigner v = Some signer \<Longrightarrow> lower remote = lower digest \<Longrightarrow>
   justified v h k (ExecuteBuy q (qs_sign signer digest))"
  by (auto simp: buybackChunk_def buybackMinOut_def Let_def split: if_splits)

lemma just_convert: "just v st \<Longrightarrow> wp (convert v net rid e lotId) (\<lambda>_. just v) (just v) st"
  unfolding convert_def
  apply (intro wps)
  apply (simp_all del: justified.simps)
  apply (auto simp del: justified.simps intro!: wps split: option.splits)
  apply (rule justified_Convert; (assumption | simp))+
  done

lemma just_buyback: "just v st \<Longrightarrow> wp (runBuyback v net i) (\<lambda>_. just v) (just v) st"
  unfolding runBuyback_def
  apply (intro wps)
  apply (auto simp del: justified.simps intro!: wps wp_each split: option.splits buy_chunk.splits prod.splits)
  apply (rule justified_Buy; (assumption | simp))+
  done

lemma lotNextAction_cases:
  "lotNextAction i admitted r native sigs = Fund \<Longrightarrow> i = ILObserved \<and> admitted"
  "lotNextAction i admitted r native sigs = Route \<Longrightarrow> r = RLRawFunded"
  by (auto simp: lotNextAction_def split: if_splits router_lot.splits)

lemma just_advance: "just v st \<Longrightarrow> wp (advanceLot v net l) (\<lambda>_. just v) (just v) st"
  unfolding advanceLot_def
  apply (intro wps)
  apply (auto simp del: justified.simps intro!: wps just_convert just_fund_lot just_record_lot split: lot_action.splits)
  apply (auto dest!: lotNextAction_cases simp: admitted_at_def)
  done

lemma just_burn_one: "just v st \<Longrightarrow> wp (burn_one v net vault x) (\<lambda>_. just v) (just v) st"
  unfolding burn_one_def by (intro wps) auto

lemma just_burn_desk: "just v st \<Longrightarrow> wp (runBurnAndDesk v net) (\<lambda>_. just v) (just v) st"
proof -
  have burns: "wp (each (burn_one v net vault) bs) (\<lambda>_. just v) (just v) st1" if "just v st1" for vault bs st1
    by (rule wp_each) (auto intro: just_burn_one that)
  assume "just v st"
  then show ?thesis unfolding runBurnAndDesk_def
    by (intro wps wp_cons [OF burns]) (auto simp: deskPlan_def Let_def intro!: wps split: desk_plan.splits if_splits)
qed

lemma just_buybacks: "just v st \<Longrightarrow> wp (runBuybacks v net) (\<lambda>_. just v) (just v) st"
  unfolding runBuybacks_def by (intro wps wp_each just_buyback)

lemma just_advanceLots: "just v st \<Longrightarrow> wp (advanceLots v net) (\<lambda>_. just v) (just v) st"
  unfolding advanceLots_def by (intro wps wp_each just_advance)

lemma just_tick: "just v st \<Longrightarrow> wp (ingress_tick v net settler) (\<lambda>_. just v) (just v) st"
proof -
  have collects: "wp (each (\<lambda>s. case sc_collect s of Some t \<Rightarrow> (if ie_collectEnabled v then maybeCollect v net s t else ret ()) | None \<Rightarrow> ret ()) (ie_sources v))
      (\<lambda>_. just v) (just v) st1" if "just v st1" for st1
    by (rule wp_each) (auto intro!: wps just_collect that)
  assume "just v st"
  then show ?thesis unfolding ingress_tick_def
    by (intro wps wp_cons [OF collects] wp_cons [OF just_advanceLots] wp_cons [OF just_buybacks] just_burn_desk) simp_all
qed


subsection \<open>A funding transaction confirmed late\<close>

text \<open>
  The lot id of a native lot enters \<open>buybackLots\<close> only in the tick that saw \<open>fundLot\<close> confirmed. When the
  sender reports the transaction in flight (the wait timed out) and it lands later, the next tick finds
  the lot funded and its routing done, and closes the record without it; \<open>buyback_ids\<close> then never
  contains the lot.
\<close>

definition lot_at :: "irec journal \<Rightarrow> string \<Rightarrow> lot option" where
  "lot_at j rid = (case record_of j (''lots'', rid) of Some (RLot l) \<Rightarrow> Some l | _ \<Rightarrow> None)"

lemma lot_at_set_lot: "lot_at (kj (snd (set_lot v rid e f st))) rid' =
    (if rid' = rid then Some (f (case lot_at (kj st) rid of Some l \<Rightarrow> l | None \<Rightarrow> new_lot e)) else lot_at (kj st) rid')"
  by (auto simp: lot_at_def set_lot_def patch_lot_def split: option.splits irec.splits)

lemma lot_at_call [simp]: "lot_at (kj (snd (call net k c st))) rid = lot_at (kj st) rid"
  by (simp add: lot_at_def)

text \<open>A native lot whose funding transaction does not confirm within its own tick loses its buyback: the
  tick that funds it leaves the record as it was, the tick that finds it funded marks it done with no
  buyback lot, and no later tick touches it again, so the keeper never buys with the budget the router
  credited for it.\<close>

theorem late_funding_loses_buyback:
  assumes rec: "lot_at (kj st) (ie_receiptKey v1 (lt_evidence l)) = Some l" and fresh: "\<not> lt_done l" "\<not> lt_quarantined l" "lt_buybackLots l = None"
    and native: "ev_token (lt_evidence l) = ZERO" and contract: "ie_ingress v1 \<noteq> []" and same: "ie_receiptKey v2 = ie_receiptKey v1"
    and chain1: "ie_digest v1 (lt_evidence l) (hist st) = Inr d" "ie_lotInfo v1 (ie_lotId v1 d) (hist st) = Inr (ILObserved, True)"
      "ie_routerState v1 (ie_lotId v1 d) (hist st) = Inr RLNone"
    and inflight: "\<And>k ts. net (hist st) k (FundLot (ie_lotId v1 d) (ev_amount (lt_evidence l))) ts = (Inr (result_of StInflight), ts)"
    and st1: "st1 = snd (advanceLot v1 net l st)"
    and chain2: "ie_digest v2 (lt_evidence l) (hist st1) = Inr d" "ie_lotInfo v2 (ie_lotId v2 d) (hist st1) = Inr (ILFunded, a)"
      "ie_routerState v2 (ie_lotId v2 d) (hist st1) = Inr RLDone"
  shows "lot_at (kj st1) (ie_receiptKey v1 (lt_evidence l)) = Some l
    \<and> lot_at (kj (snd (advanceLot v2 net2 l st1))) (ie_receiptKey v1 (lt_evidence l)) = Some (l\<lparr>lt_done := True\<rparr>)
    \<and> lt_buybackLots (l\<lparr>lt_done := True\<rparr>) = None
    \<and> (\<forall>v3 net3 st3. advanceLot v3 net3 (l\<lparr>lt_done := True\<rparr>) st3 = (Inr (), st3))"
proof -
  obtain k where k: "ikey v1 (ie_ingress v1) (''fund:'' @ ie_lotId v1 d) = Inr k"
    using contract by (simp add: ikey_def taskKey_def)
  have "advanceLot v1 net l st = report ''fundLot'' (result_of StInflight) (snd (call net k (FundLot (ie_lotId v1 d) (ev_amount (lt_evidence l))) st))"
    using fresh native chain1 k inflight
    by (simp add: advanceLot_def fund_lot_def lotNextAction_def call_at_def call_def sent_ok_def result_of_def report_def
          bindk_def thenk_def rd_def ret_def emit_def Let_def)
  then have one: "lot_at (kj st1) (ie_receiptKey v1 (lt_evidence l)) = Some l"
    using rec by (simp add: st1 report_def emit_def)
  have "advanceLot v2 net2 l st1 = set_lot v2 (ie_receiptKey v2 (lt_evidence l)) (lt_evidence l) (\<lambda>l. l\<lparr>lt_done := True\<rparr>) st1"
    using fresh native chain2 by (simp add: advanceLot_def lotNextAction_def bindk_def rd_def Let_def)
  with one have "lot_at (kj (snd (advanceLot v2 net2 l st1))) (ie_receiptKey v1 (lt_evidence l)) = Some (l\<lparr>lt_done := True\<rparr>)"
    by (simp add: lot_at_set_lot same)
  with one fresh show ?thesis by (simp add: advanceLot_def ret_def)
qed

subsection \<open>A concrete keeper\<close>

definition demo_evidence :: evidence where
  "demo_evidence = \<lparr>ev_source = ''src'', ev_collectTx = ''tx'', ev_collectBlock = 7, ev_logIndex = 2, ev_token = ZERO, ev_amount = 40, ev_policyVersion = 1\<rparr>"

definition demo_lot :: lot where
  "demo_lot = (new_lot demo_evidence)\<lparr>lt_kind := 1, lt_name := ''v2'', lt_lotId := Some ''lot''\<rparr>"

definition demo_ienv :: "ingress_lot \<Rightarrow> router_lot \<Rightarrow> ienv" where
  "demo_ienv i r = \<lparr>ie_sources = [], ie_collectEnabled = False, ie_thresholdUsd18 = 100 * E18, ie_minBuy18 = E18, ie_buybackSlippageBps = 300,
     ie_conversionTtl = 50, ie_chainId = 1, ie_from = Some ''0xk'', ie_ingress = ''0xi'', ie_router = ''0xr'', ie_executor = ''0xe'', ie_deskVault = None,
     ie_H = (\<lambda>_. ''h''), ie_receiptKey = (\<lambda>e. ''r1''), ie_lotId = (\<lambda>d. ''lot''), ie_ms = (\<lambda>_. 0), ie_now = (\<lambda>_. 100), ie_latest = None, ie_fees = None,
     ie_receipt = (\<lambda>_. Inl ''none''), ie_balance = (\<lambda>_ _ _. Inr 0), ie_digest = (\<lambda>_ _. Inr ''dig''), ie_lotInfo = (\<lambda>_ _. Inr (i, True)),
     ie_routerState = (\<lambda>_ _. Inr r), ie_auditors = None, ie_auditorAt = (\<lambda>_ _. None), ie_recover = (\<lambda>_ _. ''''), ie_allowance = (\<lambda>_ _. Inr 0),
     ie_pending = (\<lambda>_ _. Inl ''none''), ie_assetConverter = (\<lambda>_ _. Inr ZERO), ie_converter = (\<lambda>_. Inr ZERO), ie_nextConversionId = (\<lambda>_ _. Inr ''s''),
     ie_binding = (\<lambda>_ _. Inl ''none''), ie_convSigner = (\<lambda>_ _. Inr ''''), ie_convDigest = (\<lambda>_ _ _. Inr ''''), ie_quoteSigner = None, ie_usdValue18 = None,
     ie_solonPerUsdc18 = None, ie_nonce = (\<lambda>_. 1), ie_lots = (\<lambda>_ _. Inl ''none''), ie_config = (\<lambda>_. Inl ''none''), ie_pricePolicy = (\<lambda>_. Inr 1),
     ie_vault = (\<lambda>_. Inr ''0xv''), ie_buyDigest = (\<lambda>_ _. Inr ''''), ie_bought = (\<lambda>_. []), ie_burnState = (\<lambda>_ _. Inr 0), ie_vaultView = (\<lambda>_. Inl ''none'')\<rparr>"

definition demo_net :: "icall caller" where
  "demo_net h k c ts = (Inr (result_of StInflight), ts)"

definition demo_ist :: "(irec, icall, ireport) kst" where
  "demo_ist = \<lparr>kj = setRecord 0 ''lots'' ''r1'' (\<lambda>_. RLot demo_lot) (open_journal None), hist = [], outs = []\<rparr>"

definition demo_fund_key :: string where
  "demo_fund_key = ''1:0xi:fund:lot:v1''"


theorem late_funding_loses_buyback_witness:
  "lot_at (kj (snd (advanceLot (demo_ienv ILFunded RLDone) demo_net demo_lot (snd (advanceLot (demo_ienv ILObserved RLNone) demo_net demo_lot demo_ist))))) ''r1''
     = Some (demo_lot\<lparr>lt_done := True\<rparr>)"
proof -
  have rk: "ie_receiptKey (demo_ienv i r) = (\<lambda>_. ''r1'')" for i r by (simp add: demo_ienv_def)
  have "lot_at (kj demo_ist) (ie_receiptKey (demo_ienv ILObserved RLNone) (lt_evidence demo_lot)) = Some demo_lot"
    by (simp add: rk lot_at_def demo_ist_def record_of_setRecord)
  note late = late_funding_loses_buyback [OF this, of "demo_ienv ILFunded RLDone" "''dig''" demo_net _ True demo_net, OF _ _ _ _ _ _ _ _ _ _ refl]
  show ?thesis using late
    by (simp add: demo_lot_def demo_evidence_def new_lot_def demo_ienv_def demo_net_def)
qed

end
