(* ===== verification/Market.thy ===== *)
theory Market
  imports Keeper_Prelude
begin

section \<open>The US equity market gate (\<open>keepers/v3/lib/market.mjs\<close>)\<close>

text \<open>
  A keeper may act at the stock price only while the session is open by the built-in calendar and the
  feed is not frozen. Calendar dates are day numbers since 1970-01-01: the source's \<open>YYYY-MM-DD\<close>
  strings compare as these numbers do, and \<open>nextDate\<close> adds one. \<open>ny_offset\<close> is what the runtime's
  \<open>America/New_York\<close> zone says since 2007: daylight time from the second Sunday of March, 2:00, to the
  first Sunday of November, 2:00.
\<close>

subsection \<open>Dates\<close>

datatype date = Date int

instantiation date :: linorder
begin

fun less_eq_date :: "date \<Rightarrow> date \<Rightarrow> bool" where
  "less_eq_date (Date a) (Date b) = (a \<le> b)"

fun less_date :: "date \<Rightarrow> date \<Rightarrow> bool" where
  "less_date (Date a) (Date b) = (a < b)"

instance
proof
  fix x y z :: date
  show "(x < y) = (x \<le> y \<and> \<not> y \<le> x)" by (cases x; cases y) auto
  show "x \<le> x" by (cases x) simp
  show "x \<le> y \<Longrightarrow> y \<le> z \<Longrightarrow> x \<le> z" by (cases x; cases y; cases z) simp
  show "x \<le> y \<Longrightarrow> y \<le> x \<Longrightarrow> x = y" by (cases x; cases y) simp
  show "x \<le> y \<or> y \<le> x" by (cases x; cases y) auto
qed

end

text \<open>The day number of a proleptic Gregorian date.\<close>

definition days_of :: "int \<Rightarrow> int \<Rightarrow> int \<Rightarrow> int" where
  "days_of y m d =
     (let y1 = (if m \<le> 2 then y - 1 else y);
          era = y1 div 400;
          yoe = y1 - era * 400;
          doy = (153 * (if m > 2 then m - 3 else m + 9) + 2) div 5 + d - 1
      in era * 146097 + (yoe * 365 + yoe div 4 - yoe div 100 + doy) - 719468)"

definition ymd :: "int \<Rightarrow> int \<Rightarrow> int \<Rightarrow> date" where
  "ymd y m d = Date (days_of y m d)"

text \<open>0 is Sunday; day 0 was a Thursday.\<close>

definition day_dow :: "int \<Rightarrow> int" where
  "day_dow n = (n + 4) mod 7"

fun dowOf :: "date \<Rightarrow> int" where
  "dowOf (Date n) = day_dow n"

fun nextDate :: "date \<Rightarrow> date" where
  "nextDate (Date n) = Date (n + 1)"

definition NYSE_HOLIDAYS :: "date list" where
  "NYSE_HOLIDAYS =
     [ymd 2026 1 1, ymd 2026 1 19, ymd 2026 2 16, ymd 2026 4 3, ymd 2026 5 25, ymd 2026 6 19, ymd 2026 7 3, ymd 2026 9 7, ymd 2026 11 26, ymd 2026 12 25,
      ymd 2027 1 1, ymd 2027 1 18, ymd 2027 2 15, ymd 2027 3 26, ymd 2027 5 31, ymd 2027 6 18, ymd 2027 7 5, ymd 2027 9 6, ymd 2027 11 25, ymd 2027 12 24]"

definition NYSE_EARLY_CLOSES :: "date list" where
  "NYSE_EARLY_CLOSES = [ymd 2026 11 27, ymd 2026 12 24, ymd 2027 11 26]"

definition CALENDAR_FIRST :: date where "CALENDAR_FIRST = ymd 2026 1 1"
definition CALENDAR_LAST :: date where "CALENDAR_LAST = ymd 2027 12 31"

subsection \<open>New York time\<close>

text \<open>The first Sunday on or after a day.\<close>

definition sunday_from :: "int \<Rightarrow> int" where
  "sunday_from n = n + (7 - day_dow n) mod 7"

definition dst_start :: "int \<Rightarrow> int" where
  "dst_start y = sunday_from (days_of y 3 8) * DAY + 7 * 3600"

definition dst_end :: "int \<Rightarrow> int" where
  "dst_end y = sunday_from (days_of y 11 1) * DAY + 6 * 3600"

text \<open>The year up to a day or two around New Year, where both neighbours are on standard time.\<close>

definition near_year :: "int \<Rightarrow> int" where
  "near_year nowSec = 1970 + nowSec div 31556952"

definition ny_offset :: "int \<Rightarrow> int" where
  "ny_offset nowSec = (let y = near_year nowSec in if dst_start y \<le> nowSec \<and> nowSec < dst_end y then - 4 * 3600 else - 5 * 3600)"

record ny_time =
  ny_dow :: int
  ny_minute :: int
  ny_date :: date

definition nyTime :: "int \<Rightarrow> ny_time" where
  "nyTime nowSec = (let t = nowSec + ny_offset nowSec; n = t div DAY
     in \<lparr>ny_dow = day_dow n, ny_minute = (t mod DAY) div 60, ny_date = Date n\<rparr>)"

subsection \<open>Sessions\<close>

datatype market_mode = TwentyFourFive | Regular | OtherMode string

record market_params =
  mk_mode :: market_mode
  mk_heartbeatSec :: int
  mk_heartbeatMarginSec :: int
  mk_holidays :: "date list"
  mk_earlyCloses :: "date list"

definition MARKET_DEFAULTS :: market_params where
  "MARKET_DEFAULTS = \<lparr>mk_mode = TwentyFourFive, mk_heartbeatSec = 86400, mk_heartbeatMarginSec = 1800,
     mk_holidays = NYSE_HOLIDAYS, mk_earlyCloses = NYSE_EARLY_CLOSES\<rparr>"

datatype session = Open date | Closed string | CalendarExpired

definition sessionState :: "int \<Rightarrow> market_params \<Rightarrow> session result" where
  "sessionState nowSec p =
     (let t = nyTime nowSec in
      if ny_date t < CALENDAR_FIRST \<or> ny_date t > CALENDAR_LAST then Inr CalendarExpired
      else if mk_mode p = Regular then
        (if ny_dow t = 0 \<or> ny_dow t = 6 then Inr (Closed ''weekend'')
         else if ny_date t \<in> set (mk_holidays p) then Inr (Closed ''NYSE holiday'')
         else let cl = (if ny_date t \<in> set (mk_earlyCloses p) then 13 * 60 else 16 * 60) in
           if ny_minute t < 9 * 60 + 30 \<or> ny_minute t \<ge> cl then Inr (Closed ''outside regular hours'')
           else Inr (Open (ny_date t)))
      else if mk_mode p \<noteq> TwentyFourFive then Inl ''market mode (24/5 | regular)''
      else let tradingDate = (if ny_minute t \<ge> 17 * 60 then nextDate (ny_date t) else ny_date t); tdow = dowOf tradingDate in
        if tdow = 0 \<or> tdow = 6 then Inr (Closed ''weekend (Fri 17:00 ET - Sun 18:00 ET)'')
        else if ny_dow t = 0 \<and> ny_minute t < 18 * 60 then Inr (Closed ''weekend (opens Sun 18:00 ET)'')
        else if tradingDate \<in> set (mk_holidays p) then Inr (Closed ''NYSE holiday'')
        else Inr (Open tradingDate))"

definition is_open :: "session \<Rightarrow> bool" where
  "is_open s = (case s of Open _ \<Rightarrow> True | _ \<Rightarrow> False)"

text \<open>A feed without a time stamp (0) is infinitely old.\<close>

definition feedFresh :: "int option \<Rightarrow> int \<Rightarrow> market_params \<Rightarrow> bool" where
  "feedFresh sourceUpdatedAt nowSec p =
     (let updated = (case sourceUpdatedAt of Some u \<Rightarrow> u | None \<Rightarrow> 0);
          limit = mk_heartbeatSec p + mk_heartbeatMarginSec p
      in updated > 0 \<and> max 0 (nowSec - updated) \<le> limit)"

record market_gate =
  mg_ok :: bool
  mg_closed :: bool
  mg_alert :: bool

definition marketGate :: "int \<Rightarrow> int option \<Rightarrow> market_params \<Rightarrow> market_gate result" where
  "marketGate nowSec sourceUpdatedAt p =
     (case sessionState nowSec p of
        Inl e \<Rightarrow> Inl e
      | Inr s \<Rightarrow>
         (if \<not> is_open s then Inr \<lparr>mg_ok = False, mg_closed = True, mg_alert = (s = CalendarExpired)\<rparr>
          else if \<not> feedFresh sourceUpdatedAt nowSec p then Inr \<lparr>mg_ok = False, mg_closed = False, mg_alert = True\<rparr>
          else Inr \<lparr>mg_ok = True, mg_closed = False, mg_alert = False\<rparr>))"

subsection \<open>When the 24/5 session is open\<close>

text \<open>Minutes since Sunday 0:00 in New York.\<close>

definition week_minute :: "int \<Rightarrow> int" where
  "week_minute nowSec = ny_dow (nyTime nowSec) * 1440 + ny_minute (nyTime nowSec)"

lemma ny_bounds: "0 \<le> ny_dow (nyTime n)" "ny_dow (nyTime n) \<le> 6" "0 \<le> ny_minute (nyTime n)" "ny_minute (nyTime n) < 1440"
proof -
  have "0 \<le> (n + ny_offset n) mod DAY" "(n + ny_offset n) mod DAY < DAY" by (simp_all add: DAY_def)
  then show "0 \<le> ny_minute (nyTime n)" "ny_minute (nyTime n) < 1440"
    by (simp_all add: nyTime_def Let_def DAY_def)
qed (simp_all add: nyTime_def Let_def day_dow_def)

lemma day_dow_next: "day_dow (n + 1) = (if day_dow n = 6 then 0 else day_dow n + 1)"
proof -
  define r where "r = (n + 4) mod 7"
  have "(n + 1 + 4) mod 7 = ((n + 4) mod 7 + 1) mod 7" by (simp add: mod_simps algebra_simps)
  then have "day_dow (n + 1) = (r + 1) mod 7" by (simp add: day_dow_def r_def)
  moreover have "0 \<le> r" "r < 7" by (simp_all add: r_def)
  ultimately show ?thesis by (cases "r = 6") (simp_all add: day_dow_def flip: r_def)
qed

lemma ny_date_dow: "dowOf (ny_date (nyTime n)) = ny_dow (nyTime n)"
  by (simp add: nyTime_def Let_def)

lemma ny_next_dow: "dowOf (nextDate (ny_date (nyTime n))) = (if ny_dow (nyTime n) = 6 then 0 else ny_dow (nyTime n) + 1)"
  by (simp add: nyTime_def Let_def day_dow_next)

definition trading_date :: "int \<Rightarrow> date" where
  "trading_date n = (if ny_minute (nyTime n) \<ge> 17 * 60 then nextDate (ny_date (nyTime n)) else ny_date (nyTime n))"

lemma open_window:
  assumes "0 \<le> w" "w \<le> 6" "0 \<le> m" "m < (1440 :: int)"
  shows "\<not> ((if 1020 \<le> m then (if w = 6 then 0 else w + 1) else w) = 0 \<or> (if 1020 \<le> m then (if w = 6 then 0 else w + 1) else w) = 6)
     \<and> \<not> (w = 0 \<and> m < 1080) \<longleftrightarrow> 1080 \<le> w * 1440 + m \<and> w * 1440 + m < (8220 :: int)"
proof -
  consider "w = 0" | "w = 1 \<or> w = 2 \<or> w = 3 \<or> w = 4" | "w = 5" | "w = 6" using assms(1,2) by linarith
  then show ?thesis
  proof cases
    case 1 with assms show ?thesis by (simp add: linorder_not_less)
  next
    case 2 with assms show ?thesis by (elim disjE) simp_all
  next
    case 3 with assms show ?thesis by simp
  next
    case 4 with assms show ?thesis by simp
  qed
qed

text \<open>The default 24/5 session is open exactly from Sunday 18:00 to Friday 17:00 New York time, on
  trading dates that are not holidays, and only within the built-in calendar: outside it the gate is
  closed whatever the hour. The trading date from 17:00 on is the next calendar day's, so the evening
  before a holiday is closed and the holiday's own evening is open.\<close>

theorem session_open_iff:
  assumes "mk_mode p = TwentyFourFive"
  shows "sessionState now p = Inr (Open d) \<longleftrightarrow>
     CALENDAR_FIRST \<le> ny_date (nyTime now) \<and> ny_date (nyTime now) \<le> CALENDAR_LAST
     \<and> 18 * 60 \<le> week_minute now \<and> week_minute now < 5 * 1440 + 17 * 60
     \<and> d = trading_date now \<and> d \<notin> set (mk_holidays p)"
proof -
  define w where "w = ny_dow (nyTime now)"
  define m where "m = ny_minute (nyTime now)"
  have b: "0 \<le> w" "w \<le> 6" "0 \<le> m" "m < 1440" using ny_bounds [of now] by (simp_all add: w_def m_def)
  define td where "td = dowOf (trading_date now)"
  define cal where "cal \<longleftrightarrow> \<not> (ny_date (nyTime now) < CALENDAR_FIRST \<or> ny_date (nyTime now) > CALENDAR_LAST)"
  have td: "td = (if 1020 \<le> m then (if w = 6 then 0 else w + 1) else w)"
    by (simp add: td_def trading_date_def ny_next_dow ny_date_dow m_def w_def)
  have window: "\<not> (td = 0 \<or> td = 6) \<and> \<not> (w = 0 \<and> m < 1080) \<longleftrightarrow> 1080 \<le> w * 1440 + m \<and> w * 1440 + m < 8220"
    unfolding td by (rule open_window [OF b])
  have state: "sessionState now p = (if \<not> cal then Inr CalendarExpired
      else if td = 0 \<or> td = 6 then Inr (Closed ''weekend (Fri 17:00 ET - Sun 18:00 ET)'')
      else if w = 0 \<and> m < 1080 then Inr (Closed ''weekend (opens Sun 18:00 ET)'')
      else if trading_date now \<in> set (mk_holidays p) then Inr (Closed ''NYSE holiday'')
      else Inr (Open (trading_date now)))"
    using assms by (simp add: sessionState_def Let_def cal_def td_def w_def m_def trading_date_def)
  have cal: "cal \<longleftrightarrow> CALENDAR_FIRST \<le> ny_date (nyTime now) \<and> ny_date (nyTime now) \<le> CALENDAR_LAST"
    by (simp add: cal_def linorder_not_less)
  have week: "week_minute now = w * 1440 + m" by (simp add: week_minute_def w_def m_def)
  show ?thesis
    using window cal unfolding state week by auto
qed

theorem session_open_iff_witness:
  "sessionState 1790600400 MARKET_DEFAULTS = Inr (Open (ymd 2026 9 28))
   \<and> 18 * 60 \<le> week_minute 1790600400 \<and> week_minute 1790600400 < 5 * 1440 + 17 * 60"
proof -
  have "sessionState 1790600400 MARKET_DEFAULTS = Inr (Open (ymd 2026 9 28))" by code_simp
  moreover have "mk_mode MARKET_DEFAULTS = TwentyFourFive" by (simp add: MARKET_DEFAULTS_def)
  ultimately show ?thesis using session_open_iff [of MARKET_DEFAULTS 1790600400 "ymd 2026 9 28"] by blast
qed

text \<open>The gate lets a keeper act only with the session open and a feed stamped no longer ago than the
  heartbeat and its margin; a routine close is not alerted, a frozen feed in an open session and an
  exhausted calendar are.\<close>

theorem marketGate_sound:
  assumes "marketGate now updated p = Inr g"
  shows "(mg_ok g \<longrightarrow> (\<exists>d. sessionState now p = Inr (Open d)) \<and> (\<exists>u. updated = Some u \<and> 0 < u \<and> now - u \<le> mk_heartbeatSec p + mk_heartbeatMarginSec p))
    \<and> (mg_closed g \<longleftrightarrow> \<not> (\<exists>d. sessionState now p = Inr (Open d)))
    \<and> (mg_alert g \<longleftrightarrow> sessionState now p = Inr CalendarExpired \<or> \<not> mg_ok g \<and> \<not> mg_closed g)"
  using assms
  by (auto simp: marketGate_def is_open_def feedFresh_def Let_def split: sum.splits session.splits if_splits option.splits)

theorem marketGate_sound_witness:
  "\<exists>g. marketGate 1790600400 (Some 1790600000) MARKET_DEFAULTS = Inr g \<and> mg_ok g \<and> (\<exists>d. sessionState 1790600400 MARKET_DEFAULTS = Inr (Open d))"
proof -
  have "marketGate 1790600400 (Some 1790600000) MARKET_DEFAULTS = Inr \<lparr>mg_ok = True, mg_closed = False, mg_alert = False\<rparr>" by code_simp
  from marketGate_sound [OF this] this show ?thesis by auto
qed

end
