(* ===== verification/Oracle_Decide.thy ===== *)
theory Oracle_Decide
  imports Market
begin

section \<open>Oracle push decisions (\<open>keepers/v3/oracle/decide.mjs\<close>)\<close>

text \<open>
  When the oracle keeper pushes prices to Arc: the triggers per stock, the market gate, the spacing of
  pushes, the demands of other keepers, and what is remembered of a push. A failed source read is
  \<open>Inl\<close>; a stamp the JSON does not have is \<open>None\<close>.
\<close>

subsection \<open>Parameters\<close>

record oparams =
  op_deviationBps :: int
  op_heartbeatSec :: int
  op_heartbeatMarginSec :: int
  op_maxTwapBps :: int
  op_twapTrigger :: bool
  op_freshnessSec :: int
  op_maxSourceAgeSec :: int
  op_minIntervalSec :: int
  op_demandMinIntervalSec :: int
  op_demandTtlSec :: int
  op_demandCoalesceSec :: int
  op_batchAll :: bool
  op_holidays :: "date list"
  op_market :: "market_params option"

text \<open>\<open>market: {}\<close> is the default parameters with no further holidays, \<open>market: false\<close> is \<open>None\<close>.\<close>

definition NO_MARKET :: market_params where
  "NO_MARKET = MARKET_DEFAULTS\<lparr>mk_holidays := []\<rparr>"

definition ORACLE_DEFAULTS :: oparams where
  "ORACLE_DEFAULTS = \<lparr>op_deviationBps = 100, op_heartbeatSec = 0, op_heartbeatMarginSec = 600, op_maxTwapBps = 150, op_twapTrigger = True,
     op_freshnessSec = 0, op_maxSourceAgeSec = 26 * 3600, op_minIntervalSec = 30, op_demandMinIntervalSec = 60, op_demandTtlSec = 1800,
     op_demandCoalesceSec = 240, op_batchAll = True, op_holidays = [], op_market = Some NO_MARKET\<rparr>"

text \<open>The operator's settings overwrite the defaults; the result is checked.\<close>

definition mergeParams :: "(oparams \<Rightarrow> oparams) \<Rightarrow> oparams result" where
  "mergeParams settings =
     (let p = settings ORACLE_DEFAULTS in
      if list_ex (\<lambda>f. f p < 0) [op_deviationBps, op_heartbeatSec, op_heartbeatMarginSec, op_maxTwapBps, op_freshnessSec, op_maxSourceAgeSec,
           op_minIntervalSec, op_demandMinIntervalSec, op_demandTtlSec, op_demandCoalesceSec]
      then Inl ''oracle param must be a non-negative number''
      else if op_heartbeatSec p > 0 \<and> op_heartbeatMarginSec p \<ge> op_heartbeatSec p
      then Inl ''heartbeatMarginSec must be < heartbeatSec (heartbeatSec 0 = off)''
      else Inr p)"

definition marketParams :: "date list \<Rightarrow> market_params \<Rightarrow> market_params" where
  "marketParams sessionHolidays m = m\<lparr>mk_holidays := NYSE_HOLIDAYS @ sessionHolidays @ mk_holidays m\<rparr>"

definition sessionOpen :: "int \<Rightarrow> date list \<Rightarrow> market_params \<Rightarrow> bool result" where
  "sessionOpen nowSec sessionHolidays m = map_sum id is_open (sessionState nowSec (marketParams sessionHolidays m))"

subsection \<open>Price comparisons\<close>

definition movedBps :: "int \<Rightarrow> int \<Rightarrow> int \<Rightarrow> bool" where
  "movedBps a ref bps = (\<bar>a - ref\<bar> * 10000 > ref * bps)"

text \<open>\<open>Infinity\<close> is \<open>None\<close>.\<close>

definition gapBps :: "int \<Rightarrow> int \<Rightarrow> int option" where
  "gapBps a ref = (if ref = 0 then None else Some (bdiv (\<bar>a - ref\<bar> * 10000) ref))"

record observation =
  ob_price18 :: int
  ob_twapPrice18 :: "int option"
  ob_quoteUsd18 :: "int option"

record current = observation +
  cu_sourceUpdatedAt :: "int option"

record pushed = observation +
  ps_pushedAt :: int
  ps_l1Block :: "int option"

definition twap_of :: "'a observation_scheme \<Rightarrow> int" where
  "twap_of o1 = (case ob_twapPrice18 o1 of Some t \<Rightarrow> t | None \<Rightarrow> 0)"

definition quote_of :: "'a observation_scheme \<Rightarrow> int" where
  "quote_of o1 = (case ob_quoteUsd18 o1 of Some q \<Rightarrow> q | None \<Rightarrow> E18)"

definition twapUsd :: "'a observation_scheme \<Rightarrow> int" where
  "twapUsd o1 = bdiv (twap_of o1 * quote_of o1) E18"

definition twapDivergent :: "'a observation_scheme \<Rightarrow> int \<Rightarrow> bool" where
  "twapDivergent o1 maxTwapBps = (maxTwapBps > 0 \<and> (twap_of o1 = 0 \<or> movedBps (ob_price18 o1) (twapUsd o1) maxTwapBps))"

subsection \<open>The decision\<close>

record demand =
  dm_underlyings :: "string list"
  dm_requestedAt :: int
  dm_at :: "int object"
  dm_reason :: string

datatype trigger = Initial | Deviation | TwapClears | Heartbeat | Freshness | Demanded

datatype outcome = Unreadable string | Gated bool | Considered "trigger list" bool

definition own_triggers :: "oparams \<Rightarrow> int \<Rightarrow> bool \<Rightarrow> current \<Rightarrow> pushed option \<Rightarrow> trigger list" where
  "own_triggers p nowSec open_now c l =
     (case l of
        Some l \<Rightarrow>
          (if ob_price18 l = 0 then [Initial] else
           (let feedAge = nowSec - (case cu_sourceUpdatedAt c of Some u \<Rightarrow> u | None \<Rightarrow> 0);
                age = nowSec - ps_pushedAt l;
                live = (open_now \<and> feedAge \<le> op_maxSourceAgeSec p)
            in (if movedBps (ob_price18 c) (ob_price18 l) (op_deviationBps p) then [Deviation] else [])
             @ (if op_twapTrigger p \<and> twapDivergent l (op_maxTwapBps p) \<and> \<not> twapDivergent c (op_maxTwapBps p) then [TwapClears] else [])
             @ (if live \<and> op_heartbeatSec p > 0 \<and> age \<ge> op_heartbeatSec p - op_heartbeatMarginSec p then [Heartbeat] else [])
             @ (if live \<and> op_freshnessSec p > 0 \<and> age \<ge> op_freshnessSec p then [Freshness] else [])))
      | None \<Rightarrow> [Initial])"

text \<open>Whether an outstanding demand asks for the stock: \<open>None\<close> no, \<open>Some False\<close> yes, \<open>Some True\<close> yes but the
  observation would land divergent.\<close>

definition demand_state :: "oparams \<Rightarrow> demand option \<Rightarrow> string \<Rightarrow> current \<Rightarrow> pushed option \<Rightarrow> bool option" where
  "demand_state p dm u c l =
     (case dm of None \<Rightarrow> None
      | Some d \<Rightarrow>
         (if u \<notin> set (dm_underlyings d) then None
          else let asked = (case get (dm_at d) u of Some t \<Rightarrow> t | None \<Rightarrow> dm_requestedAt d);
                   pushedAt = (case l of Some l \<Rightarrow> ps_pushedAt l | None \<Rightarrow> 0)
            in if pushedAt < asked - op_demandCoalesceSec p
               then Some (op_twapTrigger p \<and> twapDivergent c (op_maxTwapBps p)) else None))"

definition stock_outcome :: "oparams \<Rightarrow> int \<Rightarrow> bool \<Rightarrow> (string \<times> pushed) list \<Rightarrow> demand option \<Rightarrow> string \<times> current result \<Rightarrow> outcome result" where
  "stock_outcome p nowSec open_now lastp dm = (\<lambda>(u, read).
     case read of Inl e \<Rightarrow> Inr (Unreadable e)
     | Inr c \<Rightarrow>
        (case (case op_market p of None \<Rightarrow> Inr None
               | Some m \<Rightarrow> map_sum id Some (marketGate nowSec (cu_sourceUpdatedAt c) (marketParams (op_holidays p) m))) of
           Inl e \<Rightarrow> Inl e
         | Inr g \<Rightarrow>
            (if (case g of Some g \<Rightarrow> \<not> mg_ok g | None \<Rightarrow> False) then Inr (Gated (mg_alert (the g)))
             else let own = own_triggers p nowSec open_now c (get lastp u); d = demand_state p dm u c (get lastp u)
               in Inr (Considered (own @ (if d = Some False then [Demanded] else [])) (d = Some True)))))"

fun all_ok :: "'a result list \<Rightarrow> 'a list result" where
  "all_ok [] = Inr []"
| "all_ok (Inl e # xs) = Inl e"
| "all_ok (Inr x # xs) = map_sum id (\<lambda>ys. x # ys) (all_ok xs)"

datatype push_wait = NoWait | UntilSec int | UntilL1Block int

record decision =
  dc_push :: bool
  dc_underlyings :: "string list"
  dc_reasons :: "(string \<times> trigger list) list"
  dc_reason :: "trigger option"
  dc_wait :: push_wait
  dc_skipped :: "(string \<times> string) list"
  dc_blocked :: "(string \<times> bool) list"
  dc_refused :: "string list"

record push_input =
  pi_nowSec :: int
  pi_l1Block :: "int option"
  pi_current :: "(string \<times> current result) list"
  pi_last :: "(string \<times> pushed) list"
  pi_lastPushAt :: int
  pi_lastL1Block :: int
  pi_demand :: "demand option"

definition TRIGGER_ORDER :: "trigger list" where
  "TRIGGER_ORDER = [Initial, Deviation, TwapClears, Demanded, Freshness, Heartbeat]"

text \<open>What the loop over the stocks collected.\<close>

type_synonym outcomes = "(string \<times> outcome) list"

definition due_reasons :: "outcomes \<Rightarrow> (string \<times> trigger list) list" where
  "due_reasons outs = List.map_filter (\<lambda>(u, out). case out of Considered (t # ts) _ \<Rightarrow> Some (u, t # ts) | _ \<Rightarrow> None) outs"

definition readable_of :: "outcomes \<Rightarrow> string list" where
  "readable_of outs = List.map_filter (\<lambda>(u, out). case out of Considered _ _ \<Rightarrow> Some u | _ \<Rightarrow> None) outs"

definition no_push :: "outcomes \<Rightarrow> decision" where
  "no_push outs = \<lparr>dc_push = False, dc_underlyings = [], dc_reasons = due_reasons outs, dc_reason = None, dc_wait = NoWait,
     dc_skipped = List.map_filter (\<lambda>(u, out). case out of Unreadable e \<Rightarrow> Some (u, e) | _ \<Rightarrow> None) outs,
     dc_blocked = List.map_filter (\<lambda>(u, out). case out of Gated al \<Rightarrow> Some (u, al) | _ \<Rightarrow> None) outs,
     dc_refused = List.map_filter (\<lambda>(u, out). case out of Considered _ True \<Rightarrow> Some u | _ \<Rightarrow> None) outs\<rparr>"

definition only_demand :: "(string \<times> trigger list) list \<Rightarrow> bool" where
  "only_demand reasons = list_all (\<lambda>(u, ts). list_all ((=) Demanded) ts) reasons"

definition min_gap :: "oparams \<Rightarrow> (string \<times> trigger list) list \<Rightarrow> int" where
  "min_gap p reasons = (if only_demand reasons then op_demandMinIntervalSec p else op_minIntervalSec p)"

definition decide_spacing :: "oparams \<Rightarrow> push_input \<Rightarrow> outcomes \<Rightarrow> decision" where
  "decide_spacing p i outs =
     (let no = no_push outs; reasons = due_reasons outs; gap = min_gap p reasons in
      if reasons = [] then no
      else if pi_lastPushAt i \<noteq> 0 \<and> pi_nowSec i - pi_lastPushAt i < gap
      then no\<lparr>dc_wait := UntilSec (pi_lastPushAt i + gap), dc_refused := []\<rparr>
      else if (case pi_l1Block i of Some b \<Rightarrow> pi_lastL1Block i \<noteq> 0 \<and> b \<le> pi_lastL1Block i | None \<Rightarrow> False)
      then no\<lparr>dc_wait := UntilL1Block (pi_lastL1Block i + 1), dc_refused := []\<rparr>
      else no\<lparr>dc_push := True, dc_underlyings := (if op_batchAll p then readable_of outs else map fst reasons),
              dc_reason := find (\<lambda>t. t \<in> set (concat (map snd reasons))) TRIGGER_ORDER\<rparr>)"

definition decidePush :: "oparams \<Rightarrow> push_input \<Rightarrow> decision result" where
  "decidePush p i =
     (case sessionOpen (pi_nowSec i) (op_holidays p) (case op_market p of Some m \<Rightarrow> m | None \<Rightarrow> NO_MARKET) of
        Inl e \<Rightarrow> Inl e
      | Inr open_now \<Rightarrow>
          map_sum id (\<lambda>os. decide_spacing p i (zip (map fst (pi_current i)) os))
            (all_ok (map (stock_outcome p (pi_nowSec i) open_now (pi_last i) (pi_demand i)) (pi_current i))))"

subsection \<open>Remembering a push\<close>

definition record_one :: "(string \<times> current result) list \<Rightarrow> int \<Rightarrow> int option \<Rightarrow> (string \<times> pushed) list \<Rightarrow> string \<Rightarrow> (string \<times> pushed) list" where
  "record_one observations pushedAt l1Block next u =
     (case get observations u of
        Some (Inr o1) \<Rightarrow> put u \<lparr>ob_price18 = ob_price18 o1, ob_twapPrice18 = Some (twap_of o1), ob_quoteUsd18 = Some (quote_of o1),
                               ps_pushedAt = pushedAt, ps_l1Block = l1Block\<rparr> next
      | _ \<Rightarrow> next)"

definition recordPush :: "(string \<times> pushed) list \<Rightarrow> string list \<Rightarrow> (string \<times> current result) list \<Rightarrow> int \<Rightarrow> int option \<Rightarrow> (string \<times> pushed) list" where
  "recordPush lastp underlyings observations pushedAt l1Block = foldl (record_one observations pushedAt l1Block) lastp underlyings"

subsection \<open>Reconnect backoff\<close>

definition backoffMs :: "int \<Rightarrow> int \<Rightarrow> int \<Rightarrow> int" where
  "backoffMs attempt baseMs maxMs = min maxMs (baseMs * 2 ^ nat (max 0 attempt))"

subsection \<open>A push is spaced, fresh and gated\<close>

lemma all_ok_map:
  "all_ok (map f xs) = Inr ys \<Longrightarrow> (u, y) \<in> set (zip (map fst xs) ys) \<longleftrightarrow> (\<exists>r. (u, r) \<in> set xs \<and> f (u, r) = Inr y)"
proof (induction xs arbitrary: ys)
  case (Cons x xs)
  then show ?case
    by (cases "f x"; cases "all_ok (map f xs)"; cases x) auto
qed simp

lemma in_map_filter: "y \<in> set (List.map_filter f xs) \<longleftrightarrow> (\<exists>x\<in>set xs. f x = Some y)"
  by (force simp: List.map_filter_def)

definition passes_gate :: "oparams \<Rightarrow> int \<Rightarrow> current \<Rightarrow> bool" where
  "passes_gate p now c \<longleftrightarrow> (\<forall>m. op_market p = Some m \<longrightarrow> (\<exists>g. marketGate now (cu_sourceUpdatedAt c) (marketParams (op_holidays p) m) = Inr g \<and> mg_ok g))"

lemma stock_outcome_Considered:
  "stock_outcome p now o1 lastp dm (u, r) = Inr (Considered ts rf) \<longleftrightarrow>
     (\<exists>c. r = Inr c \<and> passes_gate p now c \<and> ts = own_triggers p now o1 c (get lastp u) @ (if demand_state p dm u c (get lastp u) = Some False then [Demanded] else [])
        \<and> rf = (demand_state p dm u c (get lastp u) = Some True))"
proof (cases r)
  case (Inr c)
  show ?thesis
  proof (cases "op_market p")
    case (Some m)
    then show ?thesis
      by (cases "marketGate now (cu_sourceUpdatedAt c) (marketParams (op_holidays p) m)")
         (auto simp: Inr stock_outcome_def passes_gate_def Let_def)
  qed (auto simp: Inr stock_outcome_def passes_gate_def Let_def)
qed (simp add: stock_outcome_def)

lemma due_iff: "(u, ts) \<in> set (due_reasons outs) \<longleftrightarrow> ts \<noteq> [] \<and> (\<exists>rf. (u, Considered ts rf) \<in> set outs)"
  unfolding due_reasons_def in_map_filter by (cases ts) (force split: outcome.splits list.splits)+

lemma readable_iff: "u \<in> set (readable_of outs) \<longleftrightarrow> (\<exists>ts rf. (u, Considered ts rf) \<in> set outs)"
  unfolding readable_of_def in_map_filter by (force split: outcome.splits)

lemma decidePush_outs:
  assumes "decidePush p i = Inr d"
  shows "\<exists>outs o1. d = decide_spacing p i outs \<and>
    (\<forall>u ts rf. (u, Considered ts rf) \<in> set outs \<longleftrightarrow> (\<exists>c. (u, Inr c) \<in> set (pi_current i) \<and> passes_gate p (pi_nowSec i) c
       \<and> ts = own_triggers p (pi_nowSec i) o1 c (get (pi_last i) u) @ (if demand_state p (pi_demand i) u c (get (pi_last i) u) = Some False then [Demanded] else [])
       \<and> rf = (demand_state p (pi_demand i) u c (get (pi_last i) u) = Some True)))"
proof -
  from assms obtain o1 where "map_sum id (\<lambda>os. decide_spacing p i (zip (map fst (pi_current i)) os))
      (all_ok (map (stock_outcome p (pi_nowSec i) o1 (pi_last i) (pi_demand i)) (pi_current i))) = Inr d"
    by (auto simp: decidePush_def split: sum.splits)
  then obtain os where os: "all_ok (map (stock_outcome p (pi_nowSec i) o1 (pi_last i) (pi_demand i)) (pi_current i)) = Inr os"
    and d: "d = decide_spacing p i (zip (map fst (pi_current i)) os)"
    by (cases "all_ok (map (stock_outcome p (pi_nowSec i) o1 (pi_last i) (pi_demand i)) (pi_current i))") auto
  show ?thesis
    by (rule exI, rule exI [of _ o1], rule conjI, rule d, unfold all_ok_map [OF os] stock_outcome_Considered) blast
qed

lemma pushed_decision:
  assumes "decidePush p i = Inr d" "dc_push d"
  shows "(\<forall>u\<in>set (dc_underlyings d). \<exists>c. (u, Inr c) \<in> set (pi_current i) \<and> passes_gate p (pi_nowSec i) c)
    \<and> (\<exists>u t ts. (u, t # ts) \<in> set (dc_reasons d) \<and> u \<in> set (dc_underlyings d))
    \<and> (pi_lastPushAt i = 0 \<or> min_gap p (dc_reasons d) \<le> pi_nowSec i - pi_lastPushAt i)
    \<and> (\<forall>b. pi_l1Block i = Some b \<longrightarrow> pi_lastL1Block i = 0 \<or> pi_lastL1Block i < b)"
proof -
  obtain outs where d: "d = decide_spacing p i outs"
    and outs: "\<And>u ts rf. (u, Considered ts rf) \<in> set outs \<Longrightarrow> \<exists>c. (u, Inr c) \<in> set (pi_current i) \<and> passes_gate p (pi_nowSec i) c"
    using decidePush_outs [OF assms(1)] by blast
  have ne: "due_reasons outs \<noteq> []" and dr: "dc_reasons d = due_reasons outs"
    and du: "dc_underlyings d = (if op_batchAll p then readable_of outs else map fst (due_reasons outs))"
    and gap: "pi_lastPushAt i = 0 \<or> min_gap p (due_reasons outs) \<le> pi_nowSec i - pi_lastPushAt i"
    and block: "\<forall>b. pi_l1Block i = Some b \<longrightarrow> pi_lastL1Block i = 0 \<or> pi_lastL1Block i < b"
    using assms(2) unfolding d by (auto simp: decide_spacing_def no_push_def Let_def split: if_splits option.splits)
  have read: "\<exists>ts rf. (v, Considered ts rf) \<in> set outs" if "v \<in> set (dc_underlyings d)" for v
    using that unfolding du by (cases "op_batchAll p") (auto simp: readable_iff due_iff, blast)
  obtain u ts where ut: "(u, ts) \<in> set (due_reasons outs)" using ne by (cases "due_reasons outs") auto
  then obtain t ts' rf where t: "ts = t # ts'" "(u, Considered ts rf) \<in> set outs" unfolding due_iff by (cases ts) auto
  with ut have "u \<in> set (dc_underlyings d)" unfolding du by (force simp: readable_iff)
  with ut t read outs gap block show ?thesis unfolding dr by blast
qed

text \<open>C25. A decision to push only carries stocks whose source was just read and whose market gate passed
  (open session, unfrozen feed), has at least one trigger, keeps the minimum gap to the last push by
  anyone, and is in a later L1 block than the last push, so Arc will not ignore it.\<close>

theorem decidePush_safe:
  assumes "decidePush p i = Inr d" "dc_push d"
  shows "(\<forall>u\<in>set (dc_underlyings d). \<exists>c. (u, Inr c) \<in> set (pi_current i) \<and> passes_gate p (pi_nowSec i) c)
    \<and> (\<exists>u t ts. (u, t # ts) \<in> set (dc_reasons d) \<and> u \<in> set (dc_underlyings d))
    \<and> (pi_lastPushAt i = 0 \<or> min_gap p (dc_reasons d) \<le> pi_nowSec i - pi_lastPushAt i)
    \<and> (\<forall>b. pi_l1Block i = Some b \<longrightarrow> pi_lastL1Block i = 0 \<or> pi_lastL1Block i < b)"
  using pushed_decision [OF assms] .


definition demo_current :: "int \<Rightarrow> current" where
  "demo_current price = \<lparr>ob_price18 = price, ob_twapPrice18 = Some price, ob_quoteUsd18 = Some E18, cu_sourceUpdatedAt = Some 1790600000\<rparr>"

definition demo_pushed :: "int \<Rightarrow> pushed" where
  "demo_pushed price = \<lparr>ob_price18 = price, ob_twapPrice18 = Some price, ob_quoteUsd18 = Some E18, ps_pushedAt = 1790590000, ps_l1Block = Some 5\<rparr>"

definition demo_push :: push_input where
  "demo_push = \<lparr>pi_nowSec = 1790600400, pi_l1Block = Some 9, pi_current = [(''A'', Inr (demo_current 1020)), (''B'', Inl ''revert''), (''C'', Inr (demo_current 500))],
     pi_last = [(''A'', demo_pushed 1000), (''C'', demo_pushed 500)], pi_lastPushAt = 1790590000, pi_lastL1Block = 5, pi_demand = None\<rparr>"

lemma demo_push_decision:
  "decidePush ORACLE_DEFAULTS demo_push = Inr \<lparr>dc_push = True, dc_underlyings = [''A'', ''C''], dc_reasons = [(''A'', [Deviation])],
     dc_reason = Some Deviation, dc_wait = NoWait, dc_skipped = [(''B'', ''revert'')], dc_blocked = [], dc_refused = []\<rparr>"
  by code_simp

theorem decidePush_safe_witness:
  "\<exists>d. decidePush ORACLE_DEFAULTS demo_push = Inr d \<and> dc_underlyings d = [''A'', ''C'']
     \<and> (\<exists>c. (''C'', Inr c) \<in> set (pi_current demo_push) \<and> passes_gate ORACLE_DEFAULTS (pi_nowSec demo_push) c)"
  using decidePush_safe [OF demo_push_decision] demo_push_decision by simp

lemma demo_gate: "passes_gate ORACLE_DEFAULTS 1790600400 (demo_current 1020)"
proof -
  have "marketGate 1790600400 (Some 1790600000) (marketParams [] NO_MARKET) = Inr \<lparr>mg_ok = True, mg_closed = False, mg_alert = False\<rparr>"
    by code_simp
  then show ?thesis by (simp add: passes_gate_def ORACLE_DEFAULTS_def demo_current_def)
qed


end
