(* ===== verification/Price_Demand.thy ===== *)
theory Price_Demand
  imports Oracle_Decide
begin

section \<open>Demands for a price push (\<open>keepers/v3/lib/price-demand.mjs\<close>, \<open>parseDemand\<close> of \<open>oracle/decide.mjs\<close>)\<close>

text \<open>
  A keeper that needs a fresh price writes its request into a shared JSON file; the oracle keeper reads
  it. A file is the typed JSON body below; time stamps are integers (a stamp that is not a number is
  not modelled). The file is read and replaced as a whole under a lock that is taken over or given up
  after two seconds; one reader-writer at a time is modelled.
\<close>

subsection \<open>The file\<close>

record raw_request =
  rr_underlyings :: "string list option"
  rr_at :: "int object option"
  rr_requestedAt :: "int option"
  rr_reason :: "string option"

record demand_body =
  db_requests :: "(string \<times> raw_request option) list option"
  db_top :: raw_request

definition EMPTY_BODY :: demand_body where
  "EMPTY_BODY = \<lparr>db_requests = None, db_top = \<lparr>rr_underlyings = None, rr_at = None, rr_requestedAt = None, rr_reason = None\<rparr>\<rparr>"

record request_entry =
  re_at :: "int object"
  re_reason :: string

definition text_of :: "string option \<Rightarrow> string" where
  "text_of r = (case r of Some s \<Rightarrow> s | None \<Rightarrow> [])"

fun join_with :: "string \<Rightarrow> string list \<Rightarrow> string" where
  "join_with sep [] = []"
| "join_with sep [x] = x"
| "join_with sep (x # xs) = x @ sep @ join_with sep xs"

definition raw_stamp :: "raw_request \<Rightarrow> string \<Rightarrow> int" where
  "raw_stamp r u = (case (case rr_at r of Some a \<Rightarrow> get a u | None \<Rightarrow> None) of Some t \<Rightarrow> t
     | None \<Rightarrow> (case rr_requestedAt r of Some t \<Rightarrow> t | None \<Rightarrow> 0))"

definition normalise :: "request_entry object \<Rightarrow> string \<times> raw_request option \<Rightarrow> request_entry object" where
  "normalise out = (\<lambda>(k, r). case r of None \<Rightarrow> out
     | Some r \<Rightarrow> (case rr_underlyings r of None \<Rightarrow> out
        | Some us \<Rightarrow> put k \<lparr>re_at = foldl (\<lambda>a u. put u (raw_stamp r u) a) [] us, re_reason = text_of (rr_reason r)\<rparr> out))"

definition requestsOf :: "demand_body \<Rightarrow> request_entry object" where
  "requestsOf b = foldl normalise []
     (case db_requests b of Some rs \<Rightarrow> rs
      | None \<Rightarrow> (if rr_underlyings (db_top b) \<noteq> None \<and> (case rr_requestedAt (db_top b) of Some t \<Rightarrow> t > 0 | None \<Rightarrow> False)
                then [(''legacy'', Some (db_top b))] else []))"

definition keyOf :: "int object \<Rightarrow> string \<Rightarrow> string" where
  "keyOf a u = (case find (\<lambda>x. lower x = lower u) (map fst a) of Some x \<Rightarrow> x | None \<Rightarrow> u)"

definition prune :: "request_entry object \<Rightarrow> int \<Rightarrow> int \<Rightarrow> request_entry object" where
  "prune reqs nowSec ttlSec = map (\<lambda>(k, r). (k, r\<lparr>re_at := filter (\<lambda>(u, t). nowSec - t \<le> ttlSec) (re_at r)\<rparr>)) reqs"

definition max_stamp :: "int object \<Rightarrow> int" where
  "max_stamp a = (case map snd a of t # ts \<Rightarrow> foldl max t ts | [] \<Rightarrow> 0)"

definition summarize :: "request_entry object \<Rightarrow> demand_body" where
  "summarize reqs =
     (let live = filter (\<lambda>(k, r). re_at r \<noteq> []) reqs in
      \<lparr>db_requests = Some (map (\<lambda>(k, r). (k, Some \<lparr>rr_underlyings = Some (map fst (re_at r)), rr_at = Some (re_at r),
            rr_requestedAt = Some (max_stamp (re_at r)), rr_reason = Some (re_reason r)\<rparr>)) live),
       db_top = \<lparr>rr_underlyings = Some (rev (remdups (rev (concat (map (\<lambda>(k, r). map fst (re_at r)) live))))), rr_at = None,
            rr_requestedAt = Some (foldl (\<lambda>m (k, r). max m (max_stamp (re_at r))) 0 live),
            rr_reason = Some (take 120 (join_with ''; '' (map (\<lambda>(k, r). k @ '': '' @ re_reason r) live)))\<rparr>\<rparr>)"

datatype demand_status = DemandWritten | DemandPending

definition stamp_one :: "int \<Rightarrow> int \<Rightarrow> int object \<times> demand_status \<Rightarrow> string \<Rightarrow> int object \<times> demand_status" where
  "stamp_one nowSec refreshSec = (\<lambda>(a, status) u.
     let k = keyOf a u in
     case get a k of
       Some t \<Rightarrow> (if nowSec - t \<ge> refreshSec then (put k nowSec a, DemandWritten) else (a, status))
     | None \<Rightarrow> (put k nowSec a, DemandWritten))"

definition mergeRequest :: "demand_body \<Rightarrow> string \<Rightarrow> string list \<Rightarrow> string \<Rightarrow> int \<Rightarrow> int \<Rightarrow> int \<Rightarrow> demand_body \<times> demand_status" where
  "mergeRequest body requester underlyings reason nowSec refreshSec ttlSec =
     (let reqs = prune (requestsOf body) nowSec ttlSec;
          mine = (case get reqs requester of Some r \<Rightarrow> r | None \<Rightarrow> \<lparr>re_at = [], re_reason = []\<rparr>);
          (a, status) = foldl (stamp_one nowSec refreshSec) (re_at mine, DemandPending) underlyings;
          mine' = mine\<lparr>re_at := a, re_reason := (if status = DemandWritten then take 120 reason else re_reason mine)\<rparr>
      in (summarize (put requester mine' reqs), status))"

text \<open>\<open>underlyings = null\<close> (all of them) is \<open>None\<close>; the result \<open>None\<close> means nothing changed.\<close>

definition dropRequest :: "demand_body \<Rightarrow> string \<Rightarrow> string list option \<Rightarrow> demand_body option" where
  "dropRequest body requester underlyings =
     (let reqs = requestsOf body in
      case get reqs requester of None \<Rightarrow> None
      | Some mine \<Rightarrow>
         (let dropped = (case underlyings of Some us \<Rightarrow> filter (\<lambda>k. get (re_at mine) k \<noteq> None) (map (keyOf (re_at mine)) us)
                         | None \<Rightarrow> map fst (re_at mine))
          in if dropped = [] then None
             else Some (summarize (put requester (mine\<lparr>re_at := filter (\<lambda>(k, _). k \<notin> set dropped) (re_at mine)\<rparr>) reqs))))"

text \<open>The file operations: a missing or unreadable file is the empty body.\<close>

definition requestPush :: "demand_body option \<Rightarrow> string \<Rightarrow> string list \<Rightarrow> string \<Rightarrow> int \<Rightarrow> int \<Rightarrow> int \<Rightarrow> demand_status \<times> demand_body option" where
  "requestPush file requester underlyings reason nowSec refreshSec ttlSec =
     (let (body, status) = mergeRequest (case file of Some b \<Rightarrow> b | None \<Rightarrow> EMPTY_BODY) requester underlyings reason nowSec refreshSec ttlSec
      in (status, if status = DemandWritten then Some body else file))"

definition clearRequest :: "demand_body option \<Rightarrow> string \<Rightarrow> string list option \<Rightarrow> bool \<times> demand_body option" where
  "clearRequest file requester underlyings =
     (case file of None \<Rightarrow> (False, None)
      | Some b \<Rightarrow> (case dropRequest b requester underlyings of Some b' \<Rightarrow> (True, Some b') | None \<Rightarrow> (False, file)))"

subsection \<open>Reading it: \<open>parseDemand\<close>\<close>

definition canon :: "string list \<Rightarrow> string \<Rightarrow> string option" where
  "canon listed u = find (\<lambda>k. lower k = lower u) (rev listed)"

definition add_stamp :: "string list \<Rightarrow> int \<Rightarrow> int \<Rightarrow> raw_request \<Rightarrow> int \<Rightarrow> int object \<Rightarrow> string \<Rightarrow> int object" where
  "add_stamp listed nowSec ttlSec r requestedAt a u =
     (let own = (case (case rr_at r of Some x \<Rightarrow> get x u | None \<Rightarrow> None) of Some t \<Rightarrow> t | None \<Rightarrow> requestedAt);
          tu = min (if own > 0 then own else requestedAt) nowSec
      in if nowSec - tu > ttlSec then a
         else case canon listed u of None \<Rightarrow> a
           | Some k \<Rightarrow> put k (max (case get a k of Some t \<Rightarrow> t | None \<Rightarrow> 0) tu) a)"

type_synonym parse_state = "int object \<times> string list \<times> string option"

definition parse_entry :: "string list \<Rightarrow> int \<Rightarrow> int \<Rightarrow> parse_state \<Rightarrow> string \<times> raw_request option \<Rightarrow> parse_state" where
  "parse_entry listed nowSec ttlSec = (\<lambda>(a, reasons, why) (who, r).
     let keep_why = (\<lambda>msg. case why of Some w \<Rightarrow> Some w | None \<Rightarrow> Some msg) in
     case r of
       None \<Rightarrow> (a, reasons, keep_why ''underlyings[] required'')
     | Some r \<Rightarrow>
        (case rr_underlyings r of
           None \<Rightarrow> (a, reasons, keep_why ''underlyings[] required'')
         | Some us \<Rightarrow>
            (if us = [] then (a, reasons, keep_why ''underlyings[] required'')
             else case rr_requestedAt r of
               None \<Rightarrow> (a, reasons, keep_why ''requestedAt (unix seconds) required'')
             | Some t \<Rightarrow>
                (if t \<le> 0 then (a, reasons, keep_why ''requestedAt (unix seconds) required'')
                 else if filter (\<lambda>u. canon listed u = None) us \<noteq> [] then (a, reasons, keep_why ''unlisted underlying(s)'')
                 else let requestedAt = min t nowSec in
                   if nowSec - requestedAt > ttlSec then (a, reasons, keep_why ''expired'')
                   else (foldl (add_stamp listed nowSec ttlSec r requestedAt) a us,
                         reasons @ [if who = [] then text_of (rr_reason r) else who @ '': '' @ text_of (rr_reason r)], why)))))"

definition parseDemand :: "demand_body option \<Rightarrow> string list \<Rightarrow> int \<Rightarrow> int \<Rightarrow> demand result" where
  "parseDemand body listed nowSec ttlSec =
     (case body of None \<Rightarrow> Inl ''demand file is not JSON''
      | Some b \<Rightarrow>
         (let entries = (case db_requests b of Some rs \<Rightarrow> rs | None \<Rightarrow> [([], Some (db_top b))]);
              (a, reasons, why) = foldl (parse_entry listed nowSec ttlSec) ([], [], None) entries
          in if a = [] then Inl (case why of Some w \<Rightarrow> w | None \<Rightarrow> ''demand: no request'')
             else Inr \<lparr>dm_underlyings = map fst a, dm_requestedAt = max_stamp a, dm_at = a, dm_reason = take 120 (join_with ''; '' reasons)\<rparr>))"

subsection \<open>Freshness on the Arc side\<close>

record arc_reads =
  ar_price18 :: int
  ar_observedAt :: int
  ar_sourceUpdatedAt :: int
  ar_status :: int
  ar_maxAge :: int
  ar_priceUSD18 :: int
  ar_underlyingOf :: "string option"

definition STATUS_LIVE :: int where "STATUS_LIVE = 1"
definition STATUS_STALE :: int where "STATUS_STALE = 2"

record arc_check =
  ck_fresh :: bool
  ck_demandable :: bool
  ck_underlying :: string
  ck_reason :: string

text \<open>An observation never made is infinitely old (\<open>None\<close>). \<open>ar_underlyingOf\<close> is \<open>None\<close> when the call failed
  or the answer is zero.\<close>

definition arc_age :: "int \<Rightarrow> int \<Rightarrow> int option" where
  "arc_age nowSec observedAt = (if observedAt \<noteq> 0 then Some (max 0 (nowSec - observedAt)) else None)"

definition checkArcPrice :: "arc_reads \<Rightarrow> string \<Rightarrow> int \<Rightarrow> int option \<Rightarrow> int \<Rightarrow> arc_check" where
  "checkArcPrice o1 asset nowSec windowSec marginSec =
     (let window = (case windowSec of Some w \<Rightarrow> w | None \<Rightarrow> ar_maxAge o1);
          age = arc_age nowSec (ar_observedAt o1);
          underlying = (case ar_underlyingOf o1 of Some u \<Rightarrow> u | None \<Rightarrow> asset);
          out = \<lparr>ck_fresh = False, ck_demandable = False, ck_underlying = underlying, ck_reason = []\<rparr>;
          recent = (case age of Some a \<Rightarrow> a + marginSec \<le> window | None \<Rightarrow> False);
          fresh = (ar_priceUSD18 o1 > 0 \<and> recent \<and> (windowSec \<noteq> None \<or> ar_status o1 = STATUS_LIVE))
      in if fresh then out\<lparr>ck_fresh := True, ck_reason := ''fresh''\<rparr>
         else if \<not> ar_price18 o1 > 0 then out\<lparr>ck_reason := ''no relayed price''\<rparr>
         else if ar_status o1 \<noteq> STATUS_LIVE \<and> ar_status o1 \<noteq> STATUS_STALE then out\<lparr>ck_reason := ''paused / divergent / suspect''\<rparr>
         else if ar_status o1 = STATUS_STALE \<and> (case age of Some a \<Rightarrow> a \<le> ar_maxAge o1 | None \<Rightarrow> False)
         then out\<lparr>ck_reason := ''Chainlink feed frozen''\<rparr>
         else out\<lparr>ck_demandable := True, ck_reason := ''observation old''\<rparr>)"

datatype ensure_demand = NoDemand | Dry | NoStatusDir | Requested demand_status

text \<open>The wall clock \<open>wallSec\<close> stamps the request; the file is threaded through.\<close>

definition ensureFreshPrice :: "arc_check \<Rightarrow> demand_body option \<Rightarrow> bool \<Rightarrow> string \<Rightarrow> bool \<Rightarrow> string \<Rightarrow> int \<Rightarrow> int
    \<Rightarrow> (bool \<times> ensure_demand) \<times> demand_body option" where
  "ensureFreshPrice check file has_dir requester execute reason refreshSec wallSec =
     (if ck_fresh check
      then ((True, NoDemand), if execute \<and> has_dir then snd (clearRequest file requester (Some [ck_underlying check])) else file)
      else if \<not> ck_demandable check then ((False, NoDemand), file)
      else if \<not> execute then ((False, Dry), file)
      else if \<not> has_dir then ((False, NoStatusDir), file)
      else let (status, file') = requestPush file requester [ck_underlying check]
           (if reason = [] then ck_reason check else reason @ '' '' @ ck_reason check) wallSec refreshSec 1800
        in ((False, Requested status), file'))"

subsection \<open>A demand reaches the oracle keeper\<close>

lemma find_SomeD: "find P xs = Some x \<Longrightarrow> x \<in> set xs \<and> P x"
  by (induction xs) (auto split: if_splits)

lemma canon_SomeD: "canon listed u = Some k \<Longrightarrow> k \<in> set listed \<and> lower k = lower u"
  by (auto simp: canon_def dest!: find_SomeD)

lemma canon_cong: "lower u = lower v \<Longrightarrow> canon listed u = canon listed v"
  by (simp add: canon_def)

text \<open>The stamps of the requester after a merge: for every underlying asked, one younger than the refresh.\<close>

definition young :: "int \<Rightarrow> int \<Rightarrow> int object \<Rightarrow> string \<Rightarrow> bool" where
  "young nowSec refreshSec a u \<longleftrightarrow> (\<exists>k t. lower k = lower u \<and> get a k = Some t \<and> nowSec - t < refreshSec)"

lemma keyOf_lower: "lower (keyOf a u) = lower u"
  by (auto simp: keyOf_def find_Some_iff split: option.splits)

lemma stamp_one_young:
  assumes "0 < refreshSec"
  shows "young nowSec refreshSec (fst (stamp_one nowSec refreshSec (a, s) u)) u"
    and "young nowSec refreshSec a v \<Longrightarrow> young nowSec refreshSec (fst (stamp_one nowSec refreshSec (a, s) u)) v"
proof -
  show "young nowSec refreshSec (fst (stamp_one nowSec refreshSec (a, s) u)) u"
    using assms keyOf_lower [of a u] unfolding young_def
    by (intro exI [of _ "keyOf a u"]) (auto simp: stamp_one_def Let_def get_put split: option.splits)
  assume "young nowSec refreshSec a v"
  then obtain k t where "lower k = lower v" "get a k = Some t" "nowSec - t < refreshSec" by (auto simp: young_def)
  with assms show "young nowSec refreshSec (fst (stamp_one nowSec refreshSec (a, s) u)) v"
    unfolding young_def by (intro exI [of _ k]) (auto simp: stamp_one_def Let_def get_put split: option.splits)
qed

lemma stamps_young:
  assumes "0 < refreshSec" "u \<in> set us"
  shows "young nowSec refreshSec (fst (foldl (stamp_one nowSec refreshSec) (a, s) us)) u"
proof -
  have keep: "young nowSec refreshSec a v \<Longrightarrow> young nowSec refreshSec (fst (foldl (stamp_one nowSec refreshSec) (a, s) us)) v" for v us a s
  proof (induction us arbitrary: a s)
    case (Cons x us)
    with stamp_one_young(2) [OF assms(1) Cons.prems] show ?case
      by (cases "stamp_one nowSec refreshSec (a, s) x") (metis foldl_Cons fst_conv)
  qed simp
  show ?thesis using assms(2)
  proof (induction us arbitrary: a s)
    case (Cons x us)
    obtain a' s' where x: "stamp_one nowSec refreshSec (a, s) x = (a', s')" by (cases "stamp_one nowSec refreshSec (a, s) x")
    with stamp_one_young(1) [OF assms(1), of nowSec a s x] have "young nowSec refreshSec a' x" by simp
    with keep Cons show ?case by (auto simp: x)
  qed simp
qed

definition all_listed :: "string list \<Rightarrow> int object \<Rightarrow> bool" where
  "all_listed listed a \<longleftrightarrow> (\<forall>k\<in>fst ` set a. canon listed k \<noteq> None)"

lemma put_keys: "fst ` set (put k v a) = insert k (fst ` set a)" for a :: "'v object"
  by (induction a) auto

lemma stamps_listed:
  "all_listed listed a \<Longrightarrow> (\<And>u. u \<in> set us \<Longrightarrow> canon listed u \<noteq> None) \<Longrightarrow>
   all_listed listed (fst (foldl (stamp_one nowSec refreshSec) (a, s) us))"
proof (induction us arbitrary: a s)
  case (Cons x us)
  have "canon listed (keyOf a x) \<noteq> None" using Cons.prems(2) [of x] canon_cong [OF keyOf_lower [of a x]] by simp
  then have "all_listed listed (fst (stamp_one nowSec refreshSec (a, s) x))"
  proof -
    have "all_listed listed (put (keyOf a x) nowSec a)"
      using Cons.prems(1) \<open>canon listed (keyOf a x) \<noteq> None\<close> unfolding all_listed_def put_keys by blast
    with Cons.prems(1) show ?thesis by (simp add: stamp_one_def Let_def split: option.splits)
  qed
  with Cons.IH [of "fst (stamp_one nowSec refreshSec (a, s) x)" "snd (stamp_one nowSec refreshSec (a, s) x)"] Cons.prems(2)
  show ?case by simp
qed simp

text \<open>What a fold of \<open>parse_entry\<close> has recorded for a stock only grows.\<close>

definition at_least :: "int object \<Rightarrow> string \<Rightarrow> int \<Rightarrow> bool" where
  "at_least a k lo \<longleftrightarrow> (\<exists>t. get a k = Some t \<and> lo \<le> t)"

lemma add_stamp_mono: "at_least a k lo \<Longrightarrow> at_least (add_stamp listed now ttl r q a u) k lo"
  by (auto simp: add_stamp_def at_least_def Let_def get_put split: option.splits)

lemma add_stamps_mono: "at_least a k lo \<Longrightarrow> at_least (foldl (add_stamp listed now ttl r q) a us) k lo"
  by (induction us arbitrary: a) (auto intro: add_stamp_mono)

lemma parse_entry_mono: "at_least (fst s) k lo \<Longrightarrow> at_least (fst (parse_entry listed now ttl s e)) k lo"
  by (auto simp: parse_entry_def Let_def add_stamps_mono split: prod.splits option.splits)

lemma parse_entries_mono: "at_least (fst s) k lo \<Longrightarrow> at_least (fst (foldl (parse_entry listed now ttl) s es)) k lo"
proof (induction es arbitrary: s)
  case (Cons e es)
  from Cons.IH [OF parse_entry_mono [OF Cons.prems]] show ?case by simp
qed simp

lemma add_stamps_records:
  assumes "x \<in> set us" "rr_at r = Some a0" "get a0 x = Some t" "0 < t" "now - min t now \<le> ttl" "canon listed x = Some k"
  shows "at_least (foldl (add_stamp listed now ttl r q) a us) k (min t now)"
  using assms(1)
proof (induction us arbitrary: a)
  case (Cons y us)
  show ?case
  proof (cases "y = x")
    case True
    have "at_least (add_stamp listed now ttl r q a x) k (min t now)"
      using assms(2-) by (simp add: add_stamp_def at_least_def Let_def get_put)
    then show ?thesis using True by (simp add: add_stamps_mono)
  qed (use Cons in simp)
qed simp

lemma parse_entries_records:
  assumes "(who, Some r) \<in> set es" "rr_underlyings r = Some us" "rr_at r = Some a0" "rr_requestedAt r = Some q" "0 < q" "now - min q now \<le> ttl"
    and "\<And>u. u \<in> set us \<Longrightarrow> canon listed u \<noteq> None"
    and "x \<in> set us" "get a0 x = Some t" "0 < t" "now - min t now \<le> ttl" "canon listed x = Some k"
  shows "at_least (fst (foldl (parse_entry listed now ttl) s es)) k (min t now)"
  using assms(1)
proof (induction es arbitrary: s)
  case (Cons e es)
  show ?case
  proof (cases "e = (who, Some r)")
    case True
    have "filter (\<lambda>u. canon listed u = None) us = []" using assms(7) by (simp add: filter_empty_conv)
    then have "fst (parse_entry listed now ttl s e) = foldl (add_stamp listed now ttl r (min q now)) (fst s) us"
      using True assms(2,4,5,6,8) by (auto simp: parse_entry_def Let_def split: prod.splits)
    then have "at_least (fst (parse_entry listed now ttl s e)) k (min t now)"
      using add_stamps_records [OF assms(8,3,9,10,11,12)] by simp
    then show ?thesis by (simp add: parse_entries_mono)
  qed (use Cons in simp)
qed simp

lemma max_stamp_ge: "get a k = Some t \<Longrightarrow> t \<le> max_stamp a"
proof -
  have above: "m \<le> foldl max m xs" for m :: int and xs
    by (induction xs arbitrary: m) (simp, metis foldl_Cons max.bounded_iff)
  have elem: "x \<le> foldl max m xs" if "x \<in> set xs" for x m :: int and xs
    using that by (induction xs arbitrary: m) (simp, metis above foldl_Cons max.bounded_iff set_ConsD)
  assume t: "get a k = Some t"
  have "t \<in> set (map snd a)" using imageI [OF map_of_SomeD [OF t], of snd] by simp
  with above elem show ?thesis by (cases "map snd a") (auto simp: max_stamp_def)
qed

lemma summarize_entry: "get reqs who = Some r \<Longrightarrow> re_at r \<noteq> [] \<Longrightarrow>
  \<exists>rs. db_requests (summarize reqs) = Some rs \<and> (who, Some \<lparr>rr_underlyings = Some (map fst (re_at r)), rr_at = Some (re_at r),
            rr_requestedAt = Some (max_stamp (re_at r)), rr_reason = Some (re_reason r)\<rparr>) \<in> set rs"
proof -
  assume r: "get reqs who = Some r" "re_at r \<noteq> []"
  have "(who, r) \<in> set (filter (\<lambda>(k, r). re_at r \<noteq> []) reqs)" using map_of_SomeD [OF r(1)] r(2) by simp
  from imageI [OF this, of "\<lambda>(k, r). (k, Some \<lparr>rr_underlyings = Some (map fst (re_at r)), rr_at = Some (re_at r),
      rr_requestedAt = Some (max_stamp (re_at r)), rr_reason = Some (re_reason r)\<rparr>)"]
  show ?thesis unfolding summarize_def Let_def demand_body.select_convs
    by - (rule exI, rule conjI, rule refl, simp only: set_map prod.case)
qed

text \<open>A demand reaches the oracle keeper: after a merge the file parses, whatever else it held, and the
  parsed demand names every stock the requester asked for with a stamp younger than the refresh; so a
  stock whose last push is older than the refresh and the coalescing window is demanded in the push
  decision (or refused there only because its observation would land divergent).\<close>

theorem demand_reaches_push:
  assumes merge: "mergeRequest body requester us reason now refresh ttl = (b', status)" and u: "u \<in> set us"
    and times: "0 < refresh" "refresh \<le> ttl" "ttl < now"
    and listed: "\<And>v. v \<in> set us \<Longrightarrow> canon listed v \<noteq> None"
      "\<And>mine. get (prune (requestsOf body) now ttl) requester = Some mine \<Longrightarrow> all_listed listed (re_at mine)"
  shows "\<exists>d k. parseDemand (Some b') listed now ttl = Inr d \<and> canon listed u = Some k \<and> k \<in> set (dm_underlyings d)
    \<and> (\<forall>p c l. ps_pushedAt l \<le> now - refresh - op_demandCoalesceSec p \<longrightarrow>
          demand_state p (Some d) k c (Some l) = Some (op_twapTrigger p \<and> twapDivergent c (op_maxTwapBps p)))"
proof -
  define reqs where "reqs = prune (requestsOf body) now ttl"
  define mine where "mine = (case get reqs requester of Some r \<Rightarrow> r | None \<Rightarrow> \<lparr>re_at = [], re_reason = []\<rparr>)"
  obtain a st where a: "foldl (stamp_one now refresh) (re_at mine, DemandPending) us = (a, st)" by fastforce
  define mine' where "mine' = mine\<lparr>re_at := a, re_reason := (if st = DemandWritten then take 120 reason else re_reason mine)\<rparr>"
  have b': "b' = summarize (put requester mine' reqs)"
    using merge a unfolding mergeRequest_def Let_def reqs_def [symmetric] mine_def [symmetric] mine'_def by (cases "st = DemandWritten") auto
  have "young now refresh a u" using stamps_young [OF times(1) u, of now "re_at mine" DemandPending] a by simp
  then obtain x t where x: "lower x = lower u" "get a x = Some t" "now - t < refresh" by (auto simp: young_def)
  have "all_listed listed (re_at mine)" using listed(2) by (auto simp: mine_def reqs_def all_listed_def split: option.splits)
  from stamps_listed [OF this listed(1), of us now refresh DemandPending] a have al: "all_listed listed a" by simp
  obtain k where k: "canon listed u = Some k" using listed(1) [OF u] by blast
  have kx: "canon listed x = Some k" using canon_cong [OF x(1)] k by simp
  have in_a: "x \<in> set (map fst a)" using x(2) by (force dest: map_of_SomeD)
  have t: "0 < t" "now - min t now \<le> ttl" "now - refresh < min t now" using x(3) times by auto
  have q: "0 < max_stamp a" "now - min (max_stamp a) now \<le> ttl" using max_stamp_ge [OF x(2)] t by auto
  have "get (put requester mine' reqs) requester = Some mine'" by (simp add: get_put)
  moreover have "re_at mine' = a" "a \<noteq> []" using in_a by (auto simp: mine'_def)
  ultimately obtain rs where rs: "db_requests b' = Some rs" "(requester, Some \<lparr>rr_underlyings = Some (map fst a), rr_at = Some a,
      rr_requestedAt = Some (max_stamp a), rr_reason = Some (re_reason mine')\<rparr>) \<in> set rs"
    using summarize_entry [of "put requester mine' reqs" requester mine'] unfolding b' by auto
  obtain at rea why where fold: "foldl (parse_entry listed now ttl) ([], [], None) rs = (at, rea, why)" by (metis prod_cases3)
  have "at_least (fst (foldl (parse_entry listed now ttl) ([], [], None) rs)) k (min t now)"
    by (rule parse_entries_records [OF rs(2) _ _ _ q(1) q(2) _ in_a x(2) t(1) t(2) kx]) (use al in \<open>auto simp: all_listed_def\<close>)
  then obtain t' where t': "get at k = Some t'" "min t now \<le> t'" by (auto simp: at_least_def fold)
  then have kin: "k \<in> fst ` set at" by (force dest: map_of_SomeD)
  then have "at \<noteq> []" by auto
  with rs(1) fold have p: "parseDemand (Some b') listed now ttl =
      Inr \<lparr>dm_underlyings = map fst at, dm_requestedAt = max_stamp at, dm_at = at, dm_reason = take 120 (join_with ''; '' rea)\<rparr>"
    by (simp add: parseDemand_def Let_def)
  show ?thesis
    by (rule exI, rule exI [of _ k], rule conjI, rule p) (use k kin t' t(3) in \<open>auto simp: demand_state_def Let_def\<close>)
qed

theorem demand_reaches_push_witness:
  "\<exists>d k. parseDemand (Some (fst (mergeRequest EMPTY_BODY ''round'' [''0xAb''] ''start'' 5000 600 1800))) [''0xaB''] 5000 1800 = Inr d \<and> k \<in> set (dm_underlyings d)"
proof -
  have m: "mergeRequest EMPTY_BODY ''round'' [''0xAb''] ''start'' 5000 600 1800
     = (fst (mergeRequest EMPTY_BODY ''round'' [''0xAb''] ''start'' 5000 600 1800), snd (mergeRequest EMPTY_BODY ''round'' [''0xAb''] ''start'' 5000 600 1800))"
    by simp
  have c: "canon [''0xaB''] ''0xAb'' \<noteq> None" by code_simp
  have g: "get (prune (requestsOf EMPTY_BODY) 5000 1800) ''round'' = None" by code_simp
  from demand_reaches_push [OF m, of "''0xAb''" "[''0xaB'']"] c g show ?thesis by auto
qed

end
