(* ===== verification/Discovery.thy ===== *)
theory Discovery
  imports Keeper_Base
begin

section \<open>Log discovery (\<open>keepers/v3/lib/discovery.mjs\<close>)\<close>

text \<open>
  \<open>LogDiscovery\<close> reads the logs of one contract up to a safe head in chunks, decodes them and keeps one
  record per id, the earliest sighting; the cursor moves after the records of a chunk are written. A
  scanner (\<open>scanner\<close>) is its name, its address and numbers, the provider's answers and the decoder; the
  body of a decoded item is a parameter type. A journal that a scanner shares with a keeper holds
  sightings, cursors and the keeper's own records (\<open>Own\<close>). The block times a scan remembers are
  re-read in the model: a scan sends nothing, so both give the same answer.
\<close>

subsection \<open>Records and scanners\<close>

record 'p sighting =
  sg_id :: string
  sg_block :: int
  sg_index :: int
  sg_tx :: string
  sg_body :: 'p

datatype ('p, 'x) drec = Own 'x | Sighting "'p sighting" | Cursor int

record log_entry =
  lg_block :: int
  lg_index :: int
  lg_removed :: bool
  lg_tx :: string
  lg_data :: "string list"

record ('p, 'c) scanner =
  sn_name :: string
  sn_address :: string
  sn_fromBlock :: int
  sn_confirmations :: int
  sn_chunk :: int
  sn_maxChunks :: nat
  sn_timestamps :: bool
  sn_ms :: "'c history \<Rightarrow> int"
  sn_head :: "'c history \<Rightarrow> int result"
  sn_logs :: "int \<Rightarrow> int \<Rightarrow> 'c history \<Rightarrow> log_entry list result"
  sn_block :: "int \<Rightarrow> 'c history \<Rightarrow> int option result"
  sn_decode :: "log_entry \<Rightarrow> int option \<Rightarrow> 'c history \<Rightarrow> (string \<times> 'p) option result"

type_synonym ('p, 'x, 'c, 'o, 'a) dop = "((('p, 'x) drec, 'c, 'o) kst, 'a) op"

definition earlier_than :: "int \<times> int \<Rightarrow> int \<times> int \<Rightarrow> bool" where
  "earlier_than a b \<longleftrightarrow> fst a < fst b \<or> (fst a = fst b \<and> snd a < snd b)"

definition pos :: "'p sighting \<Rightarrow> int \<times> int" where
  "pos x = (sg_block x, sg_index x)"

definition dayOf :: "int \<Rightarrow> int" where
  "dayOf ts = ts div DAY"

definition item_ns :: "('p, 'c) scanner \<Rightarrow> string" where
  "item_ns s = ''discover:'' @ sn_name s"

definition cursor_id :: "('p, 'c) scanner \<Rightarrow> string" where
  "cursor_id s = sn_name s @ '':'' @ lower (sn_address s)"

definition sighting_of :: "('p, 'x) drec option \<Rightarrow> 'p sighting option" where
  "sighting_of r = (case r of Some (Sighting x) \<Rightarrow> Some x | _ \<Rightarrow> None)"

definition own_of :: "('p, 'x) drec option \<Rightarrow> 'x option" where
  "own_of r = (case r of Some (Own x) \<Rightarrow> Some x | _ \<Rightarrow> None)"

definition cursor :: "('p, 'c) scanner \<Rightarrow> ('p, 'x) drec journal \<Rightarrow> int" where
  "cursor s j = (case record_of j (''discoverCursor'', cursor_id s) of Some (Cursor n) \<Rightarrow> n | _ \<Rightarrow> sn_fromBlock s)"

definition by_position :: "'p sighting \<Rightarrow> 'p sighting \<Rightarrow> int" where
  "by_position a b = (if earlier_than (pos a) (pos b) then -1 else if earlier_than (pos b) (pos a) then 1 else 0)"

definition items :: "('p, 'c) scanner \<Rightarrow> ('p, 'x) drec journal \<Rightarrow> 'p sighting list" where
  "items s j = js_sort by_position
     (filter (\<lambda>x. sg_id x \<noteq> []) (List.map_filter (\<lambda>r. sighting_of (Some r)) (records_in j (item_ns s))))"

subsection \<open>Upsert and scan\<close>

text \<open>The first sighting wins: a duplicate or a later one changes nothing.\<close>

definition upsert :: "('p, 'c) scanner \<Rightarrow> 'p sighting \<Rightarrow> ('p, 'x, 'c, 'o, bool) dop" where
  "upsert s item =
     bindk (getj (\<lambda>j. sighting_of (record_of j (item_ns s, sg_id item)))) (\<lambda>prev.
     if (case prev of Some p \<Rightarrow> \<not> earlier_than (pos item) (pos p) | None \<Rightarrow> False) then ret False
     else thenk (put_rec (sn_ms s) (item_ns s) (sg_id item) (\<lambda>_. Sighting item)) (ret (prev = None)))"

definition log_order :: "log_entry \<Rightarrow> log_entry \<Rightarrow> int" where
  "log_order a b = (if lg_block a - lg_block b \<noteq> 0 then lg_block a - lg_block b else lg_index a - lg_index b)"

definition block_time :: "('p, 'c) scanner \<Rightarrow> int \<Rightarrow> ('p, 'x, 'c, 'o, int option) dop" where
  "block_time s n = (if \<not> sn_timestamps s then ret None else
     bindk (rd (sn_block s n)) (\<lambda>b. case b of None \<Rightarrow> throw ''block is null'' | Some t \<Rightarrow> ret (Some t)))"

definition see_log :: "('p, 'c) scanner \<Rightarrow> log_entry \<Rightarrow> ('p, 'x, 'c, 'o, string list) dop" where
  "see_log s l =
     bindk (block_time s (lg_block l)) (\<lambda>ts.
     bindk (rd (sn_decode s l ts)) (\<lambda>d.
     case d of None \<Rightarrow> ret []
     | Some (i, body) \<Rightarrow>
        bindk (upsert s \<lparr>sg_id = i, sg_block = lg_block l, sg_index = lg_index l, sg_tx = lg_tx l, sg_body = body\<rparr>)
          (\<lambda>new. ret (if new then [i] else []))))"

fun sync_chunks :: "('p, 'c) scanner \<Rightarrow> int \<Rightarrow> nat \<Rightarrow> int \<Rightarrow> string list \<Rightarrow> ('p, 'x, 'c, 'o, string list \<times> int) dop" where
  "sync_chunks s safe 0 frm added = ret (added, frm)"
| "sync_chunks s safe (Suc n) frm added =
     (if \<not> frm \<le> safe then ret (added, frm) else
      let upto = min safe (frm + sn_chunk s - 1) in
      bindk (rd (sn_logs s frm upto)) (\<lambda>logs.
      bindk (collect (see_log s) (js_sort log_order (filter (\<lambda>l. \<not> lg_removed l) logs))) (\<lambda>new.
      bindk (rd (sn_block s upto)) (\<lambda>b.
      case b of None \<Rightarrow> ret (added @ concat new, frm)
      | Some _ \<Rightarrow> thenk (put_rec (sn_ms s) ''discoverCursor'' (cursor_id s) (\<lambda>_. Cursor (upto + 1)))
           (sync_chunks s safe n (upto + 1) (added @ concat new))))))"

record synced =
  sy_added :: "string list"
  sy_next :: int
  sy_behind :: int

definition sync :: "('p, 'c) scanner \<Rightarrow> ('p, 'x, 'c, 'o, synced) dop" where
  "sync s =
     bindk (rd (sn_head s)) (\<lambda>head.
     let safe = head - sn_confirmations s in
     bindk (getj (cursor s)) (\<lambda>frm.
     bindk (sync_chunks s safe (sn_maxChunks s) frm []) (\<lambda>(added, nxt).
     ret \<lparr>sy_added = added, sy_next = nxt, sy_behind = max 0 (safe - nxt + 1)\<rparr>)))"

subsection \<open>Configured and discovered sources\<close>

text \<open>\<open>mergeSources\<close>: configured sources first, then discovered ones whose address is not listed yet.\<close>

fun keep_new :: "('a \<Rightarrow> string) \<Rightarrow> string list \<Rightarrow> 'a list \<Rightarrow> 'a list" where
  "keep_new addr seen [] = []"
| "keep_new addr seen (s # ss) = (let k = lower (addr s) in
     if k \<in> set seen then keep_new addr seen ss else s # keep_new addr (k # seen) ss)"

definition mergeSources :: "('a \<Rightarrow> string) \<Rightarrow> 'a list \<Rightarrow> 'a list \<Rightarrow> 'a list" where
  "mergeSources addr configured discovered = keep_new addr [] (configured @ discovered)"

subsection \<open>Nothing is missed\<close>

text \<open>\<open>L\<close> is what the chain holds and \<open>D\<close> the decoder on it. \<open>stored\<close>: the record kept for a log's id is
  no later than the log. \<open>complete\<close>: every log from the start block up to the cursor is stored, and every
  record is a log of the chain.\<close>

definition lpos :: "log_entry \<Rightarrow> int \<times> int" where
  "lpos l = (lg_block l, lg_index l)"

definition stored :: "('p, 'c) scanner \<Rightarrow> (log_entry \<Rightarrow> (string \<times> 'p) option) \<Rightarrow> ('p, 'x) drec journal \<Rightarrow> log_entry \<Rightarrow> bool" where
  "stored s D j l = (case D l of None \<Rightarrow> True | Some (i, body) \<Rightarrow>
     (case sighting_of (record_of j (item_ns s, i)) of None \<Rightarrow> False | Some x \<Rightarrow> \<not> earlier_than (lpos l) (pos x)))"

definition genuine :: "(log_entry \<Rightarrow> (string \<times> 'p) option) \<Rightarrow> log_entry list \<Rightarrow> string \<Rightarrow> 'p sighting \<Rightarrow> bool" where
  "genuine D L i x \<longleftrightarrow> (\<exists>l\<in>set L. D l = Some (i, sg_body x) \<and> pos x = lpos l \<and> sg_id x = i \<and> sg_tx x = lg_tx l)"

definition complete :: "('p, 'c) scanner \<Rightarrow> (log_entry \<Rightarrow> (string \<times> 'p) option) \<Rightarrow> log_entry list \<Rightarrow> ('p, 'x) drec journal \<Rightarrow> bool" where
  "complete s D L j \<longleftrightarrow>
     (\<forall>l\<in>set L. \<not> lg_removed l \<longrightarrow> sn_fromBlock s \<le> lg_block l \<longrightarrow> lg_block l < cursor s j \<longrightarrow> stored s D j l)
     \<and> (\<forall>i x. sighting_of (record_of j (item_ns s, i)) = Some x \<longrightarrow> genuine D L i x)"

text \<open>What the scan relies on: the decoder depends on the log alone, and an answer to \<open>getLogs\<close> holds
  logs of the chain, all of the range when the same node has the last block of the range.\<close>

definition chain_answers :: "('p, 'c) scanner \<Rightarrow> (log_entry \<Rightarrow> (string \<times> 'p) option) \<Rightarrow> log_entry list \<Rightarrow> bool" where
  "chain_answers s D L \<longleftrightarrow>
     (\<forall>l ts h d. sn_decode s l ts h = Inr d \<longrightarrow> d = D l)
     \<and> (\<forall>a b h logs. sn_logs s a b h = Inr logs \<longrightarrow> set logs \<subseteq> set L
          \<and> (\<forall>t. sn_block s b h = Inr (Some t) \<longrightarrow> (\<forall>l\<in>set L. a \<le> lg_block l \<longrightarrow> lg_block l \<le> b \<longrightarrow> l \<in> set logs)))"

lemma ns_distinct [simp]: "item_ns s \<noteq> ''discoverCursor''" "''discoverCursor'' \<noteq> item_ns s"
  by (simp_all add: item_ns_def)

lemma cursor_put [simp]:
  "cursor s (setRecord now (item_ns s) i patch j) = cursor s j"
  "cursor s (setRecord now ''discoverCursor'' (cursor_id s) (\<lambda>_. Cursor n) j) = n"
  by (simp_all add: cursor_def record_of_setRecord)

lemma sighting_put [simp]:
  "sighting_of (record_of (setRecord now (item_ns s) i (\<lambda>_. Sighting x) j) (item_ns s, k)) =
     (if k = i then Some x else sighting_of (record_of j (item_ns s, k)))"
  "sighting_of (record_of (setRecord now ''discoverCursor'' c patch j) (item_ns s, k)) = sighting_of (record_of j (item_ns s, k))"
  by (simp_all add: record_of_setRecord sighting_of_def)

lemma earlier_trans: "earlier_than c a \<Longrightarrow> earlier_than a b \<Longrightarrow> earlier_than c b"
  by (auto simp: earlier_than_def)

lemma earlier_irrefl [simp]: "\<not> earlier_than a a"
  by (simp add: earlier_than_def)

lemma stored_put:
  assumes "stored s D j l" and "\<And>p. sighting_of (record_of j (item_ns s, sg_id x)) = Some p \<Longrightarrow> earlier_than (pos x) (pos p)"
  shows "stored s D (setRecord now (item_ns s) (sg_id x) (\<lambda>_. Sighting x) j) l"
  using assms by (auto simp: stored_def dest: earlier_trans split: option.splits)

lemma stored_cursor [simp]: "stored s D (setRecord now ''discoverCursor'' c patch j) l = stored s D j l"
  by (simp add: stored_def split: option.split)

lemma complete_put:
  assumes "complete s D L j" "genuine D L (sg_id x) x"
    and "\<And>p. sighting_of (record_of j (item_ns s, sg_id x)) = Some p \<Longrightarrow> earlier_than (pos x) (pos p)"
  shows "complete s D L (setRecord now (item_ns s) (sg_id x) (\<lambda>_. Sighting x) j)"
proof -
  have "stored s D (setRecord now (item_ns s) (sg_id x) (\<lambda>_. Sighting x) j) l" if "stored s D j l" for l
    using that assms(3) by (rule stored_put)
  with assms(1,2) show ?thesis by (auto simp: complete_def)
qed

definition scanned :: "('p, 'c) scanner \<Rightarrow> (log_entry \<Rightarrow> (string \<times> 'p) option) \<Rightarrow> log_entry list \<Rightarrow> int \<Rightarrow> 'c history
    \<Rightarrow> log_entry set \<Rightarrow> (('p, 'x) drec, 'c, 'o) kst \<Rightarrow> bool" where
  "scanned s D L c h S st \<longleftrightarrow> cursor s (kj st) = c \<and> hist st = h \<and> complete s D L (kj st) \<and> (\<forall>l\<in>S. stored s D (kj st) l)"

lemma scanned_upsert:
  assumes "scanned s D L c h S st" "l \<in> set L" "D l = Some (i, body)"
    and x: "x = \<lparr>sg_id = i, sg_block = lg_block l, sg_index = lg_index l, sg_tx = lg_tx l, sg_body = body\<rparr>"
  shows "wp (upsert s x) (\<lambda>_. scanned s D L c h (insert l S)) (scanned s D L c h S) st"
proof -
  have g: "genuine D L (sg_id x) x" and p: "pos x = lpos l" "sg_id x = i"
    using assms by (auto simp: genuine_def pos_def lpos_def)
  show ?thesis unfolding upsert_def
    using assms(1) g p assms(3)
    by (intro wps) (auto simp: scanned_def stored_def [of s D _ l] intro: complete_put stored_put split: option.splits)
qed

lemma scanned_mono: "scanned s D L c h S st \<Longrightarrow> T \<subseteq> S \<Longrightarrow> scanned s D L c h T st"
  by (auto simp: scanned_def)

lemma scanned_log:
  fixes st :: "(('p, 'x) drec, 'c, 'o) kst"
  assumes ch: "chain_answers s D L" and sc: "scanned s D L c h S st" and l: "l \<in> set L"
  shows "wp (see_log s l) (\<lambda>_. scanned s D L c h (insert l S)) (scanned s D L c h S) st"
proof -
  have dec: "sn_decode s l ts h = Inr d \<Longrightarrow> d = D l" for ts h d using ch by (simp add: chain_answers_def)
  have none: "scanned s D L c h (insert l S) st" if "D l = None" using sc that by (simp add: scanned_def stored_def)
  have some: "wp (bindk (upsert s \<lparr>sg_id = i, sg_block = lg_block l, sg_index = lg_index l, sg_tx = lg_tx l, sg_body = body\<rparr>)
      (\<lambda>new. ret (if new then [i] else []))) (\<lambda>_. scanned s D L c h (insert l S)) (scanned s D L c h S) st" if "D l = Some (i, body)" for i body
    by (intro wps wp_cons [OF scanned_upsert [OF sc l that refl]]) auto
  show ?thesis unfolding see_log_def block_time_def
    by (intro wps none some sc) (auto dest!: dec)
qed

lemma scanned_logs:
  fixes st :: "(('p, 'x) drec, 'c, 'o) kst"
  assumes "chain_answers s D L" "scanned s D L c h S st" "set ls \<subseteq> set L"
  shows "wp (collect (see_log s) ls) (\<lambda>_. scanned s D L c h (set ls \<union> S)) (scanned s D L c h {}) st"
  using assms(2,3)
proof (induction ls arbitrary: S st)
  case (Cons l ls)
  have st: "scanned s D L c h S st" and l: "l \<in> set L" and ls: "set ls \<subseteq> set L" using Cons.prems by auto
  have rest: "wp (bindk (collect (see_log s) ls) (\<lambda>ys. ret (y # ys))) (\<lambda>_. scanned s D L c h (set (l # ls) \<union> S)) (scanned s D L c h {}) st1"
    if "scanned s D L c h (insert l S) st1" for y and st1 :: "(('p, 'x) drec, 'c, 'o) kst"
    using Cons.IH [OF that ls] by (intro wps) (auto elim!: wp_cons intro: wps)
  show ?case unfolding collect.simps
    by (intro wps wp_cons [OF scanned_log [OF assms(1) st l]] rest) (auto intro: scanned_mono)
qed (auto intro: wps)

lemma scanned_range:
  assumes ch: "chain_answers s D L" and logs: "sn_logs s c b h = Inr logs" and blk: "sn_block s b h = Inr (Some t)"
    and sc: "scanned s D L c h {l \<in> set logs. \<not> lg_removed l} st"
  shows "complete s D L (setRecord now ''discoverCursor'' (cursor_id s) (\<lambda>_. Cursor (b + 1)) (kj st))"
proof -
  have all: "l \<in> set logs" if "l \<in> set L" "c \<le> lg_block l" "lg_block l \<le> b" for l
    using ch logs blk that by (auto simp: chain_answers_def)
  have "stored s D (kj st) l" if "l \<in> set L" "\<not> lg_removed l" "sn_fromBlock s \<le> lg_block l" "lg_block l < b + 1" for l
    using sc all [of l] that by (cases "lg_block l < c") (auto simp: scanned_def complete_def)
  then show ?thesis
    using sc by (auto simp: scanned_def complete_def)
qed

lemma complete_chunks:
  fixes st :: "(('p, 'x) drec, 'c, 'o) kst"
  assumes ch: "chain_answers s D L"
  shows "complete s D L (kj st) \<Longrightarrow> cursor s (kj st) = frm \<Longrightarrow>
    wp (sync_chunks s safe n frm added) (\<lambda>_ st1. complete s D L (kj st1)) (\<lambda>st1. complete s D L (kj st1)) st"
proof (induction n arbitrary: frm added st)
  case (Suc n)
  have logs: "sn_logs s frm b h = Inr logs \<Longrightarrow> set logs \<subseteq> set L" for b h logs using ch by (simp add: chain_answers_def)
  have sub: "set (js_sort log_order (filter (\<lambda>l. \<not> lg_removed l) logs)) \<subseteq> set L"
    if "sn_logs s frm b (hist st) = Inr logs" for b logs using logs [OF that] by auto
  have st: "scanned s D L frm (hist st) {} st" using Suc.prems by (simp add: scanned_def)
  show ?case unfolding sync_chunks.simps
    apply (intro wps)
    subgoal by (rule Suc.prems)
    subgoal for upto logs
      apply (rule wp_cons [OF scanned_logs [OF ch st sub]], assumption)
      subgoal for new st1
        apply (intro wps)
        subgoal by (simp add: scanned_def)
        subgoal for _ t
          apply (rule Suc.IH)
          subgoal by (auto simp: scanned_def intro: scanned_range [OF ch])
          by simp
        by (simp_all add: scanned_def)
      by (simp add: scanned_def)
    using Suc.prems by simp_all
qed (auto intro: wps)

text \<open>C24. A scan, whether it ends, stops behind a lagging node or throws half way, leaves every log from the start block
  up to the cursor stored, under the earliest sighting of its id, and stores nothing the chain does not
  hold. So a crash or an error at any point never loses a coin or a staking lane.\<close>

theorem discovery_complete:
  assumes "chain_answers s D L" "complete s D L (kj st)"
  shows "complete s D L (kj (snd (sync s st)))"
proof -
  have "wp (sync s) (\<lambda>_ st1. complete s D L (kj st1)) (\<lambda>st1. complete s D L (kj st1)) st"
    unfolding sync_def by (intro wps wp_cons [OF complete_chunks [OF assms(1)]]) (use assms(2) in auto)
  then show ?thesis by (auto simp: wp_def split: prod.splits sum.splits)
qed

lemma complete_open: "complete s D L (open_journal None)"
  by (simp add: complete_def cursor_def record_of_def ns_of_def open_journal_def Let_def sighting_of_def)

text \<open>A chain with two sightings of one id and a removed log; a node that lags in the second scan.\<close>

definition demo_log :: "int \<Rightarrow> int \<Rightarrow> bool \<Rightarrow> string \<Rightarrow> log_entry" where
  "demo_log b i r x = \<lparr>lg_block = b, lg_index = i, lg_removed = r, lg_tx = ''0xt'', lg_data = [x]\<rparr>"

definition demo_chain :: "log_entry list" where
  "demo_chain = [demo_log 12 1 False ''a'', demo_log 12 0 False ''a'', demo_log 13 0 True ''b'', demo_log 17 2 False ''c'']"

definition demo_decode :: "log_entry \<Rightarrow> (string \<times> unit) option" where
  "demo_decode l = (case lg_data l of [x] \<Rightarrow> Some (x, ()) | _ \<Rightarrow> None)"

definition demo_scanner :: "(unit, unit) scanner" where
  "demo_scanner = \<lparr>sn_name = ''launch'', sn_address = ''0xF'', sn_fromBlock = 10, sn_confirmations = 2, sn_chunk = 4, sn_maxChunks = 5,
     sn_timestamps = True, sn_ms = (\<lambda>_. 0), sn_head = (\<lambda>_. Inr 18), sn_logs = (\<lambda>a b _. Inr (filter (\<lambda>l. a \<le> lg_block l \<and> lg_block l \<le> b) demo_chain)),
     sn_block = (\<lambda>b _. Inr (if b \<le> 16 then Some (b * 10) else None)), sn_decode = (\<lambda>l _ _. Inr (demo_decode l))\<rparr>"

definition demo_start :: "((unit, unit) drec, unit, unit) kst" where
  "demo_start = \<lparr>kj = open_journal None, hist = [], outs = []\<rparr>"

theorem discovery_complete_witness:
  "complete demo_scanner demo_decode demo_chain (kj (snd (sync demo_scanner demo_start)))
   \<and> items demo_scanner (kj (snd (sync demo_scanner demo_start))) = [\<lparr>sg_id = ''a'', sg_block = 12, sg_index = 0, sg_tx = ''0xt'', sg_body = ()\<rparr>]
   \<and> map_sum id sy_next (fst (sync demo_scanner demo_start)) = Inr 17"
proof (intro conjI)
  have "chain_answers demo_scanner demo_decode demo_chain"
    by (auto simp: chain_answers_def demo_scanner_def)
  moreover have "complete demo_scanner demo_decode demo_chain (kj demo_start)"
    by (simp add: demo_start_def complete_open)
  ultimately show "complete demo_scanner demo_decode demo_chain (kj (snd (sync demo_scanner demo_start)))"
    by (rule discovery_complete)
  show "items demo_scanner (kj (snd (sync demo_scanner demo_start))) = [\<lparr>sg_id = ''a'', sg_block = 12, sg_index = 0, sg_tx = ''0xt'', sg_body = ()\<rparr>]"
    by code_simp
  show "map_sum id sy_next (fst (sync demo_scanner demo_start)) = Inr 17"
    by code_simp
qed

text \<open>A scan asks for no transaction.\<close>

lemma keeps_sync:
  assumes cur: "\<And>n. keeps I (put_rec (sn_ms s) ''discoverCursor'' (cursor_id s) (\<lambda>_. Cursor n))"
    and new: "\<And>l ts h i body x. sn_decode s l ts h = Inr (Some (i, body)) \<Longrightarrow> sg_id x = i \<Longrightarrow> sg_body x = body
       \<Longrightarrow> keeps I (put_rec (sn_ms s) (item_ns s) i (\<lambda>_. Sighting x))"
  shows "keeps I (sync s)"
proof -
  have gives: "gives I (rd (sn_decode s l ts)) (\<lambda>d. \<exists>h. sn_decode s l ts h = Inr d)" for l ts
    by (auto simp: gives_def rd_def)
  have up: "keeps I (upsert s \<lparr>sg_id = i, sg_block = b, sg_index = k, sg_tx = t, sg_body = body\<rparr>)"
    if "\<exists>h. sn_decode s l ts h = Inr (Some (i, body))" for l ts i body b k t
    using that unfolding upsert_def by (intro keeping) (auto intro: new)
  have log: "keeps I (see_log s l)" for l
    unfolding see_log_def block_time_def
    by (intro keeping keeps_bind_gives [OF keeps_rd gives]) (auto intro!: keeping up split: option.split)
  have chunks: "keeps I (sync_chunks s safe n frm added)" for safe n frm added
    by (induction n arbitrary: frm added) (auto simp: Let_def intro!: keeping log cur split: option.splits)
  show ?thesis unfolding sync_def Let_def by (intro keeping chunks)
qed

lemma at_scan [keeping]: "keeps (\<lambda>st. hist st = h) (sync s)"
  by (intro keeps_sync keeping)

lemma keep_new_spec:
  "distinct (map (lower \<circ> addr) (keep_new addr seen ss)) \<and> set (map (lower \<circ> addr) (keep_new addr seen ss)) = set (map (lower \<circ> addr) ss) - set seen"
  by (induction ss arbitrary: seen) (auto simp: Let_def)


text \<open>The merged source list has no address twice (in any letter case), keeps every source, and an
  operator's entry wins over a discovered one: the configured list, itself without repeats, is its prefix.\<close>

theorem mergeSources_spec:
  "distinct (map (lower \<circ> addr) (mergeSources addr configured discovered))
   \<and> set (map (lower \<circ> addr) (mergeSources addr configured discovered)) = set (map (lower \<circ> addr) (configured @ discovered))
   \<and> (\<exists>rest. mergeSources addr configured discovered = mergeSources addr configured [] @ rest \<and> set rest \<subseteq> set discovered)"
proof -
  have sub: "set (keep_new addr seen ys) \<subseteq> set ys" for seen ys
    by (induction ys arbitrary: seen) (auto simp: Let_def)
  have "\<exists>rest. keep_new addr seen (xs @ ys) = keep_new addr seen xs @ rest \<and> set rest \<subseteq> set ys" for seen xs ys
    by (induction xs arbitrary: seen) (auto simp: Let_def sub)
  then show ?thesis
    using keep_new_spec [of addr "[]" "configured @ discovered"] by (simp add: mergeSources_def)
qed

end
