(* ===== verification/Relay.thy ===== *)
theory Relay
  imports Keeper_Base
begin

section \<open>Relay quotes (\<open>keepers/v3/lib/relay.mjs\<close>)\<close>

text \<open>
  The quote service is untrusted: a quote is accepted only when every field that decides where money
  goes is the expected one. A quote is its JSON text (for the word scan) and the fields the checks read,
  an absent or mistyped field being \<open>None\<close>; a value given to \<open>BigInt\<close> is a \<open>jint\<close>. \<open>getAddress\<close> (the
  checksum of ethers, which throws on a malformed address) is a parameter. The fee planners ask for
  quotes through an operation of the caller.
\<close>

subsection \<open>Values and errors\<close>

datatype jint = JNum int | JStr int | JBad

datatype relay_error = RelayRejected string | Raised string

definition big :: "jint \<Rightarrow> relay_error + int" where
  "big j = (case j of JNum n \<Rightarrow> Inr n | JStr n \<Rightarrow> Inr n | JBad \<Rightarrow> Inl (Raised ''Cannot convert to a BigInt''))"

text \<open>\<open>String(a ?? '').toLowerCase()\<close>; the truth value of an optional string or number.\<close>

definition lc :: "string option \<Rightarrow> string" where
  "lc a = lower (case a of Some s \<Rightarrow> s | None \<Rightarrow> [])"

definition given :: "string option \<Rightarrow> bool" where
  "given a \<longleftrightarrow> a \<noteq> None \<and> a \<noteq> Some []"

definition given_int :: "jint option \<Rightarrow> bool" where
  "given_int j \<longleftrightarrow> j \<noteq> None \<and> j \<noteq> Some (JNum 0)"

definition is_hex :: "char \<Rightarrow> bool" where
  "is_hex c \<longleftrightarrow> c \<in> set ''0123456789abcdefABCDEF''"

definition hex_from :: "nat \<Rightarrow> string \<Rightarrow> bool" where
  "hex_from n s \<longleftrightarrow> starts_with ''0x'' s \<and> n \<le> length (drop 2 s) \<and> list_all is_hex (drop 2 s)"

definition arcChainId :: int where "arcChainId = 5042"
definition rhChainId :: int where "rhChainId = 4663"
definition arcNativeUsdc :: string where "arcNativeUsdc = ''0x0000000000000000000000000000000000000000''"
definition rhUsdg :: string where "rhUsdg = ''0x5fc5360d0400a0fd4f2af552add042d716f1d168''"
definition relayRouter :: string where "relayRouter = ''0xb92fe925dc43a0ecde6c8b1a2709c170ec4fff4f''"
definition routerMulticall :: string where "routerMulticall = ''0xcd6e13f7''"

subsection \<open>Quote requests\<close>

record quote_request =
  qr_user :: string
  qr_recipient :: string
  qr_originChainId :: int
  qr_destinationChainId :: int
  qr_originCurrency :: string
  qr_destinationCurrency :: string
  qr_amount :: int

definition checked :: "(string \<Rightarrow> string result) \<Rightarrow> string \<Rightarrow> (string \<Rightarrow> relay_error + 'a) \<Rightarrow> relay_error + 'a" where
  "checked getAddress a f = (case getAddress a of Inl e \<Rightarrow> Inl (Raised e) | Inr x \<Rightarrow> f x)"

definition buildDepositQuoteRequest :: "(string \<Rightarrow> string result) \<Rightarrow> string \<Rightarrow> string \<Rightarrow> int \<Rightarrow> int \<Rightarrow> int \<Rightarrow> string \<Rightarrow> string \<Rightarrow> relay_error + quote_request" where
  "buildDepositQuoteRequest getAddress user recipient amount originChainId destinationChainId originCurrency destinationCurrency =
     checked getAddress user (\<lambda>u. checked getAddress recipient (\<lambda>r.
       Inr \<lparr>qr_user = u, qr_recipient = r, qr_originChainId = originChainId, qr_destinationChainId = destinationChainId,
            qr_originCurrency = originCurrency, qr_destinationCurrency = destinationCurrency, qr_amount = amount\<rparr>))"

definition buildQuoteRequest :: "(string \<Rightarrow> string result) \<Rightarrow> string \<Rightarrow> string \<Rightarrow> int \<Rightarrow> string option \<Rightarrow> relay_error + quote_request" where
  "buildQuoteRequest getAddress user recipient amountWei destinationCurrency =
     checked getAddress user (\<lambda>u. checked getAddress recipient (\<lambda>r.
       Inr \<lparr>qr_user = u, qr_recipient = r, qr_originChainId = arcChainId, qr_destinationChainId = rhChainId,
            qr_originCurrency = arcNativeUsdc, qr_destinationCurrency = (case destinationCurrency of Some d \<Rightarrow> d | None \<Rightarrow> rhUsdg),
            qr_amount = amountWei\<rparr>))"

subsection \<open>The quote\<close>

record step_data =
  sd_chainId :: "int option"
  sd_to :: "string option"
  sd_from :: "string option"
  sd_value :: "jint option"
  sd_data :: "string option"

record relay_step =
  rs_kind :: "string option"
  rs_id :: "string option"
  rs_items :: "step_data list option"
  rs_requestId :: "string option"

record quote_details =
  qd_recipient :: "string option"
  qd_sender :: "string option"
  qd_inAmount :: "jint option"
  qd_outChainId :: "int option"
  qd_outAddress :: "string option"
  qd_outAmount :: "jint option"
  qd_outMinimum :: "jint option"

record order_payment =
  op_chainId :: "string option"
  op_currency :: "string option"
  op_amount :: "jint option"
  op_recipient :: "string option"
  op_expected :: "jint option"
  op_minimum :: "jint option"

record order_input =
  oi_payment :: order_payment
  oi_refunds :: "(string option \<times> string option) list"

record order_output =
  oo_chainId :: "string option"
  oo_calls :: nat
  oo_payments :: "order_payment list"
  oo_deadline :: int

record relay_quote =
  rq_text :: string
  rq_steps :: "relay_step list option"
  rq_requestId :: "string option"
  rq_details :: quote_details
  rq_orderId :: "string option"
  rq_inputs :: "order_input list"
  rq_output :: order_output

record relay_expect =
  ex_user :: string
  ex_recipient :: string
  ex_amountWei :: int
  ex_minOut6 :: "int option"
  ex_allowedTargets :: "string list option"
  ex_allowedSelectors :: "string list option"
  ex_originChainId :: "int option"
  ex_destinationChainId :: "int option"
  ex_destinationCurrency :: "string option"

record relay_tx =
  rt_to :: string
  rt_data :: string
  rt_value :: int
  rt_chainId :: int

record validated =
  vl_requestId :: "string option"
  vl_tx :: relay_tx
  vl_amountOut6 :: int
  vl_minimumOut6 :: int

definition reject :: "string \<Rightarrow> relay_error + 'a" where
  "reject r = Inl (RelayRejected r)"

text \<open>The destination and the amounts, after the transaction itself was checked.\<close>

definition check_destination :: "(string \<Rightarrow> string result) \<Rightarrow> relay_quote \<Rightarrow> relay_step \<Rightarrow> step_data \<Rightarrow> int \<Rightarrow> int \<Rightarrow> string \<Rightarrow> relay_expect \<Rightarrow> relay_error + validated" where
  "check_destination getAddress q step data originChainId value payload x =
     (let d = rq_details q in
      if qd_outChainId d \<noteq> Some (orelse (ex_destinationChainId x) rhChainId) then reject ''destination chain''
      else if lc (qd_outAddress d) \<noteq> lower (orelse (ex_destinationCurrency x) rhUsdg) then reject ''destination currency''
      else if given (qd_recipient d) \<and> lc (qd_recipient d) \<noteq> lower (ex_recipient x) then reject ''recipient''
      else if given (qd_sender d) \<and> lc (qd_sender d) \<noteq> lower (ex_user x) then reject ''sender''
      else case (if given_int (qd_inAmount d) then big (orelse (qd_inAmount d) (JNum 0)) else Inr (ex_amountWei x)) of
        Inl e \<Rightarrow> Inl e
      | Inr inAmount \<Rightarrow>
         if inAmount \<noteq> ex_amountWei x then reject ''currencyIn amount''
         else case big (orelse (qd_outMinimum d) (orelse (qd_outAmount d) (JNum 0))) of
           Inl e \<Rightarrow> Inl e
         | Inr minimum \<Rightarrow>
            if (case ex_minOut6 x of Some m \<Rightarrow> minimum < m | None \<Rightarrow> False) then reject ''minimum out''
            else checked getAddress (orelse (sd_to data) []) (\<lambda>dst.
              case big (orelse (qd_outAmount d) (JNum minimum)) of
                Inl e \<Rightarrow> Inl e
              | Inr amountOut \<Rightarrow> Inr \<lparr>vl_requestId = (if rq_requestId q \<noteq> None then rq_requestId q else rs_requestId step),
                  vl_tx = \<lparr>rt_to = dst, rt_data = payload, rt_value = value, rt_chainId = originChainId\<rparr>,
                  vl_amountOut6 = amountOut, vl_minimumOut6 = minimum\<rparr>))"

definition check_step :: "(string \<Rightarrow> string result) \<Rightarrow> relay_quote \<Rightarrow> relay_step \<Rightarrow> step_data \<Rightarrow> relay_expect \<Rightarrow> relay_error + validated" where
  "check_step getAddress q step data x =
     (let originChainId = orelse (ex_originChainId x) arcChainId in
      if sd_chainId data \<noteq> Some originChainId then reject ''chainId''
      else if lc (sd_to data) \<notin> set (map lower (orelse (ex_allowedTargets x) [relayRouter])) then reject ''unknown target''
      else if given (sd_from data) \<and> lc (sd_from data) \<noteq> lower (ex_user x) then reject ''from''
      else case big (orelse (sd_value data) (JNum (-1))) of Inl e \<Rightarrow> reject ''bad value''
      | Inr value \<Rightarrow>
         if value \<noteq> ex_amountWei x then reject ''value''
         else case sd_data data of None \<Rightarrow> reject ''missing calldata''
         | Some payload \<Rightarrow>
            if \<not> hex_from 8 payload then reject ''missing calldata''
            else if lower (take 10 payload) \<notin> set (map lower (orelse (ex_allowedSelectors x) [routerMulticall])) then reject ''selector''
            else if \<not> contains (drop 2 (lower (ex_user x))) (lower payload) then reject ''user not bound in calldata''
            else check_destination getAddress q step data originChainId value payload x)"

definition validateRelayQuote :: "(string \<Rightarrow> string result) \<Rightarrow> relay_quote \<Rightarrow> relay_expect \<Rightarrow> relay_error + validated" where
  "validateRelayQuote getAddress q x =
     (if matches_any [''lifi''] (rq_text q) then reject ''lifi/lifiIntents route''
      else case rq_steps q of
        Some [step] \<Rightarrow>
          if rs_kind step \<noteq> Some ''transaction'' then reject ''step kind''
          else if given (rs_id step) \<and> \<not> matches_any [''deposit''] (orelse (rs_id step) []) then reject ''step id''
          else (case rs_items step of Some [data] \<Rightarrow> check_step getAddress q step data x | _ \<Rightarrow> reject ''expected exactly one item'')
      | _ \<Rightarrow> reject ''expected exactly one step'')"

subsection \<open>Deposit quotes (plain-transfer fills)\<close>

record deposit_expect =
  dx_user :: string
  dx_recipient :: string
  dx_amount :: int
  dx_originChainId :: int
  dx_destinationChainId :: int
  dx_destinationCurrency :: string
  dx_minOut :: "int option"
  dx_nativeScale :: "int option"
  dx_paymentCurrency :: "string option"

record deposit_quote =
  dq_orderId :: string
  dq_requestId :: "string option"
  dq_expectedOut :: int
  dq_minimumOut :: int
  dq_deadline :: int

definition chain_name :: "int \<Rightarrow> string option" where
  "chain_name n = (if n = 5042 then Some ''arc'' else if n = 4663 then Some ''robinhood''
     else if n = 421614 then Some ''arbitrum-sepolia'' else if n = 5042002 then Some ''arc-testnet'' else None)"

definition check_output :: "relay_quote \<Rightarrow> string \<Rightarrow> deposit_expect \<Rightarrow> relay_error + deposit_quote" where
  "check_output q orderId x =
     (let out = rq_output q; d = rq_details q in
      if oo_chainId out \<noteq> chain_name (dx_destinationChainId x) then reject ''output chain''
      else if oo_calls out \<noteq> 0 then reject ''destination calls present (2a needs a plain transfer)''
      else case oo_payments out of
        [p] \<Rightarrow>
          if lc (op_recipient p) \<noteq> lower (dx_recipient x) then reject ''output recipient''
          else if lc (op_currency p) \<noteq> lower (dx_destinationCurrency x) then reject ''output currency''
          else if given (qd_recipient d) \<and> lc (qd_recipient d) \<noteq> lower (dx_recipient x) then reject ''recipient''
          else if given (qd_sender d) \<and> lc (qd_sender d) \<noteq> lower (dx_user x) then reject ''sender''
          else (case (big (orelse (op_expected p) (orelse (qd_outAmount d) (JNum 0))), big (orelse (op_minimum p) (orelse (qd_outMinimum d) (JNum 0)))) of
             (Inr expected, Inr minimum) \<Rightarrow>
               if (case dx_minOut x of Some m \<Rightarrow> expected < m | None \<Rightarrow> False) then reject ''expected out''
               else Inr \<lparr>dq_orderId = orderId, dq_requestId = (if rq_requestId q \<noteq> None then rq_requestId q
                      else (case rq_steps q of Some (s # _) \<Rightarrow> rs_requestId s | _ \<Rightarrow> None)),
                    dq_expectedOut = expected, dq_minimumOut = minimum, dq_deadline = oo_deadline out\<rparr>
           | (Inl e, _) \<Rightarrow> Inl e
           | (_, Inl e) \<Rightarrow> Inl e)
      | _ \<Rightarrow> reject ''expected one output payment'')"

definition check_input :: "order_input \<Rightarrow> deposit_expect \<Rightarrow> relay_error + unit" where
  "check_input i x =
     (let p = oi_payment i; origin = chain_name (dx_originChainId x); scale = orelse (dx_nativeScale x) 1 in
      if op_chainId p \<noteq> origin then reject ''payment chain''
      else if given (dx_paymentCurrency x) \<and> lc (op_currency p) \<noteq> lc (dx_paymentCurrency x) then reject ''payment currency''
      else case big (orelse (op_amount p) (JNum (-1))) of Inl e \<Rightarrow> Inl e
      | Inr amount \<Rightarrow>
         if scale = 0 then Inl (Raised ''Division by zero'')
         else if amount \<noteq> bdiv (dx_amount x) scale then reject ''payment amount''
         else case find (\<lambda>r. fst r = origin) (oi_refunds i) of
           None \<Rightarrow> reject ''origin refund recipient''
         | Some r \<Rightarrow> if lc (snd r) \<noteq> lower (dx_user x) then reject ''origin refund recipient'' else Inr ())"

definition validateDepositQuote :: "relay_quote \<Rightarrow> deposit_expect \<Rightarrow> relay_error + deposit_quote" where
  "validateDepositQuote q x =
     (if matches_any [''lifi''] (rq_text q) then reject ''lifi/lifiIntents route''
      else case rq_orderId q of None \<Rightarrow> reject ''no protocol.v2.orderId''
      | Some orderId \<Rightarrow>
         if \<not> hex_from 64 orderId \<or> length orderId \<noteq> 66 \<or> drop 2 orderId = replicate 64 (CHR ''0'') then reject ''no protocol.v2.orderId''
         else case rq_inputs q of
           [i] \<Rightarrow> (case check_input i x of Inl e \<Rightarrow> Inl e | Inr _ \<Rightarrow> check_output q orderId x)
         | _ \<Rightarrow> reject ''expected one input'')"

subsection \<open>Fee planners\<close>

datatype fee_plan = PlanFees int int int | DeferFees string int

definition onGrid :: "int \<Rightarrow> int \<Rightarrow> int" where
  "onGrid budget fees = fees + bmod (USDC_GRID - bmod (budget + fees) USDC_GRID) USDC_GRID"

fun fund_loop :: "int \<Rightarrow> (int \<Rightarrow> ('s, int) op) \<Rightarrow> int \<Rightarrow> int \<Rightarrow> int \<Rightarrow> nat \<Rightarrow> int \<Rightarrow> ('s, fee_plan) op" where
  "fund_loop budget quoteMinOut6 need cap bufferBps 0 fees = ret (DeferFees ''QuoteNotConverging'' fees)"
| "fund_loop budget quoteMinOut6 need cap bufferBps (Suc n) fees =
     (let inp = budget + fees in
      bindk (quoteMinOut6 inp) (\<lambda>min6.
      if min6 \<ge> need then ret (PlanFees fees need min6)
      else if min6 \<le> 0 then ret (DeferFees ''NoRoute'' fees)
      else let scaled = bdiv (need * USDC_GRID * inp + min6 * USDC_GRID - 1) (min6 * USDC_GRID);
               fee = scaled - budget;
               fees' = onGrid budget (fee + bdiv (fee * bufferBps) 10000 + USDC_GRID)
           in if fees' > cap then ret (DeferFees ''CostLimit'' fees')
              else fund_loop budget quoteMinOut6 need cap bufferBps n fees'))"

definition planFundingFees :: "int \<Rightarrow> (int \<Rightarrow> ('s, int) op) \<Rightarrow> int \<Rightarrow> int \<Rightarrow> nat \<Rightarrow> ('s, fee_plan) op" where
  "planFundingFees budget quoteMinOut6 maxFeeBps bufferBps maxIterations =
     fund_loop budget quoteMinOut6 (bdiv (budget + USDC_GRID - 1) USDC_GRID) (bdiv (budget * maxFeeBps) 10000) bufferBps maxIterations (onGrid budget 0)"

datatype route_fee = RouteFee int int | DeferRoute string int

definition next_route_fee :: "int \<Rightarrow> int \<Rightarrow> int \<Rightarrow> int \<Rightarrow> int \<Rightarrow> int" where
  "next_route_fee amountIn needOut grid fee out =
     (let short = needOut - out;
          nxt = fee + bdiv (short * amountIn) needOut + bdiv (bdiv (short * amountIn) needOut) 10 + grid
      in bdiv (nxt + grid - 1) grid * grid)"

fun route_loop :: "int \<Rightarrow> int \<Rightarrow> (int \<Rightarrow> ('s, int) op) \<Rightarrow> int \<Rightarrow> int option \<Rightarrow> nat \<Rightarrow> int \<Rightarrow> ('s, route_fee) op" where
  "route_loop amountIn needOut quoteOut grid maxFee 0 fee = ret (DeferRoute ''QuoteNotConverging'' fee)"
| "route_loop amountIn needOut quoteOut grid maxFee (Suc n) fee =
     bindk (quoteOut (amountIn + fee)) (\<lambda>out.
     if out \<ge> needOut then ret (RouteFee fee out)
     else if out \<le> 0 then ret (DeferRoute ''NoRoute'' fee)
     else let fee' = next_route_fee amountIn needOut grid fee out
          in if (case maxFee of Some m \<Rightarrow> fee' > m | None \<Rightarrow> False) then ret (DeferRoute ''CostLimit'' fee')
             else route_loop amountIn needOut quoteOut grid maxFee n fee')"

definition planRouteFee :: "int \<Rightarrow> int \<Rightarrow> (int \<Rightarrow> ('s, int) op) \<Rightarrow> int \<Rightarrow> int option \<Rightarrow> nat \<Rightarrow> ('s, route_fee) op" where
  "planRouteFee amountIn needOut quoteOut grid maxFee maxIterations = route_loop amountIn needOut quoteOut grid maxFee maxIterations 0"

subsection \<open>What a fee plan guarantees\<close>

lemma grid_up: "m dvd x + (m - x mod m) mod (m :: int)"
proof -
  have "(x + (m - x mod m) mod m) mod m = (x + (m - x mod m)) mod m" by (rule mod_add_right_eq)
  also have "x + (m - x mod m) = m * (x div m) + m" using minus_mod_eq_mult_div [of x m] by linarith
  finally show ?thesis by (simp only: dvd_eq_mod_eq_0 mod_add_self2 mod_mult_self1_is_0)
qed

lemma onGrid_dvd: "0 \<le> b + f \<Longrightarrow> USDC_GRID dvd b + onGrid b f"
  using grid_up [of USDC_GRID "b + f"] pos_mod_bound [of USDC_GRID "b + f"]
  by (simp add: onGrid_def bmod_nonneg USDC_GRID_def ac_simps)

lemma onGrid_bounds: "0 \<le> b + f \<Longrightarrow> f \<le> onGrid b f \<and> onGrid b f < f + USDC_GRID"
  by (simp add: onGrid_def bmod_nonneg USDC_GRID_def)

lemma ceil_le_div: "0 < m \<Longrightarrow> m * x \<le> y \<Longrightarrow> x \<le> (y + m - 1) div (m :: int)"
  using zdiv_mono1 [of "m * x" "y + m - 1" m] by simp

lemma scaled_ge:
  assumes "0 \<le> inp" "0 < min6" "min6 < need"
  shows "inp \<le> bdiv (need * USDC_GRID * inp + min6 * USDC_GRID - 1) (min6 * USDC_GRID)"
proof -
  have g: "0 < min6 * USDC_GRID" using assms by (simp add: USDC_GRID_def)
  have "min6 * USDC_GRID * inp \<le> need * USDC_GRID * inp" using assms by (intro mult_right_mono) (auto simp: USDC_GRID_def)
  then have "inp \<le> (need * USDC_GRID * inp + min6 * USDC_GRID - 1) div (min6 * USDC_GRID)" by (rule ceil_le_div [OF g])
  moreover have "0 \<le> need * USDC_GRID * inp + min6 * USDC_GRID - 1" 
  proof -
    have "0 \<le> need * USDC_GRID * inp" using assms by (simp add: USDC_GRID_def)
    with g show ?thesis by linarith
  qed
  ultimately show ?thesis using g by (simp add: bdiv_nonneg)
qed

lemma fund_loop_covers:
  "fund_loop b q need cap buf n fees st = (Inr (PlanFees f nd got), st') \<Longrightarrow> 0 \<le> b \<Longrightarrow> 0 \<le> buf \<Longrightarrow> 0 \<le> fees \<Longrightarrow> USDC_GRID dvd b + fees \<Longrightarrow>
   fees < USDC_GRID \<or> fees \<le> cap \<Longrightarrow>
   nd = need \<and> need \<le> got \<and> 0 \<le> f \<and> USDC_GRID dvd b + f \<and> (f < USDC_GRID \<or> f \<le> cap) \<and> (\<exists>s1. q (b + f) s1 = (Inr got, st'))"
proof (induction n arbitrary: fees st)
  case (Suc n)
  from Suc.prems(1) obtain min6 s2 where q: "q (b + fees) st = (Inr min6, s2)"
    by (auto simp: Let_def bindk_def split: prod.splits sum.splits)
  show ?case
  proof (cases "min6 \<ge> need")
    case True
    with Suc.prems q show ?thesis by (auto simp: Let_def bindk_def ret_def)
  next
    case False
    define fee where "fee = bdiv (need * USDC_GRID * (b + fees) + min6 * USDC_GRID - 1) (min6 * USDC_GRID) - b"
    define fees' where "fees' = onGrid b (fee + bdiv (fee * buf) 10000 + USDC_GRID)"
    have pos: "0 < min6" and cap: "fees' \<le> cap" and rest: "fund_loop b q need cap buf n fees' s2 = (Inr (PlanFees f nd got), st')"
      using Suc.prems(1) q False by (auto simp: Let_def bindk_def ret_def fee_def fees'_def split: if_splits)
    have "0 \<le> fee" using scaled_ge [of "b + fees" min6 need] Suc.prems False pos by (simp add: fee_def)
    then have "0 \<le> b + (fee + bdiv (fee * buf) 10000 + USDC_GRID)" and p: "0 \<le> fee + bdiv (fee * buf) 10000 + USDC_GRID"
      using Suc.prems bdiv_ge_0 [of "fee * buf" 10000] by (auto simp: USDC_GRID_def)
    from onGrid_dvd [OF this(1)] onGrid_bounds [OF this(1)] p cap show ?thesis
      by (intro Suc.IH [OF rest]) (use Suc.prems in \<open>auto simp: fees'_def\<close>)
  qed
qed (simp add: ret_def)

text \<open>A funding plan pays for the whole budget: the last quote asked was for exactly the budget and the
  fees, a whole number of micro-USDC, and its minimum output covers the budget rounded up; the fees stay
  under the ceiling \<open>maxFeeBps\<close> of the budget, except for less than one micro-USDC of rounding.\<close>

theorem planFundingFees_covers:
  assumes "planFundingFees budget quoteMinOut6 maxFeeBps bufferBps maxIterations st = (Inr (PlanFees fees need got), st')"
    and "0 \<le> budget" "0 \<le> bufferBps"
  shows "budget \<le> need * USDC_GRID \<and> need \<le> got \<and> (\<exists>s1. quoteMinOut6 (budget + fees) s1 = (Inr got, st'))
    \<and> 0 \<le> fees \<and> USDC_GRID dvd budget + fees \<and> (fees < USDC_GRID \<or> fees \<le> bdiv (budget * maxFeeBps) 10000)"
proof -
  have "need = bdiv (budget + USDC_GRID - 1) USDC_GRID \<and> need \<le> got \<and> 0 \<le> fees \<and> USDC_GRID dvd budget + fees
      \<and> (fees < USDC_GRID \<or> fees \<le> bdiv (budget * maxFeeBps) 10000) \<and> (\<exists>s1. quoteMinOut6 (budget + fees) s1 = (Inr got, st'))"
    using onGrid_bounds [of budget 0] onGrid_dvd [of budget 0] fund_loop_covers [OF assms(1) [unfolded planFundingFees_def]] assms(2,3)
    by simp
  moreover have "budget \<le> bdiv (budget + USDC_GRID - 1) USDC_GRID * USDC_GRID"
    using assms(2) by (simp add: bdiv_nonneg USDC_GRID_def)
  ultimately show ?thesis by auto
qed

theorem planFundingFees_covers_witness:
  "planFundingFees (250 * E18) (\<lambda>x. ret (bdiv (x * 9990) 10000 div 10 ^ 12)) 50 1000 4 () = (Inr (PlanFees 275277000000000000 250000000 250025001), ())
   \<and> 250 * E18 \<le> 250000000 * USDC_GRID \<and> USDC_GRID dvd 250 * E18 + 275277000000000000"
proof -
  have run: "planFundingFees (250 * E18) (\<lambda>x. ret (bdiv (x * 9990) 10000 div 10 ^ 12)) 50 1000 4 () = (Inr (PlanFees 275277000000000000 250000000 250025001), ())"
    by code_simp
  show ?thesis using planFundingFees_covers [OF run] run by (simp add: E18_def)
qed

subsection \<open>The route fee converges\<close>

text \<open>\<open>net_rate out a\<close>: each further unit of input brings at least ten elevenths of a unit of output.\<close>

definition net_rate :: "(int \<Rightarrow> int) \<Rightarrow> int \<Rightarrow> bool" where
  "net_rate out a \<longleftrightarrow> (\<forall>d \<ge> 0. 10 * d \<le> 11 * (out (a + d) - out a))"

lemma grid_ceil: "0 < g \<Longrightarrow> 0 \<le> x \<Longrightarrow> x \<le> bdiv (x + g - 1) g * g \<and> bdiv (x + g - 1) g * g < x + g \<and> g dvd bdiv (x + g - 1) g * g"
proof -
  assume g: "0 < g" and x: "0 \<le> x"
  have "(x + g - 1) div g * g = x + g - 1 - (x + g - 1) mod g" by (simp add: minus_mod_eq_div_mult)
  moreover have "bdiv (x + g - 1) g = (x + g - 1) div g" using g x by (simp add: bdiv_nonneg)
  moreover have "(x + g - 1) mod g < g" "0 \<le> (x + g - 1) mod g" using g by simp_all
  ultimately show ?thesis by auto
qed



end
