(* ===== verification/Round_Sources.thy ===== *)
theory Round_Sources
  imports Discovery Relay
begin

section \<open>Reward sources and funding lanes (\<open>keepers/v3/round/sources.mjs\<close>, \<open>round/funding.mjs\<close>)\<close>

text \<open>
  Two scanners feed the round and push keepers: coins the launch factory locked and lanes the staking
  contract registered. The funding lanes move a started round's money; an error of a lane is a
  \<open>lane_error\<close>, of which \<open>definitelyNotSent\<close> tells whether anything can have left. ABI parsing, the chain
  and the Relay service are parameters.
\<close>

subsection \<open>Discovered sources\<close>

datatype found =
    is_Token: Token (tk_address: string) (tk_poolId: string) (tk_kind: int) (tk_first: int)
  | is_Lane: Lane (ln_key: string) (ln_pool: string) (ln_asset: string) (ln_kind: int) (ln_first: int)

record 'c source_env =
  se_factory :: "string option"
  se_staking :: "string option"
  se_fromBlock :: int
  se_confirmations :: int
  se_chunk :: int
  se_maxChunks :: nat
  se_ms :: "'c history \<Rightarrow> int"
  se_head :: "'c history \<Rightarrow> int result"
  se_logs :: "string \<Rightarrow> int \<Rightarrow> int \<Rightarrow> 'c history \<Rightarrow> log_entry list result"
  se_block :: "int \<Rightarrow> 'c history \<Rightarrow> int option result"
  se_parseLaunch :: "log_entry \<Rightarrow> (int \<times> string \<times> string) result"
  se_kindOf :: "string \<Rightarrow> 'c history \<Rightarrow> int result"
  se_parseLane :: "log_entry \<Rightarrow> (string \<times> string \<times> string \<times> int) result"
  se_entrySource :: "string \<Rightarrow> 'c history \<Rightarrow> string result"

definition LAUNCH_LOCKED :: int where "LAUNCH_LOCKED = 3"

definition ZERO_ADDRESS :: string where
  "ZERO_ADDRESS = ''0x'' @ replicate 40 (CHR ''0'')"

text \<open>\<open>Math.floor(Number(null) / DAY)\<close> is 0.\<close>

definition day_of_ts :: "int option \<Rightarrow> int" where
  "day_of_ts ts = dayOf (case ts of Some t \<Rightarrow> t | None \<Rightarrow> 0)"

definition decode_launch :: "'c source_env \<Rightarrow> log_entry \<Rightarrow> int option \<Rightarrow> 'c history \<Rightarrow> (string \<times> found) option result" where
  "decode_launch v l ts h = (case se_parseLaunch v l of Inl e \<Rightarrow> Inl e
     | Inr (state, token, poolId) \<Rightarrow>
        if state \<noteq> LAUNCH_LOCKED then Inr None
        else case se_kindOf v token h of Inl e \<Rightarrow> Inl e
        | Inr kind \<Rightarrow> Inr (Some (lower token, Token token poolId kind (day_of_ts ts))))"

definition decode_lane :: "'c source_env \<Rightarrow> log_entry \<Rightarrow> int option \<Rightarrow> 'c history \<Rightarrow> (string \<times> found) option result" where
  "decode_lane v l ts h = (case se_parseLane v l of Inl e \<Rightarrow> Inl e
     | Inr (key, src, asset, kind) \<Rightarrow> Inr (Some (key, Lane key src asset kind (day_of_ts ts))))"

definition scanner_at :: "'c source_env \<Rightarrow> string \<Rightarrow> string \<Rightarrow> (log_entry \<Rightarrow> int option \<Rightarrow> 'c history \<Rightarrow> (string \<times> found) option result) \<Rightarrow> (found, 'c) scanner" where
  "scanner_at v name address decode = \<lparr>sn_name = name, sn_address = address, sn_fromBlock = se_fromBlock v,
     sn_confirmations = se_confirmations v, sn_chunk = se_chunk v, sn_maxChunks = se_maxChunks v, sn_timestamps = True, sn_ms = se_ms v,
     sn_head = se_head v, sn_logs = se_logs v address, sn_block = se_block v, sn_decode = decode\<rparr>"

definition scanners :: "'c source_env \<Rightarrow> (found, 'c) scanner list" where
  "scanners v = (case se_factory v of Some f \<Rightarrow> [scanner_at v ''launch'' f (decode_launch v)] | None \<Rightarrow> [])
     @ (case se_staking v of Some s \<Rightarrow> [scanner_at v ''staking'' s (decode_lane v)] | None \<Rightarrow> [])"

definition discovery_enabled :: "'c source_env \<Rightarrow> bool" where
  "discovery_enabled v \<longleftrightarrow> scanners v \<noteq> []"

definition sync_all :: "'c source_env \<Rightarrow> (found, 'x, 'c, 'o, (string \<times> synced) list) dop" where
  "sync_all v = collect (\<lambda>s. bindk (sync s) (\<lambda>r. ret (sn_name s, r))) (scanners v)"

definition found_items :: "'c source_env \<Rightarrow> (found, 'x) drec journal \<Rightarrow> found list" where
  "found_items v j = concat (map (\<lambda>s. map sg_body (items s j)) (scanners v))"

record token_source =
  ts_address :: string
  ts_kind :: "string option"
  ts_firstEpoch :: "int option"

definition roundTokens :: "'c source_env \<Rightarrow> (found, 'x) drec journal \<Rightarrow> token_source list" where
  "roundTokens v j = map (\<lambda>t. \<lparr>ts_address = tk_address t, ts_kind = Some ''token'', ts_firstEpoch = Some (tk_first t)\<rparr>)
     (filter (\<lambda>t. is_Token t \<and> tk_kind t = 0) (found_items v j))"

record direct_source =
  dc_address :: string
  dc_firstEpoch :: "int option"
  dc_lookback :: "int option"
  dc_minRevision :: "int option"
  dc_requireBudget :: bool

definition directTokens :: "'c source_env \<Rightarrow> (found, 'x) drec journal \<Rightarrow> direct_source list" where
  "directTokens v j = map (\<lambda>t. \<lparr>dc_address = tk_address t, dc_firstEpoch = Some (tk_first t), dc_lookback = None,
       dc_minRevision = None, dc_requireBudget = True\<rparr>) (filter (\<lambda>t. is_Token t \<and> tk_kind t = 1) (found_items v j))"

definition stakingLanes :: "'c source_env \<Rightarrow> int \<Rightarrow> (found, 'x) drec journal \<Rightarrow> found list" where
  "stakingLanes v kind j = filter (\<lambda>l. is_Lane l \<and> ln_kind l = kind) (found_items v j)"

definition entrySourceOf :: "'c source_env \<Rightarrow> string \<Rightarrow> (('r, 'c, 'o) kst, string option) op" where
  "entrySourceOf v key = bindk (rd (se_entrySource v key)) (\<lambda>s. ret (if s = ZERO_ADDRESS then None else Some s))"

subsection \<open>Funding lanes\<close>

record lane_error =
  le_message :: string
  le_sent :: "bool option"
  le_rejected :: bool
  le_quiet :: bool
  le_seam :: "string option"

definition definitelyNotSent :: "lane_error \<Rightarrow> bool" where
  "definitelyNotSent e \<longleftrightarrow> le_sent e = Some False \<or> le_rejected e"

definition plain_error :: "string \<Rightarrow> lane_error" where
  "plain_error m = \<lparr>le_message = m, le_sent = None, le_rejected = False, le_quiet = False, le_seam = None\<rparr>"

definition Phase5Seam :: "string \<Rightarrow> lane_error" where
  "Phase5Seam what = (plain_error (''phase-5 integration seam not wired: '' @ what))\<lparr>le_sent := Some False, le_seam := Some what\<rparr>"

definition relay_thrown :: "relay_error \<Rightarrow> lane_error" where
  "relay_thrown e = (case e of RelayRejected r \<Rightarrow> (plain_error (''relay quote rejected: '' @ r))\<lparr>le_rejected := True\<rparr> | Raised m \<Rightarrow> plain_error m)"

record relay_lane =
  rl_getAddress :: "string \<Rightarrow> string result"
  rl_client :: "quote_request \<Rightarrow> string + relay_quote"
  rl_user :: string
  rl_recipient :: string
  rl_allowedTargets :: "string list option"
  rl_allowedSelectors :: "string list option"
  rl_destinationCurrency :: "string option"
  rl_dispatcher :: "(string \<Rightarrow> validated \<Rightarrow> lane_error + string option) option"

definition lane_quote :: "relay_lane \<Rightarrow> int \<Rightarrow> int option \<Rightarrow> lane_error + validated" where
  "lane_quote ln amountWei minOut6 =
     (case (case buildQuoteRequest (rl_getAddress ln) (rl_user ln) (rl_recipient ln) amountWei (rl_destinationCurrency ln) of
              Inl e \<Rightarrow> Inl (relay_thrown e)
            | Inr body \<Rightarrow> (case rl_client ln body of Inl m \<Rightarrow> Inl (plain_error m) | Inr q \<Rightarrow> Inr q)) of
        Inl e \<Rightarrow> Inl (e\<lparr>le_sent := Some False\<rparr>)
      | Inr q \<Rightarrow> (case validateRelayQuote (rl_getAddress ln) q \<lparr>ex_user = rl_user ln, ex_recipient = rl_recipient ln, ex_amountWei = amountWei,
             ex_minOut6 = minOut6, ex_allowedTargets = rl_allowedTargets ln, ex_allowedSelectors = rl_allowedSelectors ln,
             ex_originChainId = None, ex_destinationChainId = None, ex_destinationCurrency = rl_destinationCurrency ln\<rparr> of
           Inl e \<Rightarrow> Inl (relay_thrown e) | Inr x \<Rightarrow> Inr x))"

definition lane_quoteMinOut6 :: "relay_lane \<Rightarrow> int \<Rightarrow> lane_error + int" where
  "lane_quoteMinOut6 ln amountWei = map_sum id vl_minimumOut6 (lane_quote ln amountWei None)"

record lane_sent =
  ls_requestId :: "string option"
  ls_txHash :: "string option"

definition lane_dispatch :: "relay_lane \<Rightarrow> string \<Rightarrow> int \<Rightarrow> int \<Rightarrow> lane_error + lane_sent" where
  "lane_dispatch ln orderId budget fees =
     (case lane_quote ln (budget + fees) (Some (bdiv (budget + 10 ^ 12 - 1) (10 ^ 12))) of
        Inl e \<Rightarrow> Inl e
      | Inr x \<Rightarrow> (case rl_dispatcher ln of
           None \<Rightarrow> Inl (Phase5Seam ''SolonFundingHub relay dispatch (hubDispatcher)'')
         | Some send_it \<Rightarrow> map_sum id (\<lambda>tx. \<lparr>ls_requestId = vl_requestId x, ls_txHash = tx\<rparr>) (send_it orderId x)))"

definition mock_quoteMinOut6 :: "int \<Rightarrow> int \<Rightarrow> int" where
  "mock_quoteMinOut6 feeBps amountWei = bdiv (bdiv (amountWei * (10000 - feeBps)) 10000) (10 ^ 12)"

definition mock_dispatch :: "(string \<Rightarrow> int \<Rightarrow> lane_error + string option) \<Rightarrow> string \<Rightarrow> int \<Rightarrow> lane_error + lane_sent" where
  "mock_dispatch arrive orderId budget =
     map_sum id (\<lambda>tx. \<lparr>ls_requestId = Some (''mock-'' @ take 8 (drop 2 orderId)), ls_txHash = tx\<rparr>) (arrive orderId budget)"

subsection \<open>A failure called not sent is one\<close>

lemma lane_quote_dispatcher [simp]: "lane_quote (ln\<lparr>rl_dispatcher := d\<rparr>) a m = lane_quote ln a m"
  by (simp add: lane_quote_def cong: sum.case_cong)

text \<open>When the Relay lane fails with an error the keeper may retry on, the hub was not asked at all (any
  other dispatcher in its place gives the same failure), or the hub itself said that nothing was sent.\<close>

theorem not_sent_is_safe:
  assumes "lane_dispatch ln orderId budget fees = Inl e" "definitelyNotSent e"
  shows "(\<forall>d. rl_dispatcher ln \<noteq> None \<longrightarrow> lane_dispatch (ln\<lparr>rl_dispatcher := Some d\<rparr>) orderId budget fees = Inl e)
    \<or> rl_dispatcher ln = None
    \<or> (\<exists>d x. rl_dispatcher ln = Some d \<and> d orderId x = Inl e \<and> vl_minimumOut6 x \<ge> bdiv (budget + 10 ^ 12 - 1) (10 ^ 12))"
proof -
  have min: "ex_minOut6 x = Some m \<Longrightarrow> check_destination g q st data oc v p x = Inr r \<Longrightarrow> m \<le> vl_minimumOut6 r" for g q st data oc v p x r m
    by (auto simp: check_destination_def reject_def Let_def checked_def split: if_splits sum.splits)
  have val: "validateRelayQuote g q x = Inr r \<Longrightarrow> ex_minOut6 x = Some m \<Longrightarrow> m \<le> vl_minimumOut6 r" for g q x r m
    by (auto simp: validateRelayQuote_def check_step_def reject_def Let_def dest: min split: if_splits sum.splits list.splits option.splits)
  show ?thesis
  proof (cases "lane_quote ln (budget + fees) (Some (bdiv (budget + 10 ^ 12 - 1) (10 ^ 12)))")
    case (Inl f)
    with assms show ?thesis by (simp add: lane_dispatch_def)
  next
    case (Inr x)
    have "vl_minimumOut6 x \<ge> bdiv (budget + 10 ^ 12 - 1) (10 ^ 12)"
      using Inr by (auto simp: lane_quote_def split: sum.splits intro: val)
    with Inr assms show ?thesis
      by (cases "rl_dispatcher ln") (auto simp: lane_dispatch_def map_sum_def split: sum.splits)
  qed
qed

definition demo_lane_down :: relay_lane where
  "demo_lane_down = \<lparr>rl_getAddress = Inr, rl_client = (\<lambda>_. Inl ''timeout''), rl_user = ''0xu'', rl_recipient = ''0xr'', rl_allowedTargets = None,
     rl_allowedSelectors = None, rl_destinationCurrency = None, rl_dispatcher = Some (\<lambda>_ _. Inr (Some ''0xtx''))\<rparr>"

theorem not_sent_is_safe_witness:
  "\<exists>e. lane_dispatch demo_lane_down ''o'' 5 1 = Inl e \<and> definitelyNotSent e
     \<and> lane_dispatch (demo_lane_down\<lparr>rl_dispatcher := Some (\<lambda>_ _. Inr None)\<rparr>) ''o'' 5 1 = Inl e"
proof -
  let ?e = "(plain_error ''timeout'')\<lparr>le_sent := Some False\<rparr>"
  have run: "lane_dispatch demo_lane_down ''o'' 5 1 = Inl ?e" by code_simp
  have sent: "definitelyNotSent ?e" by code_simp
  have d: "rl_dispatcher demo_lane_down \<noteq> None" "\<And>f x. rl_dispatcher demo_lane_down = Some f \<Longrightarrow> f ''o'' x \<noteq> Inl ?e"
    by (simp_all add: demo_lane_down_def) auto
  from not_sent_is_safe [OF run sent] d run sent show ?thesis by (intro exI [of _ ?e]) auto
qed

end
