(* ===== verification/Round_World.thy ===== *)
theory Round_World
  imports Round_Sources Round_Decide Quotes Market Price_Demand Journal_Codec
begin

section \<open>State and world of the round keeper\<close>

text \<open>
  The records of the journal of \<open>keepers/v3/round/keeper.mjs\<close> are \<open>rown\<close>, one constructor per namespace,
  next to the records of the scanners. The chain (\<open>re_\<close> fields that take the
  history), the proof source, the signer, the oracle side of the price demand file and the ABI coder are
  parameters; a dispatch of the funding lane is a step of the history like a transaction, since it can
  move money. \<open>re_now\<close> is \<open>now()\<close>, the injected clock or the block time read at the start of the tick.
\<close>

subsection \<open>Records\<close>

record round_rec =
  rr_terminal :: bool
  rr_status :: "int option"
  rr_feesRefunded :: bool
  rr_delivered :: "int option"
  rr_refundedAt :: "int option"
  rr_orderId :: "string option"
  rr_group :: "string option"
  rr_startedAt :: "int option"
  rr_dispatchStartedAt :: "int option"
  rr_lane :: "string option"
  rr_requestId :: "string option"
  rr_dispatchTx :: "string option"
  rr_dispatchedAt :: "int option"
  rr_ambiguous :: bool
  rr_lastError :: "string option"

record order_plan =
  op_planKey :: string
  op_orderId :: string
  op_ids :: "int list"
  op_amounts :: "int list"
  op_total :: int
  op_minRaw :: int
  op_deadline :: int
  op_fees18 :: int
  op_fixedCost18 :: int
  op_hubFee18 :: int
  op_lzFee18 :: int
  op_nonce :: int
  op_adapter :: string
  op_group :: string
  op_expired :: bool
  op_consumedBy :: "int option"

record order_rec =
  or_fees18 :: int
  or_planKey :: string

datatype rown = RHealth int string | RSealed int | RRound round_rec | RPlan order_plan | ROrder order_rec
  | REntry string | RFundQuote int string int

subsection \<open>Calls and reports\<close>

record policy =
  pl_assetId :: string
  pl_version :: int
  pl_pricePolicy :: string
  pl_mode :: int

datatype rcall = SealEpoch string int policy
  | CreateEntrySource string
  | Enqueue int
  | AdvanceCursor string int
  | RefundUnusedFees string
  | RoundStep round_action int
  | FinalizeRound int string
  | DepositFees string int
  | ExecuteAndStart "int list" int int int "field list"
  | StartRound int "field list"
  | LaneDispatch string int int

datatype rreport = RNote string send_status | RText string string | RDeferred string string | RSeamMissing string
  | RAlerted string | RDemandFile "demand_body option"

subsection \<open>Parameters\<close>

record round_params =
  rp_lookbackEpochs :: int
  rp_maxActiveRounds :: int
  rp_maxRoundBudget18 :: int
  rp_quoteTtlSec :: int
  rp_slippageBps :: int
  rp_priceMaxAgeSec :: "int option"
  rp_legacyPriceMaxAgeSec :: int
  rp_priceMarginSec :: int
  rp_demandRefreshSec :: int
  rp_extraFixedCost18 :: int
  rp_maxFeeBps :: int
  rp_hubFeeBps :: int
  rp_lzBufferBps :: int
  rp_costBasis :: string
  rp_market :: "market_params option"
  rp_fundingAlertSec :: int
  rp_quarantineAfterSec :: int
  rp_cancelAfterSec :: "int option"
  rp_orphanWatchSec :: int
  rp_advanceThreshold :: int
  rp_fundingQuoteAlertAfter :: int
  rp_discoveryAlertAfter :: int

definition ROUND_DEFAULTS :: round_params where
  "ROUND_DEFAULTS = \<lparr>rp_lookbackEpochs = 30, rp_maxActiveRounds = 1, rp_maxRoundBudget18 = ROUND_MAX, rp_quoteTtlSec = 600,
     rp_slippageBps = 99, rp_priceMaxAgeSec = None, rp_legacyPriceMaxAgeSec = 3600, rp_priceMarginSec = 120, rp_demandRefreshSec = 600,
     rp_extraFixedCost18 = 0, rp_maxFeeBps = 50, rp_hubFeeBps = 25, rp_lzBufferBps = 2000, rp_costBasis = ''external'',
     rp_market = Some MARKET_DEFAULTS, rp_fundingAlertSec = 15 * 60, rp_quarantineAfterSec = 6 * 3600, rp_cancelAfterSec = None,
     rp_orphanWatchSec = 7 * DAY, rp_advanceThreshold = 16, rp_fundingQuoteAlertAfter = 3, rp_discoveryAlertAfter = 5\<rparr>"

definition PRECISION27 :: int where "PRECISION27 = 10 ^ 27"

subsection \<open>The world of the keeper\<close>

record carry_state =
  ca_pendingEvents :: int
  ca_deposited27 :: int
  ca_released27 :: int

record round_view = round +
  vw_orderId :: string
  vw_adapter :: string
  vw_budget18 :: int
  vw_minRawOut :: int
  vw_delivered :: int

record adapter_config = stock_config +
  ac_oracle :: string
  ac_signer :: string

record preview =
  pv_ids :: "int list"
  pv_budgets :: "int list"
  pv_total :: int

record revert_error =
  rv_candidates :: "string option list"
  rv_text :: string

type_synonym rh = "rcall history"

record rconf =
  re_sources :: "token_source list"
  re_discover :: "rcall source_env"
  re_p :: round_params
  re_chainId :: int
  re_execute :: bool
  re_manager :: string
  re_batcher :: string
  re_staking :: string
  re_hasOracle :: bool
  re_laneName :: string
  re_selector :: string
  re_H :: "message \<Rightarrow> string"
  re_keccak :: "string \<Rightarrow> string"
  re_encodeEntry :: "string \<Rightarrow> entry_tuple \<Rightarrow> int \<Rightarrow> string"
  re_encodeOrder :: "int \<times> string \<times> string \<times> int \<times> int \<times> int \<Rightarrow> string"
  re_quoteSigner :: "quote_signer option"
  re_ms :: "rh \<Rightarrow> int"
  re_now :: "rh \<Rightarrow> int"
  re_latest :: "(rh \<Rightarrow> int result) option"

record renv_seal = rconf +
  re_epochBudget :: "string \<Rightarrow> int \<Rightarrow> rh \<Rightarrow> int result"
  re_rewardSealed :: "string \<Rightarrow> int \<Rightarrow> rh \<Rightarrow> bool result"
  re_nextRoundAt :: "string \<Rightarrow> int \<Rightarrow> rh \<Rightarrow> int result"
  re_rewardPolicy :: "string \<Rightarrow> int \<Rightarrow> rh \<Rightarrow> policy result"
  re_carryState :: "string \<Rightarrow> rh \<Rightarrow> carry_state result"
  re_laneSealed :: "string \<Rightarrow> int \<Rightarrow> rh \<Rightarrow> bool result"
  re_credit27 :: "string \<Rightarrow> int \<Rightarrow> rh \<Rightarrow> int result"
  re_ledgerLane :: "string \<Rightarrow> rh \<Rightarrow> bool result"
  re_nativeAvailable :: "string \<Rightarrow> rh \<Rightarrow> int result"
  re_sealStatic :: "string \<Rightarrow> int \<Rightarrow> policy \<Rightarrow> rh \<Rightarrow> unit result"

record renv_rounds = renv_seal +
  re_nextToEnqueue :: "rh \<Rightarrow> int result"
  re_nextEntryId :: "rh \<Rightarrow> int result"
  re_nextRoundId :: "rh \<Rightarrow> int result"
  re_round :: "int \<Rightarrow> rh \<Rightarrow> round_view result"
  re_proofFor :: "string \<Rightarrow> rh \<Rightarrow> string result"
  re_consumeResult :: "string \<Rightarrow> string \<Rightarrow> string \<Rightarrow> rh \<Rightarrow> probe result"
  re_feeBalance :: "string \<Rightarrow> string \<Rightarrow> rh \<Rightarrow> int result"
  re_funded :: "string \<Rightarrow> string \<Rightarrow> rh \<Rightarrow> bool result"
  re_orderState :: "string \<Rightarrow> string \<Rightarrow> rh \<Rightarrow> int result"
  re_orphanConsumed :: "int \<Rightarrow> rh \<Rightarrow> bool result"
  re_lane :: "string \<Rightarrow> int \<Rightarrow> int \<Rightarrow> rh \<Rightarrow> lane_error + lane_sent"
  re_quoteMinOut6 :: "int \<Rightarrow> rh \<Rightarrow> int result"

record renv_groups = renv_rounds +
  re_price :: "string \<Rightarrow> rh \<Rightarrow> (int \<times> int) result"
  re_config :: "string \<Rightarrow> rh \<Rightarrow> adapter_config result"
  re_arc :: "string \<Rightarrow> string \<Rightarrow> rh \<Rightarrow> arc_reads result"
  re_demandFile :: "rh \<Rightarrow> demand_body option"
  re_hasStatusDir :: bool
  re_wallSec :: "rh \<Rightarrow> int"
  re_groupKey :: "int \<Rightarrow> rh \<Rightarrow> string result"
  re_runLimit :: "rh \<Rightarrow> int result"
  re_cursor :: "string \<Rightarrow> rh \<Rightarrow> int result"
  re_available :: "int \<Rightarrow> rh \<Rightarrow> int result"
  re_pending :: "int \<Rightarrow> rh \<Rightarrow> int result"
  re_minimumBudget :: "int \<Rightarrow> rh \<Rightarrow> int result"
  re_previewBatch :: "string \<Rightarrow> int \<Rightarrow> rh \<Rightarrow> preview result"

record renv = renv_groups +
  re_entry :: "int \<Rightarrow> rh \<Rightarrow> entry result"
  re_executionNonce :: "string \<Rightarrow> rh \<Rightarrow> int result"
  re_resolve :: "string \<Rightarrow> int \<Rightarrow> rh \<Rightarrow> (string \<times> string) result"
  re_sourceUpdatedAt :: "string \<Rightarrow> string \<Rightarrow> rh \<Rightarrow> int result"
  re_hubFees :: "string \<Rightarrow> rh \<Rightarrow> int result"
  re_quoteOrder :: "string \<Rightarrow> string \<Rightarrow> rh \<Rightarrow> int result"
  re_decimals :: "string \<Rightarrow> rh \<Rightarrow> nat result"
  re_rawFor :: "string \<Rightarrow> string \<Rightarrow> int \<Rightarrow> rh \<Rightarrow> int result"
  re_nonce :: "rh \<Rightarrow> int"
  re_nonceUsed :: "string \<Rightarrow> int \<Rightarrow> rh \<Rightarrow> bool result"
  re_quoteDigest :: "string \<Rightarrow> stock_quote \<Rightarrow> rh \<Rightarrow> string result"
  re_stateLogs :: "rh \<Rightarrow> (string \<times> int option) list"
  re_errorOf :: "string option \<Rightarrow> revert_error"
  re_parseError :: "string \<Rightarrow> (string \<times> int list) option"
  re_errorString :: "string \<Rightarrow> string option"

type_synonym 'a rop = "(((found, rown) drec, rcall, rreport) kst, 'a) op"
type_synonym rjournal = "(found, rown) drec journal"

subsection \<open>Journal access\<close>

definition own :: "rjournal \<Rightarrow> string \<Rightarrow> string \<Rightarrow> rown option" where
  "own j ns i = own_of (record_of j (ns, i))"

definition set_own :: "renv \<Rightarrow> string \<Rightarrow> string \<Rightarrow> (rown option \<Rightarrow> rown) \<Rightarrow> unit rop" where
  "set_own v ns i f = put_rec (re_ms v) ns i (\<lambda>r. Own (f (own_of r)))"

definition round_rec_of :: "rjournal \<Rightarrow> int \<Rightarrow> round_rec option" where
  "round_rec_of j i = (case own j ''rounds'' (show_int i) of Some (RRound r) \<Rightarrow> Some r | _ \<Rightarrow> None)"

definition plan_of :: "rjournal \<Rightarrow> string \<Rightarrow> order_plan option" where
  "plan_of j k = (case own j ''plans'' k of Some (RPlan p) \<Rightarrow> Some p | _ \<Rightarrow> None)"

definition order_of :: "rjournal \<Rightarrow> string \<Rightarrow> order_rec option" where
  "order_of j i = (case own j ''orders'' i of Some (ROrder o1) \<Rightarrow> Some o1 | _ \<Rightarrow> None)"

text \<open>A patch of a record that is not there yet starts with every field empty.\<close>

definition no_round :: round_rec where
  "no_round = \<lparr>rr_terminal = False, rr_status = None, rr_feesRefunded = False, rr_delivered = None, rr_refundedAt = None,
     rr_orderId = None, rr_group = None, rr_startedAt = None, rr_dispatchStartedAt = None, rr_lane = None, rr_requestId = None,
     rr_dispatchTx = None, rr_dispatchedAt = None, rr_ambiguous = False, rr_lastError = None\<rparr>"

definition no_plan :: order_plan where
  "no_plan = \<lparr>op_planKey = [], op_orderId = [], op_ids = [], op_amounts = [], op_total = 0, op_minRaw = 0, op_deadline = 0,
     op_fees18 = 0, op_fixedCost18 = 0, op_hubFee18 = 0, op_lzFee18 = 0, op_nonce = 0, op_adapter = [], op_group = [],
     op_expired = False, op_consumedBy = None\<rparr>"

definition patch_round :: "(round_rec \<Rightarrow> round_rec) \<Rightarrow> rown option \<Rightarrow> rown" where
  "patch_round f r = RRound (f (case r of Some (RRound x) \<Rightarrow> x | _ \<Rightarrow> no_round))"

definition patch_plan :: "(order_plan \<Rightarrow> order_plan) \<Rightarrow> rown option \<Rightarrow> rown" where
  "patch_plan f r = RPlan (f (case r of Some (RPlan x) \<Rightarrow> x | _ \<Rightarrow> no_plan))"

definition set_round :: "renv \<Rightarrow> int \<Rightarrow> (round_rec \<Rightarrow> round_rec) \<Rightarrow> unit rop" where
  "set_round v i f = set_own v ''rounds'' (show_int i) (patch_round f)"

definition set_plan :: "renv \<Rightarrow> string \<Rightarrow> (order_plan \<Rightarrow> order_plan) \<Rightarrow> unit rop" where
  "set_plan v k f = set_own v ''plans'' k (patch_plan f)"

definition rkey :: "renv \<Rightarrow> string \<Rightarrow> string \<Rightarrow> string result" where
  "rkey v contract op = taskKey (show_int (re_chainId v)) contract op ''1''"

definition mkey :: "renv \<Rightarrow> string \<Rightarrow> string result" where
  "mkey v op = rkey v (re_manager v) op"

definition r_note :: "string \<Rightarrow> send_result \<Rightarrow> unit rop" where
  "r_note kind res = emit (RNote kind (sr_status res))"

definition rclock :: "renv \<Rightarrow> int rop" where
  "rclock v = rd (\<lambda>h. Inr (re_now v h))"

text \<open>\<open>try { \<dots> } catch { x = null; }\<close> around one read.\<close>

definition attempt :: "('c history \<Rightarrow> 'a result) \<Rightarrow> (('r, 'c, 'o) kst, 'a option) op" where
  "attempt f = tryk (bindk (rd f) (\<lambda>x. ret (Some x))) (\<lambda>_. ret None)"

text \<open>A loop that stops at the first round that says so.\<close>

fun while_true :: "('a \<Rightarrow> ('s, bool) op) \<Rightarrow> 'a list \<Rightarrow> ('s, unit) op" where
  "while_true f [] = ret ()"
| "while_true f (x # xs) = bindk (f x) (\<lambda>go. if go then while_true f xs else ret ())"

end
