(* ===== verification/Round_Keeper.thy ===== *)
theory Round_Keeper
  imports Round_World
begin

section \<open>The round keeper (\<open>keepers/v3/round/keeper.mjs\<close>)\<close>

text \<open>
  One tick: scan for sources, seal finished epochs, enqueue sealed entries in order, advance the rounds
  that exist, start new ones, and advance once more. Log and alert texts are kept as the kind and the key
  they are filed under.
\<close>

subsection \<open>Source discovery\<close>

definition discovery_failures :: "rjournal \<Rightarrow> int" where
  "discovery_failures j = (case own j ''discoveryHealth'' ''round'' of Some (RHealth n _) \<Rightarrow> n | _ \<Rightarrow> 0)"

definition discoverPhase :: "renv \<Rightarrow> unit rop" where
  "discoverPhase v =
     (if \<not> discovery_enabled (re_discover v) then ret () else
      tryk (bindk (sync_all (re_discover v)) (\<lambda>res.
            thenk (each (\<lambda>(name, r). if sy_added r \<noteq> [] then emit (RText ''discovered'' name) else ret ()) res)
            (bindk (getj discovery_failures) (\<lambda>n.
             if n \<noteq> 0 then set_own v ''discoveryHealth'' ''round'' (\<lambda>r. RHealth 0 (case r of Some (RHealth _ e) \<Rightarrow> e | _ \<Rightarrow> []))
             else ret ()))))
        (\<lambda>e. bindk (getj discovery_failures) (\<lambda>n.
            let failures = n + 1 in
            thenk (set_own v ''discoveryHealth'' ''round'' (\<lambda>_. RHealth failures (take 200 e)))
           (thenk (emit (RDeferred ''Discovery'' (take 120 e)))
            (if failures \<ge> rp_discoveryAlertAfter (re_p v) then emit (RAlerted ''round-discovery'') else ret ())))))"

definition sourceList :: "renv \<Rightarrow> rjournal \<Rightarrow> token_source list" where
  "sourceList v j = mergeSources ts_address (re_sources v) (roundTokens (re_discover v) j)"

subsection \<open>Sealing\<close>

definition watermark :: "string \<Rightarrow> rjournal \<Rightarrow> int" where
  "watermark i j = (case own j ''sealDone'' (lower i) of Some (RSealed n) \<Rightarrow> n | _ \<Rightarrow> -1)"

text \<open>The loop of \<open>advanceWatermark\<close>: over the contiguous final epochs after the watermark.\<close>

function final_prefix :: "int \<Rightarrow> (int \<Rightarrow> bool) \<Rightarrow> int \<Rightarrow> int \<Rightarrow> int" where
  "final_prefix today isFinal e through =
     (if e < today \<and> e = through + 1 \<and> isFinal e then final_prefix today isFinal (e + 1) e else through)"
  by pat_completeness auto
termination
  by (relation "measure (\<lambda>(today, f, e, t). nat (today - e))") auto

declare final_prefix.simps [simp del]

definition advanceWatermark :: "renv \<Rightarrow> string \<Rightarrow> int \<Rightarrow> int \<Rightarrow> (int \<Rightarrow> bool) \<Rightarrow> unit rop" where
  "advanceWatermark v i frm today isFinal =
     bindk (getj (watermark i)) (\<lambda>w.
     let start = max w (frm - 1); through = final_prefix today isFinal frm start in
     if through > start then set_own v ''sealDone'' (lower i) (\<lambda>_. RSealed through) else ret ())"

definition epoch_read :: "renv \<Rightarrow> string \<Rightarrow> int \<Rightarrow> int \<Rightarrow> (int \<times> epoch_view) rop" where
  "epoch_read v src now e =
     bindk (rd (re_epochBudget v src e)) (\<lambda>budget.
     bindk (rd (re_rewardSealed v src e)) (\<lambda>sealed.
     bindk (attempt (re_nextRoundAt v src e)) (\<lambda>nextAt.
     ret (e, \<lparr>v_budget = budget, v_sealed = sealed, v_nextRoundAt = nextAt, v_nowSec = now\<rparr>))))"

definition seal_op :: "string \<Rightarrow> int \<Rightarrow> string" where
  "seal_op src e = ''seal:'' @ src @ '':'' @ show_int e @ '':0''"

definition seal_epoch :: "renv \<Rightarrow> rcall caller \<Rightarrow> string \<Rightarrow> int \<Rightarrow> unit rop" where
  "seal_epoch v net src e =
     bindk (rd (re_rewardPolicy v src e)) (\<lambda>policy.
     bindk (call_at net (mkey v (seal_op src e)) (SealEpoch src e policy)) (\<lambda>res. r_note ''seal'' res))"

definition final_epoch :: "(int \<times> epoch_view) list \<Rightarrow> int \<Rightarrow> bool" where
  "final_epoch cache e = (case map_of cache e of Some w \<Rightarrow> v_sealed w \<or> v_budget w = 0 | None \<Rightarrow> False)"

definition seal_source :: "renv \<Rightarrow> rcall caller \<Rightarrow> int \<Rightarrow> token_source \<Rightarrow> unit rop" where
  "seal_source v net now src =
     (if (case ts_kind src of Some k \<Rightarrow> k \<noteq> [] \<and> k \<noteq> ''token'' | None \<Rightarrow> False) then ret () else
      let today = now div DAY; addr = ts_address src in
      bindk (getj (watermark addr)) (\<lambda>w.
      let frm = max (max (orelse (ts_firstEpoch src) 0) (today - rp_lookbackEpochs (re_p v))) (w + 1) in
      bindk (collect (epoch_read v addr now) [frm..today - 1]) (\<lambda>cache.
      thenk (advanceWatermark v addr frm today (final_epoch cache))
      (each (seal_epoch v net addr) (sealableEpochs today (Some frm) (rp_lookbackEpochs (re_p v)) (map_of cache))))))"

definition sealPhase :: "renv \<Rightarrow> rcall caller \<Rightarrow> unit rop" where
  "sealPhase v net = bindk (rclock v) (\<lambda>now. bindk (getj (sourceList v)) (each (seal_source v net now)))"

subsection \<open>Staking lanes\<close>

definition lane_read :: "renv \<Rightarrow> string \<Rightarrow> int \<Rightarrow> (int \<times> bool \<times> int) rop" where
  "lane_read v key e =
     bindk (rd (re_laneSealed v key e)) (\<lambda>sealed. bindk (rd (re_credit27 v key e)) (\<lambda>credit. ret (e, sealed, credit)))"

definition lane_final :: "(int \<times> bool \<times> int) list \<Rightarrow> bool \<Rightarrow> int \<Rightarrow> bool" where
  "lane_final views carryPending e = (case map_of views e of None \<Rightarrow> False
     | Some (sealed, credit) \<Rightarrow> sealed \<or> (credit < PRECISION27 \<and> \<not> carryPending))"

text \<open>An epoch worth a seal: its number, whether only carry could fill it, and its budget.\<close>

definition lane_epochs :: "(int \<times> bool \<times> int) list \<Rightarrow> bool \<Rightarrow> (int \<times> bool \<times> int) list" where
  "lane_epochs views carryPending = map (\<lambda>(e, sealed, credit). (e, credit < PRECISION27, bdiv credit PRECISION27))
     (filter (\<lambda>(e, sealed, credit). \<not> sealed \<and> (credit \<ge> PRECISION27 \<or> carryPending)) views)"

definition seal_lane_epoch :: "renv \<Rightarrow> rcall caller \<Rightarrow> string \<Rightarrow> int \<times> bool \<times> int \<Rightarrow> unit rop" where
  "seal_lane_epoch v net src = (\<lambda>(e, probe, _).
     bindk (rd (re_rewardPolicy v src e)) (\<lambda>policy.
     bindk (if probe then bindk (attempt (re_sealStatic v src e policy)) (\<lambda>r. ret (r \<noteq> None)) else ret True) (\<lambda>go.
     if \<not> go then ret ()
     else bindk (call_at net (mkey v (seal_op src e)) (SealEpoch src e policy)) (\<lambda>res. r_note ''seal'' res))))"

definition lane_source :: "renv \<Rightarrow> rcall caller \<Rightarrow> string \<Rightarrow> string option rop" where
  "lane_source v net key =
     bindk (entrySourceOf (re_discover v) key) (\<lambda>known.
     case known of Some s \<Rightarrow> ret (Some s)
     | None \<Rightarrow>
        bindk (call_at net (rkey v (re_staking v) (''createEntrySource:'' @ key)) (CreateEntrySource key)) (\<lambda>res.
        thenk (r_note ''createEntrySource'' res)
        (if sr_status res \<noteq> StConfirmed then ret None else entrySourceOf (re_discover v) key)))"

definition lane_funded :: "renv \<Rightarrow> string \<Rightarrow> (int \<times> bool \<times> int) list \<Rightarrow> bool rop" where
  "lane_funded v key epochs =
     bindk (rd (re_ledgerLane v key)) (\<lambda>ledger.
     if ledger then ret True
     else bindk (rd (re_nativeAvailable v key)) (\<lambda>available.
       if sum_of (\<lambda>(_, _, budget). budget) epochs > available
       then thenk (emit (RDeferred ''StakingLaneUnfunded'' key)) (ret False) else ret True))"

definition seal_lane :: "renv \<Rightarrow> rcall caller \<Rightarrow> int \<Rightarrow> found \<Rightarrow> unit rop" where
  "seal_lane v net today lane =
     (let key = ln_key lane in
      bindk (rd (re_carryState v key)) (\<lambda>carry.
      let carryPending = (ca_pendingEvents carry > 0 \<and> ca_deposited27 carry > ca_released27 carry) in
      bindk (getj (watermark key)) (\<lambda>w.
      let frm = max (max (ln_first lane) (today - rp_lookbackEpochs (re_p v))) (w + 1) in
      bindk (collect (lane_read v key) [frm..today - 1]) (\<lambda>views.
      let epochs = lane_epochs views carryPending in
      thenk (advanceWatermark v key frm today (lane_final views carryPending))
      (if epochs = [] then ret () else
       bindk (lane_funded v key epochs) (\<lambda>funded.
       if \<not> funded then ret () else
       bindk (lane_source v net key) (\<lambda>src.
       case src of None \<Rightarrow> ret () | Some s \<Rightarrow> each (seal_lane_epoch v net s) epochs)))))))"

definition stakingSealPhase :: "renv \<Rightarrow> rcall caller \<Rightarrow> unit rop" where
  "stakingSealPhase v net =
     bindk (getj (stakingLanes (re_discover v) 0)) (\<lambda>lanes.
     if lanes = [] then ret ()
     else bindk (rclock v) (\<lambda>now. each (seal_lane v net (now div DAY)) lanes))"

subsection \<open>Enqueueing, in order\<close>

definition enqueue_one :: "renv \<Rightarrow> rcall caller \<Rightarrow> int \<Rightarrow> bool rop" where
  "enqueue_one v net i =
     bindk (call_at net (rkey v (re_batcher v) (''enqueue:'' @ show_int i)) (Enqueue i)) (\<lambda>res.
     thenk (r_note ''enqueue'' res) (ret (sr_status res = StConfirmed)))"

definition enqueuePhase :: "renv \<Rightarrow> rcall caller \<Rightarrow> unit rop" where
  "enqueuePhase v net =
     bindk (rd (re_nextToEnqueue v)) (\<lambda>next.
     bindk (rd (re_nextEntryId v)) (\<lambda>lst. while_true (enqueue_one v net) [next..lst]))"

subsection \<open>Funding dispatch\<close>

text \<open>The lane is asked: a step of the history, whose outcome is data.\<close>

definition ask_lane :: "renv \<Rightarrow> string \<Rightarrow> int \<Rightarrow> int \<Rightarrow> (lane_error + lane_sent) rop" where
  "ask_lane v orderId budget fees st =
     (Inr (re_lane v orderId budget fees (hist st)), st\<lparr>hist := hist st @ [(re_laneName v, LaneDispatch orderId budget fees)]\<rparr>)"

definition dispatch_done :: "renv \<Rightarrow> int \<Rightarrow> lane_error + lane_sent \<Rightarrow> unit rop" where
  "dispatch_done v i out = (case out of
     Inr o1 \<Rightarrow>
       bindk (rclock v) (\<lambda>now.
       thenk (set_round v i (\<lambda>r. r\<lparr>rr_requestId := ls_requestId o1, rr_dispatchTx := ls_txHash o1, rr_dispatchedAt := Some now\<rparr>))
         (emit (RText ''dispatchFunding'' ''sent'')))
   | Inl e \<Rightarrow>
       if definitelyNotSent e then
         thenk (set_round v i (\<lambda>r. r\<lparr>rr_dispatchStartedAt := None, rr_lastError := Some (take 200 (le_message e))\<rparr>))
        (thenk (case le_seam e of Some s \<Rightarrow> (if s \<noteq> [] then emit (RSeamMissing s) else ret ()) | None \<Rightarrow> ret ())
        (thenk (emit (RText ''dispatchFunding'' (if le_quiet e then ''queued'' else ''not-sent'')))
         (if le_quiet e then ret () else emit (RAlerted (''round-'' @ show_int i @ ''-dispatch'')))))
       else
         thenk (set_round v i (\<lambda>r. r\<lparr>rr_ambiguous := True, rr_lastError := Some (take 200 (le_message e))\<rparr>))
        (thenk (emit (RAlerted (''round-'' @ show_int i @ ''-dispatch-ambiguous''))) (emit (RText ''dispatchFunding'' ''ambiguous''))))"

definition dispatchFunding :: "renv \<Rightarrow> int \<Rightarrow> round_view \<Rightarrow> unit rop" where
  "dispatchFunding v i r =
     (if \<not> re_execute v then emit (RText ''dispatchFunding'' ''dry-run'') else
      bindk (getj (\<lambda>j. case order_of j (vw_orderId r) of Some o1 \<Rightarrow> or_fees18 o1 | None \<Rightarrow> 0)) (\<lambda>fees.
      bindk (rclock v) (\<lambda>now.
      thenk (set_round v i (\<lambda>x. x\<lparr>rr_orderId := Some (vw_orderId r), rr_dispatchStartedAt := Some now, rr_lane := Some (re_laneName v)\<rparr>))
      (bindk (ask_lane v (vw_orderId r) (vw_budget18 r) fees) (dispatch_done v i)))))"

subsection \<open>Quotes\<close>

definition quote_of :: "order_plan \<Rightarrow> stock_quote" where
  "quote_of o1 = \<lparr>sq_orderId = op_orderId o1, sq_budget18 = op_total o1, sq_minRawOut = op_minRaw o1, sq_deadline = op_deadline o1,
     sq_nonce = op_nonce o1, sq_fees18 = op_fees18 o1, sq_fixedCost18 = op_fixedCost18 o1\<rparr>"

definition signStockQuote :: "renv \<Rightarrow> string \<Rightarrow> order_plan \<Rightarrow> field list option rop" where
  "signStockQuote v adapter o1 =
     (case re_quoteSigner v of None \<Rightarrow> thenk (emit (RSeamMissing ''quote signer'')) (ret None)
      | Some signer \<Rightarrow>
        bindk (rd (re_config v adapter)) (\<lambda>config.
        let q = quote_of o1 in
        bindk (rd (re_nonceUsed v adapter (sq_nonce q))) (\<lambda>used.
        if used then throw ''quote nonce already used'' else
        bindk (signChecked (stockQuoteDigest (re_H v) (re_selector v) (re_chainId v) adapter (stock_config.truncate config) q)
           (rd (re_quoteDigest v adapter q)) signer (Some (ac_signer config))) (\<lambda>sig.
        ret (Some (encodeStockQuoteData q sig))))))"

definition startReserved :: "renv \<Rightarrow> rcall caller \<Rightarrow> int \<Rightarrow> round_view \<Rightarrow> unit rop" where
  "startReserved v net i r =
     bindk (getj (\<lambda>j. order_of j (vw_orderId r))) (\<lambda>orderRec.
     let fees = (case orderRec of Some o1 \<Rightarrow> or_fees18 o1 | None \<Rightarrow> 0) in
     bindk (getj (\<lambda>j. case orderRec of Some o1 \<Rightarrow> (if or_planKey o1 \<noteq> [] then plan_of j (or_planKey o1) else None) | None \<Rightarrow> None)) (\<lambda>planned.
     let fixedCost = (case planned of Some p \<Rightarrow> op_fixedCost18 p | None \<Rightarrow> fees + rp_extraFixedCost18 (re_p v)) in
     bindk (rd (\<lambda>h. Inr (re_nonce v h))) (\<lambda>nonce.
     let o1 = no_plan\<lparr>op_orderId := vw_orderId r, op_total := vw_budget18 r, op_minRaw := vw_minRawOut r, op_deadline := rd_deadline r,
                      op_nonce := nonce, op_fees18 := fees, op_fixedCost18 := fixedCost\<rparr> in
     bindk (rd (re_feeBalance v (vw_adapter r) (vw_orderId r))) (\<lambda>have_fees.
     if have_fees < fees then ret () else
     bindk (signStockQuote v (vw_adapter r) o1) (\<lambda>qd.
     case qd of None \<Rightarrow> ret ()
     | Some quoteData \<Rightarrow>
        bindk (call_at net (mkey v (''round:'' @ show_int i @ '':start'')) (StartRound i quoteData)) (\<lambda>res. r_note ''start'' res))))))"

subsection \<open>The rounds that exist\<close>

definition probeResult :: "renv \<Rightarrow> round_view \<Rightarrow> (probe \<times> string) option rop" where
  "probeResult v r =
     tryk (bindk (rd (re_proofFor v (vw_orderId r))) (\<lambda>proof.
           bindk (rd (re_consumeResult v (vw_adapter r) (vw_orderId r) proof)) (\<lambda>p. ret (Some (p, proof)))))
       (\<lambda>_. ret None)"

definition settle_round :: "renv \<Rightarrow> rcall caller \<Rightarrow> int \<Rightarrow> round_view \<Rightarrow> unit rop" where
  "settle_round v net i r =
     bindk (rd (re_feeBalance v (vw_adapter r) (vw_orderId r))) (\<lambda>balance.
     bindk (if balance > 0
        then bindk (call_at net (rkey v (vw_adapter r) (''refundFees:'' @ vw_orderId r)) (RefundUnusedFees (vw_orderId r))) (\<lambda>res.
             thenk (r_note ''refundFees'' res) (ret (sr_status res = StConfirmed)))
        else ret True) (\<lambda>go.
     if go then set_round v i (\<lambda>x. x\<lparr>rr_terminal := True, rr_status := Some (rd_status r), rr_feesRefunded := True, rr_delivered := Some (vw_delivered r)\<rparr>)
     else ret ()))"

definition action_text :: "round_action \<Rightarrow> string" where
  "action_text a = (case a of Poke \<Rightarrow> ''poke'' | Submit \<Rightarrow> ''submit'' | CancelUnsent \<Rightarrow> ''cancelUnsent'' | RequestCancel \<Rightarrow> ''requestCancel''
     | Finalize \<Rightarrow> ''finalize'' | Start \<Rightarrow> ''start'' | DispatchFunding \<Rightarrow> ''dispatchFunding'' | AlertRound _ _ \<Rightarrow> ''alert'' | Wait \<Rightarrow> ''wait'' | Done \<Rightarrow> ''done'')"

definition round_op :: "int \<Rightarrow> round_action \<Rightarrow> int \<Rightarrow> string" where
  "round_op i a s = ''round:'' @ show_int i @ '':'' @ action_text a @ '':'' @ show_int s"

definition level_text :: "alert_level \<Rightarrow> string" where
  "level_text l = (case l of QuarantineWatch \<Rightarrow> ''quarantine-watch'' | Quarantine \<Rightarrow> ''quarantine'')"

definition perform_action :: "renv \<Rightarrow> rcall caller \<Rightarrow> int \<Rightarrow> round_view \<Rightarrow> int \<Rightarrow> (probe \<times> string) option \<Rightarrow> round_action \<Rightarrow> unit rop" where
  "perform_action v net i r now result a = (case a of
     DispatchFunding \<Rightarrow> dispatchFunding v i r
   | Start \<Rightarrow> startReserved v net i r
   | Finalize \<Rightarrow>
       bindk (case result of Some (_, proof) \<Rightarrow> ret proof | None \<Rightarrow> rd (re_proofFor v (vw_orderId r))) (\<lambda>proof.
       bindk (call_at net (mkey v (round_op i Finalize (rd_status r))) (FinalizeRound i proof)) (\<lambda>res.
       thenk (r_note ''finalize'' res)
       (if sent_ok res \<and> (case result of Some (p, _) \<Rightarrow> pr_status p = 2 | None \<Rightarrow> False)
        then set_round v i (\<lambda>x. x\<lparr>rr_refundedAt := Some now\<rparr>) else ret ())))
   | AlertRound level since \<Rightarrow> thenk (emit (RAlerted (''round-'' @ show_int i @ ''-'' @ level_text level))) (emit (RText ''alert'' (show_int i)))
   | Wait \<Rightarrow> ret ()
   | Done \<Rightarrow> ret ()
   | step \<Rightarrow> bindk (call_at net (mkey v (round_op i step (rd_status r))) (RoundStep step i)) (\<lambda>res. r_note (action_text step) res))"

definition needs_funded :: "round_view \<Rightarrow> bool" where
  "needs_funded r \<longleftrightarrow> status_of (rd_status r) = Funding \<or> (status_of (rd_status r) = QuarantinedRound \<and> rd_submittedAt r = 0)"

definition needs_probe :: "round_view \<Rightarrow> bool" where
  "needs_probe r \<longleftrightarrow> status_of (rd_status r) \<in> {Funding, Funded, Submitted, QuarantinedRound, Refunded}"

definition watch_over :: "renv \<Rightarrow> round_view \<Rightarrow> int \<Rightarrow> round_rec \<Rightarrow> bool" where
  "watch_over v r now x \<longleftrightarrow> status_of (rd_status r) = Refunded
     \<and> now - (case rr_refundedAt x of Some t \<Rightarrow> t | None \<Rightarrow> now) > rp_orphanWatchSec (re_p v)"

text \<open>A time stamp 0 is falsy.\<close>

definition truthy :: "int option \<Rightarrow> bool" where
  "truthy n \<longleftrightarrow> n \<noteq> None \<and> n \<noteq> Some 0"

definition step_round :: "renv \<Rightarrow> rcall caller \<Rightarrow> int \<Rightarrow> round_view \<Rightarrow> int \<Rightarrow> round_rec \<Rightarrow> unit rop" where
  "step_round v net i r now x =
     bindk (if needs_funded r then rd (re_funded v (vw_adapter r) (vw_orderId r)) else ret False) (\<lambda>funded.
     bindk (if needs_probe r then probeResult v r else ret None) (\<lambda>result.
     bindk (if status_of (rd_status r) = Refunded then rd (re_orphanConsumed v i) else ret False) (\<lambda>orphan.
     perform_action v net i r now result (nextRoundAction (round.truncate r)
       \<lparr>cx_now = now, cx_funded = funded, cx_dispatched = truthy (rr_dispatchStartedAt x),
        cx_dispatchedAt = (case rr_dispatchStartedAt x of Some t \<Rightarrow> t | None \<Rightarrow> 0), cx_result = map_option fst result,
        cx_orphanConsumed = orphan, cx_fundingAlertSec = rp_fundingAlertSec (re_p v),
        cx_quarantineAfterSec = rp_quarantineAfterSec (re_p v), cx_cancelAfterSec = rp_cancelAfterSec (re_p v)\<rparr>))))"

definition progressRound :: "renv \<Rightarrow> rcall caller \<Rightarrow> int \<Rightarrow> round_view \<Rightarrow> round_rec \<Rightarrow> unit rop" where
  "progressRound v net i r rec =
     (if status_of (rd_status r) = Settled then settle_round v net i r else
      bindk (rclock v) (\<lambda>now.
      bindk (if status_of (rd_status r) = Refunded \<and> \<not> truthy (rr_refundedAt rec) \<and> re_execute v
             then thenk (set_round v i (\<lambda>x. x\<lparr>rr_refundedAt := Some now\<rparr>)) (getj (\<lambda>j. orelse (round_rec_of j i) no_round))
             else ret rec) (\<lambda>x.
      if watch_over v r now x then set_round v i (\<lambda>x. x\<lparr>rr_terminal := True, rr_status := Some (rd_status r)\<rparr>)
      else step_round v net i r now x)))"

definition visit_round :: "renv \<Rightarrow> rcall caller \<Rightarrow> int \<Rightarrow> int rop" where
  "visit_round v net i =
     bindk (getj (\<lambda>j. round_rec_of j i)) (\<lambda>rec.
     if (case rec of Some x \<Rightarrow> rr_terminal x | None \<Rightarrow> False) then ret 0 else
     bindk (rd (re_round v i)) (\<lambda>r.
     let s = status_of (rd_status r) in
     if s \<in> set TERMINAL \<and> \<not> (s = Settled \<and> \<not> (case rec of Some x \<Rightarrow> rr_feesRefunded x | None \<Rightarrow> False))
     then thenk (set_round v i (\<lambda>x. x\<lparr>rr_terminal := True, rr_status := Some (rd_status r)\<rparr>)) (ret 0)
     else thenk (progressRound v net i r (orelse rec no_round)) (ret (if s \<in> set ACTIVE then 1 else 0))))"

definition roundsPhase :: "renv \<Rightarrow> rcall caller \<Rightarrow> int rop" where
  "roundsPhase v net =
     bindk (rd (re_nextRoundId v)) (\<lambda>lst. bindk (collect (visit_round v net) [1..lst]) (\<lambda>counts. ret (sum_list counts)))"

subsection \<open>Prices\<close>

text \<open>\<open>maxAge\<close> is the adapter oracle's own window, unknown for an adapter without one; the configured limit
  can only tighten it.\<close>

definition age_limit :: "round_params \<Rightarrow> int option \<Rightarrow> int" where
  "age_limit p maxAge = (case (maxAge, rp_priceMaxAgeSec p) of
     (Some a, Some b) \<Rightarrow> min a b | (Some a, None) \<Rightarrow> a | (None, Some b) \<Rightarrow> b | (None, None) \<Rightarrow> rp_legacyPriceMaxAgeSec p)"

definition priceFor :: "renv \<Rightarrow> string \<Rightarrow> int option \<Rightarrow> int rop" where
  "priceFor v asset maxAge =
     (if \<not> re_hasOracle v then throw ''round pricing: contracts.rewardPriceOracle not configured'' else
      bindk (rd (re_price v asset)) (\<lambda>(price, updatedAt).
      bindk (rclock v) (\<lambda>now.
      if price = 0 \<or> now - updatedAt > age_limit (re_p v) maxAge then throw ''stale or missing stock price'' else ret price)))"

record fresh_price =
  fp_ok :: bool
  fp_maxAge :: "int option"
  fp_demandable :: bool

text \<open>\<open>(await adapter.config()).oracle\<close>, \<open>null\<close> when the call fails or the field is empty.\<close>

definition oracle_of :: "renv \<Rightarrow> string \<Rightarrow> string option rop" where
  "oracle_of v adapter = bindk (attempt (re_config v adapter)) (\<lambda>c.
     ret (case c of Some x \<Rightarrow> (if ac_oracle x = [] then None else Some (ac_oracle x)) | None \<Rightarrow> None))"

definition freshPrice :: "renv \<Rightarrow> string \<Rightarrow> string \<Rightarrow> fresh_price rop" where
  "freshPrice v adapter asset =
     bindk (oracle_of v adapter) (\<lambda>oracle.
     case oracle of None \<Rightarrow> ret \<lparr>fp_ok = True, fp_maxAge = None, fp_demandable = False\<rparr>
     | Some orc \<Rightarrow>
        tryk (bindk (rd (re_arc v orc asset)) (\<lambda>arc.
              bindk (rclock v) (\<lambda>now.
              bindk (rd (\<lambda>h. Inr (re_demandFile v h))) (\<lambda>file.
              bindk (rd (\<lambda>h. Inr (re_wallSec v h))) (\<lambda>wall.
              let check = checkArcPrice arc asset now None (rp_priceMarginSec (re_p v));
                  out = ensureFreshPrice check file (re_hasStatusDir v) ''round'' (re_execute v) ''reward round start''
                     (rp_demandRefreshSec (re_p v)) wall
              in thenk (if snd out \<noteq> file then emit (RDemandFile (snd out)) else ret ())
                   (ret \<lparr>fp_ok = fst (fst out), fp_maxAge = Some (ar_maxAge arc), fp_demandable = ck_demandable check\<rparr>))))))
          (\<lambda>_. ret \<lparr>fp_ok = False, fp_maxAge = None, fp_demandable = False\<rparr>))"

text \<open>The calendar and feed gate on the adapter's oracle; a failed read is a closed gate that alerts.\<close>

definition marketCheck :: "renv \<Rightarrow> string \<Rightarrow> string \<Rightarrow> market_gate rop" where
  "marketCheck v adapter asset = (case rp_market (re_p v) of
     None \<Rightarrow> ret \<lparr>mg_ok = True, mg_closed = False, mg_alert = False\<rparr>
   | Some params \<Rightarrow>
      bindk (oracle_of v adapter) (\<lambda>oracle.
      case oracle of None \<Rightarrow> ret \<lparr>mg_ok = True, mg_closed = False, mg_alert = False\<rparr>
      | Some orc \<Rightarrow>
         tryk (bindk (rd (re_sourceUpdatedAt v orc asset)) (\<lambda>updated.
               bindk (rclock v) (\<lambda>now. rd (\<lambda>_. marketGate now (Some updated) params))))
           (\<lambda>_. ret \<lparr>mg_ok = False, mg_closed = False, mg_alert = True\<rparr>)))"

subsection \<open>Planning a round\<close>

fun group_up :: "(string \<times> int list) list \<Rightarrow> (int \<times> string) list \<Rightarrow> (string \<times> int list) list" where
  "group_up acc [] = acc"
| "group_up acc ((i, g) # xs) = group_up (put g ((case get acc g of Some ids \<Rightarrow> ids | None \<Rightarrow> []) @ [i]) acc) xs"

definition entry_group :: "renv \<Rightarrow> int \<Rightarrow> (int \<times> string) rop" where
  "entry_group v i =
     bindk (getj (\<lambda>j. case own j ''entries'' (show_int i) of Some (REntry g) \<Rightarrow> g | _ \<Rightarrow> [])) (\<lambda>g.
     if g \<noteq> [] then ret (i, g)
     else bindk (rd (re_groupKey v i)) (\<lambda>k. thenk (set_own v ''entries'' (show_int i) (\<lambda>_. REntry k)) (ret (i, k))))"

definition groupsWithIds :: "renv \<Rightarrow> (string \<times> int list) list rop" where
  "groupsWithIds v =
     bindk (rd (re_nextEntryId v)) (\<lambda>lst.
     bindk (rd (re_nextToEnqueue v)) (\<lambda>next.
     bindk (collect (entry_group v) [1..min lst (next - 1)]) (\<lambda>xs. ret (group_up [] xs))))"

definition runLimit :: "renv \<Rightarrow> int rop" where
  "runLimit v = bindk (attempt (re_runLimit v)) (\<lambda>live.
     let cap = rp_maxRoundBudget18 (re_p v) in ret (case live of Some l \<Rightarrow> (if l < cap then l else cap) | None \<Rightarrow> cap))"

datatype costs = Costs round_costs | CostsDefer string

definition planCosts :: "renv \<Rightarrow> int \<Rightarrow> string \<Rightarrow> costs rop" where
  "planCosts v budget adapter =
     bindk (rd (re_config v adapter)) (\<lambda>config.
     bindk (attempt (re_hubFees v (sk_hub config))) (\<lambda>live.
     let hubFeeBps = orelse live (rp_hubFeeBps (re_p v)) in
     bindk (planFundingFees budget (\<lambda>a. rd (re_quoteMinOut6 v a)) (rp_maxFeeBps (re_p v)) 1000 4) (\<lambda>relay.
     case relay of DeferFees reason _ \<Rightarrow> ret (CostsDefer reason)
     | PlanFees fees _ _ \<Rightarrow>
        bindk (rd (re_quoteOrder v (sk_hub config) (sk_underlying config))) (\<lambda>lzFee.
        bindk (rd (\<lambda>_. planRoundCosts budget fees lzFee hubFeeBps (rp_lzBufferBps (re_p v)) (rp_extraFixedCost18 (re_p v)) (rp_costBasis (re_p v))))
          (\<lambda>c. ret (Costs c))))))"

definition planMinRaw :: "renv \<Rightarrow> string \<Rightarrow> string \<Rightarrow> int \<Rightarrow> int \<Rightarrow> int rop" where
  "planMinRaw v adapter asset tot price =
     bindk (rd (re_decimals v asset)) (\<lambda>decimals.
     bindk (oracle_of v adapter) (\<lambda>oracle.
     bindk (case oracle of None \<Rightarrow> ret None | Some orc \<Rightarrow> attempt (re_rawFor v orc asset tot)) (\<lambda>floorRaw.
     rd (\<lambda>_. minRawOut tot price decimals (rp_slippageBps (re_p v)) floorRaw))))"

definition buildOrder :: "renv \<Rightarrow> int list \<Rightarrow> int list \<Rightarrow> (string \<times> int \<times> string \<times> string) rop" where
  "buildOrder v ids amounts =
     bindk (collect (\<lambda>i. rd (re_entry v i)) ids) (\<lambda>entries.
     bindk (rd (\<lambda>_. entriesHash (re_keccak v) (re_encodeEntry v) entries amounts)) (\<lambda>h.
     bindk (rd (re_executionNonce v h)) (\<lambda>sourceNonce.
     case entries of [] \<Rightarrow> throw ''Cannot read properties of undefined''
     | e # _ \<Rightarrow> bindk (rd (re_resolve v (e_assetId e) (e_adapterVersion e))) (\<lambda>(adapter, asset). ret (h, sourceNonce, adapter, asset)))))"

subsection \<open>Reverts\<close>

record decoded =
  dr_name :: "string option"
  dr_args :: "int list"

text \<open>\<open>decodeRevert\<close> (\<open>round/decide.mjs\<close>): the first of the places ethers leaves revert data in, parsed as one of the known
  errors or as \<open>Error(string)\<close>. \<open>parse\<close> and \<open>decode\<close> are the ABI coder's, \<open>None\<close> where it throws.\<close>

definition decodeRevert :: "(string \<Rightarrow> (string \<times> int list) option) \<Rightarrow> (string \<Rightarrow> string option) \<Rightarrow> revert_error \<Rightarrow> decoded" where
  "decodeRevert parse decode e =
     (case find (\<lambda>d. case d of Some s \<Rightarrow> starts_with ''0x'' s | None \<Rightarrow> False) (rv_candidates e) of
        Some (Some data) \<Rightarrow>
          (case parse data of Some (n, args) \<Rightarrow> \<lparr>dr_name = Some n, dr_args = args\<rparr>
           | None \<Rightarrow>
              (case decode (''0x'' @ drop 10 data) of
                 Some msg \<Rightarrow> (if starts_with ''0x08c379a0'' data then \<lparr>dr_name = Some (''Error('' @ msg @ '')''), dr_args = []\<rparr>
                              else \<lparr>dr_name = None, dr_args = []\<rparr>)
               | None \<Rightarrow> \<lparr>dr_name = None, dr_args = []\<rparr>))
      | _ \<Rightarrow> \<lparr>dr_name = None, dr_args = []\<rparr>)"

definition onStartRejected :: "renv \<Rightarrow> string \<Rightarrow> order_plan \<Rightarrow> string option \<Rightarrow> unit rop" where
  "onStartRejected v grp o1 err =
     (let r = decodeRevert (re_parseError v) (re_errorString v) (re_errorOf v err) in
      thenk (if dr_name r = Some ''InsufficientValue'' \<and> re_execute v
             then (case dr_args r of got # need # _ \<Rightarrow>
                     set_plan v (op_planKey o1) (\<lambda>p. p\<lparr>op_fees18 := op_fees18 o1 + (if need > got then need - got else 0) + USDC_GRID\<rparr>)
                   | _ \<Rightarrow> throw ''Cannot convert undefined to a BigInt'')
             else if dr_name r \<in> {Some ''InvalidQuote'', Some ''BadRewardOrder''} \<and> re_execute v
             then set_plan v (op_planKey o1) (\<lambda>p. p\<lparr>op_expired := True\<rparr>)
             else ret ())
     (thenk (emit (RDeferred grp ''SimulationFailed'')) (emit (RAlerted (''round-start-'' @ grp)))))"

subsection \<open>Starting a batch\<close>

definition roundIdFromReceipt :: "renv \<Rightarrow> int rop" where
  "roundIdFromReceipt v =
     bindk (rd (\<lambda>h. Inr (re_stateLogs v h))) (\<lambda>logs.
     case find (\<lambda>(a, i). lower a = lower (re_manager v) \<and> i \<noteq> None) logs of
       Some (_, Some i) \<Rightarrow> ret i
     | _ \<Rightarrow> throw ''RoundState event missing from executeAndStart receipt'')"

definition flagStrandedFees :: "renv \<Rightarrow> order_plan \<Rightarrow> string \<Rightarrow> unit rop" where
  "flagStrandedFees v p adapter =
     bindk (rd (re_feeBalance v adapter (op_orderId p))) (\<lambda>bal.
     bindk (rd (re_orderState v adapter (op_orderId p))) (\<lambda>state.
     thenk (if bal > 0 \<and> state = 0 \<and> \<not> truthy (op_consumedBy p) then emit (RAlerted (''stranded-'' @ op_orderId p)) else ret ())
     (if re_execute v then set_plan v (op_planKey p) (\<lambda>x. x\<lparr>op_expired := True\<rparr>) else ret ())))"

definition hold_market :: "renv \<Rightarrow> string \<Rightarrow> string \<Rightarrow> market_gate \<Rightarrow> bool rop" where
  "hold_market v grp asset g =
     thenk (emit (RDeferred grp ''MarketClosed''))
    (thenk (if mg_alert g then emit (RAlerted (''round-market-'' @ asset)) else ret ()) (ret False))"

text \<open>The saved plan when it can still be used; an expired one is flagged.\<close>

definition usable_plan :: "renv \<Rightarrow> string \<Rightarrow> string \<Rightarrow> int \<Rightarrow> order_plan option rop" where
  "usable_plan v planKey adapter now =
     bindk (getj (\<lambda>j. plan_of j planKey)) (\<lambda>saved.
     case saved of None \<Rightarrow> ret None
     | Some p \<Rightarrow> if op_deadline p - 60 \<le> now \<or> op_expired p
         then thenk (flagStrandedFees v p adapter) (ret None) else ret (Some p))"

definition funding_failures :: "string \<Rightarrow> rjournal \<Rightarrow> int" where
  "funding_failures grp j = (case own j ''fundingQuote'' grp of Some (RFundQuote n _ _) \<Rightarrow> n | _ \<Rightarrow> 0)"

definition costs_failed :: "renv \<Rightarrow> string \<Rightarrow> int \<Rightarrow> string \<Rightarrow> costs option rop" where
  "costs_failed v grp now e =
     thenk (emit (RDeferred grp ''FundingQuote''))
    (bindk (getj (funding_failures grp)) (\<lambda>n.
     let fails = n + 1 in
     thenk (set_own v ''fundingQuote'' grp (\<lambda>_. RFundQuote fails e now))
    (thenk (if fails \<ge> rp_fundingQuoteAlertAfter (re_p v) then emit (RAlerted (''round-funding-quote-'' @ grp)) else ret ()) (ret None))))"

definition costs_ok :: "renv \<Rightarrow> string \<Rightarrow> unit rop" where
  "costs_ok v grp = bindk (getj (funding_failures grp)) (\<lambda>n.
     if n \<noteq> 0 then set_own v ''fundingQuote'' grp (\<lambda>r. case r of Some (RFundQuote _ e t) \<Rightarrow> RFundQuote 0 e t | _ \<Rightarrow> RFundQuote 0 [] 0) else ret ())"

definition new_order :: "renv \<Rightarrow> string \<Rightarrow> int list \<Rightarrow> int list \<Rightarrow> int \<Rightarrow> int \<Rightarrow> int \<Rightarrow> string \<Rightarrow> string \<Rightarrow> int \<Rightarrow> string \<Rightarrow> int \<Rightarrow> round_costs \<Rightarrow> order_plan option rop" where
  "new_order v grp ids budgets tot maxBudget now h planKey sourceNonce adapter minRaw c =
     (case checkAdapterQuote tot (rc_fixedCost18 c) maxBudget of
        QuoteBad reason \<Rightarrow> thenk (emit (RDeferred grp reason)) (ret None)
      | QuoteOk \<Rightarrow>
         bindk (rd (\<lambda>h. Inr (re_nonce v h))) (\<lambda>nonce.
         let deadline = now + rp_quoteTtlSec (re_p v);
             o1 = \<lparr>op_planKey = planKey,
                op_orderId = orderIdFor (re_keccak v) (re_encodeOrder v) (re_chainId v) (re_manager v) h minRaw deadline sourceNonce,
                op_ids = ids, op_amounts = budgets, op_total = tot, op_minRaw = minRaw, op_deadline = deadline,
                op_fees18 = rc_fees18 c, op_fixedCost18 = rc_fixedCost18 c, op_hubFee18 = rc_hubFee18 c, op_lzFee18 = rc_lzFee18 c,
                op_nonce = nonce, op_adapter = adapter, op_group = grp, op_expired = False, op_consumedBy = None\<rparr>
         in thenk (if re_execute v then set_plan v planKey (\<lambda>p. o1\<lparr>op_expired := op_expired p, op_consumedBy := op_consumedBy p\<rparr>) else ret ())
              (ret (Some o1))))"

definition plan_order :: "renv \<Rightarrow> string \<Rightarrow> int list \<Rightarrow> int list \<Rightarrow> int \<Rightarrow> int \<Rightarrow> int \<Rightarrow> string \<Rightarrow> string \<Rightarrow> int \<Rightarrow> string \<Rightarrow> string \<Rightarrow> int option \<Rightarrow> order_plan option rop" where
  "plan_order v grp ids budgets tot maxBudget now h planKey sourceNonce adapter asset maxAge =
     bindk (tryk (bindk (priceFor v asset maxAge) (\<lambda>p. ret (Some p))) (\<lambda>_. thenk (emit (RDeferred grp ''NoPrice'')) (ret None))) (\<lambda>price.
     case price of None \<Rightarrow> ret None
     | Some pr \<Rightarrow>
        bindk (planMinRaw v adapter asset tot pr) (\<lambda>minRaw.
        bindk (tryk (bindk (planCosts v tot adapter) (\<lambda>c. ret (Some c))) (costs_failed v grp now)) (\<lambda>costs.
        case costs of None \<Rightarrow> ret None
        | Some (CostsDefer reason) \<Rightarrow> thenk (costs_ok v grp) (thenk (emit (RDeferred grp reason)) (ret None))
        | Some (Costs c) \<Rightarrow> thenk (costs_ok v grp) (new_order v grp ids budgets tot maxBudget now h planKey sourceNonce adapter minRaw c))))"

definition deposit_fees :: "renv \<Rightarrow> rcall caller \<Rightarrow> string \<Rightarrow> order_plan \<Rightarrow> bool rop" where
  "deposit_fees v net adapter o1 =
     bindk (rd (re_feeBalance v adapter (op_orderId o1))) (\<lambda>have_fees.
     if have_fees < op_fees18 o1
     then bindk (call_at net (rkey v adapter (''depositFees:'' @ op_orderId o1 @ '':'' @ show_int (op_fees18 o1)))
            (DepositFees (op_orderId o1) (op_fees18 o1 - have_fees))) (\<lambda>res.
          thenk (r_note ''depositFees'' res) (ret (progressed res)))
     else ret True)"

definition submit_start :: "renv \<Rightarrow> rcall caller \<Rightarrow> string \<Rightarrow> string \<Rightarrow> int \<Rightarrow> order_plan \<Rightarrow> field list \<Rightarrow> bool rop" where
  "submit_start v net grp planKey maxBudget o1 quoteData =
     bindk (call_at net (mkey v (''start:'' @ op_orderId o1 @ '':'' @ show_int (op_fees18 o1)))
        (ExecuteAndStart (op_ids o1) maxBudget (op_minRaw o1) (op_deadline o1) quoteData)) (\<lambda>res.
     thenk (r_note ''executeAndStart'' res)
     (if sr_status res = StSimulationFailed then thenk (onStartRejected v grp o1 (sr_err res)) (ret False)
      else if sr_status res = StConfirmed then
        bindk (roundIdFromReceipt v) (\<lambda>i.
        bindk (rclock v) (\<lambda>now.
        thenk (set_round v i (\<lambda>x. x\<lparr>rr_orderId := Some (op_orderId o1), rr_group := Some grp, rr_startedAt := Some now\<rparr>))
       (thenk (set_plan v planKey (\<lambda>p. p\<lparr>op_consumedBy := Some i\<rparr>)) (ret True))))
      else ret False))"

definition run_order :: "renv \<Rightarrow> rcall caller \<Rightarrow> string \<Rightarrow> string \<Rightarrow> string \<Rightarrow> int \<Rightarrow> order_plan \<Rightarrow> bool rop" where
  "run_order v net grp planKey adapter maxBudget o1 =
     thenk (if re_execute v then set_own v ''orders'' (op_orderId o1) (\<lambda>_. ROrder \<lparr>or_fees18 = op_fees18 o1, or_planKey = planKey\<rparr>) else ret ())
    (bindk (deposit_fees v net adapter o1) (\<lambda>paid.
     if \<not> paid then ret False else
     bindk (signStockQuote v adapter o1) (\<lambda>qd.
     case qd of None \<Rightarrow> thenk (emit (RText ''executeAndStart'' ''no-quote-signer'')) (ret False)
     | Some quoteData \<Rightarrow> submit_start v net grp planKey maxBudget o1 quoteData)))"

definition startBatch :: "renv \<Rightarrow> rcall caller \<Rightarrow> string \<Rightarrow> int list \<Rightarrow> int list \<Rightarrow> int \<Rightarrow> int \<Rightarrow> bool rop" where
  "startBatch v net grp ids budgets tot maxBudget =
     bindk (rclock v) (\<lambda>now.
     bindk (buildOrder v ids budgets) (\<lambda>(h, sourceNonce, adapter, asset).
     bindk (marketCheck v adapter asset) (\<lambda>gate.
     if \<not> mg_ok gate \<and> mg_closed gate then hold_market v grp asset gate else
     bindk (freshPrice v adapter asset) (\<lambda>fresh.
     if \<not> fp_ok fresh then
       (if \<not> fp_demandable fresh \<and> \<not> mg_ok gate then hold_market v grp asset gate
        else thenk (emit (RDeferred grp (if fp_demandable fresh then ''AwaitingPrice'' else ''NoPrice''))) (ret False))
     else if \<not> mg_ok gate then hold_market v grp asset gate else
     let planKey = h @ '':'' @ show_int sourceNonce in
     bindk (usable_plan v planKey adapter now) (\<lambda>saved.
     bindk (case saved of Some p \<Rightarrow> ret (Some p)
            | None \<Rightarrow> plan_order v grp ids budgets tot maxBudget now h planKey sourceNonce adapter asset (fp_maxAge fresh)) (\<lambda>order.
     case order of None \<Rightarrow> ret False
     | Some o1 \<Rightarrow> run_order v net grp planKey adapter maxBudget o1))))))"

subsection \<open>New batches\<close>

text \<open>What is queued in the window of the preview, its first takeable entry, and what can be skipped.\<close>

definition window_read :: "renv \<Rightarrow> int \<Rightarrow> (int \<times> int \<times> int) rop" where
  "window_read v i = bindk (rd (re_available v i)) (\<lambda>a. bindk (rd (re_pending v i)) (\<lambda>p. ret (i, a, p)))"

definition queued_of :: "(int \<times> int \<times> int) list \<Rightarrow> int" where
  "queued_of w = sum_of (\<lambda>(_, a, p). if p = 0 then a else 0) w"

definition head_of :: "(int \<times> int \<times> int) list \<Rightarrow> int option" where
  "head_of w = map_option fst (find (\<lambda>(_, a, p). p = 0 \<and> a > 0) w)"

definition skippable_of :: "(int \<times> int \<times> int) list \<Rightarrow> int \<Rightarrow> bool" where
  "skippable_of w i = (case map_of w i of Some (a, p) \<Rightarrow> a = 0 \<or> p > 0 | None \<Rightarrow> False)"

text \<open>The preview on the six-decimal grid; \<open>None\<close> when it was deferred.\<close>

definition aligned_preview :: "renv \<Rightarrow> string \<Rightarrow> int \<Rightarrow> (int \<times> preview) option rop" where
  "aligned_preview v grp maxBudget =
     bindk (rd (re_previewBatch v grp maxBudget)) (\<lambda>pre.
     if bmod (pv_total pre) USDC_GRID = 0 then ret (Some (maxBudget, pre)) else
     let aligned = alignBudget18 (pv_total pre) in
     if aligned = 0 then thenk (emit (RDeferred grp ''Dust'')) (ret None) else
     bindk (rd (re_previewBatch v grp aligned)) (\<lambda>pre2.
     if bmod (pv_total pre2) USDC_GRID \<noteq> 0 then thenk (emit (RDeferred grp ''Unaligned'')) (ret None)
     else ret (Some (aligned, pre2))))"

definition defer_text :: "defer_reason \<Rightarrow> string" where
  "defer_text r = (case r of Pending \<Rightarrow> ''Pending'' | EmptyBatch \<Rightarrow> ''Empty'' | InvalidPreview \<Rightarrow> ''InvalidPreview'' | CostLimit \<Rightarrow> ''CostLimit''
     | BelowMinimum \<Rightarrow> ''BelowMinimum'' | Round_Decide.MarketClosed \<Rightarrow> ''MarketClosed'')"

definition batch_group :: "renv \<Rightarrow> rcall caller \<Rightarrow> int \<Rightarrow> string \<times> int list \<Rightarrow> int rop" where
  "batch_group v net activeRounds = (\<lambda>(grp, ids).
     bindk (rd (re_cursor v grp)) (\<lambda>cursor.
     bindk (collect (window_read v) (take 64 (drop (nat cursor) ids))) (\<lambda>w.
     let n = shouldAdvance ids (nat cursor) (skippable_of w) (rp_advanceThreshold (re_p v)) in
     thenk (if n \<noteq> 0 then bindk (call_at net (rkey v (re_batcher v) (''advance:'' @ grp @ '':'' @ show_int cursor)) (AdvanceCursor grp n))
              (\<lambda>res. r_note ''advance'' res) else ret ())
     (bindk (runLimit v) (\<lambda>limit.
      bindk (case head_of w of None \<Rightarrow> ret 0 | Some i \<Rightarrow> rd (re_minimumBudget v i)) (\<lambda>headMinimum.
      bindk (aligned_preview v grp (roundCap (queued_of w) limit headMinimum)) (\<lambda>found.
      case found of None \<Rightarrow> ret activeRounds
      | Some (maxBudget, pre) \<Rightarrow>
         bindk (case pv_ids pre of [] \<Rightarrow> ret 0 | i # _ \<Rightarrow> rd (re_minimumBudget v i)) (\<lambda>minimum.
         case planBatch (pv_ids pre) (pv_budgets pre) (pv_total pre) minimum activeRounds (rp_maxActiveRounds (re_p v)) True limit of
           Defer reason \<Rightarrow> thenk (emit (RDeferred grp (defer_text reason))) (ret activeRounds)
         | Execute pids budgets tot \<Rightarrow>
             bindk (startBatch v net grp pids budgets tot maxBudget) (\<lambda>started. ret (if started then activeRounds + 1 else activeRounds))))))))))"

fun batch_groups :: "renv \<Rightarrow> rcall caller \<Rightarrow> int \<Rightarrow> (string \<times> int list) list \<Rightarrow> unit rop" where
  "batch_groups v net activeRounds [] = ret ()"
| "batch_groups v net activeRounds (g # gs) = bindk (batch_group v net activeRounds g) (\<lambda>n. batch_groups v net n gs)"

definition batchPhase :: "renv \<Rightarrow> rcall caller \<Rightarrow> int \<Rightarrow> unit rop" where
  "batchPhase v net activeRounds = bindk (groupsWithIds v) (batch_groups v net activeRounds)"

subsection \<open>The tick\<close>

definition round_tick :: "renv \<Rightarrow> rcall caller \<Rightarrow> rcall settler \<Rightarrow> unit rop" where
  "round_tick v net settler =
     thenk (case re_latest v of Some f \<Rightarrow> bindk (rd f) (\<lambda>_. ret ()) | None \<Rightarrow> ret ())
    (thenk (settle_all settler)
    (thenk (discoverPhase v)
    (thenk (sealPhase v net)
    (thenk (stakingSealPhase v net)
    (thenk (enqueuePhase v net)
    (bindk (roundsPhase v net) (\<lambda>active.
     thenk (batchPhase v net active)
     (bindk (roundsPhase v net) (\<lambda>_. ret ())))))))))"

end
