(* ===== verification/Round_Safety.thy ===== *)
theory Round_Safety
  imports Round_Keeper
begin

section \<open>What the round keeper keeps\<close>

subsection \<open>Frames\<close>

text \<open>A scan writes sightings and its cursor, sends nothing and reads the keeper's own records not at all.\<close>

definition same_own :: "(found, rown) drec journal \<Rightarrow> rh \<Rightarrow> ((found, rown) drec, rcall, rreport) kst \<Rightarrow> bool" where
  "same_own j h st \<longleftrightarrow> (\<forall>ns i. ns \<noteq> ''discoverCursor'' \<and> take 9 ns \<noteq> ''discover:'' \<longrightarrow> own (kj st) ns i = own j ns i) \<and> hist st = h"

lemma same_own_refl [simp]: "same_own (kj st) (hist st) st"
  by (simp add: same_own_def)

lemma take_item_ns [simp]: "take 9 (item_ns s) = ''discover:''"
  by (simp add: item_ns_def)

lemma keeps_frame_put [keeping]: "take 9 ns = ''discover:'' \<or> ns = ''discoverCursor'' \<Longrightarrow> keeps (same_own j h) (put_rec clock ns i f)"
  by (auto simp: keeps_def same_own_def own_def)

lemma keeps_frame_emit [keeping]: "keeps (same_own j h) (emit x)"
  by (simp add: keeps_def same_own_def emit_def)

lemma keeps_frame_upsert [keeping]: "keeps (same_own j h) (upsert s x)"
  unfolding upsert_def by (intro keeping) simp_all

lemma keeps_frame_log [keeping]: "keeps (same_own j h) (see_log s l)"
  unfolding see_log_def block_time_def by (intro keeping)

lemma keeps_frame_chunks [keeping]: "keeps (same_own j h) (sync_chunks s safe n frm added)"
proof (induction n arbitrary: frm added)
  case (Suc n)
  show ?case unfolding sync_chunks.simps by (intro keeping Suc.IH) simp_all
qed (simp add: keeping)

lemma keeps_frame_sync [keeping]: "keeps (same_own j h) (sync_all v)"
  unfolding sync_all_def sync_def by (intro keeping)

text \<open>So a property of the own records and the history survives a scan.\<close>

lemma keeps_own_sync:
  assumes "\<And>st st1. I st \<Longrightarrow> same_own (kj st) (hist st) st1 \<Longrightarrow> I st1"
  shows "keeps I (sync_all v)"
  unfolding keeps_def using assms keepsD [OF keeps_frame_sync same_own_refl] by blast

lemma own_put [simp]: "own (kj (snd (set_own v ns i f st))) ns' k = (if ns' = ns \<and> k = i then Some (f (own (kj st) ns i)) else own (kj st) ns' k)"
  by (auto simp: own_def set_own_def own_of_def)

lemma own_call [simp]: "own (kj (snd (call net k c st))) = own (kj st)"
  by (intro ext) (simp add: own_def)

lemma own_prims [simp]: "own (kj (snd (emit x st))) = own (kj st)" "own (kj (snd (settle_all f st))) = own (kj st)"
  "own (kj (snd (ask_lane v i b fees st))) = own (kj st)" "own (kj (st\<lparr>hist := h\<rparr>)) = own (kj st)"
  by (intro ext; simp add: own_def emit_def settle_all_def ask_lane_def record_of_def ns_of_def with_tasks_def save_def split: prod.splits)+

lemma keeps_while_true [keeping]: "(\<And>x. x \<in> set xs \<Longrightarrow> keeps I (f x)) \<Longrightarrow> keeps I (while_true f xs)"
  by (induction xs) (auto intro!: keeping)

lemma keeps_attempt [keeping]: "keeps I (attempt f)"
  unfolding attempt_def by (intro keeping)

lemma keeps_rclock [keeping]: "keeps I (rclock v)"
  unfolding rclock_def by (intro keeping)

lemma keeps_oracle_of [keeping]: "keeps I (oracle_of v a)"
  unfolding oracle_of_def by (intro keeping)

lemma keeps_entrySourceOf [keeping]: "keeps I (entrySourceOf v k)"
  unfolding entrySourceOf_def by (intro keeping)

lemma keeps_fund_loop [keeping]: "(\<And>x. keeps I (q x)) \<Longrightarrow> keeps I (fund_loop b q need cap buf n fees)"
  by (induction n arbitrary: fees) (auto simp: Let_def intro!: keeping)

lemma keeps_planFundingFees [keeping]: "(\<And>x. keeps I (q x)) \<Longrightarrow> keeps I (planFundingFees b q m buf n)"
  unfolding planFundingFees_def by (intro keeping)

subsection \<open>Invariants of the own records\<close>

text \<open>\<open>stable I\<close>: \<open>I\<close> depends on the own records of the namespaces \<open>plans\<close> and \<open>rounds\<close> and on the history
  only, and survives every call but a dispatch of the lane.\<close>

definition quiet_step :: "((found, rown) drec, rcall, rreport) kst \<Rightarrow> ((found, rown) drec, rcall, rreport) kst \<Rightarrow> bool" where
  "quiet_step st st1 \<longleftrightarrow> own (kj st1) ''plans'' = own (kj st) ''plans'' \<and> own (kj st1) ''rounds'' = own (kj st) ''rounds''
     \<and> (hist st1 = hist st \<or> (\<exists>k c. hist st1 = hist st @ [(k, c)] \<and> (\<forall>i b f. c \<noteq> LaneDispatch i b f)))"

definition stable :: "(((found, rown) drec, rcall, rreport) kst \<Rightarrow> bool) \<Rightarrow> bool" where
  "stable I \<longleftrightarrow> (\<forall>st st1. quiet_step st st1 \<longrightarrow> I st \<longrightarrow> I st1)"

lemma keeps_stable: "stable I \<Longrightarrow> (\<And>st. quiet_step st (snd (m st))) \<Longrightarrow> keeps I m"
  unfolding keeps_def stable_def by blast

lemma stable_emit: "stable I \<Longrightarrow> keeps I (emit x)"
  by (rule keeps_stable) (simp_all add: quiet_step_def)

lemma stable_settle: "stable I \<Longrightarrow> keeps I (settle_all f)"
  by (rule keeps_stable) (simp_all add: quiet_step_def)

lemma stable_call: "stable I \<Longrightarrow> (\<forall>i b f. c \<noteq> LaneDispatch i b f) \<Longrightarrow> keeps I (call net k c)"
  by (rule keeps_stable) (simp_all add: quiet_step_def call_hist)

lemma hist_set_own [simp]: "hist (snd (set_own v ns i f st)) = hist st"
  by (simp add: set_own_def)

lemma stable_other: "stable I \<Longrightarrow> ns \<noteq> ''plans'' \<and> ns \<noteq> ''rounds'' \<Longrightarrow> keeps I (set_own v ns i f)"
  by (rule keeps_stable) (auto simp: quiet_step_def fun_eq_iff)

lemma stable_sync: "stable I \<Longrightarrow> keeps I (sync_all v)"
proof (rule keeps_own_sync)
  fix st st1 assume st: "stable I" "I st" and same: "same_own (kj st) (hist st) st1"
  have "quiet_step st st1" using same by (simp add: quiet_step_def same_own_def fun_eq_iff)
  with st show "I st1" unfolding stable_def by blast
qed

lemmas stables = stable_emit stable_settle stable_call stable_other stable_sync

subsection \<open>Invariants of a whole tick\<close>

definition rec_of :: "rjournal \<Rightarrow> int \<Rightarrow> round_rec" where
  "rec_of j i = orelse (round_rec_of j i) no_round"

text \<open>The contract of an invariant: it survives reports, transactions, reconciliation, scans and writes of other
  records, a write of a plan that does not unmark an expired one, a write of a round that leaves the
  dispatch stamp alone, and a dispatch for a round whose stamp is not set. So does then the tick.\<close>

locale round_invariant =
  fixes v :: renv and I :: "((found, rown) drec, rcall, rreport) kst \<Rightarrow> bool"
  assumes emits: "keeps I (emit x)"
    and settles: "keeps I (settle_all s)"
    and calls: "(\<forall>i b f. c \<noteq> LaneDispatch i b f) \<Longrightarrow> keeps I (call net k c)"
    and others: "ns \<noteq> ''plans'' \<and> ns \<noteq> ''rounds'' \<Longrightarrow> keeps I (set_own v ns j h)"
    and scans: "keeps I (sync_all (re_discover v))"
    and plans: "(\<And>p. op_expired p \<Longrightarrow> op_expired (f p)) \<Longrightarrow> keeps I (set_plan v k f)"
    and rounds: "(\<And>x. rr_dispatchStartedAt (g x) = rr_dispatchStartedAt x) \<Longrightarrow> keeps I (set_round v i g)"
    and dispatch: "I st \<Longrightarrow> \<not> truthy (rr_dispatchStartedAt (rec_of (kj st) i)) \<Longrightarrow> re_round v i (hist st) = Inr r \<Longrightarrow>
       wp (dispatchFunding v i r) (\<lambda>_. I) I st"
begin

lemma reported: "keeps I (r_note kind r)"
  unfolding r_note_def by (rule emits)

lemma calls_at: "(\<forall>i b f. c \<noteq> LaneDispatch i b f) \<Longrightarrow> keeps I (call_at net k c)"
  by (intro keeping calls)

lemmas basics = emits reported settles calls_at others scans plans rounds

lemma keeps_discover: "keeps I (discoverPhase v)"
  unfolding discoverPhase_def by (intro keeping basics) auto

lemma keeps_watermark: "keeps I (advanceWatermark v i frm today fin)"
  unfolding advanceWatermark_def by (intro keeping basics) auto

lemma keeps_seal: "keeps I (sealPhase v net)"
  unfolding sealPhase_def seal_source_def epoch_read_def seal_epoch_def by (intro keeping basics keeps_watermark) auto

lemma keeps_staking: "keeps I (stakingSealPhase v net)"
  unfolding stakingSealPhase_def seal_lane_def lane_read_def lane_funded_def lane_source_def seal_lane_epoch_def
  by (intro keeping basics keeps_watermark) auto

lemma keeps_enqueue: "keeps I (enqueuePhase v net)"
  unfolding enqueuePhase_def enqueue_one_def by (intro keeping basics) auto

lemma keeps_sign: "keeps I (signStockQuote v a o1)"
  unfolding signStockQuote_def by (intro keeping keeps_signChecked basics)

lemma keeps_startReserved: "keeps I (startReserved v net i r)"
  unfolding startReserved_def by (intro keeping basics keeps_sign) auto

lemma keeps_settle: "keeps I (settle_round v net i r)"
  unfolding settle_round_def by (intro keeping basics) auto

lemma keeps_entry_group: "keeps I (entry_group v i)"
  unfolding entry_group_def by (intro keeping basics) auto

lemma keeps_rejected: "keeps I (onStartRejected v grp o1 e)"
  unfolding onStartRejected_def
  by (intro keeping basics) (auto intro!: keeping basics split: list.splits)

lemma keeps_flag: "keeps I (flagStrandedFees v p a)"
  unfolding flagStrandedFees_def by (intro keeping basics) auto

lemma keeps_usable: "keeps I (usable_plan v k a now)"
  unfolding usable_plan_def by (intro keeping basics keeps_flag)

lemma keeps_new_order: "keeps I (new_order v grp ids bs tot mx now h pk sn a mr c)"
  unfolding new_order_def by (cases "checkAdapterQuote tot (rc_fixedCost18 c) mx") (auto intro!: keeping basics)

lemma keeps_costs: "keeps I (costs_failed v grp now e)" "keeps I (costs_ok v grp)"
  unfolding costs_failed_def costs_ok_def by (intro keeping basics; auto)+

lemma keeps_planCosts: "keeps I (planCosts v b a)"
  unfolding planCosts_def by (intro keeping) (auto intro!: keeping split: fee_plan.splits)

lemma keeps_price: "keeps I (priceFor v a m)" "keeps I (planMinRaw v a x tot p)" "keeps I (marketCheck v a x)" "keeps I (freshPrice v a x)"
  unfolding priceFor_def planMinRaw_def marketCheck_def freshPrice_def by (intro keeping basics)+

lemma keeps_plan_order: "keeps I (plan_order v grp ids bs tot mx now h pk sn a x m)"
  unfolding plan_order_def
  by (intro keeping basics keeps_price keeps_planCosts keeps_costs keeps_new_order)
     (auto intro!: keeping basics keeps_costs keeps_new_order split: costs.splits)

lemma keeps_run_order: "keeps I (run_order v net grp pk a mx o1)"
  unfolding run_order_def deposit_fees_def submit_start_def roundIdFromReceipt_def
  by (intro keeping basics keeps_sign keeps_rejected) (auto intro!: keeping split: option.splits prod.splits)

lemma keeps_startBatch: "keeps I (startBatch v net grp ids bs tot mx)"
  unfolding startBatch_def buildOrder_def hold_market_def
  by (intro keeping basics keeps_price keeps_usable keeps_plan_order keeps_run_order)
     (auto intro!: keeping split: list.splits)

lemma keeps_batch_group: "keeps I (batch_group v net n g)"
  unfolding batch_group_def window_read_def runLimit_def aligned_preview_def
  by (intro keeping basics) (auto intro!: keeping basics keeps_startBatch split: list.splits plan.splits)

lemma keeps_batches: "keeps I (batchPhase v net n)"
proof -
  have "keeps I (batch_groups v net n gs)" for n gs
    by (induction gs arbitrary: n) (auto intro!: keeping keeps_batch_group)
  then show ?thesis unfolding batchPhase_def groupsWithIds_def by (intro keeping keeps_entry_group)
qed

end

subsection \<open>The round phase\<close>

lemma wp_attempt [wps]: "(\<And>x. Q x st) \<Longrightarrow> wp (attempt f) Q E st"
  unfolding attempt_def by (intro wps) (auto intro!: wps)

lemma wp_rclock [wps]: "Q (re_now v (hist st)) st \<Longrightarrow> E st \<Longrightarrow> wp (rclock v) Q E st"
  unfolding rclock_def by (intro wps) auto

lemma wp_probeResult [wps]: "(\<And>x. Q x st) \<Longrightarrow> wp (probeResult v r) Q E st"
  unfolding probeResult_def by (intro wps) (auto intro!: wps)

lemma next_dispatch: "nextRoundAction r cx = DispatchFunding \<Longrightarrow> \<not> cx_dispatched cx"
  by (cases "status_of (rd_status r)") (auto simp: nextRoundAction.simps Let_def split: if_splits)

context round_invariant
begin

lemma wp_perform:
  assumes "I st" "re_round v i (hist st) = Inr r" "a = DispatchFunding \<Longrightarrow> \<not> truthy (rr_dispatchStartedAt (rec_of (kj st) i))"
  shows "wp (perform_action v net i r now res a) (\<lambda>_. I) I st"
proof (cases "a = DispatchFunding")
  case True
  with assms show ?thesis by (simp add: perform_action_def dispatch)
next
  case False
  then have "keeps I (perform_action v net i r now res a)"
    unfolding perform_action_def by (cases a) (auto intro!: keeping basics keeps_startReserved split: option.splits)
  then show ?thesis by (rule wp_of_keeps) (rule assms)
qed

lemma wp_step_round:
  assumes "I st" "re_round v i (hist st) = Inr r" "x = rec_of (kj st) i"
  shows "wp (step_round v net i r now x) (\<lambda>_. I) I st"
  unfolding step_round_def
  by (intro wps wp_perform assms) (auto dest!: next_dispatch simp: assms)

lemma wp_progress:
  assumes "I st" "re_round v i (hist st) = Inr r"
  shows "wp (progressRound v net i r (rec_of (kj st) i)) (\<lambda>_. I) I st"
proof -
  have set: "wp (set_round v i f) (\<lambda>_ st1. I st1 \<and> hist st1 = hist st) I st" if "\<And>x. rr_dispatchStartedAt (f x) = rr_dispatchStartedAt x" for f
    using wp_of_keeps [OF rounds [OF that] assms(1)] by (simp add: wp_def set_round_def set_own_def put_rec_def)
  have watch: "wp (set_round v i f) (\<lambda>_. I) I st1" if "I st1" "\<And>x. rr_dispatchStartedAt (f x) = rr_dispatchStartedAt x" for st1 f
    by (rule wp_of_keeps [OF rounds [OF that(2)] that(1)])
  show ?thesis unfolding progressRound_def
    by (intro wps wp_of_keeps [OF keeps_settle] assms wp_cons [OF set] watch wp_step_round)
       (use assms in \<open>auto simp: rec_of_def orelse_def split: option.splits\<close>)
qed

lemma keeps_visit: "keeps I (visit_round v net i)"
proof (rule wp_keeps)
  fix st assume st: "I st"
  have rec: "orelse (round_rec_of (kj st) i) no_round = rec_of (kj st) i" by (simp add: rec_of_def)
  show "wp (visit_round v net i) (\<lambda>_. I) I st"
    unfolding visit_round_def
    by (intro wps wp_of_keeps [OF rounds] st) (auto simp: rec intro!: wps wp_cons [OF wp_progress] wp_cons [OF wp_of_keeps [OF rounds]] st)
qed

lemma keeps_tick: "keeps I (round_tick v net settler)"
  unfolding round_tick_def roundsPhase_def
  by (intro keeping basics keeps_visit keeps_discover keeps_seal keeps_staking keeps_enqueue keeps_batches) 

end

text \<open>For an invariant on plans, rounds and the history alone, the first five hold.\<close>

lemma round_invariantI:
  assumes "stable I"
    and "\<And>f k. (\<And>p. op_expired p \<Longrightarrow> op_expired (f p)) \<Longrightarrow> keeps I (set_plan v k f)"
    and "\<And>g i. (\<And>x. rr_dispatchStartedAt (g x) = rr_dispatchStartedAt x) \<Longrightarrow> keeps I (set_round v i g)"
    and "\<And>st i r. I st \<Longrightarrow> \<not> truthy (rr_dispatchStartedAt (rec_of (kj st) i)) \<Longrightarrow> re_round v i (hist st) = Inr r \<Longrightarrow>
       wp (dispatchFunding v i r) (\<lambda>_. I) I st"
  shows "round_invariant v I"
proof unfold_locales
  note st = assms(1)
  show "keeps I (emit x)" for x by (rule stable_emit [OF st])
  show "keeps I (settle_all s)" for s by (rule stable_settle [OF st])
  show "keeps I (call net k c)" if "\<forall>i b f. c \<noteq> LaneDispatch i b f" for c net k by (rule stable_call [OF st that])
  show "keeps I (set_own v ns j h)" if "ns \<noteq> ''plans'' \<and> ns \<noteq> ''rounds''" for ns j h by (rule stable_other [OF st that])
  show "keeps I (sync_all (re_discover v))" by (rule stable_sync [OF st])
qed (fact assms(2-4))+

subsection \<open>A concrete world\<close>

text \<open>No sources, no rounds, every other read failing.\<close>

definition demo_sources :: "rcall source_env" where
  "demo_sources = \<lparr>se_factory = None, se_staking = None, se_fromBlock = 0, se_confirmations = 0, se_chunk = 10, se_maxChunks = 1,
     se_ms = (\<lambda>_. 0), se_head = (\<lambda>_. Inl ''none''), se_logs = (\<lambda>_ _ _ _. Inl ''none''), se_block = (\<lambda>_ _. Inl ''none''),
     se_parseLaunch = (\<lambda>_. Inl ''none''), se_kindOf = (\<lambda>_ _. Inl ''none''), se_parseLane = (\<lambda>_. Inl ''none''), se_entrySource = (\<lambda>_ _. Inl ''none'')\<rparr>"

definition demo_renv :: renv where
  "demo_renv = \<lparr>
    re_sources = [], re_discover = demo_sources, re_p = ROUND_DEFAULTS, re_chainId = 1, re_execute = True, re_manager = ''0xm'', 
    re_batcher = ''0xb'', re_staking = ''0xs'', re_hasOracle = False, re_laneName = ''mock'', re_selector = ''0xsel'', 
    re_H = (\<lambda>_. ''h''), re_keccak = (\<lambda>_. ''k''), re_encodeEntry = (\<lambda>_ _ _. ''e''), 
    re_encodeOrder = (\<lambda>_. ''o''), re_quoteSigner = None, re_ms = (\<lambda>_. 0), re_now = (\<lambda>_. 1000), re_latest = None, 
    re_epochBudget = (\<lambda>_ _ _. Inl ''none''), re_rewardSealed = (\<lambda>_ _ _. Inl ''none''), 
    re_nextRoundAt = (\<lambda>_ _ _. Inl ''none''), re_rewardPolicy = (\<lambda>_ _ _. Inl ''none''), 
    re_carryState = (\<lambda>_ _. Inl ''none''), re_laneSealed = (\<lambda>_ _ _. Inl ''none''), 
    re_credit27 = (\<lambda>_ _ _. Inl ''none''), re_ledgerLane = (\<lambda>_ _. Inl ''none''), 
    re_nativeAvailable = (\<lambda>_ _. Inl ''none''), re_sealStatic = (\<lambda>_ _ _ _. Inl ''none''), 
    re_nextToEnqueue = (\<lambda>_. Inr 1), re_nextEntryId = (\<lambda>_. Inr 0), re_nextRoundId = (\<lambda>_. Inr 0), 
    re_round = (\<lambda>_ _. Inl ''none''), re_proofFor = (\<lambda>_ _. Inl ''none''), 
    re_consumeResult = (\<lambda>_ _ _ _. Inl ''none''), re_feeBalance = (\<lambda>_ _ _. Inl ''none''), 
    re_funded = (\<lambda>_ _ _. Inl ''none''), re_orderState = (\<lambda>_ _ _. Inl ''none''), 
    re_orphanConsumed = (\<lambda>_ _. Inl ''none''), re_lane = (\<lambda>_ _ _ _. Inl (plain_error ''none'')), 
    re_quoteMinOut6 = (\<lambda>_ _. Inl ''none''), re_price = (\<lambda>_ _. Inl ''none''), re_config = (\<lambda>_ _. Inl ''none''), 
    re_arc = (\<lambda>_ _ _. Inl ''none''), re_demandFile = (\<lambda>_. None), re_hasStatusDir = False, 
    re_wallSec = (\<lambda>_. 1000), re_groupKey = (\<lambda>_ _. Inl ''none''), re_runLimit = (\<lambda>_. Inl ''none''), 
    re_cursor = (\<lambda>_ _. Inl ''none''), re_available = (\<lambda>_ _. Inl ''none''), re_pending = (\<lambda>_ _. Inl ''none''), 
    re_minimumBudget = (\<lambda>_ _. Inl ''none''), re_previewBatch = (\<lambda>_ _ _. Inl ''none''), 
    re_entry = (\<lambda>_ _. Inl ''none''), re_executionNonce = (\<lambda>_ _. Inl ''none''), 
    re_resolve = (\<lambda>_ _ _. Inl ''none''), re_sourceUpdatedAt = (\<lambda>_ _ _. Inl ''none''), 
    re_hubFees = (\<lambda>_ _. Inl ''none''), re_quoteOrder = (\<lambda>_ _ _. Inl ''none''), 
    re_decimals = (\<lambda>_ _. Inl ''none''), re_rawFor = (\<lambda>_ _ _ _. Inl ''none''), re_nonce = (\<lambda>_. 5), 
    re_nonceUsed = (\<lambda>_ _ _. Inl ''none''), re_quoteDigest = (\<lambda>_ _ _. Inl ''none''), re_stateLogs = (\<lambda>_. []), 
    re_errorOf = (\<lambda>_. \<lparr>rv_candidates = [], rv_text = []\<rparr>), re_parseError = (\<lambda>_. None), 
    re_errorString = (\<lambda>_. None)\<rparr>"

subsection \<open>An expired plan stays expired\<close>

definition expired_at :: "string \<Rightarrow> ((found, rown) drec, rcall, rreport) kst \<Rightarrow> bool" where
  "expired_at k st \<longleftrightarrow> (case plan_of (kj st) k of Some p \<Rightarrow> op_expired p | None \<Rightarrow> False)"

lemma expired_at_own: "own (kj st1) ''plans'' = own (kj st) ''plans'' \<Longrightarrow> expired_at k st1 = expired_at k st"
  by (simp add: expired_at_def plan_of_def)

lemma plan_of_set_plan [simp]: "plan_of (kj (snd (set_plan v k' f st))) k =
    (if k = k' then Some (f (orelse (plan_of (kj st) k') no_plan)) else plan_of (kj st) k)"
  by (auto simp: plan_of_def set_plan_def patch_plan_def orelse_def split: option.splits rown.splits)

lemma own_set_round [simp]: "own (kj (snd (set_round v i f st))) ''plans'' = own (kj st) ''plans''"
  by (intro ext) (simp add: set_round_def)

lemma keeps_expired: "(\<And>st. own (kj (snd (m st))) ''plans'' = own (kj st) ''plans'') \<Longrightarrow> keeps (expired_at k) m"
  by (simp add: keeps_def expired_at_def plan_of_def)

lemma keeps_expired_dispatch: "keeps (expired_at k) (dispatchFunding v i r)"
proof -
  have round: "keeps (expired_at k) (set_round v i f)" for f by (rule keeps_expired) simp
  have ask: "keeps (expired_at k) (ask_lane v x b fees)" for x b fees by (rule keeps_expired) simp
  have say: "keeps (expired_at k) (emit x)" for x by (rule keeps_expired) simp
  have fin: "keeps (expired_at k) (dispatch_done v i out)" for out
    unfolding dispatch_done_def by (intro keeping round say)
  show ?thesis unfolding dispatchFunding_def by (intro keeping round ask say fin)
qed

interpretation expiry: round_invariant v "expired_at k" for v k
proof (rule round_invariantI)
  show "stable (expired_at k)"
    by (simp add: stable_def quiet_step_def expired_at_def plan_of_def)
  show "keeps (expired_at k) (set_plan v k' f)" if "\<And>p. op_expired p \<Longrightarrow> op_expired (f p)" for k' f
    using that by (auto simp: keeps_def expired_at_def orelse_def split: option.splits)
  show "keeps (expired_at k) (set_round v i g)" for i g
    by (rule keeps_expired) simp
  show "wp (dispatchFunding v i r) (\<lambda>_. expired_at k) (expired_at k) st" if "expired_at k st" for st i r
    by (rule wp_of_keeps [OF keeps_expired_dispatch that])
qed

text \<open>A sequence of ticks, each in a world of its own.\<close>

fun run_rounds :: "(renv \<times> rcall caller \<times> rcall settler) list \<Rightarrow> ((found, rown) drec, rcall, rreport) kst \<Rightarrow> ((found, rown) drec, rcall, rreport) kst" where
  "run_rounds [] st = st"
| "run_rounds ((v, net, settler) # ws) st = run_rounds ws (snd (round_tick v net settler st))"

lemma expired_run: "expired_at k st \<Longrightarrow> expired_at k (run_rounds ws st)"
  by (induction ws st rule: run_rounds.induct) (auto intro: keepsD [OF expiry.keeps_tick])

text \<open>C37. Once the plan of a set of slices was marked expired, it stays so for good: the plan that replaces it is
  merged into the same record and never clears the mark. After any number of ticks the saved plan is
  refused again, so every tick signs a new order and pays its Ops fees again, and a raise of the fees
  that answered a rejected start is lost.\<close>

theorem expired_plan_sticks:
  assumes "expired_at k st"
  shows "expired_at k (run_rounds ws st) \<and> fst (usable_plan v k adapter now (run_rounds ws st)) \<noteq> Inr (Some p)"
proof -
  have e: "expired_at k (run_rounds ws st)" by (rule expired_run [OF assms])
  then show ?thesis
    by (auto simp: expired_at_def usable_plan_def bindk_def thenk_def getj_def ret_def split: option.splits prod.splits sum.splits)
qed

definition demo_expired :: "((found, rown) drec, rcall, rreport) kst" where
  "demo_expired = \<lparr>kj = setRecord 0 ''plans'' ''k:0'' (\<lambda>_. Own (RPlan (no_plan\<lparr>op_orderId := ''o1'', op_deadline := 5000, op_expired := True\<rparr>))) (open_journal None),
     hist = [], outs = []\<rparr>"

theorem expired_plan_sticks_witness:
  "expired_at ''k:0'' demo_expired
   \<and> (\<forall>p. fst (usable_plan demo_renv ''k:0'' ''0xa'' 1000 (run_rounds [(demo_renv, \<lambda>h k c ts. (Inr (result_of StInflight), ts), \<lambda>h ts. (Inr (), ts))] demo_expired)) \<noteq> Inr (Some p))"
proof -
  have e: "expired_at ''k:0'' demo_expired"
    by (simp add: expired_at_def demo_expired_def plan_of_def own_def own_of_def record_of_setRecord)
  from expired_plan_sticks [OF this] show ?thesis using e by blast
qed

subsection \<open>A round is funded at most once\<close>

text \<open>The lane's answers over the life of the keeper: a function of the order and of the history at the time.
  \<open>may_have_left\<close>: anything but a failure that is definitely not sent.\<close>

type_synonym lane_answers = "string \<Rightarrow> int \<Rightarrow> int \<Rightarrow> rh \<Rightarrow> lane_error + lane_sent"

definition may_have_left :: "lane_error + lane_sent \<Rightarrow> bool" where
  "may_have_left out = (case out of Inl e \<Rightarrow> \<not> definitelyNotSent e | Inr _ \<Rightarrow> True)"

definition maybe_funded :: "lane_answers \<Rightarrow> rh \<Rightarrow> string \<Rightarrow> bool" where
  "maybe_funded lane h oid \<longleftrightarrow> (\<exists>n k b fees. n < length h \<and> h ! n = (k, LaneDispatch oid b fees) \<and> may_have_left (lane oid b fees (take n h)))"

lemma maybe_funded_snoc [simp]: "maybe_funded lane (h @ [(k, c)]) oid \<longleftrightarrow>
    maybe_funded lane h oid \<or> (\<exists>b fees. c = LaneDispatch oid b fees \<and> may_have_left (lane oid b fees h))"
  unfolding maybe_funded_def by (auto simp: nth_append less_Suc_eq)

text \<open>Round \<open>i\<close> carries the order \<open>oid i\<close>, a different one for each round, and a clock never reads 0.\<close>

definition world_ok :: "lane_answers \<Rightarrow> (int \<Rightarrow> string) \<Rightarrow> renv \<Rightarrow> bool" where
  "world_ok lane oid v \<longleftrightarrow> re_lane v = lane \<and> inj oid \<and> (\<forall>h. re_now v h \<noteq> 0) \<and> (\<forall>i h r. re_round v i h = Inr r \<longrightarrow> vw_orderId r = oid i)"

text \<open>A round whose order may have been funded is stamped, and no order was dispatched after that.\<close>

definition stamped :: "rjournal \<Rightarrow> int \<Rightarrow> bool" where
  "stamped j i \<longleftrightarrow> truthy (rr_dispatchStartedAt (rec_of j i))"

definition funded_once :: "lane_answers \<Rightarrow> (int \<Rightarrow> string) \<Rightarrow> ((found, rown) drec, rcall, rreport) kst \<Rightarrow> bool" where
  "funded_once lane oid st \<longleftrightarrow> (\<forall>i. maybe_funded lane (hist st) (oid i) \<longrightarrow> stamped (kj st) i)
     \<and> asked (\<lambda>h k c. \<forall>o1 b fees. c = LaneDispatch o1 b fees \<longrightarrow> \<not> maybe_funded lane h o1) (hist st)"

lemma stamped_own: "own (kj st1) ''rounds'' = own (kj st) ''rounds'' \<Longrightarrow> stamped (kj st1) = stamped (kj st)"
  by (intro ext) (simp add: stamped_def rec_of_def round_rec_of_def)

lemma rec_of_set_round [simp]: "rec_of (kj (snd (set_round v i f st))) k = (if k = i then f (rec_of (kj st) i) else rec_of (kj st) k)"
  by (auto simp: rec_of_def round_rec_of_def set_round_def patch_round_def orelse_def split: option.splits rown.splits)

lemma hist_set_round [simp]: "hist (snd (set_round v i f st)) = hist st"
  by (simp add: set_round_def)

lemma own_set_plan [simp]: "own (kj (snd (set_plan v k f st))) ''rounds'' = own (kj st) ''rounds''"
  by (intro ext) (simp add: set_plan_def)

lemma hist_set_plan [simp]: "hist (snd (set_plan v k f st)) = hist st"
  by (simp add: set_plan_def)

lemma wp_set_round [wps]: "Q () (snd (set_round v i f st)) \<Longrightarrow> wp (set_round v i f) Q E st"
  by (simp add: wp_def set_round_def set_own_def put_rec_def)

lemma wp_ask_lane [wps]: "Q (re_lane v i b fees (hist st)) (snd (ask_lane v i b fees st)) \<Longrightarrow> wp (ask_lane v i b fees) Q E st"
  by (simp add: wp_def ask_lane_def)

lemma kj_ask_lane [simp]: "kj (snd (ask_lane v i b fees st)) = kj st"
  by (simp add: ask_lane_def)

lemma hist_ask_lane [simp]: "hist (snd (ask_lane v i b fees st)) = hist st @ [(re_laneName v, LaneDispatch i b fees)]"
  by (simp add: ask_lane_def)

lemma funded_once_stamp:
  "funded_once lane oid st \<Longrightarrow> t \<noteq> 0 \<Longrightarrow> funded_once lane oid (snd (set_round v i (\<lambda>x. x\<lparr>rr_orderId := o1, rr_dispatchStartedAt := Some t, rr_lane := l\<rparr>) st))"
  by (simp add: funded_once_def stamped_def truthy_def)

lemma funded_once_done:
  assumes "funded_once lane oid st" "may_have_left out \<or> \<not> maybe_funded lane (hist st) (oid i)"
  shows "wp (dispatch_done v i out) (\<lambda>_. funded_once lane oid) (funded_once lane oid) st"
proof -
  have emits: "funded_once lane oid (st1\<lparr>outs := os\<rparr>) = funded_once lane oid st1" for st1 os
    by (simp add: funded_once_def)
  show ?thesis
    unfolding dispatch_done_def
    by (intro wps) (use assms in \<open>auto simp: emits funded_once_def stamped_def may_have_left_def truthy_def\<close>)
qed

lemma once_invariant:
  assumes w: "world_ok lane oid v"
  shows "round_invariant v (funded_once lane oid)"
proof (rule round_invariantI)
  have frame: "funded_once lane oid st1" if "funded_once lane oid st" "own (kj st1) ''rounds'' = own (kj st) ''rounds''"
    "hist st1 = hist st \<or> (\<exists>k c. hist st1 = hist st @ [(k, c)] \<and> (\<forall>i b f. c \<noteq> LaneDispatch i b f))" for st st1
    using that(3)
  proof (elim disjE exE conjE)
    assume "hist st1 = hist st"
    with that(1) show ?thesis by (simp add: funded_once_def stamped_own [OF that(2)])
  next
    fix k c assume "hist st1 = hist st @ [(k, c)]" "\<forall>i b f. c \<noteq> LaneDispatch i b f"
    with that(1) show ?thesis by (simp add: funded_once_def stamped_own [OF that(2)])
  qed
  show "stable (funded_once lane oid)"
    unfolding stable_def
  proof (intro allI impI)
    fix st st1 assume q: "quiet_step st st1" and f: "funded_once lane oid st"
    have a: "own (kj st1) ''rounds'' = own (kj st) ''rounds''" using q unfolding quiet_step_def by (elim conjE)
    have b: "hist st1 = hist st \<or> (\<exists>k c. hist st1 = hist st @ [(k, c)] \<and> (\<forall>i b f. c \<noteq> LaneDispatch i b f))" using q unfolding quiet_step_def by (elim conjE)
    show "funded_once lane oid st1" by (rule frame [OF f a b])
  qed
  show "keeps (funded_once lane oid) (set_plan v k f)" for k f
    unfolding keeps_def by (intro allI impI, erule frame) simp_all
  show "keeps (funded_once lane oid) (set_round v i g)" if "\<And>x. rr_dispatchStartedAt (g x) = rr_dispatchStartedAt x" for i g
    using that by (simp add: keeps_def funded_once_def stamped_def)
  fix st i r
  assume st: "funded_once lane oid st" "\<not> truthy (rr_dispatchStartedAt (rec_of (kj st) i))" and r: "re_round v i (hist st) = Inr r"
  have emits: "funded_once lane oid (st\<lparr>outs := os\<rparr>)" for os using st by (simp add: funded_once_def)
  have now: "re_now v h \<noteq> 0" and order: "vw_orderId r = oid i" and lane: "re_lane v = lane" and inj: "oid a = oid b \<longleftrightarrow> a = b" for h a b
    using w r by (auto simp: world_ok_def inj_eq)
  have not_yet: "\<not> maybe_funded lane (hist st) (oid i)" using st by (auto simp: funded_once_def stamped_def)
  define st1 where "st1 = snd (set_round v i (\<lambda>x. x\<lparr>rr_orderId := Some (oid i), rr_dispatchStartedAt := Some (re_now v (hist st)), rr_lane := Some (re_laneName v)\<rparr>) st)"
  have st1: "funded_once lane oid st1" "hist st1 = hist st" "stamped (kj st1) i"
    using funded_once_stamp [OF st(1) now] by (simp_all add: st1_def stamped_def truthy_def now)
  have asked: "funded_once lane oid (snd (ask_lane v (oid i) b fees st1))" for b fees
    using st1 not_yet by (auto simp: funded_once_def inj)
  show "wp (dispatchFunding v i r) (\<lambda>_. funded_once lane oid) (funded_once lane oid) st"
    unfolding dispatchFunding_def order
    by (intro wps emits) (use st not_yet in \<open>auto simp: lane intro!: funded_once_done asked [unfolded st1_def]\<close>)
qed

text \<open>Memory and disk agree at every point between the steps of a tick.\<close>

interpretation on_disk: round_invariant v saved for v
proof unfold_locales
  have sync: "keeps saved (sync_all (re_discover v))"
    unfolding sync_all_def sync_def
  proof (intro keeping)
    fix s safe n frm added
    show "keeps saved (sync_chunks s safe n frm added)"
    proof (induction n arbitrary: frm added)
      case (Suc n)
      show ?case unfolding sync_chunks.simps see_log_def block_time_def upsert_def by (intro keeping Suc.IH)
    qed (simp add: keeping)
  qed
  then show "keeps saved (sync_all (re_discover v))" .
  have set: "keeps saved (set_own v ns i f)" for ns i f unfolding set_own_def by (rule keeping)
  show "keeps saved (set_own v ns i f)" for ns i f by (rule set)
  show "keeps saved (set_plan v k f)" for k f unfolding set_plan_def by (rule set)
  have round: "keeps saved (set_round v i f)" for i f unfolding set_round_def by (rule set)
  then show "keeps saved (set_round v i f)" for i f .
  have "keeps saved (dispatchFunding v i r)" for i r
    unfolding dispatchFunding_def dispatch_done_def
    by (intro keeping round) (auto simp: keeps_def saved_def)
  then show "wp (dispatchFunding v i r) (\<lambda>_. saved) saved st" if "saved st" for st i r
    using that by (rule wp_of_keeps)
qed (rule keeping)+

text \<open>The life of a keeper: it starts on an empty journal, ticks in any world, dies right after the lane was
  asked, before it could write the outcome down, or between two steps (a tick that a read aborts), and
  comes up again from its file.\<close>

inductive round_reach :: "lane_answers \<Rightarrow> (int \<Rightarrow> string) \<Rightarrow> ((found, rown) drec, rcall, rreport) kst \<Rightarrow> bool" for lane oid where
  start: "round_reach lane oid \<lparr>kj = open_journal None, hist = [], outs = []\<rparr>"
| tick: "round_reach lane oid st \<Longrightarrow> world_ok lane oid v \<Longrightarrow> round_reach lane oid (snd (round_tick v net settler st))"
| crash: "round_reach lane oid st \<Longrightarrow> world_ok lane oid v \<Longrightarrow> re_round v i (hist st) = Inr r \<Longrightarrow> \<not> stamped (kj st) i \<Longrightarrow>
    st1 = snd (set_round v i (\<lambda>x. x\<lparr>rr_orderId := Some (vw_orderId r), rr_dispatchStartedAt := Some (re_now v (hist st)), rr_lane := Some (re_laneName v)\<rparr>) st) \<Longrightarrow>
    st2 = snd (ask_lane v (vw_orderId r) (vw_budget18 r) fees st1) \<Longrightarrow> round_reach lane oid (st2\<lparr>kj := restart (kj st2)\<rparr>)"
| boot: "round_reach lane oid st \<Longrightarrow> round_reach lane oid (st\<lparr>kj := restart (kj st)\<rparr>)"

lemma own_restart: "saved st \<Longrightarrow> own (kj (st\<lparr>kj := restart (kj st)\<rparr>)) = own (kj st)"
  by (intro ext) (simp add: own_def record_of_def ns_of_def restart_def open_journal_def Let_def saved_def)

lemma saved_ask [simp]: "saved (snd (ask_lane v i b fees st)) = saved st"
  by (simp add: saved_def)

lemma funded_once_restart: "funded_once lane oid st \<Longrightarrow> saved st \<Longrightarrow> funded_once lane oid (st\<lparr>kj := restart (kj st)\<rparr>)"
  using stamped_own [of "st\<lparr>kj := restart (kj st)\<rparr>" st] own_restart [of st] by (simp add: funded_once_def)

lemma saved_set_round: "saved (snd (set_round v i f st))"
  by (simp add: saved_def set_round_def set_own_def put_rec_def setRecord_def put_record_def save_def event_def)

lemma funded_once_asked:
  assumes "world_ok lane oid v" "funded_once lane oid st" "\<not> stamped (kj st) i" "t \<noteq> 0"
  shows "funded_once lane oid (snd (ask_lane v (oid i) b fees (snd (set_round v i (\<lambda>x. x\<lparr>rr_orderId := o1, rr_dispatchStartedAt := Some t, rr_lane := l\<rparr>) st))))"
  using assms by (auto simp: funded_once_def world_ok_def inj_eq stamped_def truthy_def)

lemma round_reach_inv: "round_reach lane oid st \<Longrightarrow> funded_once lane oid st \<and> saved st"
proof (induction rule: round_reach.induct)
  case start
  show ?case by (simp add: funded_once_def maybe_funded_def saved_def open_journal_def Let_def)
next
  case (tick st v net settler)
  from tick.IH show ?case
    by (auto intro: keepsD [OF round_invariant.keeps_tick [OF once_invariant [OF tick.hyps(2)]]] keepsD [OF on_disk.keeps_tick])
next
  case (crash st v i r st1 st2 fees)
  then have "vw_orderId r = oid i" "re_now v (hist st) \<noteq> 0" by (auto simp: world_ok_def)
  then have "funded_once lane oid st2" "saved st2"
    using crash funded_once_asked [of lane oid v st i "re_now v (hist st)"] by (simp_all add: saved_set_round)
  then show ?case by (simp add: funded_once_restart saved_restart)
next
  case (boot st)
  then show ?case by (simp add: funded_once_restart saved_restart)
qed

text \<open>C1. A round is never funded twice. However the keeper ticks, dies (even between the dispatch and its record)
  and restarts, and whatever the chain and the lane answer, of two dispatches for one order the first
  one failed with an error that is definitely not sent.\<close>

theorem dispatch_at_most_once:
  assumes "round_reach lane oid st"
    and "hist st = h1 @ (k1, LaneDispatch o1 b1 f1) # h2 @ (k2, LaneDispatch o1 b2 f2) # h3"
  shows "\<exists>e. lane o1 b1 f1 h1 = Inl e \<and> definitelyNotSent e"
proof -
  have "asked (\<lambda>h k c. \<forall>o1 b fees. c = LaneDispatch o1 b fees \<longrightarrow> \<not> maybe_funded lane h o1) (hist st)"
    using round_reach_inv [OF assms(1)] by (simp add: funded_once_def)
  from askedD [OF this, of "h1 @ (k1, LaneDispatch o1 b1 f1) # h2" k2 "LaneDispatch o1 b2 f2" h3] assms(2)
  have "\<not> maybe_funded lane (h1 @ (k1, LaneDispatch o1 b1 f1) # h2) o1" by simp
  then have "\<not> may_have_left (lane o1 b1 f1 h1)"
    unfolding maybe_funded_def by (auto dest!: spec [of _ "length h1"])
  then show ?thesis by (auto simp: may_have_left_def split: sum.splits)
qed

text \<open>A seam first, then a lane that works: the second visit of the same tick dispatches again.\<close>

definition demo_round :: round_view where
  "demo_round = \<lparr>rd_status = 2, rd_deadline = 5000, rd_submittedAt = 0, rd_cancelRequested = False, vw_orderId = ''1'', vw_adapter = ''0xa'',
     vw_budget18 = 100, vw_minRawOut = 1, vw_delivered = 0\<rparr>"

definition demo_lane :: lane_answers where
  "demo_lane o1 b fees h = (if h = [] then Inl (Phase5Seam ''hub'') else Inr \<lparr>ls_requestId = Some ''r'', ls_txHash = None\<rparr>)"

definition demo_funding :: renv where
  "demo_funding = demo_renv\<lparr>re_nextRoundId := (\<lambda>_. Inr 1), re_round := (\<lambda>i h. if i = 1 then Inr demo_round else Inl ''none''),
     re_funded := (\<lambda>_ _ _. Inr False), re_lane := demo_lane\<rparr>"

definition demo_begin :: "((found, rown) drec, rcall, rreport) kst" where
  "demo_begin = \<lparr>kj = open_journal None, hist = [], outs = []\<rparr>"

theorem dispatch_at_most_once_witness:
  "hist (snd (round_tick demo_funding (\<lambda>h k c ts. (Inr (result_of StInflight), ts)) (\<lambda>h ts. (Inr (), ts)) demo_begin))
     = [(''mock'', LaneDispatch ''1'' 100 0), (''mock'', LaneDispatch ''1'' 100 0)]
   \<and> (\<exists>e. demo_lane ''1'' 100 0 [] = Inl e \<and> definitelyNotSent e)"
proof -
  let ?st = "snd (round_tick demo_funding (\<lambda>h k c ts. (Inr (result_of StInflight), ts)) (\<lambda>h ts. (Inr (), ts)) demo_begin)"
  have h: "hist ?st = [(''mock'', LaneDispatch ''1'' 100 0), (''mock'', LaneDispatch ''1'' 100 0)]"
    by code_simp
  have "show_int 1 = ''1''" by code_simp
  then have "world_ok demo_lane show_int demo_funding"
    by (simp add: world_ok_def inj_def demo_funding_def demo_renv_def demo_round_def)
  then have r: "round_reach demo_lane show_int ?st"
    unfolding demo_begin_def by (intro round_reach.tick round_reach.start)
  show ?thesis
    using dispatch_at_most_once [OF r, of "[]" "''mock''" "''1''" 100 0 "[]" "''mock''" 100 0 "[]"] h by simp
qed

subsection \<open>Sealing and enqueueing, in full\<close>

text \<open>What one read of the chain says of an epoch.\<close>

definition ripe :: "renv \<Rightarrow> string \<Rightarrow> int \<Rightarrow> rh \<Rightarrow> int \<Rightarrow> bool" where
  "ripe v a now h e \<longleftrightarrow> re_rewardSealed v a e h = Inr False \<and> (\<exists>b. re_epochBudget v a e h = Inr b \<and> b \<noteq> 0)
     \<and> (case re_nextRoundAt v a e h of Inr n \<Rightarrow> n \<le> now | Inl _ \<Rightarrow> True)"

definition finished :: "renv \<Rightarrow> string \<Rightarrow> rh \<Rightarrow> int \<Rightarrow> bool" where
  "finished v a h e \<longleftrightarrow> re_rewardSealed v a e h = Inr True \<or> re_epochBudget v a e h = Inr 0"

definition seal_from :: "renv \<Rightarrow> token_source \<Rightarrow> int \<Rightarrow> rjournal \<Rightarrow> int" where
  "seal_from v src today j = max (max (orelse (ts_firstEpoch src) 0) (today - rp_lookbackEpochs (re_p v))) (watermark (ts_address src) j + 1)"

definition seal_target :: "rcall \<Rightarrow> (string \<times> int) option" where
  "seal_target c = (case c of SealEpoch a e _ \<Rightarrow> Some (a, e) | _ \<Rightarrow> None)"

definition view_of :: "renv \<Rightarrow> string \<Rightarrow> int \<Rightarrow> rh \<Rightarrow> int \<times> epoch_view \<Rightarrow> bool" where
  "view_of v a now h = (\<lambda>(e, w). re_epochBudget v a e h = Inr (v_budget w) \<and> re_rewardSealed v a e h = Inr (v_sealed w)
     \<and> v_nextRoundAt w = (case re_nextRoundAt v a e h of Inr n \<Rightarrow> Some n | Inl _ \<Rightarrow> None) \<and> v_nowSec w = now)"

lemma epoch_read_ok:
  "epoch_read v a now e st = (Inr x, st1) \<Longrightarrow> st1 = st \<and> fst x = e \<and> view_of v a now (hist st) x"
  by (auto simp: epoch_read_def attempt_def view_of_def bindk_def rd_def ret_def tryk_def split: sum.splits prod.splits)

lemma bindkD: "bindk m f st = (Inr y, st1) \<Longrightarrow> \<exists>x st2. m st = (Inr x, st2) \<and> f x st2 = (Inr y, st1)"
  by (auto simp: bindk_def split: sum.splits prod.splits)

lemma epoch_reads:
  "collect (epoch_read v a now) es st = (Inr cache, st1) \<Longrightarrow> st1 = st \<and> map fst cache = es \<and> list_all (view_of v a now (hist st)) cache"
proof (induction es arbitrary: cache)
  case (Cons e es)
  then obtain x xs st2 where x: "epoch_read v a now e st = (Inr x, st2)" and xs: "collect (epoch_read v a now) es st2 = (Inr xs, st1)" and c: "cache = x # xs"
    by (auto simp: ret_def dest!: bindkD)
  from epoch_read_ok [OF x] have "st2 = st" by simp
  from Cons.IH [OF xs [unfolded this]] epoch_read_ok [OF x] show ?case by (simp add: c)
qed (simp add: ret_def)

lemma seal_epoch_ok:
  assumes "seal_epoch v net a e st = (Inr (), st1)"
  shows "\<exists>k p. hist st1 = hist st @ [(k, SealEpoch a e p)] \<and> own (kj st1) = own (kj st)"
proof -
  from assms obtain p k r st2 where c: "call net k (SealEpoch a e p) st = (Inr r, st2)" and "st1 = st2\<lparr>outs := outs st2 @ [RNote ''seal'' (sr_status r)]\<rparr>"
    by (auto simp: seal_epoch_def r_note_def rd_def call_at_def throw_def emit_def dest!: bindkD split: sum.splits)
  with call_hist [of net k "SealEpoch a e p" st] own_call [of net k "SealEpoch a e p" st] show ?thesis by auto
qed

lemma seals:
  "each (seal_epoch v net a) es st = (Inr (), st1) \<Longrightarrow>
   (\<exists>cs. hist st1 = hist st @ cs \<and> map (seal_target \<circ> snd) cs = map (\<lambda>e. Some (a, e)) es) \<and> own (kj st1) ''sealDone'' = own (kj st) ''sealDone''"
proof (induction es arbitrary: st)
  case (Cons e es)
  then obtain st2 where one: "seal_epoch v net a e st = (Inr (), st2)" and rest: "each (seal_epoch v net a) es st2 = (Inr (), st1)"
    by (auto simp: thenk_def dest!: bindkD)
  from seal_epoch_ok [OF one] Cons.IH [OF rest] show ?case
    by (auto simp: seal_target_def)
qed (simp add: ret_def)

lemma final_prefix_spec:
  "through \<le> final_prefix today f e through \<and> (\<forall>d. through < d \<and> d \<le> final_prefix today f e through \<longrightarrow> e \<le> d \<and> d < today \<and> f d)"
proof (induction today f e through rule: final_prefix.induct)
  case (1 today f e through)
  show ?case
  proof (cases "e < today \<and> e = through + 1 \<and> f e")
    case True
    with 1 have "e \<le> final_prefix today f (e + 1) e" "\<And>d. e < d \<Longrightarrow> d \<le> final_prefix today f (e + 1) e \<Longrightarrow> d < today \<and> f d" by auto
    moreover have "final_prefix today f e through = final_prefix today f (e + 1) e" using if_P [OF True] by (subst final_prefix.simps)
    moreover have "through < d \<Longrightarrow> d = e \<or> e < d" for d using True by auto
    ultimately show ?thesis using True by (metis less_imp_le order_trans zle_add1_eq_le less_add_one linear)
  next
    case False
    then have "final_prefix today f e through = through" using if_not_P [OF False] by (subst final_prefix.simps)
    then show ?thesis by auto
  qed
qed

lemma map_of_views:
  "list_all (view_of v a now h) cache \<Longrightarrow> map_of cache e = Some w \<Longrightarrow> view_of v a now h (e, w)"
  by (auto simp: list_all_iff dest: map_of_SomeD)

lemma seal_watermark:
  assumes "advanceWatermark v a frm today f st = (Inr (), st1)"
  shows "hist st1 = hist st \<and> watermark a (kj st) \<le> watermark a (kj st1)
    \<and> (\<forall>e. frm \<le> e \<and> watermark a (kj st) < e \<and> e \<le> watermark a (kj st1) \<longrightarrow> e < today \<and> f e)"
proof -
  let ?start = "max (watermark a (kj st)) (frm - 1)"
  have wm: "watermark a (kj (snd (set_own v ''sealDone'' (lower a) (\<lambda>_. RSealed n) st))) = n" for n
    by (simp add: watermark_def)
  show ?thesis
    using assms final_prefix_spec [of ?start today f frm] wm [of "final_prefix today f frm ?start"]
    by (auto simp: advanceWatermark_def bindk_def getj_def Let_def ret_def set_own_def put_rec_def split: if_splits)
qed

text \<open>C21. A pass over a token source asks for exactly the epochs that are over, in the window, and read as ripe
  (unsealed, with a budget, the next-round time passed), each once and oldest first; and the watermark it
  leaves behind covers only epochs it read as sealed or empty, so no epoch that still needs a seal is
  ever skipped by a later pass.\<close>

theorem seal_source_exact:
  assumes "seal_source v net now src st = (Inr (), st1)" and "ts_kind src \<in> {None, Some [], Some ''token''}"
  shows "map (seal_target \<circ> snd) (drop (length (hist st)) (hist st1)) =
      map (\<lambda>e. Some (ts_address src, e)) (filter (ripe v (ts_address src) now (hist st)) [seal_from v src (now div DAY) (kj st)..now div DAY - 1])
    \<and> (\<forall>e. seal_from v src (now div DAY) (kj st) \<le> e \<and> e \<le> watermark (ts_address src) (kj st1) \<longrightarrow>
         e < now div DAY \<and> finished v (ts_address src) (hist st) e)"
proof -
  let ?a = "ts_address src" and ?today = "now div DAY" and ?frm = "seal_from v src (now div DAY) (kj st)"
  have kind: "\<not> (case ts_kind src of Some k \<Rightarrow> k \<noteq> [] \<and> k \<noteq> ''token'' | None \<Rightarrow> False)" using assms(2) by (auto split: option.splits)
  from assms(1) kind obtain cache st0 st2 where reads0: "collect (epoch_read v ?a now) [?frm..?today - 1] st = (Inr cache, st0)"
    and mark0: "advanceWatermark v ?a ?frm ?today (final_epoch cache) st0 = (Inr (), st2)"
    and seal: "each (seal_epoch v net ?a) (sealableEpochs ?today (Some ?frm) (rp_lookbackEpochs (re_p v)) (map_of cache)) st2 = (Inr (), st1)"
    by (auto simp: seal_source_def Let_def getj_def thenk_def seal_from_def [symmetric] dest!: bindkD)
  have st0: "st0 = st" using epoch_reads [OF reads0] by simp
  note reads = reads0 [unfolded st0] and mark = mark0 [unfolded st0]
  note views = epoch_reads [OF reads]
  have look: "view_of v ?a now (hist st) (e, w)" if "map_of cache e = Some w" for e w
    using views that by (auto intro: map_of_views)
  have fin: "final_epoch cache e \<Longrightarrow> finished v ?a (hist st) e" for e
    by (auto simp: final_epoch_def finished_def view_of_def dest!: look split: option.splits)
  have dom: "e \<in> set [?frm..?today - 1] \<Longrightarrow> \<exists>w. map_of cache e = Some w" for e
    using views by (metis map_of_eq_None_iff not_None_eq set_map)
  have pick: "sealable (map_of cache e) \<longleftrightarrow> ripe v ?a now (hist st) e" if "e \<in> set [?frm..?today - 1]" for e
  proof -
    from dom [OF that] obtain w where w: "map_of cache e = Some w" by blast
    with look [OF w] show ?thesis by (auto simp: sealable_def ripe_def view_of_def not_less split: option.splits sum.splits)
  qed
  have "?today - rp_lookbackEpochs (re_p v) \<le> ?frm" by (simp add: seal_from_def)
  then have "sealableEpochs ?today (Some ?frm) (rp_lookbackEpochs (re_p v)) (map_of cache) = filter (ripe v ?a now (hist st)) [?frm..?today - 1]"
    unfolding sealableEpochs_def Let_def by (simp add: max_absorb1 cong: filter_cong) (rule filter_cong, simp_all add: pick)
  moreover have "?frm \<le> e \<Longrightarrow> watermark ?a (kj st) < e" for e by (simp add: seal_from_def)
  moreover have "watermark ?a (kj st1) = watermark ?a (kj st2)" using seals [OF seal] by (simp add: watermark_def)
  ultimately show ?thesis
    using seals [OF seal] seal_watermark [OF mark] fin by auto
qed

text \<open>A source with five finished days: empty, sealed, waiting, ripe, ripe.\<close>

definition demo_sealing :: renv where
  "demo_sealing = demo_renv\<lparr>re_epochBudget := (\<lambda>a e h. Inr (if e = 0 then 0 else 7)), re_rewardSealed := (\<lambda>a e h. Inr (e = 1)),
     re_nextRoundAt := (\<lambda>a e h. if e = 2 then Inr 500000 else Inr 10),
     re_rewardPolicy := (\<lambda>a e h. Inr \<lparr>pl_assetId = ''A'', pl_version = 1, pl_pricePolicy = ''P'', pl_mode = 0\<rparr>)\<rparr>"

theorem seal_source_exact_witness:
  "map (seal_target \<circ> snd) (hist (snd (seal_source demo_sealing (\<lambda>h k c ts. (Inr (result_of StInflight), ts)) 440000
        \<lparr>ts_address = ''0xS'', ts_kind = None, ts_firstEpoch = None\<rparr> demo_begin))) = [Some (''0xS'', 3), Some (''0xS'', 4)]
   \<and> watermark ''0xS'' (kj (snd (seal_source demo_sealing (\<lambda>h k c ts. (Inr (result_of StInflight), ts)) 440000
        \<lparr>ts_address = ''0xS'', ts_kind = None, ts_firstEpoch = None\<rparr> demo_begin))) = 1 \<and> finished demo_sealing ''0xS'' [] 1"
proof -
  let ?src = "\<lparr>ts_address = ''0xS'', ts_kind = None, ts_firstEpoch = None\<rparr>"
  let ?run = "seal_source demo_sealing (\<lambda>h k c ts. (Inr (result_of StInflight), ts)) 440000 ?src demo_begin"
  have run: "?run = (Inr (), snd ?run)" by code_simp
  have w: "watermark ''0xS'' (kj (snd ?run)) = 1" by code_simp
  have frm: "seal_from demo_sealing ?src (440000 div DAY) (kj demo_begin) = 0" by code_simp
  have f: "filter (ripe demo_sealing ''0xS'' 440000 []) [0..440000 div DAY - 1] = [3, 4]"
    by (simp add: ripe_def demo_sealing_def demo_renv_def DAY_def upto_rec_numeral upto.simps)
  show ?thesis using seal_source_exact [OF run] w frm f by (simp add: demo_begin_def)
qed

lemma enqueue_one_sent:
  assumes "rkey v (re_batcher v) (''enqueue:'' @ show_int x) = Inr k" "call net k (Enqueue x) st = (Inr s, st2)"
  shows "enqueue_one v net x st = (Inr (sr_status s = StConfirmed), st2\<lparr>outs := outs st2 @ [RNote ''enqueue'' (sr_status s)]\<rparr>)"
  using assms by (simp add: enqueue_one_def call_at_def bindk_def thenk_def r_note_def emit_def ret_def)

lemma enqueues:
  "while_true (enqueue_one v net) xs st = (y, st1) \<Longrightarrow> \<exists>cs. hist st1 = hist st @ cs \<and> length cs \<le> length xs
    \<and> map snd cs = map Enqueue (take (length cs) xs)
    \<and> (\<forall>i. Suc i < length cs \<longrightarrow> (\<exists>ts r ts'. net (hist st @ take i cs) (fst (cs ! i)) (snd (cs ! i)) ts = (Inr r, ts') \<and> sr_status r = StConfirmed))"
proof (induction xs arbitrary: st)
  case (Cons x xs)
  show ?case
  proof (cases "rkey v (re_batcher v) (''enqueue:'' @ show_int x)")
    case (Inl e)
    with Cons.prems show ?thesis by (auto simp: enqueue_one_def call_at_def throw_def bindk_def intro!: exI [of _ "[]"])
  next
    case (Inr k)
    obtain r st2 where c: "call net k (Enqueue x) st = (r, st2)" by fastforce
    then have h: "hist st2 = hist st @ [(k, Enqueue x)]" using call_hist [of net k "Enqueue x" st] by simp
    show ?thesis
    proof (cases "\<exists>s. r = Inr s \<and> sr_status s = StConfirmed")
      case True
      then obtain s where s: "r = Inr s" "sr_status s = StConfirmed" by blast
      with Cons.prems Inr c have "while_true (enqueue_one v net) xs (st2\<lparr>outs := outs st2 @ [RNote ''enqueue'' (sr_status s)]\<rparr>) = (y, st1)"
        by (simp add: bindk_def enqueue_one_sent [OF Inr])
      from Cons.IH [OF this] obtain cs where cs: "hist st1 = hist st2 @ cs" "length cs \<le> length xs" "map snd cs = map Enqueue (take (length cs) xs)"
        and conf: "\<And>i. Suc i < length cs \<Longrightarrow> \<exists>ts r ts'. net (hist st2 @ take i cs) (fst (cs ! i)) (snd (cs ! i)) ts = (Inr r, ts') \<and> sr_status r = StConfirmed"
        by auto
      have first: "\<exists>ts r ts'. net (hist st) k (Enqueue x) ts = (Inr r, ts') \<and> sr_status r = StConfirmed"
        using c s by (auto simp: call_def split: prod.splits)
      show ?thesis
        by (rule exI [of _ "(k, Enqueue x) # cs"]) (use cs h conf first in \<open>auto simp: nth_Cons split: nat.splits\<close>)
    next
      case False
      with Cons.prems Inr c have "hist st1 = hist st2"
        by (auto simp: enqueue_one_def call_at_def bindk_def thenk_def r_note_def emit_def ret_def split: sum.splits if_splits)
      with h show ?thesis by (intro exI [of _ "[(k, Enqueue x)]"]) simp
    qed
  qed
qed (auto simp: ret_def intro: exI [of _ "[]"])

text \<open>Entries are enqueued strictly in order: whatever happens, the phase asks for the entries from the next one
  on, without a gap, and each after the first only once the one before it was confirmed.\<close>

theorem enqueue_in_order:
  assumes "enqueuePhase v net st = (y, st1)" and "re_nextToEnqueue v (hist st) = Inr n" "re_nextEntryId v (hist st) = Inr l"
  shows "\<exists>cs. hist st1 = hist st @ cs \<and> map snd cs = map Enqueue (take (length cs) [n..l])
    \<and> (\<forall>i. Suc i < length cs \<longrightarrow> (\<exists>ts r ts'. net (hist st @ take i cs) (fst (cs ! i)) (snd (cs ! i)) ts = (Inr r, ts') \<and> sr_status r = StConfirmed))"
proof -
  have "while_true (enqueue_one v net) [n..l] st = (y, st1)"
    using assms by (simp add: enqueuePhase_def bindk_def rd_def)
  from enqueues [OF this] show ?thesis by auto
qed

theorem enqueue_in_order_witness:
  "map snd (hist (snd (enqueuePhase (demo_renv\<lparr>re_nextEntryId := \<lambda>_. Inr 4\<rparr>)
       (\<lambda>h k c ts. (Inr (result_of (if h = [] then StConfirmed else StInflight)), ts)) demo_begin))) = [Enqueue 1, Enqueue 2]
   \<and> (\<exists>cs. map snd cs = map Enqueue (take (length cs) [1..4]) \<and> hist (snd (enqueuePhase (demo_renv\<lparr>re_nextEntryId := \<lambda>_. Inr 4\<rparr>)
       (\<lambda>h k c ts. (Inr (result_of (if h = [] then StConfirmed else StInflight)), ts)) demo_begin)) = cs)"
proof -
  let ?v = "demo_renv\<lparr>re_nextEntryId := \<lambda>_. Inr 4\<rparr>"
  let ?net = "\<lambda>h k c ts. (Inr (result_of (if h = [] then StConfirmed else StInflight)), ts)"
  have n: "re_nextToEnqueue ?v (hist demo_begin) = Inr 1" "re_nextEntryId ?v (hist demo_begin) = Inr 4" by (simp_all add: demo_renv_def)
  have h: "map snd (hist (snd (enqueuePhase ?v ?net demo_begin))) = [Enqueue 1, Enqueue 2]" by code_simp
  show ?thesis
    using enqueue_in_order [OF prod.collapse [symmetric] n, of ?net] h by (auto simp: demo_begin_def)
qed

end
