(* ===== verification/Push_World.thy ===== *)
theory Push_World
  imports Round_Sources Push_Decide Market Price_Demand Journal_Codec
begin

section \<open>State and world of the push keeper\<close>

text \<open>
  The records of the journal of \<open>keepers/v3/push/keeper.mjs\<close> are \<open>pown\<close> next to those of the scanners. The
  chain (\<open>pe_\<close> fields that take the history), hashing and the demand file are parameters; \<open>pe_now\<close> is
  \<open>now()\<close>. \<open>pe_receiptHash\<close> is the hash a receipt carries, which
  \<open>receipt\<close> does not keep; of \<open>batchDistribute\<close>'s arguments \<open>BatchDistribute\<close> keeps queue, accounts and gas budget (the third
  is the constant 1) and the transaction's gas limit. \<open>pe_fuel\<close> bounds the scan for new queues, whose end is the first index the contract rejects.
\<close>

subsection \<open>Records, calls and reports\<close>

record queue =
  q_id :: int
  q_source :: string
  q_asset :: string
  q_epoch :: int
  q_revision :: int

record push_rec = day_record +
  pq_planDay :: "int option"
  pq_plan :: "(int \<times> int \<times> int) option"
  pq_lastCursor :: "int option"
  pq_lastTx :: "string option"

datatype pown = PHealth int string | PScan int | PQueues "queue list" | PQueue push_rec

datatype pcall = RegisterParticipants string int
  | SealParticipantIndex int
  | CreateEntrySource string
  | OpenQueue string int string
  | BatchDistribute int int int int

datatype preport = PAct string send_status | PPlanned int | PSkip string string | PAlerted string | PDemandFile "demand_body option" | PNoProgress int

subsection \<open>The world\<close>

record push_params =
  pp_gasBudget :: int
  pp_perAccountGas :: int
  pp_fixedGas :: int
  pp_maxTxGas :: int
  pp_maxCostBps :: int
  pp_maxEvaluatedAccounts :: int
  pp_registerPage :: int
  pp_priceMarginSec :: int
  pp_demandRefreshSec :: int
  pp_market :: "market_params option"
  pp_discoveryAlertAfter :: int

definition PUSH_DEFAULTS :: push_params where
  "PUSH_DEFAULTS = \<lparr>pp_gasBudget = 300000, pp_perAccountGas = 250000, pp_fixedGas = 150000, pp_maxTxGas = 12000000, pp_maxCostBps = 50,
     pp_maxEvaluatedAccounts = 4096, pp_registerPage = 64, pp_priceMarginSec = 900, pp_demandRefreshSec = 600,
     pp_market = Some MARKET_DEFAULTS, pp_discoveryAlertAfter = 5\<rparr>"

record allocation =
  al_source :: string
  al_asset :: string
  al_revision :: int
  al_epoch :: int
  al_cohort :: int
  al_delivered :: int
  al_creditTotal :: int

record queue_view =
  qv_cursor :: int
  qv_upperBound :: int
  qv_nextScan :: int

type_synonym ph = "pcall history"

record pconf =
  pe_p :: push_params
  pe_directSources :: "direct_source list"
  pe_discover :: "pcall source_env"
  pe_chainId :: int
  pe_execute :: bool
  pe_distributor :: string
  pe_staking :: string
  pe_hasManager :: bool
  pe_hasStatusDir :: bool
  pe_fuel :: nat
  pe_addressKey :: "string \<Rightarrow> string"
  pe_queueKey :: "string \<times> string \<times> int \<times> int \<times> string \<times> int \<Rightarrow> string"
  pe_receiptHash :: "receipt \<Rightarrow> string"
  pe_ms :: "ph \<Rightarrow> int"
  pe_now :: "ph \<Rightarrow> int"
  pe_latest :: "(ph \<Rightarrow> int result) option"
  pe_demandFile :: "ph \<Rightarrow> demand_body option"

record penv_prepare = pconf +
  pe_vault :: "ph \<Rightarrow> string result"
  pe_nextEntryId :: "ph \<Rightarrow> int result"
  pe_allocation :: "int \<Rightarrow> ph \<Rightarrow> allocation result"
  pe_indexSealed :: "int \<Rightarrow> ph \<Rightarrow> bool result"
  pe_sourceCursor :: "string \<Rightarrow> ph \<Rightarrow> int result"
  pe_sourceBounds :: "int \<Rightarrow> ph \<Rightarrow> int result"
  pe_requiredBound :: "string \<Rightarrow> ph \<Rightarrow> int result"
  pe_queued :: "string \<Rightarrow> ph \<Rightarrow> bool result"
  pe_ledgerLane :: "string \<Rightarrow> ph \<Rightarrow> bool result"
  pe_fundedAmount :: "string \<Rightarrow> ph \<Rightarrow> int result"
  pe_totalStaged :: "string \<Rightarrow> ph \<Rightarrow> int result"
  pe_credit27 :: "string \<Rightarrow> int \<Rightarrow> ph \<Rightarrow> int result"
  pe_settlementKind :: "string \<Rightarrow> ph \<Rightarrow> int result"
  pe_poolId :: "string \<Rightarrow> ph \<Rightarrow> string result"
  pe_queueSnapshot :: "string \<Rightarrow> int \<Rightarrow> ph \<Rightarrow> (int \<times> int) result"
  pe_epochBudget :: "string \<Rightarrow> int \<Rightarrow> ph \<Rightarrow> int result"
  pe_queueAsset :: "string \<Rightarrow> int \<Rightarrow> ph \<Rightarrow> string result"

record penv = penv_prepare +
  pe_queues :: "int \<Rightarrow> ph \<Rightarrow> queue result"
  pe_scoped :: "string \<Rightarrow> ph \<Rightarrow> bool result"
  pe_participantAt :: "string \<Rightarrow> int option \<Rightarrow> int \<Rightarrow> ph \<Rightarrow> string result"
  pe_readyRaw :: "string \<Rightarrow> string \<Rightarrow> ph \<Rightarrow> int result"
  pe_creditOf :: "string \<Rightarrow> string \<Rightarrow> int \<Rightarrow> int \<Rightarrow> ph \<Rightarrow> int result"
  pe_creditedToPayout :: "int \<Rightarrow> string \<Rightarrow> ph \<Rightarrow> int result"
  pe_oracle :: "ph \<Rightarrow> string result"
  pe_oracleMaxAge :: "ph \<Rightarrow> int result"
  pe_arc :: "string \<Rightarrow> string \<Rightarrow> ph \<Rightarrow> arc_reads result"
  pe_price :: "string \<Rightarrow> string \<Rightarrow> ph \<Rightarrow> (int \<times> int) result"
  pe_feeData :: "ph \<Rightarrow> (int option \<times> int option) result"
  pe_minimumUSD18 :: "ph \<Rightarrow> int result"
  pe_preview :: "int \<Rightarrow> ph \<Rightarrow> queue_view result"
  pe_processedLogs :: "ph \<Rightarrow> (int \<times> int) list"

type_synonym 'a pop = "(((found, pown) drec, pcall, preport) kst, 'a) op"
type_synonym pjournal = "(found, pown) drec journal"

definition p_own :: "pjournal \<Rightarrow> string \<Rightarrow> string \<Rightarrow> pown option" where
  "p_own j ns i = own_of (record_of j (ns, i))"

definition p_set :: "penv \<Rightarrow> string \<Rightarrow> string \<Rightarrow> (pown option \<Rightarrow> pown) \<Rightarrow> unit pop" where
  "p_set v ns i f = put_rec (pe_ms v) ns i (\<lambda>r. Own (f (own_of r)))"

definition no_push :: push_rec where
  "no_push = \<lparr>completedDay = None, skippedDay = None, skipReason = None, pq_planDay = None, pq_plan = None, pq_lastCursor = None, pq_lastTx = None\<rparr>"

definition push_rec_of :: "pjournal \<Rightarrow> int \<Rightarrow> push_rec option" where
  "push_rec_of j i = (case p_own j ''pushQueues'' (show_int i) of Some (PQueue r) \<Rightarrow> Some r | _ \<Rightarrow> None)"

definition set_push :: "penv \<Rightarrow> int \<Rightarrow> (push_rec \<Rightarrow> push_rec) \<Rightarrow> unit pop" where
  "set_push v i f = p_set v ''pushQueues'' (show_int i) (\<lambda>r. PQueue (f (case r of Some (PQueue x) \<Rightarrow> x | _ \<Rightarrow> no_push)))"

definition pkey :: "penv \<Rightarrow> string \<Rightarrow> string \<Rightarrow> string result" where
  "pkey v contract op = taskKey (show_int (pe_chainId v)) contract op ''1''"

definition pclock :: "penv \<Rightarrow> int pop" where
  "pclock v = rd (\<lambda>h. Inr (pe_now v h))"

definition p_note :: "string \<Rightarrow> send_result \<Rightarrow> unit pop" where
  "p_note kind res = emit (PAct kind (sr_status res))"

end
