(* ===== verification/Push_Keeper.thy ===== *)
theory Push_Keeper
  imports Push_World
begin

section \<open>The push keeper (\<open>keepers/v3/push/keeper.mjs\<close>)\<close>

text \<open>
  One tick: scan for sources, prepare the payout queues of delivered allocations and of direct sources,
  then serve every known queue by at most one batch. Log and alert texts are kept as the kind and the
  key they are filed under.
\<close>

subsection \<open>Queues\<close>

definition ensureQueue :: "penv \<Rightarrow> pcall caller \<Rightarrow> string \<Rightarrow> int \<Rightarrow> string \<Rightarrow> int \<Rightarrow> string \<Rightarrow> int \<Rightarrow> unit pop" where
  "ensureQueue v net src epoch asset revision poolId kind =
     bindk (rd (pe_queued v (pe_queueKey v (src, poolId, kind, epoch, asset, revision)))) (\<lambda>queued.
     if queued then ret ()
     else bindk (call_at net (pkey v (pe_distributor v) (''open:'' @ src @ '':'' @ show_int epoch @ '':'' @ show_int revision)) (OpenQueue src epoch asset))
       (\<lambda>res. p_note ''openQueue'' res))"

fun register_pages :: "penv \<Rightarrow> pcall caller \<Rightarrow> string \<Rightarrow> string \<Rightarrow> nat \<Rightarrow> bool pop" where
  "register_pages v net vault src 0 = ret False"
| "register_pages v net vault src (Suc n) =
     bindk (rd (pe_sourceCursor v src)) (\<lambda>cur.
     bindk (rd (pe_requiredBound v src)) (\<lambda>bound.
     if cur \<ge> bound then ret True
     else bindk (call_at net (pkey v vault (''register:'' @ src @ '':'' @ show_int cur)) (RegisterParticipants src (pp_registerPage (pe_p v)))) (\<lambda>res.
       thenk (p_note ''registerParticipants'' res)
       (if sr_status res \<noteq> StConfirmed then ret False else register_pages v net vault src n))))"

definition registerSource :: "penv \<Rightarrow> pcall caller \<Rightarrow> string \<Rightarrow> string \<Rightarrow> bool pop" where
  "registerSource v net vault src = register_pages v net vault src 64"

definition seal_index :: "penv \<Rightarrow> pcall caller \<Rightarrow> string \<Rightarrow> int \<Rightarrow> string \<Rightarrow> bool pop" where
  "seal_index v net vault i src =
     bindk (rd (pe_indexSealed v i)) (\<lambda>sealed.
     if sealed then ret True else
     bindk (rd (pe_sourceCursor v src)) (\<lambda>cur.
     bindk (rd (pe_sourceBounds v i)) (\<lambda>bound.
     if cur < bound then ret False else
     bindk (call_at net (pkey v vault (''sealIndex:'' @ show_int i)) (SealParticipantIndex i)) (\<lambda>res.
     thenk (p_note ''sealIndex'' res) (ret (sr_status res = StConfirmed))))))"

definition prepare_allocation :: "penv \<Rightarrow> pcall caller \<Rightarrow> string \<Rightarrow> int \<Rightarrow> unit pop" where
  "prepare_allocation v net vault i =
     bindk (rd (pe_allocation v i)) (\<lambda>a.
     if al_source a = ZERO_ADDRESS \<or> al_revision a = 0 then ret () else
     bindk (registerSource v net vault (al_source a)) (\<lambda>registered.
     if \<not> registered then ret () else
     bindk (seal_index v net vault i (al_source a)) (\<lambda>sealed.
     if \<not> sealed then ret ()
     else ensureQueue v net vault i (al_asset a) (al_revision a) (pe_addressKey v vault) 0)))"

definition prepareRoundAllocations :: "penv \<Rightarrow> pcall caller \<Rightarrow> unit pop" where
  "prepareRoundAllocations v net =
     (if \<not> pe_hasManager v then ret () else
      bindk (rd (pe_vault v)) (\<lambda>vault.
      bindk (rd (pe_nextEntryId v)) (\<lambda>lst. each (prepare_allocation v net vault) [1..lst])))"

subsection \<open>Direct sources\<close>

definition push_failures :: "pjournal \<Rightarrow> int" where
  "push_failures j = (case p_own j ''discoveryHealth'' ''push'' of Some (PHealth n _) \<Rightarrow> n | _ \<Rightarrow> 0)"

definition p_discoverPhase :: "penv \<Rightarrow> unit pop" where
  "p_discoverPhase v =
     (if \<not> discovery_enabled (pe_discover v) then ret () else
      tryk (bindk (sync_all (pe_discover v)) (\<lambda>_.
            bindk (getj push_failures) (\<lambda>n.
            if n \<noteq> 0 then p_set v ''discoveryHealth'' ''push'' (\<lambda>r. PHealth 0 (case r of Some (PHealth _ e) \<Rightarrow> e | _ \<Rightarrow> [])) else ret ())))
        (\<lambda>e. bindk (getj push_failures) (\<lambda>n.
            let failures = n + 1 in
            thenk (p_set v ''discoveryHealth'' ''push'' (\<lambda>_. PHealth failures (take 200 e)))
           (thenk (emit (PSkip ''discovery'' (take 120 e)))
            (if failures \<ge> pp_discoveryAlertAfter (pe_p v) then emit (PAlerted ''push-discovery'') else ret ())))))"

fun any_credit :: "penv \<Rightarrow> string \<Rightarrow> int list \<Rightarrow> bool pop" where
  "any_credit v key [] = ret False"
| "any_credit v key (e # es) = bindk (rd (pe_credit27 v key e)) (\<lambda>c. if c > 0 then ret True else any_credit v key es)"

definition lane_usable :: "penv \<Rightarrow> string \<Rightarrow> bool pop" where
  "lane_usable v key =
     bindk (rd (pe_ledgerLane v key)) (\<lambda>ledger.
     if ledger then ret True else
     bindk (rd (pe_fundedAmount v key)) (\<lambda>funded.
     bindk (rd (pe_totalStaged v key)) (\<lambda>staged.
     if funded \<le> staged then thenk (emit (PSkip key ''staking lane not funded (non-ledger lane)'')) (ret False) else ret True)))"

definition p_lane_source :: "penv \<Rightarrow> pcall caller \<Rightarrow> int \<Rightarrow> found \<Rightarrow> string option pop" where
  "p_lane_source v net today lane =
     bindk (entrySourceOf (pe_discover v) (ln_key lane)) (\<lambda>known.
     case known of Some s \<Rightarrow> ret (Some s)
     | None \<Rightarrow>
        bindk (any_credit v (ln_key lane) [max (ln_first lane) (today - 20)..today - 1]) (\<lambda>credited.
        if \<not> credited then ret None else
        bindk (call_at net (pkey v (pe_staking v) (''createEntrySource:'' @ ln_key lane)) (CreateEntrySource (ln_key lane))) (\<lambda>res.
        thenk (p_note ''createEntrySource'' res)
        (if sr_status res \<noteq> StConfirmed then ret None else entrySourceOf (pe_discover v) (ln_key lane)))))"

definition lane_direct :: "penv \<Rightarrow> pcall caller \<Rightarrow> int \<Rightarrow> found \<Rightarrow> direct_source list pop" where
  "lane_direct v net today lane =
     bindk (lane_usable v (ln_key lane)) (\<lambda>ok.
     if \<not> ok then ret [] else
     bindk (p_lane_source v net today lane) (\<lambda>src.
     ret (case src of None \<Rightarrow> []
       | Some s \<Rightarrow> [\<lparr>dc_address = s, dc_firstEpoch = Some (ln_first lane), dc_lookback = None, dc_minRevision = Some 2, dc_requireBudget = False\<rparr>])))"

definition discoveredDirectSources :: "penv \<Rightarrow> pcall caller \<Rightarrow> direct_source list pop" where
  "discoveredDirectSources v net =
     bindk (pclock v) (\<lambda>now.
     bindk (getj (stakingLanes (pe_discover v) 1)) (\<lambda>lanes.
     bindk (collect (lane_direct v net (utcDay now)) lanes) (\<lambda>out.
     bindk (getj (directTokens (pe_discover v))) (\<lambda>tokens. ret (tokens @ concat out)))))"

definition direct_epoch :: "penv \<Rightarrow> pcall caller \<Rightarrow> direct_source \<Rightarrow> string \<Rightarrow> int \<Rightarrow> int \<Rightarrow> unit pop" where
  "direct_epoch v net src poolId kind e =
     bindk (try_read (pe_queueSnapshot v (dc_address src) e)) (\<lambda>snap.
     case snap of None \<Rightarrow> ret ()
     | Some (revision, upper) \<Rightarrow>
        if revision = 0 \<or> upper = 0 then ret ()
        else if (case dc_minRevision src of Some m \<Rightarrow> m \<noteq> 0 \<and> revision < m | None \<Rightarrow> False) then ret ()
        else bindk (if dc_requireBudget src then bindk (rd (pe_epochBudget v (dc_address src) e)) (\<lambda>b. ret (b \<noteq> 0)) else ret True) (\<lambda>funded.
        if \<not> funded then ret () else
        bindk (rd (pe_queueAsset v (dc_address src) e)) (\<lambda>asset.
        if asset = ZERO_ADDRESS then ret ()
        else ensureQueue v net (dc_address src) e asset revision poolId kind)))"

definition direct_queues :: "penv \<Rightarrow> pcall caller \<Rightarrow> int \<Rightarrow> direct_source \<Rightarrow> unit pop" where
  "direct_queues v net today src =
     bindk (rd (pe_settlementKind v (dc_address src))) (\<lambda>kind.
     bindk (rd (pe_poolId v (dc_address src))) (\<lambda>poolId.
     each (direct_epoch v net src poolId kind)
       [max (orelse (dc_firstEpoch src) 0) (today - orelse (dc_lookback src) 20)..today - 1]))"

definition prepareDirectQueues :: "penv \<Rightarrow> pcall caller \<Rightarrow> unit pop" where
  "prepareDirectQueues v net =
     bindk (pclock v) (\<lambda>now.
     bindk (if discovery_enabled (pe_discover v) then discoveredDirectSources v net else ret []) (\<lambda>found.
     each (direct_queues v net (utcDay now)) (mergeSources dc_address (pe_directSources v) found)))"

subsection \<open>Known queues\<close>

text \<open>The scan from the last known index to the first one the contract rejects.\<close>

fun scan_queues :: "(int \<Rightarrow> queue result) \<Rightarrow> nat \<Rightarrow> int \<Rightarrow> queue list option" where
  "scan_queues reads 0 i = None"
| "scan_queues reads (Suc n) i = (case reads i of Inl _ \<Rightarrow> Some [] | Inr q \<Rightarrow> map_option ((#) (q\<lparr>q_id := i\<rparr>)) (scan_queues reads n (i + 1)))"

text \<open>Per source, epoch and asset the entry with the largest revision; a \<open>Map\<close> keeps the place of the first.\<close>

definition latest_key :: "queue \<Rightarrow> string \<times> int \<times> string" where
  "latest_key q = (q_source q, q_epoch q, q_asset q)"

definition keep_latest :: "((string \<times> int \<times> string) \<times> queue) list \<Rightarrow> queue \<Rightarrow> ((string \<times> int \<times> string) \<times> queue) list" where
  "keep_latest acc q = (case get acc (latest_key q) of
     Some p \<Rightarrow> (if q_revision p < q_revision q then put (latest_key q) q acc else acc)
   | None \<Rightarrow> put (latest_key q) q acc)"

definition latest_queues :: "queue list \<Rightarrow> queue list" where
  "latest_queues qs = map snd (foldl keep_latest [] qs)"

definition knownQueues :: "penv \<Rightarrow> queue list pop" where
  "knownQueues v =
     bindk (getj (\<lambda>j. case p_own j ''push'' ''scan'' of Some (PScan n) \<Rightarrow> n | _ \<Rightarrow> 0)) (\<lambda>start.
     bindk (rd (\<lambda>h. case scan_queues (\<lambda>i. pe_queues v i h) (pe_fuel v) start of Some qs \<Rightarrow> Inr qs | None \<Rightarrow> Inl ''out of fuel'')) (\<lambda>found.
     bindk (getj (\<lambda>j. case p_own j ''push'' ''queues'' of Some (PQueues qs) \<Rightarrow> qs | _ \<Rightarrow> [])) (\<lambda>all.
     let merged = all @ found in
     thenk (if found \<noteq> [] \<and> pe_execute v
        then thenk (p_set v ''push'' ''queues'' (\<lambda>_. PQueues merged)) (p_set v ''push'' ''scan'' (\<lambda>_. PScan (start + int (length found)))) else ret ())
       (ret (latest_queues merged)))))"

subsection \<open>The accounts of a queue\<close>

definition stageableEstimate :: "penv \<Rightarrow> queue \<Rightarrow> string \<Rightarrow> int pop" where
  "stageableEstimate v q account =
     (if \<not> pe_hasManager v then ret 0 else
      bindk (rd (pe_vault v)) (\<lambda>vault.
      if lower (q_source q) \<noteq> lower vault then ret 0 else
      bindk (rd (pe_allocation v (q_epoch q))) (\<lambda>a.
      bindk (rd (pe_creditOf v (al_source a) account (al_epoch a) (al_cohort a))) (\<lambda>credit.
      if al_creditTotal a = 0 then throw ''Division by zero'' else
      let owed = bdiv (credit * al_delivered a) (al_creditTotal a) in
      bindk (rd (pe_creditedToPayout v (q_epoch q) account)) (\<lambda>paid. ret (if owed > paid then owed - paid else 0))))))"

definition account_ready :: "penv \<Rightarrow> queue \<Rightarrow> bool \<Rightarrow> int \<Rightarrow> int pop" where
  "account_ready v q scoped i =
     bindk (rd (pe_participantAt v (q_source q) (if scoped then Some (q_epoch q) else None) i)) (\<lambda>account.
     bindk (rd (pe_readyRaw v account (q_asset q))) (\<lambda>ready.
     bindk (stageableEstimate v q account) (\<lambda>extra. ret (ready + extra))))"

definition accountsFor :: "penv \<Rightarrow> queue \<Rightarrow> int \<Rightarrow> int list pop" where
  "accountsFor v q upperBound =
     bindk (rd (pe_scoped v (q_source q))) (\<lambda>scoped.
     collect (account_ready v q scoped) [0..min upperBound (pp_maxEvaluatedAccounts (pe_p v)) - 1])"

subsection \<open>Price\<close>

definition ask_price :: "penv \<Rightarrow> queue \<Rightarrow> int \<Rightarrow> arc_check \<Rightarrow> bool pop" where
  "ask_price v q nowSec check =
     (if \<not> pe_execute v then thenk (emit (PSkip (show_int (q_id q)) ''awaiting oracle push'')) (ret False)
      else if \<not> pe_hasStatusDir v then throw ''push keeper: statusDir (or push.demandDir) required to request an oracle push''
      else bindk (rd (\<lambda>h. Inr (pe_demandFile v h))) (\<lambda>file.
        let file' = snd (requestPush file ''push'' [ck_underlying check] (''payout push q'' @ show_int (q_id q)) nowSec (pp_demandRefreshSec (pe_p v)) 1800) in
        thenk (if file' \<noteq> file then emit (PDemandFile file') else ret ())
       (thenk (emit (PSkip (show_int (q_id q)) ''awaiting oracle push'')) (ret False))))"

definition priceReady :: "penv \<Rightarrow> queue \<Rightarrow> int \<Rightarrow> bool pop" where
  "priceReady v q nowSec =
     bindk (tryk (bindk (rd (pe_oracle v)) (\<lambda>oracle.
            bindk (rd (pe_oracleMaxAge v)) (\<lambda>maxAge.
            bindk (rd (pe_arc v oracle (q_asset q))) (\<lambda>arc.
            ret (Some (checkArcPrice arc (q_asset q) nowSec (Some maxAge) (pp_priceMarginSec (pe_p v))))))))
          (\<lambda>_. ret None)) (\<lambda>check.
     case check of None \<Rightarrow> ret True
     | Some ck \<Rightarrow>
        if ck_fresh ck then
          thenk (if pe_execute v \<and> pe_hasStatusDir v
             then bindk (rd (\<lambda>h. Inr (pe_demandFile v h))) (\<lambda>file.
                let file' = snd (clearRequest file ''push'' (Some [ck_underlying ck])) in
                if file' \<noteq> file then emit (PDemandFile file') else ret ()) else ret ()) (ret True)
        else if \<not> ck_demandable ck then ret True
        else bindk (case pp_market (pe_p v) of None \<Rightarrow> ret True | Some params \<Rightarrow> rd (\<lambda>_. map_sum id is_open (sessionState nowSec params))) (\<lambda>open_now.
          if \<not> open_now then ret True else ask_price v q nowSec ck))"

subsection \<open>One queue, one batch\<close>

definition fresh_usd :: "penv \<Rightarrow> queue \<Rightarrow> int \<Rightarrow> int pop" where
  "fresh_usd v q nowSec =
     bindk (rd (pe_oracle v)) (\<lambda>oracle.
     bindk (rd (pe_price v oracle (q_asset q))) (\<lambda>(price, updatedAt).
     bindk (if price > 0 then bindk (rd (pe_oracleMaxAge v)) (\<lambda>m. ret (nowSec - updatedAt \<le> m)) else ret False) (\<lambda>fresh.
     ret (if fresh then price else 0))))"

definition plan_text :: "day_plan \<Rightarrow> string" where
  "plan_text p = (case p of NoPrice \<Rightarrow> ''no fresh price'' | NobodyReady _ _ _ \<Rightarrow> ''nobody over the push threshold''
     | TooCostly _ _ _ \<Rightarrow> ''cost'' | RunDay _ _ _ _ \<Rightarrow> [])"

text \<open>Plan the day once; \<open>False\<close> when it is not worth a batch.\<close>

definition plan_day :: "penv \<Rightarrow> queue \<Rightarrow> int \<Rightarrow> int \<Rightarrow> int \<Rightarrow> bool pop" where
  "plan_day v q nowSec upperBound startCursor =
     (let today = utcDay nowSec; p = pe_p v in
      bindk (fresh_usd v q nowSec) (\<lambda>price.
      bindk (rd (pe_feeData v)) (\<lambda>(maxFee, gasPrice).
      bindk (accountsFor v q upperBound) (\<lambda>accounts.
      bindk (rd (pe_minimumUSD18 v)) (\<lambda>minimum.
      case dayPlan accounts price minimum (orelse maxFee (orelse gasPrice 0)) (pp_perAccountGas p) (pp_fixedGas p) MAX_ACCOUNTS (pp_maxCostBps p) (nat startCursor) of
        RunDay n value cost pages \<Rightarrow>
          thenk (if pe_execute v then set_push v (q_id q) (\<lambda>r. r\<lparr>pq_planDay := Some today, pq_plan := Some (n, value, cost)\<rparr>)
                 else emit (PPlanned (q_id q))) (ret True)
      | plan \<Rightarrow>
          thenk (if pe_execute v then set_push v (q_id q) (\<lambda>r. r\<lparr>skippedDay := Some today, skipReason := Some (plan_text plan)\<rparr>) else ret ())
         (thenk (emit (PSkip (show_int (q_id q)) (plan_text plan))) (ret False)))))))"

definition batch_op :: "queue \<Rightarrow> int \<Rightarrow> int \<Rightarrow> int \<Rightarrow> string" where
  "batch_op q today startCursor nextScan =
     ''batch:'' @ show_int (q_id q) @ '':'' @ show_int today @ '':'' @ show_int startCursor @ '':'' @ show_int nextScan"

text \<open>Only the sign of the number of events counts for \<open>progressOf\<close>.\<close>

definition batch_landed :: "penv \<Rightarrow> queue \<Rightarrow> string \<Rightarrow> int \<Rightarrow> int \<Rightarrow> int \<Rightarrow> send_result \<Rightarrow> unit pop" where
  "batch_landed v q key today cur upperBound res =
     bindk (rd (\<lambda>h. Inr (filter (\<lambda>(i, _). i = q_id q) (pe_processedLogs v h)))) (\<lambda>processed.
     bindk (rd (pe_preview v (q_id q))) (\<lambda>after.
     let prog = progressOf cur (qv_cursor after) (int (length processed)) upperBound in
     if \<not> moved prog then
       bindk (rd (\<lambda>h. Inr (pe_ms v h))) (\<lambda>ms.
       thenk (modj (markFailure ms key ''batch confirmed with zero progress'' False))
      (thenk (emit (PAlerted (''push-'' @ show_int (q_id q) @ ''-stall''))) (emit (PNoProgress (q_id q)))))
     else
       thenk (set_push v (q_id q) (\<lambda>r. (r\<lparr>pq_lastCursor := Some (qv_cursor after), pq_lastTx := map_option (pe_receiptHash v) (sr_rcpt res)\<rparr>)
           \<lparr>completedDay := (if progress.complete prog then Some today else completedDay r)\<rparr>))
         (emit (PAct ''batchDistribute'' StConfirmed))))"

definition run_batch :: "penv \<Rightarrow> pcall caller \<Rightarrow> queue \<Rightarrow> int \<Rightarrow> int \<Rightarrow> int \<Rightarrow> int \<Rightarrow> int \<Rightarrow> unit pop" where
  "run_batch v net q today cur startCursor nextScan upperBound =
     bindk (rd (\<lambda>_. gasPlan \<lparr>gp_gasBudget = pp_gasBudget (pe_p v), gp_perAccountGas = pp_perAccountGas (pe_p v), gp_maxTxGas = pp_maxTxGas (pe_p v),
        gp_wanted = MAX_ACCOUNTS, gp_overhead = 120000\<rparr>)) (\<lambda>g.
     case pkey v (pe_distributor v) (batch_op q today startCursor nextScan) of Inl e \<Rightarrow> throw e
     | Inr key \<Rightarrow>
        bindk (call net key (BatchDistribute (q_id q) (gr_maxAccounts g) (gr_gasBudget g) (gr_gasLimit g))) (\<lambda>res.
        if sr_status res \<noteq> StConfirmed then
          thenk (p_note ''batchDistribute'' res)
         (bindk (getj (\<lambda>j. case task_of j key of Some t \<Rightarrow> t_state t = Quarantined | None \<Rightarrow> False)) (\<lambda>stuck.
          if stuck then emit (PAlerted (''push-'' @ show_int (q_id q))) else ret ()))
        else batch_landed v q key today cur upperBound res))"

definition serviceQueue :: "penv \<Rightarrow> pcall caller \<Rightarrow> queue \<Rightarrow> unit pop" where
  "serviceQueue v net q =
     bindk (pclock v) (\<lambda>nowSec.
     bindk (rd (pe_preview v (q_id q))) (\<lambda>view.
     bindk (getj (\<lambda>j. push_rec_of j (q_id q))) (\<lambda>rec.
     case queueDecision nowSec (qv_nextScan view) (qv_upperBound view) (map_option day_record.truncate rec) of
       Scan \<Rightarrow>
         bindk (priceReady v q nowSec) (\<lambda>ready.
         if \<not> ready then ret () else
         let today = utcDay nowSec; cur = qv_cursor view; upperBound = qv_upperBound view;
             startCursor = (if cur = upperBound then 0 else cur) in
         bindk (if (case rec of Some r \<Rightarrow> pq_planDay r | None \<Rightarrow> None) \<noteq> Some today then plan_day v q nowSec upperBound startCursor else ret True) (\<lambda>go.
         if go then run_batch v net q today cur startCursor (qv_nextScan view) upperBound else ret ()))
     | _ \<Rightarrow> emit (PSkip (show_int (q_id q)) ''not now''))))"

definition push_tick :: "penv \<Rightarrow> pcall caller \<Rightarrow> pcall settler \<Rightarrow> unit pop" where
  "push_tick v net settler =
     thenk (case pe_latest v of Some f \<Rightarrow> bindk (rd f) (\<lambda>_. ret ()) | None \<Rightarrow> ret ())
    (thenk (settle_all settler)
    (thenk (p_discoverPhase v)
    (thenk (prepareRoundAllocations v net)
    (thenk (prepareDirectQueues v net)
     (bindk (knownQueues v) (each (serviceQueue v net)))))))"

end
