(* ===== verification/Push_Safety.thy ===== *)
theory Push_Safety
  imports Push_Keeper
begin

section \<open>What the push keeper asks for, and when it stops asking\<close>

subsection \<open>Calls that are due\<close>

text \<open>\<open>due v h k c\<close>: what the chain said in the history \<open>h\<close> in which \<open>c\<close> was asked.\<close>

fun due :: "penv \<Rightarrow> ph \<Rightarrow> string \<Rightarrow> pcall \<Rightarrow> bool" where
  "due v h k (RegisterParticipants src n) = (n = pp_registerPage (pe_p v) \<and>
     (\<exists>cur bound. pe_sourceCursor v src h = Inr cur \<and> pe_requiredBound v src h = Inr bound \<and> cur < bound))"
| "due v h k (SealParticipantIndex i) = (pe_indexSealed v i h = Inr False \<and>
     (\<exists>src cur bound. pe_sourceCursor v src h = Inr cur \<and> pe_sourceBounds v i h = Inr bound \<and> bound \<le> cur))"
| "due v h k (CreateEntrySource lane) = (\<exists>e c. pe_credit27 v lane e h = Inr c \<and> 0 < c)"
| "due v h k (OpenQueue src e asset) = (\<exists>poolId kind revision. pe_queued v (pe_queueKey v (src, poolId, kind, e, asset, revision)) h = Inr False)"
| "due v h k (BatchDistribute i n budget limit) = (\<exists>view. pe_preview v i h = Inr view \<and> scanWindowOpen (pe_now v h)
     \<and> qv_upperBound view \<noteq> 0 \<and> qv_nextScan view \<le> pe_now v h
     \<and> gasPlan \<lparr>gp_gasBudget = pp_gasBudget (pe_p v), gp_perAccountGas = pp_perAccountGas (pe_p v), gp_maxTxGas = pp_maxTxGas (pe_p v),
          gp_wanted = MAX_ACCOUNTS, gp_overhead = 120000\<rparr> = Inr \<lparr>gr_gasBudget = budget, gr_maxAccounts = n, gr_gasLimit = limit\<rparr>)"

definition dues :: "penv \<Rightarrow> ((found, pown) drec, pcall, preport) kst \<Rightarrow> bool" where
  "dues v st \<longleftrightarrow> asked (due v) (hist st)"

lemma dues_prims [simp]:
  "dues v (st\<lparr>kj := j\<rparr>) = dues v st"
  "dues v (st\<lparr>outs := os\<rparr>) = dues v st"
  "dues v (st\<lparr>hist := h\<rparr>) = asked (due v) h"
  "dues v (st\<lparr>kj := j, hist := h\<rparr>) = asked (due v) h"
  "asked (due v) (hist st) = dues v st"
  by (simp_all add: dues_def)

lemma dues_still: "dues v st \<Longrightarrow> hist st1 = hist st \<Longrightarrow> dues v st1"
  by (simp only: dues_def)

lemma wp_pclock [wps]: "Q (pe_now v (hist st)) st \<Longrightarrow> E st \<Longrightarrow> wp (pclock v) Q E st"
  by (auto simp: pclock_def intro!: wps)

lemma wp_p_note [wps]: "Q () (st\<lparr>outs := outs st @ [PAct k (sr_status res)]\<rparr>) \<Longrightarrow> wp (p_note k res) Q E st"
  by (simp add: p_note_def wp_emit)

lemma wp_p_set [wps]: "(\<And>j. Q () (st\<lparr>kj := j\<rparr>)) \<Longrightarrow> wp (p_set v ns i f) Q E st"
  by (simp add: p_set_def wp_put_rec)

lemma wp_set_push: "(\<And>j. Q () (st\<lparr>kj := j\<rparr>)) \<Longrightarrow> wp (set_push v i f) Q E st"
  by (simp add: set_push_def wp_p_set)


subsection \<open>Each operation\<close>

lemma dues_ensure: "dues v st \<Longrightarrow> wp (ensureQueue v net src e asset revision poolId kind) (\<lambda>_. dues v) (dues v) st"
  unfolding ensureQueue_def by (intro wps) auto

lemma dues_register: "dues v st \<Longrightarrow> wp (register_pages v net vault src n) (\<lambda>_. dues v) (dues v) st"
proof (induction n arbitrary: st)
  case (Suc n)
  show ?case unfolding register_pages.simps by (intro wps) (auto simp: Suc)
qed (auto intro: wps)

lemma dues_seal: "dues v st \<Longrightarrow> wp (seal_index v net vault i src) (\<lambda>_. dues v) (dues v) st"
  unfolding seal_index_def by (intro wps) (auto simp: linorder_not_less)

lemma dues_allocation: "dues v st \<Longrightarrow> wp (prepare_allocation v net vault i) (\<lambda>_. dues v) (dues v) st"
  unfolding prepare_allocation_def registerSource_def
  by (intro wps wp_cons [OF dues_register] wp_cons [OF dues_seal] dues_ensure) simp_all

lemma dues_allocations: "dues v st \<Longrightarrow> wp (prepareRoundAllocations v net) (\<lambda>_. dues v) (dues v) st"
  unfolding prepareRoundAllocations_def by (intro wps wp_each dues_allocation)

lemma silent_any_credit: "wp (any_credit v lane es) (\<lambda>b st1. st1 = st \<and> (b \<longrightarrow> (\<exists>e c. pe_credit27 v lane e (hist st) = Inr c \<and> 0 < c))) (\<lambda>st1. st1 = st) st"
proof (induction es)
  case (Cons e es)
  show ?case unfolding any_credit.simps by (intro wps) (auto intro: wp_cons [OF Cons])
qed (auto intro: wps)

lemma at_sync [keeping]: "keeps (\<lambda>st. hist st = h) (sync_all d)"
  unfolding sync_all_def Let_def by (intro keeping)

lemma silent_discover: "silent (p_discoverPhase v)"
  unfolding p_discoverPhase_def p_set_def Let_def by (rule silent_keeps) (intro keeping)

lemma wp_entrySourceOf [wps]: "(\<And>x. Q x st) \<Longrightarrow> E st \<Longrightarrow> wp (entrySourceOf d k) Q E st"
  unfolding entrySourceOf_def by (intro wps)

lemma dues_lane_source: "dues v st \<Longrightarrow> wp (p_lane_source v net today lane) (\<lambda>_. dues v) (dues v) st"
  unfolding p_lane_source_def
  by (intro wps wp_cons [OF silent_any_credit]) auto

lemma dues_discovered: "dues v st \<Longrightarrow> wp (discoveredDirectSources v net) (\<lambda>_. dues v) (dues v) st"
proof -
  have lane: "wp (lane_direct v net today lane) (\<lambda>_. dues v) (dues v) st1" if "dues v st1" for today lane st1
    unfolding lane_direct_def lane_usable_def using that by (intro wps wp_cons [OF dues_lane_source]) simp_all
  have lanes: "wp (collect (lane_direct v net today) ls) (\<lambda>_. dues v) (dues v) st1" if "dues v st1" for today ls st1
    by (rule wp_of_keeps [OF keeps_collect]) (auto simp: keeps_wp lane that)
  assume "dues v st"
  then show ?thesis unfolding discoveredDirectSources_def by (intro wps wp_cons [OF lanes]) simp_all
qed

lemma dues_direct: "dues v st \<Longrightarrow> wp (prepareDirectQueues v net) (\<lambda>_. dues v) (dues v) st"
proof -
  have epoch: "wp (direct_epoch v net s p k e) (\<lambda>_. dues v) (dues v) st1" if "dues v st1" for s p k e st1
    unfolding direct_epoch_def by (intro wps dues_ensure that)
  have queues: "wp (direct_queues v net today s) (\<lambda>_. dues v) (dues v) st1" if "dues v st1" for today s st1
    unfolding direct_queues_def by (intro wps wp_each epoch that)
  assume "dues v st"
  then show ?thesis unfolding prepareDirectQueues_def
    by (intro wps wp_cons [OF dues_discovered] wp_each queues)
qed

lemma silent_known: "silent (knownQueues v)"
  unfolding knownQueues_def p_set_def Let_def by (rule silent_keeps) (intro keeping)

lemma keeps_accounts [keeping]: "keeps I (accountsFor v q n)"
  unfolding accountsFor_def account_ready_def stageableEstimate_def Let_def by (intro keeping)

lemma silent_price: "silent (priceReady v q now)"
  unfolding priceReady_def ask_price_def Let_def by (rule silent_keeps) (intro keeping)

lemma silent_plan_day: "silent (plan_day v q now upper start)"
  unfolding plan_day_def fresh_usd_def set_push_def p_set_def Let_def
  by (rule silent_keeps, intro keeping) (auto intro!: keeping split: day_plan.splits)

lemma dues_batch:
  assumes "dues v st" "pe_preview v (q_id q) (hist st) = Inr view" "queueDecision (pe_now v (hist st)) (qv_nextScan view) (qv_upperBound view) r = Scan"
  shows "wp (run_batch v net q today cur start nx upper) (\<lambda>_. dues v) (dues v) st"
proof -
  have due: "scanWindowOpen (pe_now v (hist st)) \<and> qv_upperBound view \<noteq> 0 \<and> qv_nextScan view \<le> pe_now v (hist st)"
    using assms(3) by (auto simp: queueDecision_def Let_def split: if_splits)
  show ?thesis unfolding run_batch_def batch_landed_def
    by (intro wps wp_set_push) (use assms(1,2) due in \<open>auto intro!: exI [of _ view]\<close>)
qed

lemma dues_service: "dues v st \<Longrightarrow> wp (serviceQueue v net q) (\<lambda>_. dues v) (dues v) st"
  unfolding serviceQueue_def
  by (intro wps)
     (auto simp: Let_def intro!: wps wp_silent [OF silent_price] wp_silent [OF silent_plan_day] dues_batch
       intro: dues_still split: scan_decision.splits)


lemma dues_tick: "dues v st \<Longrightarrow> wp (push_tick v net settler) (\<lambda>_. dues v) (dues v) st"
  unfolding push_tick_def
  by (intro wps wp_silent [OF silent_discover] wp_silent [OF silent_known] wp_cons [OF dues_allocations] wp_cons [OF dues_direct] wp_each dues_service)
     (auto intro: dues_service dues_still)


subsection \<open>Queues beyond the evaluation limit\<close>

text \<open>
  \<open>accountsFor\<close> reads at most \<open>maxEvaluatedAccounts\<close> participants from the start of the queue, and \<open>dayPlan\<close> then
  slices the ones from the cursor on. A day that begins with the cursor past the limit sees nobody.
\<close>

lemma dayPlan_beyond: "int (length accounts) \<le> int c \<Longrightarrow> dayPlan accounts price minimum gas per fx page bps c \<noteq> RunDay n w cost p"
  by (simp add: dayPlan_def)

lemma wp_accountsFor:
  assumes "\<And>as. int (length as) \<le> max 0 (pp_maxEvaluatedAccounts (pe_p v)) \<Longrightarrow> Q as st" and "E st"
  shows "wp (accountsFor v q upper) Q E st"
  unfolding accountsFor_def
proof (intro wps assms(2))
  fix scoped
  show "wp (collect (account_ready v q scoped) [0..min upper (pp_maxEvaluatedAccounts (pe_p v)) - 1]) Q E st"
  proof (rule wp_pure)
    show "keeps I (collect (account_ready v q scoped) [0..min upper (pp_maxEvaluatedAccounts (pe_p v)) - 1])" for I
      unfolding account_ready_def stageableEstimate_def Let_def by (intro keeping)
  qed (auto intro!: assms dest: collect_length)
qed

text \<open>\<open>beyond_limit\<close>: the queue's cursor has passed the evaluated part and the cycle is not over.\<close>

definition beyond_limit :: "penv \<Rightarrow> queue \<Rightarrow> ph \<Rightarrow> bool" where
  "beyond_limit v q h \<longleftrightarrow> (case pe_preview v (q_id q) h of Inl e \<Rightarrow> False
     | Inr view \<Rightarrow> max 0 (pp_maxEvaluatedAccounts (pe_p v)) \<le> qv_cursor view \<and> qv_cursor view \<noteq> qv_upperBound view)"

definition planned_day :: "pjournal \<Rightarrow> int \<Rightarrow> int option" where
  "planned_day j i = (case push_rec_of j i of Some r \<Rightarrow> pq_planDay r | None \<Rightarrow> None)"

lemma planned_day_put: "(\<And>r. pq_planDay (f r) = pq_planDay r) \<Longrightarrow> planned_day (kj (snd (set_push v i f st))) k = planned_day (kj st) k"
  by (auto simp: planned_day_def push_rec_of_def p_own_def set_push_def p_set_def own_of_def no_push_def split: option.splits drec.splits pown.splits)

definition waits :: "ph \<Rightarrow> int option \<Rightarrow> int \<Rightarrow> ((found, pown) drec, pcall, preport) kst \<Rightarrow> bool" where
  "waits h d i st \<longleftrightarrow> hist st = h \<and> planned_day (kj st) i = d"

lemma waits_prims [simp]: "waits h d i (st\<lparr>outs := os\<rparr>) = waits h d i st"
  by (simp add: waits_def)

lemma waits_keeps [keeping]: "keeps (waits h d i) (emit x)"
  by (simp add: keeps_def waits_def emit_def)

lemma waits_price: "keeps (waits h d i) (priceReady v q now)"
  unfolding priceReady_def ask_price_def Let_def by (intro keeping)

lemma waits_skip: "waits h d i st \<Longrightarrow> wp (set_push v k (\<lambda>r. r\<lparr>skippedDay := x, skipReason := y\<rparr>)) (\<lambda>_. waits h d i) (waits h d i) st"
  using planned_day_put [of "\<lambda>r. r\<lparr>skippedDay := x, skipReason := y\<rparr>" v k st i]
  by (simp add: wp_def waits_def set_push_def p_set_def put_rec_def)

lemma waits_plan_day:
  assumes "waits h d i st" and "max 0 (pp_maxEvaluatedAccounts (pe_p v)) \<le> start"
  shows "wp (plan_day v q now upper start) (\<lambda>go st1. \<not> go \<and> waits h d i st1) (waits h d i) st"
proof -
  have none: "dayPlan as price minimum gas per fx page bps (nat start) \<noteq> RunDay n w cost p"
    if "int (length as) \<le> max 0 (pp_maxEvaluatedAccounts (pe_p v))" for as price minimum gas per fx page bps n w cost p
    by (rule dayPlan_beyond) (use that assms(2) in \<open>auto simp: max_def split: if_splits\<close>)
  show ?thesis
    unfolding plan_day_def Let_def fresh_usd_def
    by (intro wps wp_accountsFor)
       (use assms(1) in \<open>auto intro!: wps wp_cons [OF waits_skip] split: day_plan.splits dest: none\<close>)
qed

lemma waits_service:
  assumes "beyond_limit v q h" "planned_day (kj st) (q_id q) \<noteq> Some (utcDay (pe_now v h))" "waits h d (q_id q) st"
  shows "waits h d (q_id q) (snd (serviceQueue v net q st))"
proof -
  have h: "hist st = h" using assms(3) by (simp add: waits_def)
  have day: "(case push_rec_of (kj st) (q_id q) of Some r \<Rightarrow> pq_planDay r | None \<Rightarrow> None) \<noteq> Some (utcDay (pe_now v h))"
    using assms(2) by (simp add: planned_day_def)
  have "wp (serviceQueue v net q) (\<lambda>_. waits h d (q_id q)) (waits h d (q_id q)) st"
    unfolding serviceQueue_def
    by (intro wps)
       (use assms(1,3) h day in \<open>auto simp: Let_def beyond_limit_def intro!: wps wp_cons [OF wp_of_keeps [OF waits_price]]
          wp_cons [OF waits_plan_day] split: scan_decision.splits\<close>)
  then show ?thesis by (auto simp: wp_def split: prod.splits sum.splits)
qed

definition visits :: "(penv \<times> pcall caller) list \<Rightarrow> queue \<Rightarrow> ((found, pown) drec, pcall, preport) kst \<Rightarrow> ((found, pown) drec, pcall, preport) kst" where
  "visits vs q st = foldl (\<lambda>st (v, net). snd (serviceQueue v net q st)) st vs"

text \<open>When a day begins with a queue's cursor past the accounts the keeper evaluates (4096) and the cycle
  unfinished, no visit of that day or of any later one asks for a batch, whatever the prices, the gas and the
  accounts: the plan of the day always sees nobody, the day is skipped, and the participants from the cursor on
  are never pushed to unless somebody else moves the queue.\<close>

theorem push_stalls_beyond_limit:
  assumes "\<forall>(v, net)\<in>set vs. beyond_limit v q (hist st) \<and> planned_day (kj st) (q_id q) \<noteq> Some (utcDay (pe_now v (hist st)))"
  shows "hist (visits vs q st) = hist st"
proof -
  have "waits (hist st) (planned_day (kj st) (q_id q)) (q_id q) (visits vs q st)"
    using assms
  proof (induction vs rule: rev_induct)
    case Nil
    show ?case by (simp add: visits_def waits_def)
  next
    case (snoc x vs)
    obtain v net where x: "x = (v, net)" by (cases x)
    have w: "waits (hist st) (planned_day (kj st) (q_id q)) (q_id q) (visits vs q st)" by (rule snoc.IH) (use snoc.prems in simp)
    have "waits (hist st) (planned_day (kj st) (q_id q)) (q_id q) (snd (serviceQueue v net q (visits vs q st)))"
      by (rule waits_service) (use snoc.prems w in \<open>auto simp: x waits_def\<close>)
    then show ?case by (simp add: visits_def x)
  qed
  then show ?thesis by (simp add: waits_def)
qed


subsection \<open>A concrete keeper\<close>

text \<open>One queue of four accounts with 10 units each at a price of 1 USD, of which the keeper evaluates two; its
  cursor is \<open>c\<close>. Every other read fails.\<close>

definition demo_push_sources :: "pcall source_env" where
  "demo_push_sources = \<lparr>se_factory = None, se_staking = None, se_fromBlock = 0, se_confirmations = 0, se_chunk = 10, se_maxChunks = 1,
     se_ms = (\<lambda>_. 0), se_head = (\<lambda>_. Inl ''none''), se_logs = (\<lambda>_ _ _ _. Inl ''none''), se_block = (\<lambda>_ _. Inl ''none''),
     se_parseLaunch = (\<lambda>_. Inl ''none''), se_kindOf = (\<lambda>_ _. Inl ''none''), se_parseLane = (\<lambda>_. Inl ''none''), se_entrySource = (\<lambda>_ _. Inl ''none'')\<rparr>"

definition demo_penv :: "int \<Rightarrow> penv" where
  "demo_penv c = \<lparr>pe_p = PUSH_DEFAULTS\<lparr>pp_maxEvaluatedAccounts := 2\<rparr>, pe_directSources = [], pe_discover = demo_push_sources, pe_chainId = 1,
     pe_execute = True, pe_distributor = ''0xd'', pe_staking = ''0xs'', pe_hasManager = False, pe_hasStatusDir = False, pe_fuel = 3,
     pe_addressKey = (\<lambda>_. ''k''), pe_queueKey = (\<lambda>_. ''q''), pe_receiptHash = (\<lambda>_. ''0xt''), pe_ms = (\<lambda>_. 0), pe_now = (\<lambda>_. 5 * DAY + 3600),
     pe_latest = None, pe_demandFile = (\<lambda>_. None),
     pe_vault = (\<lambda>_. Inl ''none''), pe_nextEntryId = (\<lambda>_. Inl ''none''), pe_allocation = (\<lambda>_ _. Inl ''none''), pe_indexSealed = (\<lambda>_ _. Inl ''none''),
     pe_sourceCursor = (\<lambda>_ _. Inl ''none''), pe_sourceBounds = (\<lambda>_ _. Inl ''none''), pe_requiredBound = (\<lambda>_ _. Inl ''none''),
     pe_queued = (\<lambda>_ _. Inl ''none''), pe_ledgerLane = (\<lambda>_ _. Inl ''none''), pe_fundedAmount = (\<lambda>_ _. Inl ''none''), pe_totalStaged = (\<lambda>_ _. Inl ''none''),
     pe_credit27 = (\<lambda>_ _ _. Inl ''none''), pe_settlementKind = (\<lambda>_ _. Inl ''none''), pe_poolId = (\<lambda>_ _. Inl ''none''),
     pe_queueSnapshot = (\<lambda>_ _ _. Inl ''none''), pe_epochBudget = (\<lambda>_ _ _. Inl ''none''), pe_queueAsset = (\<lambda>_ _ _. Inl ''none''),
     pe_queues = (\<lambda>i _. if i = 0 then Inr \<lparr>q_id = 0, q_source = ''0xa'', q_asset = ''0xb'', q_epoch = 5, q_revision = 1\<rparr> else Inl ''none''),
     pe_scoped = (\<lambda>_ _. Inr False), pe_participantAt = (\<lambda>_ _ _ _. Inr ''0xp''), pe_readyRaw = (\<lambda>_ _ _. Inr (10 * E18)), pe_creditOf = (\<lambda>_ _ _ _ _. Inl ''none''),
     pe_creditedToPayout = (\<lambda>_ _ _. Inl ''none''), pe_oracle = (\<lambda>_. Inr ''0xo''), pe_oracleMaxAge = (\<lambda>_. Inr 7200), pe_arc = (\<lambda>_ _ _. Inl ''none''),
     pe_price = (\<lambda>_ _ _. Inr (E18, 5 * DAY + 3000)), pe_feeData = (\<lambda>_. Inr (None, Some 1000)), pe_minimumUSD18 = (\<lambda>_. Inr E18),
     pe_preview = (\<lambda>_ _. Inr \<lparr>qv_cursor = c, qv_upperBound = 4, qv_nextScan = 0\<rparr>), pe_processedLogs = (\<lambda>_. [])\<rparr>"

definition demo_queue :: queue where
  "demo_queue = \<lparr>q_id = 0, q_source = ''0xa'', q_asset = ''0xb'', q_epoch = 5, q_revision = 1\<rparr>"

definition demo_pnet :: "pcall caller" where
  "demo_pnet h k c ts = (Inr (result_of StInflight), ts)"

definition demo_pst :: "((found, pown) drec, pcall, preport) kst" where
  "demo_pst = \<lparr>kj = open_journal None, hist = [], outs = []\<rparr>"

text \<open>The same queue with the cursor at its start gets its batch; past the limit it does not.\<close>

theorem push_stalls_beyond_limit_witness:
  "map snd (hist (visits [(demo_penv 0, demo_pnet)] demo_queue demo_pst)) = [BatchDistribute 0 32 300000 8820000]
   \<and> hist (visits [(demo_penv 2, demo_pnet)] demo_queue demo_pst) = []"
proof -
  have "beyond_limit (demo_penv 2) demo_queue (hist demo_pst)" by code_simp
  moreover have "planned_day (kj demo_pst) (q_id demo_queue) = None" by code_simp
  moreover have "map snd (hist (visits [(demo_penv 0, demo_pnet)] demo_queue demo_pst)) = [BatchDistribute 0 32 300000 8820000]" by code_simp
  ultimately show ?thesis
    using push_stalls_beyond_limit [of "[(demo_penv 2, demo_pnet)]" demo_queue demo_pst] by (simp add: demo_pst_def)
qed


end
