(* ===== verification/Id_Records.thy ===== *)
theory Id_Records
  imports Journal_Codec Keeper_Base
begin

section \<open>Records kept under an integer id\<close>

text \<open>\<open>journal.entries(ns)\<close> of a namespace keyed by ids: JavaScript lists integer keys in ascending order.\<close>

definition id_entries :: "'r journal \<Rightarrow> string \<Rightarrow> (int \<times> 'r) list" where
  "id_entries j ns = js_sort (\<lambda>x y. fst x - fst y) (map (\<lambda>(i, r). (read_int i, r)) (entries j ns))"

definition canonical :: "string \<Rightarrow> 'r journal \<Rightarrow> bool" where
  "canonical ns j \<longleftrightarrow> well_keyed (ns_of j ns) \<and> (\<forall>k\<in>fst ` set (ns_of j ns). \<exists>i. k = show_int i)"

lemma canonical_simps [simp]:
  "canonical ns (with_tasks ts j) = canonical ns j"
  "ns \<noteq> ns' \<Longrightarrow> canonical ns (setRecord now ns' d p j) = canonical ns j"
  "canonical ns j \<Longrightarrow> canonical ns (setRecord now ns (show_int i) p j)"
  by (auto simp: canonical_def ns_of_setRecord dom_update)

lemma canonical_open: "canonical ns (open_journal None)"
  by (simp add: canonical_def ns_of_def open_journal_def Let_def)

lemma id_entries_record:
  assumes "canonical ns j" and "(i, r) \<in> set (id_entries j ns)"
  shows "record_of j (ns, show_int i) = Some r"
proof -
  from assms(2) obtain k n where k: "(k, n, r) \<in> set (ns_of j ns)" "i = read_int k"
    by (auto simp: id_entries_def entries_def)
  with assms(1) obtain m where "k = show_int m" by (force simp: canonical_def)
  with k assms(1) show ?thesis by (auto simp: canonical_def record_of_def in_object_iff read_show_int)
qed

end
