(* ===== verification/Hub.thy ===== *)
theory Hub
  imports Id_Records
begin

section \<open>Orders of the stock hub as the keepers read them (\<open>keepers/v3/lib/abis.mjs\<close>)\<close>

text \<open>The fields of \<open>getOrder\<close> that the launcher and the refund keeper use, and the names of its status.\<close>

record hub_order =
  ho_kind :: int
  ho_status :: int
  ho_createdAt :: int
  ho_settledAt :: int
  ho_amountIn :: int
  ho_amountOut :: int
  ho_fee :: int
  ho_dispatchedAt :: int
  ho_lane :: int
  ho_outcome :: int
  ho_route :: string
  ho_extra :: int
  ho_held :: int
  ho_capKey :: string

definition hub_Pending :: int where "hub_Pending = 0"
definition hub_Dispatched :: int where "hub_Dispatched = 1"
definition hub_Filled :: int where "hub_Filled = 2"
definition hub_Cancelled :: int where "hub_Cancelled = 3"
definition hub_Returning :: int where "hub_Returning = 6"
definition hub_Proceeds :: int where "hub_Proceeds = 7"

lemmas hub_statuses = hub_Pending_def hub_Dispatched_def hub_Filled_def hub_Cancelled_def hub_Returning_def hub_Proceeds_def

definition HubStatusName :: "int \<Rightarrow> string option" where
  "HubStatusName n = (if 0 \<le> n \<and> n < 8
     then Some ([''Pending'', ''Dispatched'', ''Filled'', ''Cancelled'', ''Escalated'', ''Funded'', ''Returning'', ''Proceeds''] ! nat n) else None)"

end
