(* ===== verification/Refund_Keeper.thy ===== *)
theory Refund_Keeper
  imports Hub
begin

section \<open>The refund keeper (\<open>keepers/v3/refund/keeper.mjs\<close>)\<close>

text \<open>
  A failed buy or an unpaid sell is closed in two transactions: \<open>withdrawFloat\<close> takes the missing amount out of the
  hub float, \<open>router.multicall\<close> credits it back for the order. The journal makes each step happen once; money that was
  withdrawn for an order that no longer needs it is put back. \<open>WithdrawFloat\<close>, \<open>CreditBack\<close> and \<open>FundFloat\<close> carry the
  order of their task key next to what they send. When the wallets are split, the last two go through the sender of the
  refund wallet, which has a journal of its own; \<open>fe_split\<close> says so and only adds the checks and the second
  reconciliation, since that journal holds no records.
\<close>

record refund_params =
  fp_maxPerTick :: int
  fp_dailyCap18 :: int
  fp_lzStuckSec :: int
  fp_proceedsGraceSec :: int
  fp_refundOverdueSec :: int

definition REFUND_DEFAULTS :: refund_params where
  "REFUND_DEFAULTS = \<lparr>fp_maxPerTick = 4, fp_dailyCap18 = 2000 * 10 ^ 18, fp_lzStuckSec = 30 * 60, fp_proceedsGraceSec = 15 * 60, fp_refundOverdueSec = 30 * 60\<rparr>"

subsection \<open>What one order needs\<close>

definition is_back :: "int \<Rightarrow> int \<Rightarrow> bool" where
  "is_back got due \<longleftrightarrow> got * 2 \<ge> due \<and> got \<noteq> 0"

datatype need = Credit string int | AwaitProceeds

definition refundNeed :: "hub_order \<Rightarrow> int option \<Rightarrow> need option" where
  "refundNeed o1 rhProceeds =
     (if ho_kind o1 = 0 \<and> ho_status o1 = hub_Returning \<and> ho_outcome o1 = 3 then
        (if is_back (ho_held o1) (ho_amountIn o1) then None else Some (Credit ''failed-buy'' (ho_amountIn o1 - ho_held o1)))
      else if ho_kind o1 = 1 \<and> ho_status o1 = hub_Proceeds then
        (if is_back (ho_held o1) (ho_amountOut o1) then None
         else if rhProceeds \<noteq> Some 0 then Some AwaitProceeds
         else Some (Credit ''proceeds'' (ho_amountOut o1 + ho_fee o1 - ho_held o1)))
      else None)"

subsection \<open>State and world\<close>

record refund_rec =
  fr_withdrawn :: "int option"
  fr_kind :: "string option"
  fr_withdrawTx :: "string option"
  fr_at :: "int option"
  fr_creditTx :: "string option"
  fr_done :: bool
  fr_statusAfter :: "string option"
  fr_returned :: bool

datatype frec = FRefund refund_rec | FDay int

datatype fcall = WithdrawFloat int string int | CreditBack int string int | FundFloat int int

datatype freport = FNote string int send_status int | FClosed int "string option" | FDeferred int string | FOverdue int | FAlerted string

type_synonym fh = "fcall history"

record fenv =
  fe_p :: refund_params
  fe_chainId :: int
  fe_hub :: string
  fe_router :: string
  fe_hasVault :: bool
  fe_self :: "string option"
  fe_withdrawer :: "string option"
  fe_split :: bool
  fe_getAddress :: "string \<Rightarrow> string result"
  fe_receiptHash :: "receipt \<Rightarrow> string"
  fe_ms :: "fh \<Rightarrow> int"
  fe_now :: "fh \<Rightarrow> int"
  fe_latest :: "(fh \<Rightarrow> int result) option"
  fe_floatRecipientA :: "fh \<Rightarrow> string result"
  fe_floatRecipientB :: "fh \<Rightarrow> string result"
  fe_keeper :: "fh \<Rightarrow> string result"
  fe_openOrders :: "fh \<Rightarrow> int list result"
  fe_order :: "int \<Rightarrow> fh \<Rightarrow> hub_order result"
  fe_proceeds :: "int \<Rightarrow> fh \<Rightarrow> int result"
  fe_available :: "fh \<Rightarrow> int result"
  fe_returnExecutor :: "string \<Rightarrow> fh \<Rightarrow> string result"

type_synonym fstate = "(frec, fcall, freport) kst"
type_synonym 'a fop = "(fstate, 'a) op"

definition fkey :: "fenv \<Rightarrow> string \<Rightarrow> string result" where
  "fkey v op = taskKey (show_int (fe_chainId v)) (fe_hub v) op ''1''"

definition fclock :: "fenv \<Rightarrow> int fop" where
  "fclock v = rd (\<lambda>h. Inr (fe_now v h))"

definition f_note :: "string \<Rightarrow> int \<Rightarrow> send_result \<Rightarrow> int \<Rightarrow> unit fop" where
  "f_note kind i res amount = emit (FNote kind i (sr_status res) amount)"

definition no_refund :: refund_rec where
  "no_refund = \<lparr>fr_withdrawn = None, fr_kind = None, fr_withdrawTx = None, fr_at = None, fr_creditTx = None, fr_done = False, fr_statusAfter = None, fr_returned = False\<rparr>"

definition refund_of :: "frec journal \<Rightarrow> int \<Rightarrow> refund_rec" where
  "refund_of j i = (case record_of j (''refunds'', show_int i) of Some (FRefund r) \<Rightarrow> r | _ \<Rightarrow> no_refund)"

definition set_refund :: "fenv \<Rightarrow> int \<Rightarrow> (refund_rec \<Rightarrow> refund_rec) \<Rightarrow> unit fop" where
  "set_refund v i f = put_rec (fe_ms v) ''refunds'' (show_int i) (\<lambda>r. FRefund (f (case r of Some (FRefund x) \<Rightarrow> x | _ \<Rightarrow> no_refund)))"

definition day_used :: "frec journal \<Rightarrow> int \<Rightarrow> int" where
  "day_used j d = (case record_of j (''refundDay'', show_int d) of Some (FDay n) \<Rightarrow> n | _ \<Rightarrow> 0)"

definition refund_entries :: "frec journal \<Rightarrow> (int \<times> refund_rec) list" where
  "refund_entries j = List.map_filter (\<lambda>(i, r). case r of FRefund x \<Rightarrow> Some (i, x) | _ \<Rightarrow> None) (id_entries j ''refunds'')"

subsection \<open>Withdraw and credit back\<close>

definition creditBack :: "fenv \<Rightarrow> fcall caller \<Rightarrow> int \<Rightarrow> string \<Rightarrow> int \<Rightarrow> bool fop" where
  "creditBack v net i route amount =
     bindk (rd (\<lambda>h. case fe_returnExecutor v route h of Inl e \<Rightarrow> Inl e | Inr a \<Rightarrow> fe_getAddress v a)) (\<lambda>exec.
     bindk (rd (\<lambda>_. fe_getAddress v (fe_router v))) (\<lambda>router.
     if exec \<noteq> router then throw ''return executor is not the configured Relay router'' else
     bindk (call_at net (fkey v (''refund:'' @ show_int i @ '':credit'')) (CreditBack i route amount)) (\<lambda>res.
     thenk (f_note ''creditReturn'' i res amount)
     (if sr_status res \<noteq> StConfirmed then ret False else
      bindk (rd (fe_order v i)) (\<lambda>after.
      let st = HubStatusName (ho_status after); closed = (st = Some ''Cancelled'' \<or> st = Some ''Filled'') in
      thenk (set_refund v i (\<lambda>r. r\<lparr>fr_creditTx := map_option (fe_receiptHash v) (sr_rcpt res), fr_done := True, fr_statusAfter := st\<rparr>))
     (thenk (emit (FClosed i st))
     (thenk (if closed then ret () else emit (FAlerted (''refund-'' @ show_int i @ ''-open''))) (ret closed))))))))"

definition withdraw :: "fenv \<Rightarrow> fcall caller \<Rightarrow> int \<Rightarrow> string \<Rightarrow> int \<Rightarrow> bool fop" where
  "withdraw v net i kind amount =
     bindk (fclock v) (\<lambda>now.
     let d = now div 86400 in
     bindk (getj (\<lambda>j. day_used j d)) (\<lambda>used.
     case fkey v (''refund:'' @ show_int i @ '':withdraw'') of Inl e \<Rightarrow> throw e
     | Inr wkey \<Rightarrow>
        bindk (getj (\<lambda>j. case task_of j wkey of Some t \<Rightarrow> t_state t = Sent \<or> t_state t = Confirmed | None \<Rightarrow> False)) (\<lambda>resuming.
        if \<not> resuming \<and> used + amount > fp_dailyCap18 (fe_p v) then
          thenk (emit (FDeferred i ''daily cap'')) (thenk (emit (FAlerted (''refund-cap-'' @ show_int d))) (ret False))
        else bindk (if resuming then ret amount else rd (fe_available v)) (\<lambda>avail.
          if avail < amount then
            thenk (emit (FDeferred i ''hub float short'')) (thenk (emit (FAlerted (''refund-float-'' @ show_int i))) (ret False))
          else bindk (call net wkey (WithdrawFloat i (orelse (fe_self v) []) amount)) (\<lambda>res.
          thenk (f_note ''withdrawFloat'' i res amount)
          (if sr_status res \<noteq> StConfirmed then ret False else
           thenk (set_refund v i (\<lambda>r. r\<lparr>fr_withdrawn := Some amount, fr_kind := Some kind, fr_withdrawTx := map_option (fe_receiptHash v) (sr_rcpt res), fr_at := Some now\<rparr>))
          (thenk (put_rec (fe_ms v) ''refundDay'' (show_int d) (\<lambda>_. FDay (used + amount))) (ret True))))))))"

definition credit :: "fenv \<Rightarrow> fcall caller \<Rightarrow> int \<Rightarrow> hub_order \<Rightarrow> string \<Rightarrow> int \<Rightarrow> bool fop" where
  "credit v net i o1 kind amount =
     bindk (getj (\<lambda>j. fr_withdrawn (refund_of j i))) (\<lambda>w.
     bindk (if w = None then withdraw v net i kind amount else ret True) (\<lambda>go.
     if \<not> go then ret False else
     bindk (getj (\<lambda>j. fr_withdrawn (refund_of j i))) (\<lambda>w'.
     case w' of None \<Rightarrow> throw ''Cannot convert undefined to a BigInt'' | Some a \<Rightarrow> creditBack v net i (ho_route o1) a)))"

text \<open>\<open>handle\<close>: whether a refund was attempted, and whether it closed the order.\<close>

definition handle_order :: "fenv \<Rightarrow> fcall caller \<Rightarrow> int \<Rightarrow> hub_order \<Rightarrow> (bool \<times> bool) fop" where
  "handle_order v net i o1 =
     bindk (if ho_kind o1 = 1 \<and> ho_status o1 = hub_Proceeds \<and> fe_hasVault v then bindk (rd (fe_proceeds v i)) (\<lambda>x. ret (Some x)) else ret None) (\<lambda>rhProceeds.
     case refundNeed o1 (if fe_hasVault v then rhProceeds else Some 0) of
       None \<Rightarrow> ret (False, False)
     | Some AwaitProceeds \<Rightarrow>
         thenk (emit (FDeferred i ''RH proceeds not returned yet''))
         (bindk (fclock v) (\<lambda>now.
          thenk (if now - ho_settledAt o1 > fp_proceedsGraceSec (fe_p v) then emit (FAlerted (''proceeds-'' @ show_int i)) else ret ())
            (ret (False, False))))
     | Some (Credit kind amount) \<Rightarrow> bindk (credit v net i o1 kind amount) (\<lambda>closed. ret (True, closed)))"

subsection \<open>Unused money, stuck and overdue orders\<close>

definition still_needed :: "hub_order \<Rightarrow> bool" where
  "still_needed o1 = (case refundNeed o1 (Some 0) of Some (Credit _ c) \<Rightarrow> c \<noteq> 0 | _ \<Rightarrow> False)"

definition finish_one :: "fenv \<Rightarrow> fcall caller \<Rightarrow> int \<times> refund_rec \<Rightarrow> unit fop" where
  "finish_one v net = (\<lambda>(i, r).
     case fr_withdrawn r of None \<Rightarrow> ret ()
     | Some amount \<Rightarrow>
        if fr_done r \<or> fr_returned r then ret () else
        bindk (rd (fe_order v i)) (\<lambda>o1.
        if still_needed o1 then ret () else
        bindk (call_at net (fkey v (''refund:'' @ show_int i @ '':refill'')) (FundFloat i amount)) (\<lambda>res.
        thenk (f_note ''refill'' i res amount)
          (if sr_status res = StConfirmed then set_refund v i (\<lambda>r. r\<lparr>fr_returned := True\<rparr>) else ret ()))))"

definition finishPending :: "fenv \<Rightarrow> fcall caller \<Rightarrow> unit fop" where
  "finishPending v net = bindk (getj refund_entries) (each (finish_one v net))"

definition watchStuck :: "fenv \<Rightarrow> int \<Rightarrow> hub_order \<Rightarrow> unit fop" where
  "watchStuck v i o1 =
     (if ho_status o1 \<noteq> hub_Dispatched then ret () else
      bindk (fclock v) (\<lambda>now. if now - ho_dispatchedAt o1 > fp_lzStuckSec (fe_p v) then emit (FAlerted (''lz-'' @ show_int i)) else ret ()))"

definition watchOverdue :: "fenv \<Rightarrow> int list \<Rightarrow> int \<Rightarrow> hub_order \<Rightarrow> unit fop" where
  "watchOverdue v closedNow i o1 =
     (if ho_status o1 \<noteq> hub_Returning \<and> ho_status o1 \<noteq> hub_Proceeds then ret ()
      else if i \<in> set closedNow then ret () else
      bindk (fclock v) (\<lambda>now.
      if now - ho_settledAt o1 \<le> fp_refundOverdueSec (fe_p v) then ret ()
      else thenk (emit (FOverdue i)) (emit (FAlerted (''refund-overdue-'' @ show_int i)))))"

subsection \<open>The tick\<close>

text \<open>The loop over the open orders: \<open>n\<close> refunds attempted, the first error, the orders closed by this tick.\<close>

fun scan_orders :: "fenv \<Rightarrow> fcall caller \<Rightarrow> int \<Rightarrow> string option \<Rightarrow> int list \<Rightarrow> int list \<Rightarrow> string option fop" where
  "scan_orders v net n failed closedNow [] = ret failed"
| "scan_orders v net n failed closedNow (i # is) =
     bindk (rd (fe_order v i)) (\<lambda>o1.
     thenk (watchStuck v i o1)
     (bindk (tryk (bindk (if n < fp_maxPerTick (fe_p v) then handle_order v net i o1 else ret (False, False)) (\<lambda>(tried, closed).
           ret (if tried then n + 1 else n, failed, if closed then i # closedNow else closedNow)))
         (\<lambda>e. ret (n, Some (orelse failed e), closedNow))) (\<lambda>(n', failed', closed').
      thenk (watchOverdue v closed' i o1) (scan_orders v net n' failed' closed' is))))"

definition check_signers :: "fenv \<Rightarrow> unit fop" where
  "check_signers v = (case fe_self v of None \<Rightarrow> throw ''refund keeper: no signer address (KEEPER_KEY_PATH) and no refund.address''
     | Some self \<Rightarrow>
        bindk (rd (fe_floatRecipientA v)) (\<lambda>a. bindk (rd (fe_floatRecipientB v)) (\<lambda>b.
        bindk (rd (\<lambda>_. fe_getAddress v a)) (\<lambda>a'. bindk (rd (\<lambda>_. fe_getAddress v b)) (\<lambda>b'.
        if self \<noteq> a' \<and> self \<noteq> b' then throw ''refund keeper is not a hub float recipient''
        else if \<not> fe_split v then ret ()
        else bindk (rd (\<lambda>h. case fe_keeper v h of Inl e \<Rightarrow> Inl e | Inr k \<Rightarrow> fe_getAddress v k)) (\<lambda>k.
             if Some k \<noteq> fe_withdrawer v then throw ''refund keeper: withdraw signer is not the hub keeper'' else ret ()))))))"

definition refund_tick :: "fenv \<Rightarrow> fcall caller \<Rightarrow> fcall settler \<Rightarrow> unit fop" where
  "refund_tick v net settler =
     thenk (case fe_latest v of Some f \<Rightarrow> bindk (rd f) (\<lambda>_. ret ()) | None \<Rightarrow> ret ())
    (thenk (settle_all settler)
    (thenk (check_signers v)
    (thenk (finishPending v net)
     (bindk (rd (fe_openOrders v)) (\<lambda>open_now.
      bindk (scan_orders v net 0 None [] open_now) (\<lambda>failed.
      case failed of None \<Rightarrow> ret () | Some e \<Rightarrow> throw e))))))"

end
