(* ===== verification/Refund_Safety.thy ===== *)
theory Refund_Safety
  imports Refund_Keeper
begin

section \<open>What the refund keeper does with the money\<close>

lemma wp_fclock [wps]: "Q (fe_now v (hist st)) st \<Longrightarrow> E st \<Longrightarrow> wp (fclock v) Q E st"
  by (auto simp: fclock_def intro!: wps)

lemma wp_f_note [wps]: "Q () (st\<lparr>outs := outs st @ [FNote k i (sr_status res) a]\<rparr>) \<Longrightarrow> wp (f_note k i res a) Q E st"
  by (simp add: f_note_def wp_emit)

subsection \<open>The credit asked closes the order\<close>

text \<open>The amount a refund asks for is exactly what is missing: once it is credited, the order needs nothing more.\<close>

theorem refundNeed_closes:
  assumes "refundNeed o1 rh = Some (Credit kind c)" and "0 < ho_amountIn o1" "0 < ho_amountOut o1" "0 \<le> ho_fee o1"
  shows "refundNeed (o1\<lparr>ho_held := ho_held o1 + c\<rparr>) rh = None"
  using assms by (auto simp: refundNeed_def is_back_def split: if_splits)

definition demo_hub_order :: hub_order where
  "demo_hub_order = \<lparr>ho_kind = 0, ho_status = hub_Returning, ho_createdAt = 0, ho_settledAt = 0, ho_amountIn = 100, ho_amountOut = 1, ho_fee = 0,
     ho_dispatchedAt = 0, ho_lane = 0, ho_outcome = 3, ho_route = ''0xroute'', ho_extra = 0, ho_held = 30, ho_capKey = ''c''\<rparr>"

theorem refundNeed_closes_witness:
  "refundNeed demo_hub_order None = Some (Credit ''failed-buy'' 70) \<and> refundNeed (demo_hub_order\<lparr>ho_held := 30 + 70\<rparr>) None = None"
proof -
  have n: "refundNeed demo_hub_order None = Some (Credit ''failed-buy'' 70)" by code_simp
  have a: "0 < ho_amountIn demo_hub_order" "0 < ho_amountOut demo_hub_order" "0 \<le> ho_fee demo_hub_order" by code_simp+
  from refundNeed_closes [OF n a] n show ?thesis by (simp add: demo_hub_order_def)
qed

subsection \<open>Justified calls\<close>

fun refund_due :: "fenv \<Rightarrow> fh \<Rightarrow> string \<Rightarrow> fcall \<Rightarrow> bool" where
  "refund_due v h k (WithdrawFloat i to a) = (fe_self v = Some to \<and> (\<exists>o1 rh kind. fe_order v i h = Inr o1
     \<and> (fe_hasVault v \<and> ho_kind o1 = 1 \<longrightarrow> (\<exists>x. rh = Some x \<and> fe_proceeds v i h = Inr x)) \<and> refundNeed o1 rh = Some (Credit kind a)))"
| "refund_due v h k (CreditBack i route a) = (\<exists>e r. fe_returnExecutor v route h = Inr e \<and> fe_getAddress v e = Inr r \<and> fe_getAddress v (fe_router v) = Inr r)"
| "refund_due v h k (FundFloat i a) = (\<exists>o1. fe_order v i h = Inr o1 \<and> \<not> still_needed o1)"

definition refunds_due :: "fenv \<Rightarrow> fstate \<Rightarrow> bool" where
  "refunds_due v st \<longleftrightarrow> asked (refund_due v) (hist st)"

lemma refunds_due_prims [simp]:
  "refunds_due v (st\<lparr>kj := j\<rparr>) = refunds_due v st"
  "refunds_due v (st\<lparr>outs := os\<rparr>) = refunds_due v st"
  "refunds_due v (st\<lparr>hist := h\<rparr>) = asked (refund_due v) h"
  "refunds_due v (st\<lparr>kj := j, hist := h\<rparr>) = asked (refund_due v) h"
  "asked (refund_due v) (hist st) = refunds_due v st"
  by (simp_all add: refunds_due_def)

lemma wp_set_refund: "(\<And>j. Q () (st\<lparr>kj := j\<rparr>)) \<Longrightarrow> wp (set_refund v i f) Q E st"
  by (simp add: set_refund_def wp_put_rec)

lemma due_creditBack: "refunds_due v st \<Longrightarrow> wp (creditBack v net i route a) (\<lambda>_. refunds_due v) (refunds_due v) st"
  unfolding creditBack_def Let_def
  by (intro wps wp_set_refund) (auto split: sum.splits)

lemma due_withdraw:
  assumes "refunds_due v st" "fe_self v = Some self" "fe_order v i (hist st) = Inr o1" "refundNeed o1 rh = Some (Credit kind a)"
    and "fe_hasVault v \<and> ho_kind o1 = 1 \<longrightarrow> (\<exists>x. rh = Some x \<and> fe_proceeds v i (hist st) = Inr x)"
  shows "wp (withdraw v net i kind a) (\<lambda>_. refunds_due v) (refunds_due v) st"
proof -
  have "refund_due v (hist st) k (WithdrawFloat i (orelse (fe_self v) []) a)" for k
    using assms by (auto simp: orelse_def)
  then show ?thesis unfolding withdraw_def Let_def
    by (intro wps wp_set_refund) (use assms(1) in \<open>auto simp del: refund_due.simps\<close>)
qed

lemma due_credit:
  assumes "refunds_due v st" "fe_self v = Some self" "fe_order v i (hist st) = Inr o1" "refundNeed o1 rh = Some (Credit kind a)"
    and "fe_hasVault v \<and> ho_kind o1 = 1 \<longrightarrow> (\<exists>x. rh = Some x \<and> fe_proceeds v i (hist st) = Inr x)"
  shows "wp (credit v net i o1 kind a) (\<lambda>_. refunds_due v) (refunds_due v) st"
  unfolding credit_def
  by (intro wps wp_cons [OF due_withdraw] due_creditBack) (use assms in auto)

lemma due_handle:
  assumes "refunds_due v st" "fe_self v = Some self" "fe_order v i (hist st) = Inr o1"
  shows "wp (handle_order v net i o1) (\<lambda>_. refunds_due v) (refunds_due v) st"
proof -
  have kind: "refundNeed o1 None = Some (Credit kind a) \<Longrightarrow> ho_kind o1 = 0" "refundNeed o1 x = Some (Credit kind a) \<Longrightarrow> ho_kind o1 = 1 \<Longrightarrow> ho_status o1 = hub_Proceeds" for kind a x
    by (auto simp: refundNeed_def split: if_splits)
  show ?thesis unfolding handle_order_def
    by (intro wps) (use assms in \<open>auto intro!: wps wp_cons [OF due_credit] dest: kind split: option.splits need.splits\<close>)
qed

lemma due_finish: "refunds_due v st \<Longrightarrow> wp (finish_one v net x) (\<lambda>_. refunds_due v) (refunds_due v) st"
  unfolding finish_one_def by (cases x) (auto intro!: wps wp_set_refund split: option.splits)

lemma silent_watches: "silent (watchStuck v i o1)" "silent (watchOverdue v cs i o1)"
  unfolding watchStuck_def watchOverdue_def fclock_def by (rule silent_keeps, intro keeping)+

lemma refunds_due_still: "refunds_due v st \<Longrightarrow> hist st1 = hist st \<Longrightarrow> refunds_due v st1"
  by (simp only: refunds_due_def)

lemma due_scan:
  "refunds_due v st \<Longrightarrow> fe_self v = Some self \<Longrightarrow> wp (scan_orders v net n failed closed is) (\<lambda>_. refunds_due v) (refunds_due v) st"
proof (induction "is" arbitrary: n failed closed st)
  case (Cons i "is")
  show ?case unfolding scan_orders.simps
    by (intro wps wp_silent [OF silent_watches(1)] wp_silent [OF silent_watches(2)] wp_cons [OF due_handle])
       (use Cons.prems in \<open>auto intro!: wps wp_silent [OF silent_watches(2)] Cons.IH intro: refunds_due_still\<close>)
qed (auto intro: wps)

lemma wp_check_signers: "(\<And>self. fe_self v = Some self \<Longrightarrow> Q () st) \<Longrightarrow> E st \<Longrightarrow> wp (check_signers v) Q E st"
  unfolding check_signers_def by (intro wps) auto

lemma due_tick: "refunds_due v st \<Longrightarrow> wp (refund_tick v net settler) (\<lambda>_. refunds_due v) (refunds_due v) st"
proof -
  have finish: "wp (finishPending v net) (\<lambda>_. refunds_due v) (refunds_due v) st1" if "refunds_due v st1" for st1
    unfolding finishPending_def by (intro wps wp_each due_finish that)
  assume "refunds_due v st"
  then show ?thesis unfolding refund_tick_def
    by (intro wps wp_check_signers wp_cons [OF finish] wp_cons [OF due_scan]) (auto intro!: wps)
qed



subsection \<open>The books\<close>

text \<open>The reports of the keeper are its books: \<open>withdrawals\<close> are the confirmed withdrawals of an order, \<open>returns\<close> what was
  sent back for it, into the order or into the float, whatever became of it.\<close>

definition withdrawals :: "freport list \<Rightarrow> int \<Rightarrow> int list" where
  "withdrawals os i = List.map_filter (\<lambda>r. case r of
     FNote k j s a \<Rightarrow> (if k = ''withdrawFloat'' \<and> j = i \<and> s = StConfirmed then Some a else None) | _ \<Rightarrow> None) os"

definition returns :: "freport list \<Rightarrow> int \<Rightarrow> int list" where
  "returns os i = List.map_filter (\<lambda>r. case r of
     FNote k j s a \<Rightarrow> (if k \<noteq> ''withdrawFloat'' \<and> j = i then Some a else None) | _ \<Rightarrow> None) os"

definition booked :: "frec journal \<Rightarrow> int \<Rightarrow> int list" where
  "booked j i = (case fr_withdrawn (refund_of j i) of None \<Rightarrow> [] | Some a \<Rightarrow> [a])"

definition balanced :: "freport list \<Rightarrow> frec journal \<Rightarrow> bool" where
  "balanced os j \<longleftrightarrow> canonical ''refunds'' j \<and> (\<forall>i. withdrawals os i = booked j i \<and> set (returns os i) \<subseteq> set (booked j i))"

definition books :: "fstate \<Rightarrow> bool" where
  "books st \<longleftrightarrow> balanced (outs st) (kj st)"

lemma withdrawals_simps [simp]:
  "withdrawals [] i = []" "withdrawals (os @ os') i = withdrawals os i @ withdrawals os' i"
  "withdrawals [FNote k j s a] i = (if k = ''withdrawFloat'' \<and> j = i \<and> s = StConfirmed then [a] else [])"
  "withdrawals [FClosed j x] i = []" "withdrawals [FDeferred j w] i = []" "withdrawals [FOverdue j] i = []" "withdrawals [FAlerted w] i = []"
  by (simp_all add: withdrawals_def List.map_filter_def)

lemma returns_simps [simp]:
  "returns [] i = []" "returns (os @ os') i = returns os i @ returns os' i"
  "returns [FNote k j s a] i = (if k \<noteq> ''withdrawFloat'' \<and> j = i then [a] else [])"
  "returns [FClosed j x] i = []" "returns [FDeferred j w] i = []" "returns [FOverdue j] i = []" "returns [FAlerted w] i = []"
  by (simp_all add: returns_def List.map_filter_def)

lemma refund_of_with_tasks [simp]: "refund_of (with_tasks ts j) = refund_of j"
  by (intro ext) (simp add: refund_of_def record_of_def)

lemma refund_of_setRecord: "refund_of (setRecord now ns i p j) k = (if ns = ''refunds'' \<and> i = show_int k
    then (case p (record_of j (''refunds'', i)) of FRefund r \<Rightarrow> r | FDay n \<Rightarrow> no_refund) else refund_of j k)"
  by (auto simp: refund_of_def record_of_setRecord split: frec.splits)

lemma refund_of_set [simp]: "refund_of (setRecord now ''refunds'' (show_int i) (\<lambda>r. FRefund (f (case r of Some (FRefund x) \<Rightarrow> x | _ \<Rightarrow> no_refund))) j) k
    = (if k = i then f (refund_of j i) else refund_of j k)"
  unfolding refund_of_setRecord by (simp add: refund_of_def)

lemma booked_simps [simp]:
  "booked (with_tasks ts j) = booked j" "booked (setRecord now ''refundDay'' d p j) = booked j"
  by (intro ext; simp add: booked_def refund_of_setRecord)+

lemma entry_is_record:
  assumes "canonical ''refunds'' j" and "(i, r) \<in> set (refund_entries j)"
  shows "refund_of j i = r"
proof -
  from assms(2) have "(i, FRefund r) \<in> set (id_entries j ''refunds'')"
    by (auto simp: refund_entries_def List.map_filter_def split: frec.splits)
  from id_entries_record [OF assms(1) this] show ?thesis by (simp add: refund_of_def)
qed

lemma balanced_simps [simp]:
  "balanced os (with_tasks ts j) = balanced os j" "balanced os (setRecord now ''refundDay'' d p j) = balanced os j"
  "balanced (os @ FClosed i x # xs) j = balanced (os @ xs) j" "balanced (os @ FDeferred i w # xs) j = balanced (os @ xs) j"
  "balanced (os @ FOverdue i # xs) j = balanced (os @ xs) j" "balanced (os @ FAlerted w # xs) j = balanced (os @ xs) j"
  by (auto simp: balanced_def withdrawals_def returns_def List.map_filter_def)

lemma balanced_return:
  "balanced (os @ xs) j \<Longrightarrow> fr_withdrawn (refund_of j i) = Some a \<Longrightarrow> k \<noteq> ''withdrawFloat'' \<Longrightarrow> balanced (os @ FNote k i s a # xs) j"
  using withdrawals_simps(2) [of os "[FNote k i s a] @ xs"] returns_simps(2) [of os "[FNote k i s a] @ xs"]
    withdrawals_simps(2) [of "[FNote k i s a]" xs] returns_simps(2) [of "[FNote k i s a]" xs]
  by (auto simp: balanced_def booked_def)

lemma balanced_pending: "balanced os j \<Longrightarrow> s \<noteq> StConfirmed \<Longrightarrow> balanced (os @ [FNote ''withdrawFloat'' i s a]) j"
  by (auto simp: balanced_def)

lemma balanced_set:
  "balanced os j \<Longrightarrow> (\<And>r. fr_withdrawn (f r) = fr_withdrawn r) \<Longrightarrow>
   balanced os (setRecord now ''refunds'' (show_int i) (\<lambda>r. FRefund (f (case r of Some (FRefund x) \<Rightarrow> x | _ \<Rightarrow> no_refund))) j)"
  by (auto simp: balanced_def booked_def split: option.splits)

lemma balanced_withdrawn:
  assumes "balanced os j" "fr_withdrawn (refund_of j i) = None" "\<And>r. fr_withdrawn (f r) = Some a"
  shows "balanced (os @ [FNote ''withdrawFloat'' i StConfirmed a]) (setRecord now ''refunds'' (show_int i) (\<lambda>r. FRefund (f (case r of Some (FRefund x) \<Rightarrow> x | _ \<Rightarrow> no_refund))) j)"
proof -
  have "withdrawals os i = []" "returns os i = []"
    using assms(1,2) by (auto simp: balanced_def booked_def dest!: spec [of _ i])
  with assms show ?thesis by (auto simp: balanced_def booked_def)
qed

text \<open>\<open>paid i a\<close>: the books balance and \<open>a\<close> was withdrawn for \<open>i\<close>.\<close>

definition paid :: "int \<Rightarrow> int \<Rightarrow> fstate \<Rightarrow> bool" where
  "paid i a st \<longleftrightarrow> books st \<and> fr_withdrawn (refund_of (kj st) i) = Some a"

lemma books_creditBack: "paid i a st \<Longrightarrow> wp (creditBack v net i route a) (\<lambda>_. books) books st"
  unfolding creditBack_def set_refund_def Let_def
  by (intro wps) (auto simp: paid_def books_def intro!: balanced_return balanced_set)

lemma books_withdraw:
  "books st \<Longrightarrow> fr_withdrawn (refund_of (kj st) i) = None \<Longrightarrow> wp (withdraw v net i kind a) (\<lambda>go st1. if go then paid i a st1 else books st1) books st"
  unfolding withdraw_def set_refund_def Let_def
  by (intro wps) (auto simp: paid_def books_def refund_of_setRecord intro!: balanced_withdrawn intro: balanced_pending)

lemma books_credit: "books st \<Longrightarrow> wp (credit v net i o1 kind a) (\<lambda>_. books) books st"
  unfolding credit_def
  by (intro wps wp_cons [OF books_withdraw] books_creditBack)
     (auto simp: paid_def split: if_splits)

lemma books_emit [keeping]:
  "keeps books (emit (FDeferred i w))" "keeps books (emit (FAlerted w))" "keeps books (emit (FOverdue i))"
  by (simp_all add: keeps_def books_def emit_def)

lemma books_handle [keeping]: "keeps books (handle_order v net i o1)"
proof -
  have credit: "keeps books (credit v net i o1 kind a)" for kind a by (rule wp_keeps) (rule books_credit)
  show ?thesis unfolding handle_order_def fclock_def
    by (intro keeping) (auto intro!: keeping credit split: need.splits)
qed

lemma books_scan: "keeps books (scan_orders v net n failed closed is)"
proof (induction "is" arbitrary: n failed closed)
  case (Cons i "is")
  show ?case unfolding scan_orders.simps watchStuck_def watchOverdue_def fclock_def by (intro keeping Cons.IH)
qed (simp add: keeping)

text \<open>While the pending refunds are finished, the withdrawn amounts do not change.\<close>

definition ledger :: "(int \<Rightarrow> int option) \<Rightarrow> fstate \<Rightarrow> bool" where
  "ledger w st \<longleftrightarrow> books st \<and> (\<forall>i. fr_withdrawn (refund_of (kj st) i) = w i)"

lemma ledger_set: "ledger w st \<Longrightarrow> (\<And>r. fr_withdrawn (f r) = fr_withdrawn r) \<Longrightarrow> wp (set_refund v i f) (\<lambda>_. ledger w) (ledger w) st"
  unfolding set_refund_def by (intro wps) (auto simp: ledger_def books_def intro!: balanced_set)

lemma ledger_finish: "w i = fr_withdrawn r \<Longrightarrow> ledger w st \<Longrightarrow> wp (finish_one v net (i, r)) (\<lambda>_. ledger w) (ledger w) st"
  unfolding finish_one_def prod.case
  by (intro wps ledger_set) (auto simp: ledger_def books_def intro!: balanced_return)

lemma books_finish: "keeps books (finishPending v net)"
proof (rule wp_keeps)
  fix st assume b: "books st"
  define w where "w = (\<lambda>i. fr_withdrawn (refund_of (kj st) i))"
  have entry: "w i = fr_withdrawn r" if "(i, r) \<in> set (refund_entries (kj st))" for i r
    using entry_is_record [OF _ that] b by (simp add: books_def balanced_def w_def)
  have step: "wp (finish_one v net x) (\<lambda>_. ledger w) (ledger w) st1" if "x \<in> set (refund_entries (kj st))" "ledger w st1" for x st1
    by (cases x) (use that entry ledger_finish in blast)
  have "ledger w st" using b by (simp add: ledger_def w_def)
  then have all: "wp (each (finish_one v net) (refund_entries (kj st))) (\<lambda>_. ledger w) (ledger w) st"
    by (intro wp_each step)
  show "wp (finishPending v net) (\<lambda>_. books) books st"
    unfolding finishPending_def by (intro wps wp_cons [OF all]) (simp_all add: ledger_def)
qed

lemma books_tick: "keeps books (refund_tick v net settler)"
proof -
  have signers: "keeps books (check_signers v)" unfolding check_signers_def by (intro keeping)
  have settle: "keeps books (settle_all s)" for s
    by (simp add: keeps_def books_def settle_all_def split: prod.splits)
  show ?thesis unfolding refund_tick_def by (intro keeping signers settle books_finish books_scan)
qed

lemma saved_tick: "keeps saved (refund_tick v net settler)"
proof -
  have credits: "keeps saved (creditBack v net i route a)" for i route a
    unfolding creditBack_def set_refund_def f_note_def Let_def by (intro keeping)
  have out: "keeps saved (withdraw v net i kind a)" for i kind a
    unfolding withdraw_def set_refund_def f_note_def fclock_def Let_def by (intro keeping)
  have handle: "keeps saved (handle_order v net i o1)" for i o1
    unfolding handle_order_def credit_def fclock_def by (intro keeping) (auto intro!: keeping credits out split: need.splits)
  have scan: "keeps saved (scan_orders v net n failed closed ids)" for n failed closed ids
    by (induction ids arbitrary: n failed closed) (auto simp: watchStuck_def watchOverdue_def fclock_def intro!: keeping handle)
  have finish: "keeps saved (finish_one v net x)" for x
    unfolding finish_one_def set_refund_def f_note_def by (cases x) (auto intro!: keeping)
  show ?thesis unfolding refund_tick_def check_signers_def finishPending_def by (intro keeping scan finish)
qed

subsection \<open>Any life of the keeper\<close>

text \<open>Ticks in any world and with any answers of the senders, and crashes between them.\<close>

inductive refund_life :: "fstate \<Rightarrow> bool" where
  start: "refund_life \<lparr>kj = open_journal None, hist = [], outs = []\<rparr>"
| tick: "refund_life st \<Longrightarrow> refund_life (snd (refund_tick v net settler st))"
| crash: "refund_life st \<Longrightarrow> refund_life (st\<lparr>kj := restart (kj st)\<rparr>)"

lemma books_restart: "saved st \<Longrightarrow> books (st\<lparr>kj := restart (kj st)\<rparr>) = books st"
  using ns_of_restart [of st] by (simp add: books_def balanced_def booked_def canonical_def refund_of_def record_of_def)

lemma refund_life_books: "refund_life st \<Longrightarrow> books st \<and> saved st"
proof (induction rule: refund_life.induct)
  case start
  show ?case using canonical_open by (simp add: books_def balanced_def booked_def saved_def open_journal_def Let_def refund_of_def record_of_def ns_of_def no_refund_def)
next
  case (tick st v net settler)
  then show ?case using keepsD [OF books_tick] keepsD [OF saved_tick] by blast
next
  case (crash st)
  then show ?case by (simp add: books_restart saved_restart)
qed



subsection \<open>A credit confirmed late\<close>

text \<open>A credit-back whose transaction does not confirm within its own tick is paid twice by the refund wallet: the tick that
  sends it leaves the record as it was, and once it lands and closes the order, the next tick takes the withdrawn
  amount for unused and sends it into the hub float again.\<close>

theorem late_credit_refilled:
  assumes rec: "refund_of (kj st) i = r" "fr_withdrawn r = Some a" "\<not> fr_done r" "\<not> fr_returned r"
    and route: "fe_returnExecutor v1 route (hist st) = Inr e" "fe_getAddress v1 e = Inr x" "fe_getAddress v1 (fe_router v1) = Inr x"
    and hub: "fe_hub v1 \<noteq> []" "fe_hub v2 \<noteq> []"
    and inflight: "\<And>k ts. net (hist st) k (CreditBack i route a) ts = (Inr (result_of StInflight), ts)"
    and st1: "st1 = snd (creditBack v1 net i route a st)"
    and closed: "fe_order v2 i (hist st1) = Inr o2" "\<not> still_needed o2"
  shows "(\<exists>k. hist st1 = hist st @ [(k, CreditBack i route a)]) \<and> refund_of (kj st1) i = r
    \<and> (\<exists>k. hist (snd (finish_one v2 net2 (i, refund_of (kj st1) i) st1)) = hist st1 @ [(k, FundFloat i a)])"
proof -
  obtain k where k: "fkey v1 (''refund:'' @ show_int i @ '':credit'') = Inr k"
    using hub by (simp add: fkey_def taskKey_def)
  obtain k2 where k2: "fkey v2 (''refund:'' @ show_int i @ '':refill'') = Inr k2"
    using hub by (simp add: fkey_def taskKey_def)
  have one: "hist st1 = hist st @ [(k, CreditBack i route a)] \<and> refund_of (kj st1) = refund_of (kj st)"
    using route k inflight
    by (simp add: st1 creditBack_def call_at_def call_def f_note_def result_of_def bindk_def thenk_def rd_def ret_def emit_def)
  have "hist (snd (finish_one v2 net2 (i, r) st1)) = hist st1 @ [(k2, FundFloat i a)]"
    using rec closed k2 call_hist [of net2 k2 "FundFloat i a" st1]
    by (auto simp: finish_one_def call_at_def f_note_def set_refund_def bindk_def thenk_def rd_def ret_def emit_def put_rec_def
        split: prod.splits sum.splits)
  with one rec show ?thesis by auto
qed

subsection \<open>A concrete keeper\<close>

text \<open>Order 7 misses 70; the withdrawal confirms, the credit is still in flight when its tick ends, and the order is closed after it.\<close>

definition demo_fenv :: fenv where
  "demo_fenv = \<lparr>fe_p = REFUND_DEFAULTS, fe_chainId = 1, fe_hub = ''0xhub'', fe_router = ''0xrouter'', fe_hasVault = False, fe_self = Some ''0xb'',
     fe_withdrawer = None, fe_split = False, fe_getAddress = Inr, fe_receiptHash = (\<lambda>_. ''0xt''), fe_ms = (\<lambda>_. 0), fe_now = (\<lambda>_. 100), fe_latest = None,
     fe_floatRecipientA = (\<lambda>_. Inr ''0xa''), fe_floatRecipientB = (\<lambda>_. Inr ''0xb''), fe_keeper = (\<lambda>_. Inr ''0xk''),
     fe_openOrders = (\<lambda>h. Inr (if length h < 2 then [7] else [])),
     fe_order = (\<lambda>i h. Inr (if length h < 2 then demo_hub_order else demo_hub_order\<lparr>ho_status := hub_Cancelled\<rparr>)),
     fe_proceeds = (\<lambda>_ _. Inl ''none''), fe_available = (\<lambda>_. Inr 1000), fe_returnExecutor = (\<lambda>_ _. Inr ''0xrouter'')\<rparr>"

definition demo_fnet :: "fcall caller" where
  "demo_fnet h k c ts = (case c of WithdrawFloat i to a \<Rightarrow> (Inr ((result_of StConfirmed)\<lparr>sr_rcpt := Some \<lparr>r_status = 1, r_block = 1\<rparr>\<rparr>), ts)
     | _ \<Rightarrow> (Inr (result_of StInflight), ts))"

definition demo_fst :: fstate where
  "demo_fst = \<lparr>kj = open_journal None, hist = [], outs = []\<rparr>"

definition demo_ftick :: "fstate \<Rightarrow> fstate" where
  "demo_ftick st = snd (refund_tick demo_fenv demo_fnet (\<lambda>_ ts. (Inr (), ts)) st)"



theorem late_credit_refilled_witness:
  "map snd (hist (demo_ftick (demo_ftick demo_fst))) = [WithdrawFloat 7 ''0xb'' 70, CreditBack 7 ''0xroute'' 70, FundFloat 7 70]
   \<and> (\<exists>k. hist (snd (finish_one demo_fenv demo_fnet (7, no_refund\<lparr>fr_withdrawn := Some 70\<rparr>)
       (snd (creditBack demo_fenv demo_fnet 7 ''0xroute'' 70 \<lparr>kj = setRecord 0 ''refunds'' ''7'' (\<lambda>_. FRefund (no_refund\<lparr>fr_withdrawn := Some 70\<rparr>)) (open_journal None),
          hist = [(''w'', WithdrawFloat 7 ''0xb'' 70)], outs = []\<rparr>)))) = [(''w'', WithdrawFloat 7 ''0xb'' 70), (''1:0xhub:refund:7:credit:v1'', CreditBack 7 ''0xroute'' 70), (k, FundFloat 7 70)])"
proof -
  let ?r = "no_refund\<lparr>fr_withdrawn := Some 70\<rparr>"
  let ?st = "\<lparr>kj = setRecord 0 ''refunds'' ''7'' (\<lambda>_. FRefund ?r) (open_journal None), hist = [(''w'', WithdrawFloat 7 ''0xb'' 70)], outs = []\<rparr> :: fstate"
  have ticks: "map snd (hist (demo_ftick (demo_ftick demo_fst))) = [WithdrawFloat 7 ''0xb'' 70, CreditBack 7 ''0xroute'' 70, FundFloat 7 70]" by code_simp
  have rec: "refund_of (kj ?st) 7 = ?r" "fr_withdrawn ?r = Some 70" "\<not> fr_done ?r" "\<not> fr_returned ?r" by code_simp+
  have h: "hist (snd (creditBack demo_fenv demo_fnet 7 ''0xroute'' 70 ?st)) = [(''w'', WithdrawFloat 7 ''0xb'' 70), (''1:0xhub:refund:7:credit:v1'', CreditBack 7 ''0xroute'' 70)]"
    by code_simp
  have needed: "\<not> still_needed (demo_hub_order\<lparr>ho_status := hub_Cancelled\<rparr>)" by code_simp
  have "\<exists>k. hist (snd (finish_one demo_fenv demo_fnet (7, refund_of (kj (snd (creditBack demo_fenv demo_fnet 7 ''0xroute'' 70 ?st))) 7)
      (snd (creditBack demo_fenv demo_fnet 7 ''0xroute'' 70 ?st)))) = hist (snd (creditBack demo_fenv demo_fnet 7 ''0xroute'' 70 ?st)) @ [(k, FundFloat 7 70)]
    \<and> refund_of (kj (snd (creditBack demo_fenv demo_fnet 7 ''0xroute'' 70 ?st))) 7 = ?r"
    using late_credit_refilled [OF rec, of demo_fenv "''0xroute''" "''0xrouter''" "''0xrouter''" demo_fenv demo_fnet _ "demo_hub_order\<lparr>ho_status := hub_Cancelled\<rparr>" demo_fnet]
      needed h by (auto simp: demo_fenv_def demo_fnet_def)
  with ticks h show ?thesis by auto
qed

end
