(* ===== verification/Launcher_Keeper.thy ===== *)
theory Launcher_Keeper
  imports Hub Round_Sources Quotes
begin

section \<open>The launcher (\<open>keepers/v3/launcher/keeper.mjs\<close>)\<close>

text \<open>
  Each tick launches the heads of the order scheduler: a Relay quote for the order's amount, the route fee out of the
  order's own reserve, a signature, \<open>launchNext\<close>, and the check of the receipt. A request to Relay is a step of the
  history (\<open>AskQuote\<close>), so two equal requests may be answered differently. The route contracts' fields are immutable, so
  the cache of \<open>route()\<close> is not part of the state; \<open>le_route\<close> reads them. A thrown \<open>RelayRejected\<close> is recognised by its message.
\<close>

definition SCALE :: int where "SCALE = 10 ^ 12"

record launch_params =
  lp_maxPerTick :: nat
  lp_quoteTtlSec :: int
  lp_lzFeeBufferBps :: int
  lp_maxShortfallBps :: int
  lp_shortfallAlertBps :: int
  lp_fillAlertSec :: int
  lp_queueAlertSec :: int
  lp_failAlertAfter :: int
  lp_originCurrency :: string
  lp_paymentCurrency :: string

definition LAUNCH_DEFAULTS :: launch_params where
  "LAUNCH_DEFAULTS = \<lparr>lp_maxPerTick = 6, lp_quoteTtlSec = 300, lp_lzFeeBufferBps = 1000, lp_maxShortfallBps = 100, lp_shortfallAlertBps = 30,
     lp_fillAlertSec = 10 * 60, lp_queueAlertSec = 20 * 60, lp_failAlertAfter = 3,
     lp_originCurrency = ''0x0000000000000000000000000000000000000000'', lp_paymentCurrency = ''0x3600000000000000000000000000000000000000''\<rparr>"

subsection \<open>State and world\<close>

record deposit_event =
  de_from :: string
  de_token :: string
  de_amount :: int
  de_id :: string

record launch_rec =
  la_orderId :: "string option"
  la_relayRequestId :: "string option"
  la_fee :: "int option"
  la_amountIn :: "int option"
  la_expectedOut6 :: "int option"
  la_shortBps :: "int option"
  la_quotedAt :: "int option"
  la_lane :: "int option"
  la_launchedAt :: "int option"
  la_tx :: "string option"
  la_status :: "string option"
  la_deposit :: "deposit_event option"
  la_failures :: "int option"
  la_lastError :: "string option"
  la_lastErrorAt :: "int option"
  la_fill :: "string option"
  la_filledSeenAt :: "int option"

record route_quote =
  rq_orderRef :: string
  rq_deadline :: int
  rq_nonce :: int

datatype lcall = AskQuote quote_request | LaunchNext int int route_quote string | Dispatch int int

datatype lreport = LNote string int send_status | LText string int string | LDeferred int string | LFill int | LAlerted string

type_synonym lh = "lcall history"

record route_info =
  ri_signer :: string
  ri_caller :: string
  ri_destination :: string
  ri_depository :: string
  ri_nativeToken :: "string option"

record lenv =
  le_p :: launch_params
  le_chainId :: int
  le_hub :: string
  le_scheduler :: string
  le_vault :: string
  le_rhChainId :: int
  le_rhUsdg :: string
  le_getAddress :: "string \<Rightarrow> string result"
  le_signer :: "quote_signer option"
  le_receiptHash :: "receipt \<Rightarrow> string"
  le_ref :: "int \<Rightarrow> string"
  le_routeSent :: "receipt \<Rightarrow> string \<Rightarrow> (string \<times> string) option"
  le_depositOf :: "receipt \<Rightarrow> string \<Rightarrow> deposit_event option"
  le_ms :: "lh \<Rightarrow> int"
  le_now :: "lh \<Rightarrow> int"
  le_latest :: "(lh \<Rightarrow> int result) option"
  le_client :: "quote_request \<Rightarrow> lh \<Rightarrow> string + relay_quote"
  le_relayStatus :: "string \<Rightarrow> lh \<Rightarrow> string option result"
  le_nextLaunch :: "lh \<Rightarrow> (bool \<times> int \<times> int) result"
  le_queueLength :: "int \<Rightarrow> lh \<Rightarrow> int result"
  le_order :: "int \<Rightarrow> lh \<Rightarrow> hub_order result"
  le_openOrders :: "lh \<Rightarrow> int list result"
  le_quoteDispatch :: "int \<Rightarrow> lh \<Rightarrow> int result"
  le_route :: "string \<Rightarrow> lh \<Rightarrow> route_info result"
  le_digest :: "string \<Rightarrow> string \<times> int \<times> int \<times> int \<times> route_quote \<Rightarrow> lh \<Rightarrow> string result"
  le_nonce :: "lh \<Rightarrow> int"

type_synonym lstate = "(launch_rec, lcall, lreport) kst"
type_synonym 'a lop = "(lstate, 'a) op"

definition no_launch :: launch_rec where
  "no_launch = \<lparr>la_orderId = None, la_relayRequestId = None, la_fee = None, la_amountIn = None, la_expectedOut6 = None, la_shortBps = None,
     la_quotedAt = None, la_lane = None, la_launchedAt = None, la_tx = None, la_status = None, la_deposit = None, la_failures = None,
     la_lastError = None, la_lastErrorAt = None, la_fill = None, la_filledSeenAt = None\<rparr>"

definition launch_of :: "launch_rec journal \<Rightarrow> int \<Rightarrow> launch_rec" where
  "launch_of j i = orelse (record_of j (''launches'', show_int i)) no_launch"

definition set_launch :: "lenv \<Rightarrow> int \<Rightarrow> (launch_rec \<Rightarrow> launch_rec) \<Rightarrow> unit lop" where
  "set_launch v i f = put_rec (le_ms v) ''launches'' (show_int i) (\<lambda>r. f (orelse r no_launch))"

definition launch_entries :: "launch_rec journal \<Rightarrow> (int \<times> launch_rec) list" where
  "launch_entries j = id_entries j ''launches''"

definition lkey :: "lenv \<Rightarrow> string \<Rightarrow> string result" where
  "lkey v op = taskKey (show_int (le_chainId v)) (le_scheduler v) op ''1''"

definition lclock :: "lenv \<Rightarrow> int lop" where
  "lclock v = rd (\<lambda>h. Inr (le_now v h))"

subsection \<open>Quote and plan\<close>

definition ask_relay :: "lenv \<Rightarrow> quote_request \<Rightarrow> relay_quote lop" where
  "ask_relay v body st = (le_client v body (hist st), st\<lparr>hist := hist st @ [(''relay'', AskQuote body)]\<rparr>)"

definition thrown :: "relay_error \<Rightarrow> string" where
  "thrown e = (case e of RelayRejected r \<Rightarrow> ''relay quote rejected: '' @ r | Raised m \<Rightarrow> m)"

definition lquote :: "lenv \<Rightarrow> int \<Rightarrow> deposit_quote lop" where
  "lquote v amount18 =
     (case buildDepositQuoteRequest (le_getAddress v) (le_hub v) (le_vault v) amount18 (le_chainId v) (le_rhChainId v)
             (lp_originCurrency (le_p v)) (le_rhUsdg v) of
        Inl e \<Rightarrow> throw (thrown e)
      | Inr body \<Rightarrow>
         bindk (ask_relay v body) (\<lambda>raw.
         case validateDepositQuote raw \<lparr>dx_user = qr_user body, dx_recipient = qr_recipient body, dx_amount = amount18,
            dx_originChainId = qr_originChainId body, dx_destinationChainId = qr_destinationChainId body,
            dx_destinationCurrency = qr_destinationCurrency body, dx_minOut = None, dx_nativeScale = Some SCALE,
            dx_paymentCurrency = Some (lp_paymentCurrency (le_p v))\<rparr> of
           Inl e \<Rightarrow> throw (thrown e) | Inr q \<Rightarrow> ret q))"

definition quoteMinOut6 :: "lenv \<Rightarrow> int \<Rightarrow> int lop" where
  "quoteMinOut6 v amount18 = bindk (lquote v amount18) (\<lambda>q. ret (dq_expectedOut q))"

datatype launch_plan = LaunchPlan int deposit_quote int int | LaunchDefer string

definition short_bps :: "int \<Rightarrow> int \<Rightarrow> int" where
  "short_bps need6 expected = (if expected \<ge> need6 then 0 else bdiv ((need6 - expected) * 10000) need6)"

definition kept_for_lz :: "lenv \<Rightarrow> int \<Rightarrow> int" where
  "kept_for_lz v lzFee = lzFee + bdiv (lzFee * lp_lzFeeBufferBps (le_p v)) 10000"

text \<open>The final quote for a fee that was planned.\<close>

definition plan_quote :: "lenv \<Rightarrow> int \<Rightarrow> int \<Rightarrow> int \<Rightarrow> launch_plan lop" where
  "plan_quote v amountIn lzFee f =
     (if bmod (amountIn + f) SCALE \<noteq> 0 then ret (LaunchDefer ''UnalignedDeposit'') else
      bindk (lquote v (amountIn + f)) (\<lambda>q.
      let short = short_bps (bdiv amountIn SCALE) (dq_expectedOut q) in
      if short > lp_maxShortfallBps (le_p v) then ret (LaunchDefer (''RelayShortfall '' @ show_int short @ '' bps''))
      else ret (LaunchPlan f q lzFee short)))"

definition lplan :: "lenv \<Rightarrow> int \<Rightarrow> int \<Rightarrow> int \<Rightarrow> launch_plan lop" where
  "lplan v i amountIn extra =
     bindk (rd (le_quoteDispatch v i)) (\<lambda>lzFee.
     let keep = kept_for_lz v lzFee; budget = (if extra > keep then extra - keep else 0); maxFee = bdiv budget SCALE * SCALE in
     bindk (planRouteFee amountIn (bdiv amountIn SCALE) (quoteMinOut6 v) SCALE (Some maxFee) 4) (\<lambda>plan.
     case plan of RouteFee f _ \<Rightarrow> plan_quote v amountIn lzFee f
     | DeferRoute d _ \<Rightarrow> (if d = ''CostLimit'' then plan_quote v amountIn lzFee maxFee else ret (LaunchDefer d))))"

subsection \<open>Route and signature\<close>

definition same_address :: "lenv \<Rightarrow> string \<Rightarrow> string \<Rightarrow> bool result" where
  "same_address v a b = (case le_getAddress v a of Inl e \<Rightarrow> Inl e | Inr x \<Rightarrow> (case le_getAddress v b of Inl e \<Rightarrow> Inl e | Inr y \<Rightarrow> Inr (x = y)))"

definition must_match :: "lenv \<Rightarrow> string \<Rightarrow> string \<Rightarrow> string \<Rightarrow> unit lop" where
  "must_match v a b msg = bindk (rd (\<lambda>_. same_address v a b)) (\<lambda>same. if same then ret () else throw msg)"

definition route_of :: "lenv \<Rightarrow> string \<Rightarrow> (string \<times> string) lop" where
  "route_of v address =
     bindk (rd (le_route v address)) (\<lambda>r.
     case ri_nativeToken r of None \<Rightarrow> throw ''nativeToken (pre-r14 route?)''
     | Some native \<Rightarrow>
        if native = [] then throw ''nativeToken (pre-r14 route?)'' else
        thenk (must_match v native (lp_paymentCurrency (le_p v)) ''nativeToken (pre-r14 route?)'')
       (thenk (must_match v (ri_caller r) (le_hub v) ''route caller is not the hub'')
       (bindk (rd (\<lambda>_. le_getAddress v (ri_destination r))) (\<lambda>d.
        if d \<noteq> le_vault v then throw ''route destination is not the vault'' else
        thenk (case le_signer v of Some s \<Rightarrow> must_match v (ri_signer r) (qs_address s) ''route signer'' | None \<Rightarrow> ret ())
       (bindk (rd (\<lambda>_. le_getAddress v (ri_depository r))) (\<lambda>depository.
        bindk (rd (\<lambda>_. le_getAddress v native)) (\<lambda>token. ret (depository, token))))))))"

definition lsign :: "lenv \<Rightarrow> string \<Rightarrow> int \<Rightarrow> int \<Rightarrow> int \<Rightarrow> string \<Rightarrow> (route_quote \<times> string) lop" where
  "lsign v route i amountIn fee orderId =
     (case le_signer v of None \<Rightarrow> throw ''launcher: no quote signer (QUOTE_SIGNER_KEY_PATH)''
     | Some s \<Rightarrow>
        bindk (lclock v) (\<lambda>now.
        bindk (rd (\<lambda>h. Inr (le_nonce v h))) (\<lambda>nonce.
        let q = \<lparr>rq_orderRef = orderId, rq_deadline = now + lp_quoteTtlSec (le_p v), rq_nonce = nonce\<rparr> in
        bindk (rd (le_digest v route (le_ref v i, amountIn, fee, bdiv amountIn SCALE, q))) (\<lambda>digest. ret (q, qs_sign s digest)))))"

subsection \<open>One launch\<close>

datatype launch_out = Skip | DryRun | Failed | Launched

definition failed :: "lenv \<Rightarrow> int \<Rightarrow> string \<Rightarrow> launch_out lop" where
  "failed v i why =
     bindk (getj (\<lambda>j. orelse (la_failures (launch_of j i)) 0 + 1)) (\<lambda>n.
     bindk (lclock v) (\<lambda>now.
     thenk (set_launch v i (\<lambda>r. r\<lparr>la_failures := Some n, la_lastError := Some why, la_lastErrorAt := Some now\<rparr>))
    (thenk (emit (LDeferred i why))
    (thenk (if n \<ge> lp_failAlertAfter (le_p v) then emit (LAlerted (''launch-'' @ show_int i @ ''-fail'')) else ret ())
     (ret Failed)))))"

definition why_of :: "string \<Rightarrow> string" where
  "why_of e = (if starts_with ''relay quote rejected: '' e then ''quote rejected: '' @ drop 22 e else ''quote: '' @ take 160 e)"

record launch_proof =
  pf_ok :: bool
  pf_deposit :: "deposit_event option"

definition checkReceipt :: "lenv \<Rightarrow> receipt \<Rightarrow> int \<Rightarrow> string \<Rightarrow> string \<Rightarrow> string \<Rightarrow> int \<Rightarrow> string \<Rightarrow> launch_proof result" where
  "checkReceipt v rc i route depository orderId tot nativeToken =
     (case le_routeSent v rc route of
        None \<Rightarrow> Inr \<lparr>pf_ok = False, pf_deposit = None\<rparr>
      | Some (ref, requestId) \<Rightarrow>
         if ref \<noteq> le_ref v i \<or> requestId \<noteq> orderId then Inr \<lparr>pf_ok = False, pf_deposit = None\<rparr>
         else case le_depositOf v rc depository of
           None \<Rightarrow> Inr \<lparr>pf_ok = False, pf_deposit = None\<rparr>
         | Some d \<Rightarrow>
            if de_id d \<noteq> orderId then Inr \<lparr>pf_ok = False, pf_deposit = Some d\<rparr>
            else (case same_address v (de_from d) (le_hub v) of Inl e \<Rightarrow> Inl e
              | Inr False \<Rightarrow> Inr \<lparr>pf_ok = False, pf_deposit = Some d\<rparr>
              | Inr True \<Rightarrow> (case same_address v (de_token d) nativeToken of Inl e \<Rightarrow> Inl e
                  | Inr t \<Rightarrow> Inr \<lparr>pf_ok = (t \<and> de_amount d = bdiv tot SCALE), pf_deposit = Some d\<rparr>)))"

definition dispatchFunded :: "lenv \<Rightarrow> lcall caller \<Rightarrow> int \<Rightarrow> unit lop" where
  "dispatchFunded v net i =
     bindk (rd (le_quoteDispatch v i)) (\<lambda>fee.
     let value = fee + bdiv fee 10 in
     bindk (call_at net (taskKey (show_int (le_chainId v)) (le_hub v) (''dispatch:'' @ show_int i) ''1'') (Dispatch i value)) (\<lambda>res.
     thenk (emit (LNote ''dispatch'' i (sr_status res))) (emit (LAlerted (''launch-'' @ show_int i @ ''-dispatch'')))))"

text \<open>After \<open>launchNext\<close> confirmed.\<close>

definition launched :: "lenv \<Rightarrow> lcall caller \<Rightarrow> int \<Rightarrow> hub_order \<Rightarrow> int \<Rightarrow> string \<times> string \<Rightarrow> int \<Rightarrow> deposit_quote \<Rightarrow> int \<Rightarrow> send_result \<Rightarrow> launch_out lop" where
  "launched v net i o1 lane r fee q short res =
     (case sr_rcpt res of None \<Rightarrow> throw ''Cannot read properties of undefined''
     | Some rc \<Rightarrow>
        bindk (rd (\<lambda>_. checkReceipt v rc i (ho_route o1) (fst r) (dq_orderId q) (ho_amountIn o1 + fee) (snd r))) (\<lambda>proof.
        bindk (rd (le_order v i)) (\<lambda>after.
        bindk (lclock v) (\<lambda>now.
        let st = HubStatusName (ho_status after) in
        thenk (set_launch v i (\<lambda>r. r\<lparr>la_launchedAt := Some now, la_tx := Some (le_receiptHash v rc), la_status := st, la_deposit := pf_deposit proof, la_failures := Some 0\<rparr>))
       (thenk (emit (LText ''launch'' i (orelse st [])))
       (thenk (if pf_ok proof then ret () else emit (LAlerted (''launch-'' @ show_int i @ ''-deposit'')))
       (thenk (if short \<ge> lp_shortfallAlertBps (le_p v) then emit (LAlerted (''launch-'' @ show_int i @ ''-short'')) else ret ())
       (thenk (if st = Some ''Cancelled'' then emit (LAlerted (''launch-'' @ show_int i @ ''-refunded'')) else ret ())
       (thenk (if st = Some ''Funded'' \<and> ho_lane after = 0 then dispatchFunded v net i else ret ())
        (ret Launched))))))))))"

definition send_launch :: "lenv \<Rightarrow> lcall caller \<Rightarrow> int \<Rightarrow> int \<Rightarrow> hub_order \<Rightarrow> int \<Rightarrow> deposit_quote \<Rightarrow> int \<Rightarrow> launch_out lop" where
  "send_launch v net i lane o1 fee q short =
     bindk (rd (\<lambda>_. le_getAddress v (ho_route o1))) (\<lambda>route.
     bindk (route_of v route) (\<lambda>r.
     bindk (lsign v route i (ho_amountIn o1) fee (dq_orderId q)) (\<lambda>(rq, sig).
     bindk (lclock v) (\<lambda>now.
     thenk (set_launch v i (\<lambda>r. r\<lparr>la_orderId := Some (dq_orderId q), la_relayRequestId := dq_requestId q, la_fee := Some fee, la_amountIn := Some (ho_amountIn o1),
          la_expectedOut6 := Some (dq_expectedOut q), la_shortBps := Some short, la_quotedAt := Some now, la_lane := Some lane\<rparr>))
    (bindk (call_at net (lkey v (''launch:'' @ show_int i @ '':'' @ dq_orderId q)) (LaunchNext i fee rq sig)) (\<lambda>res.
     if sr_status res = StDryRun then thenk (emit (LNote ''launch'' i StDryRun)) (ret DryRun)
     else if sr_status res \<noteq> StConfirmed then failed v i (''launchNext '' @ (case sr_err res of Some e \<Rightarrow> '': '' @ take 120 e | None \<Rightarrow> []))
     else launched v net i o1 lane (r) fee q short res))))))"

definition launchOne :: "lenv \<Rightarrow> lcall caller \<Rightarrow> int \<Rightarrow> int \<Rightarrow> launch_out lop" where
  "launchOne v net i lane =
     bindk (rd (le_order v i)) (\<lambda>o1.
     if ho_status o1 \<noteq> hub_Pending then thenk (emit (LText ''skip'' i (orelse (HubStatusName (ho_status o1)) []))) (ret Skip) else
     bindk (tryk (bindk (lplan v i (ho_amountIn o1) (ho_extra o1)) (\<lambda>p. ret (Inr p))) (\<lambda>e. ret (Inl e))) (\<lambda>plan.
     case plan of Inl e \<Rightarrow> failed v i (why_of e)
     | Inr (LaunchDefer d) \<Rightarrow> failed v i (''deferred: '' @ d)
     | Inr (LaunchPlan fee q lzFee short) \<Rightarrow> send_launch v net i lane o1 fee q short))"

subsection \<open>Watches and the tick\<close>

definition watch_lane :: "lenv \<Rightarrow> int \<Rightarrow> unit lop" where
  "watch_lane v lane =
     bindk (rd (le_queueLength v lane)) (\<lambda>waiting.
     if waiting = 0 then ret () else
     bindk (rd (le_nextLaunch v)) (\<lambda>(found, _, _).
     if found then ret () else emit (LDeferred lane ''head not launchable (capacity/asset cap)'')))"

definition watchQueue :: "lenv \<Rightarrow> unit lop" where
  "watchQueue v =
     thenk (each (watch_lane v) [0, 1])
    (bindk (rd (le_nextLaunch v)) (\<lambda>(found, lane, i).
     if \<not> found then ret () else
     bindk (rd (le_order v i)) (\<lambda>o1.
     bindk (lclock v) (\<lambda>now.
     if now - ho_createdAt o1 > lp_queueAlertSec (le_p v) then emit (LAlerted (''queue-'' @ show_int i)) else ret ()))))"

definition watch_fill :: "lenv \<Rightarrow> int \<times> launch_rec \<Rightarrow> unit lop" where
  "watch_fill v = (\<lambda>(i, r).
     case la_launchedAt r of None \<Rightarrow> ret ()
     | Some at \<Rightarrow>
        if at = 0 \<or> la_fill r = Some ''success'' \<or> la_fill r = Some ''abandoned'' \<or> \<not> given (la_relayRequestId r) then ret () else
        bindk (tryk (rd (le_relayStatus v (orelse (la_relayRequestId r) []))) (\<lambda>e. ret (Some (''error: '' @ take 80 e)))) (\<lambda>status.
        bindk (lclock v) (\<lambda>now.
        if status = Some ''success'' then
          thenk (set_launch v i (\<lambda>r. r\<lparr>la_fill := Some ''success'', la_filledSeenAt := Some now\<rparr>)) (emit (LFill i))
        else if status \<in> {Some ''failure'', Some ''refund'', Some ''refunded''} then
          thenk (set_launch v i (\<lambda>r. r\<lparr>la_fill := status\<rparr>)) (emit (LAlerted (''fill-'' @ show_int i)))
        else if now - at > lp_fillAlertSec (le_p v) then emit (LAlerted (''fill-'' @ show_int i)) else ret ())))"

definition watchFills :: "lenv \<Rightarrow> unit lop" where
  "watchFills v = bindk (getj launch_entries) (each (watch_fill v))"

fun launch_heads :: "lenv \<Rightarrow> lcall caller \<Rightarrow> nat \<Rightarrow> unit lop" where
  "launch_heads v net 0 = ret ()"
| "launch_heads v net (Suc n) =
     bindk (rd (le_nextLaunch v)) (\<lambda>(found, lane, i).
     if \<not> found then ret () else
     bindk (launchOne v net i lane) (\<lambda>out. if out \<noteq> Launched then ret () else launch_heads v net n))"

definition launch_tick :: "lenv \<Rightarrow> lcall caller \<Rightarrow> lcall settler \<Rightarrow> unit lop" where
  "launch_tick v net settler =
     thenk (case le_latest v of Some f \<Rightarrow> bindk (rd f) (\<lambda>_. ret ()) | None \<Rightarrow> ret ())
    (thenk (settle_all settler)
    (thenk (launch_heads v net (lp_maxPerTick (le_p v)))
    (thenk (watchQueue v) (watchFills v))))"

subsection \<open>The round keeper's lane on top of the launcher\<close>

definition queued :: "string \<Rightarrow> lane_error" where
  "queued what = (plain_error (''queued: '' @ what))\<lparr>le_sent := Some False, le_quiet := True\<rparr>"

fun find_order :: "lenv \<Rightarrow> string \<Rightarrow> int list \<Rightarrow> (int \<times> hub_order) option lop" where
  "find_order v orderId [] = ret None"
| "find_order v orderId (i # is) =
     bindk (rd (le_order v i)) (\<lambda>o1. if ho_capKey o1 = orderId then ret (Some (i, o1)) else find_order v orderId is)"

definition findOrder :: "lenv \<Rightarrow> string \<Rightarrow> (int \<times> hub_order) option lop" where
  "findOrder v orderId = bindk (rd (le_openOrders v)) (\<lambda>open_now. find_order v orderId (rev open_now))"

text \<open>A thrown \<open>Queued\<close> is the value \<open>Inl\<close>; any other throw is a plain error, of which nothing says that it was not sent.\<close>

definition scheduler_dispatch :: "lenv \<Rightarrow> lcall caller \<Rightarrow> lcall settler \<Rightarrow> string \<Rightarrow> (lane_error + lane_sent) lop" where
  "scheduler_dispatch v net settler orderId =
     tryk (bindk (findOrder v orderId) (\<lambda>found.
       case found of None \<Rightarrow> ret (Inl (queued (''reward order '' @ orderId @ '' not open on the hub'')))
       | Some (i, o1) \<Rightarrow>
          bindk (if ho_status o1 = hub_Pending then thenk (launch_tick v net settler) (findOrder v orderId) else ret (Some (i, o1))) (\<lambda>found'.
          case found' of None \<Rightarrow> ret (Inl (queued (''reward order '' @ orderId @ '' waits in the scheduler'')))
          | Some (i', o2) \<Rightarrow>
             if ho_status o2 = hub_Pending then ret (Inl (queued (''reward order '' @ orderId @ '' waits in the scheduler'')))
             else bindk (getj (\<lambda>j. launch_of j i')) (\<lambda>r.
               ret (Inr \<lparr>ls_requestId = (if la_relayRequestId r \<noteq> None then la_relayRequestId r else la_orderId r), ls_txHash = la_tx r\<rparr>)))))
      (\<lambda>e. ret (Inl (plain_error e)))"

end
