(* ===== verification/Launcher_Safety.thy ===== *)
theory Launcher_Safety
  imports Launcher_Keeper
begin

section \<open>What the launcher launches, and what it forgets\<close>

lemma wp_lclock [wps]: "Q (le_now v (hist st)) st \<Longrightarrow> E st \<Longrightarrow> wp (lclock v) Q E st"
  by (auto simp: lclock_def intro!: wps)

lemma wp_ask_relay [wps]:
  "(\<And>raw. le_client v body (hist st) = Inr raw \<Longrightarrow> Q raw (st\<lparr>hist := hist st @ [(''relay'', AskQuote body)]\<rparr>)) \<Longrightarrow>
   E (st\<lparr>hist := hist st @ [(''relay'', AskQuote body)]\<rparr>) \<Longrightarrow> wp (ask_relay v body) Q E st"
  by (auto simp: wp_def ask_relay_def split: sum.splits)

lemma wp_set_launch: "(\<And>j. Q () (st\<lparr>kj := j\<rparr>)) \<Longrightarrow> wp (set_launch v i f) Q E st"
  by (simp add: set_launch_def wp_put_rec)

subsection \<open>Justified launches\<close>

text \<open>\<open>quoted v a q h\<close>: Relay was asked for \<open>a\<close> in \<open>h\<close> and its answer passed every check with \<open>q\<close>.\<close>

definition deposit_checks :: "lenv \<Rightarrow> quote_request \<Rightarrow> int \<Rightarrow> deposit_expect" where
  "deposit_checks v body a = \<lparr>dx_user = qr_user body, dx_recipient = qr_recipient body, dx_amount = a,
     dx_originChainId = qr_originChainId body, dx_destinationChainId = qr_destinationChainId body,
     dx_destinationCurrency = qr_destinationCurrency body, dx_minOut = None, dx_nativeScale = Some SCALE,
     dx_paymentCurrency = Some (lp_paymentCurrency (le_p v))\<rparr>"

definition quoted :: "lenv \<Rightarrow> int \<Rightarrow> deposit_quote \<Rightarrow> lh \<Rightarrow> bool" where
  "quoted v a q h \<longleftrightarrow> (\<exists>h1 body raw. earlier (h1 @ [(''relay'', AskQuote body)]) h \<and> le_client v body h1 = Inr raw
     \<and> validateDepositQuote raw (deposit_checks v body a) = Inr q)"

lemma quoted_later: "quoted v a q h \<Longrightarrow> earlier h h' \<Longrightarrow> quoted v a q h'"
  by (fastforce simp: quoted_def earlier_def)

text \<open>\<open>worth v o1 lz fee q\<close>: the fee is paid from what the order's reserve leaves above the LayerZero fee and its
  buffer, the deposit is whole on the six-decimal grid, and the quote covers the principal up to the allowed shortfall.\<close>

definition worth :: "lenv \<Rightarrow> hub_order \<Rightarrow> int \<Rightarrow> int \<Rightarrow> deposit_quote \<Rightarrow> bool" where
  "worth v o1 lz fee q \<longleftrightarrow> fee \<le> max 0 (ho_extra o1 - kept_for_lz v lz) \<and> bmod (ho_amountIn o1 + fee) SCALE = 0
     \<and> short_bps (bdiv (ho_amountIn o1) SCALE) (dq_expectedOut q) \<le> lp_maxShortfallBps (le_p v)"

fun launch_due :: "lenv \<Rightarrow> lh \<Rightarrow> string \<Rightarrow> lcall \<Rightarrow> bool" where
  "launch_due v h k (LaunchNext i fee rq sig) = (\<exists>h1 o1 lz q s route digest. earlier h1 h \<and> le_order v i h1 = Inr o1 \<and> ho_status o1 = hub_Pending
     \<and> le_quoteDispatch v i h1 = Inr lz \<and> worth v o1 lz fee q \<and> quoted v (ho_amountIn o1 + fee) q h \<and> rq_orderRef rq = dq_orderId q
     \<and> le_signer v = Some s \<and> sig = qs_sign s digest
     \<and> le_digest v route (le_ref v i, ho_amountIn o1, fee, bdiv (ho_amountIn o1) SCALE, rq) h = Inr digest)"
| "launch_due v h k (Dispatch i value) = (\<exists>o1 fee. le_order v i h = Inr o1 \<and> HubStatusName (ho_status o1) = Some ''Funded'' \<and> ho_lane o1 = 0
     \<and> le_quoteDispatch v i h = Inr fee \<and> value = fee + bdiv fee 10)"
| "launch_due v h k (AskQuote body) = True"

definition launches_due :: "lenv \<Rightarrow> lstate \<Rightarrow> bool" where
  "launches_due v st \<longleftrightarrow> asked (launch_due v) (hist st)"

lemma launches_due_prims [simp]:
  "launches_due v (st\<lparr>kj := j\<rparr>) = launches_due v st"
  "launches_due v (st\<lparr>outs := os\<rparr>) = launches_due v st"
  "launches_due v (st\<lparr>hist := h\<rparr>) = asked (launch_due v) h"
  "launches_due v (st\<lparr>kj := j, hist := h\<rparr>) = asked (launch_due v) h"
  "asked (launch_due v) (hist st) = launches_due v st"
  by (simp_all add: launches_due_def)

text \<open>The invariant inside a launch that began in the history \<open>h\<close>.\<close>

definition since :: "lenv \<Rightarrow> lh \<Rightarrow> lstate \<Rightarrow> bool" where
  "since v h st \<longleftrightarrow> launches_due v st \<and> earlier h (hist st)"

lemma since_start: "launches_due v st \<Longrightarrow> since v (hist st) st"
  by (simp add: since_def)

lemma since_quote: "since v h st \<Longrightarrow> wp (lquote v a) (\<lambda>q st1. since v h st1 \<and> quoted v a q (hist st1)) (since v h) st"
  unfolding lquote_def deposit_checks_def [symmetric]
  by (intro wps) (auto simp: since_def quoted_def intro: earlier_snoc earlier_refl)

fun within :: "int \<Rightarrow> route_fee \<Rightarrow> bool" where
  "within m (RouteFee f out) = (f \<le> m)"
| "within m (DeferRoute d f) = True"

lemma wp_route_loop:
  assumes quote: "\<And>a st. I st \<Longrightarrow> wp (quoteOut a) (\<lambda>_. I) I st" and "I st" "fee \<le> m"
  shows "wp (route_loop amountIn need quoteOut grid (Some m) n fee) (\<lambda>p st1. I st1 \<and> within m p) I st"
  using assms(2,3)
proof (induction n arbitrary: fee st)
  case (Suc n)
  show ?case unfolding route_loop.simps Let_def
    by (intro wps wp_cons [OF quote [OF Suc.prems(1)]]) (use Suc.prems in \<open>auto intro!: wps Suc.IH\<close>)
qed (auto intro: wps)

lemma since_quote6: "since v h st \<Longrightarrow> wp (quoteMinOut6 v a) (\<lambda>_. since v h) (since v h) st"
  unfolding quoteMinOut6_def by (intro wps wp_cons [OF since_quote]) simp_all

text \<open>What a plan promises, made in \<open>h\<close> and delivered in \<open>h1\<close>.\<close>

fun sound_plan :: "lenv \<Rightarrow> int \<Rightarrow> int \<Rightarrow> int \<Rightarrow> lh \<Rightarrow> lh \<Rightarrow> launch_plan \<Rightarrow> bool" where
  "sound_plan v i amountIn extra h h1 (LaunchPlan fee q lz short) \<longleftrightarrow> le_quoteDispatch v i h = Inr lz \<and> fee \<le> max 0 (extra - kept_for_lz v lz)
     \<and> bmod (amountIn + fee) SCALE = 0 \<and> short_bps (bdiv amountIn SCALE) (dq_expectedOut q) \<le> lp_maxShortfallBps (le_p v)
     \<and> quoted v (amountIn + fee) q h1"
| "sound_plan v i amountIn extra h h1 (LaunchDefer d) \<longleftrightarrow> True"

lemma since_plan_quote:
  assumes "since v h st" "le_quoteDispatch v i h = Inr lz" "fee \<le> max 0 (extra - kept_for_lz v lz)"
  shows "wp (plan_quote v amountIn lz fee) (\<lambda>p st1. since v h st1 \<and> sound_plan v i amountIn extra h (hist st1) p) (since v h) st"
  unfolding plan_quote_def Let_def by (intro wps wp_cons [OF since_quote]) (use assms in auto)

lemma since_plan:
  assumes "since v (hist st) st"
  shows "wp (lplan v i amountIn extra) (\<lambda>p st1. since v (hist st) st1 \<and> sound_plan v i amountIn extra (hist st) (hist st1) p) (since v (hist st)) st"
proof -
  have grid: "bdiv b SCALE * SCALE \<le> b" "0 \<le> bdiv b SCALE * SCALE" if "0 \<le> b" for b
    using that by (simp_all add: bdiv_nonneg SCALE_def)
  show ?thesis unfolding lplan_def Let_def planRouteFee_def
    by (intro wps wp_cons [OF wp_route_loop [of "since v (hist st)"]])
       (use assms grid in \<open>auto intro!: wps since_quote6 since_plan_quote intro: order_trans split: route_fee.splits\<close>)
qed

lemma silent_must [keeping]: "keeps I (must_match v a b m)"
  unfolding must_match_def by (intro keeping)

lemma wp_route_of: "Q' \<Longrightarrow> (\<And>r. Q' \<Longrightarrow> Q r st) \<Longrightarrow> E st \<Longrightarrow> wp (route_of v a) Q E st"
  by (rule wp_pure) (auto simp: route_of_def intro!: keeping)

lemma due_failed: "launches_due v st \<Longrightarrow> wp (failed v i w) (\<lambda>_. launches_due v) (launches_due v) st"
  unfolding failed_def by (intro wps wp_set_launch) simp_all

lemma due_launched: "launches_due v st \<Longrightarrow> wp (launched v net i o1 lane r fee q short res) (\<lambda>_. launches_due v) (launches_due v) st"
  unfolding launched_def dispatchFunded_def Let_def
  by (intro wps wp_set_launch) (auto)

lemma due_send:
  assumes "since v h st" "le_order v i h = Inr o1" "ho_status o1 = hub_Pending" "sound_plan v i (ho_amountIn o1) (ho_extra o1) h (hist st) (LaunchPlan fee q lz short)"
  shows "wp (send_launch v net i lane o1 fee q short) (\<lambda>_. launches_due v) (launches_due v) st"
  unfolding send_launch_def lsign_def Let_def
  by (intro wps wp_route_of [of True] wp_set_launch) 
     (use assms in \<open>auto simp: since_def worth_def intro!: wps due_failed due_launched exI\<close>)

lemma due_one: "launches_due v st \<Longrightarrow> wp (launchOne v net i lane) (\<lambda>_. launches_due v) (launches_due v) st"
  unfolding launchOne_def
  by (intro wps wp_cons [OF since_plan] since_start)
     (auto intro!: wps due_failed due_send split: launch_plan.splits simp: since_def)

lemma launches_due_still: "launches_due v st \<Longrightarrow> hist st1 = hist st \<Longrightarrow> launches_due v st1"
  by (simp only: launches_due_def)

lemma due_heads: "launches_due v st \<Longrightarrow> wp (launch_heads v net n) (\<lambda>_. launches_due v) (launches_due v) st"
proof (induction n arbitrary: st)
  case (Suc n)
  show ?case unfolding launch_heads.simps by (intro wps wp_cons [OF due_one]) (use Suc in auto)
qed (auto intro: wps)

lemma silent_lwatches: "silent (watchQueue v)" "silent (watchFills v)"
proof -
  have "keeps (\<lambda>st. hist st = h) (watch_fill v x)" for h x
    unfolding watch_fill_def set_launch_def lclock_def by (cases x) (auto intro!: keeping split: option.splits)
  then show "silent (watchFills v)" unfolding watchFills_def by (intro silent_keeps keeping)
  show "silent (watchQueue v)" unfolding watchQueue_def watch_lane_def lclock_def by (intro silent_keeps keeping)
qed

text \<open>C10. Every launch a tick asks for is worth it and checked: the order was pending when the launch began, Relay's answer
  to a request for the principal and the fee passed every check of the quote, its expected output is at most the
  allowed shortfall under the principal, the fee leaves the LayerZero fee with its buffer in the order's own reserve,
  the deposit is whole on the six-decimal grid, and what is signed is the route's own digest of exactly this order and
  quote. A funded order is dispatched only when the hub reads it as funded, at its current fee plus a tenth.\<close>

theorem launch_calls_due:
  assumes "hist st = []" and "hist (snd (launch_tick v net settler st)) = h1 @ (k, c) # h2"
  shows "launch_due v h1 k c"
proof -
  have tick: "wp (launch_tick v net settler) (\<lambda>_. launches_due v) (launches_due v) st1" if "launches_due v st1" for st1
    unfolding launch_tick_def
    by (intro wps wp_cons [OF due_heads] wp_silent [OF silent_lwatches(1)] wp_silent [OF silent_lwatches(2)])
       (use that in \<open>auto intro: launches_due_still\<close>)
  have "launches_due v st" using assms(1) by (simp add: launches_due_def)
  then have "launches_due v (snd (launch_tick v net settler st))"
    by (intro keepsD [of "launches_due v"]) (simp_all add: keeps_wp tick)
  then show ?thesis unfolding launches_due_def by (rule askedD) (rule assms(2))
qed

subsection \<open>A launch confirmed late\<close>

text \<open>
  \<open>launchedAt\<close> is written, the order's deposit checked and a funded order dispatched only in the tick that saw \<open>launchNext\<close>
  confirmed. When the sender reports the transaction in flight and it lands later, the hub no longer reads the order
  as pending, so no later tick does any of it.
\<close>

definition concerns :: "int \<Rightarrow> lcall \<Rightarrow> bool" where
  "concerns i c = (case c of LaunchNext j _ _ _ \<Rightarrow> j = i | Dispatch j _ \<Rightarrow> j = i | AskQuote _ \<Rightarrow> False)"

definition asked_for :: "int \<Rightarrow> lh \<Rightarrow> lh" where
  "asked_for i h = filter (\<lambda>(k, c). concerns i c) h"

lemma asked_for_simps [simp]:
  "asked_for i (h @ h') = asked_for i h @ asked_for i h'" "asked_for i [] = []"
  "asked_for i ((k, c) # h) = (if concerns i c then (k, c) # asked_for i h else asked_for i h)"
  by (simp_all add: asked_for_def)

text \<open>\<open>forgotten i C\<close>: order \<open>i\<close> has no launch time, and \<open>C\<close> is all that was asked for it.\<close>

definition forgotten :: "int \<Rightarrow> lh \<Rightarrow> lstate \<Rightarrow> bool" where
  "forgotten i C st \<longleftrightarrow> canonical ''launches'' (kj st) \<and> la_launchedAt (launch_of (kj st) i) = None \<and> asked_for i (hist st) = C
     \<and> LFill i \<notin> set (outs st)"

lemma launch_of_simps [simp]:
  "launch_of (with_tasks ts j) = launch_of j"
  "launch_of (setRecord now ''launches'' (show_int i) (\<lambda>r. f (orelse r no_launch)) j) k = (if k = i then f (launch_of j i) else launch_of j k)"
  by (auto simp: launch_of_def orelse_def record_of_setRecord fun_eq_iff)

lemma forgotten_set: "forgotten i C st \<Longrightarrow> (\<forall>r. la_launchedAt (f r) = la_launchedAt r) \<or> j \<noteq> i \<Longrightarrow> wp (set_launch v j f) (\<lambda>_. forgotten i C) (forgotten i C) st"
  unfolding set_launch_def by (intro wps) (auto simp: forgotten_def)

lemma forgotten_relay: "forgotten i C st \<Longrightarrow> wp (ask_relay v body) (\<lambda>_. forgotten i C) (forgotten i C) st"
  by (intro wps) (simp_all add: forgotten_def concerns_def)

lemma forgotten_keeps [keeping]:
  "keeps (forgotten i C) (ask_relay v body)"
  "keeps (forgotten i C) (emit (LNote a j s))"
  "keeps (forgotten i C) (emit (LText a j w))" "keeps (forgotten i C) (emit (LDeferred j w))" "keeps (forgotten i C) (emit (LAlerted w))"
  by (simp_all add: keeps_def forgotten_def emit_def ask_relay_def concerns_def)

lemma forgotten_text [simp]: "forgotten i C (st\<lparr>outs := outs st @ [LText a j w]\<rparr>) = forgotten i C st"
  by (simp add: forgotten_def)

lemma forgotten_set_keeps: "(\<forall>r. la_launchedAt (f r) = la_launchedAt r) \<or> j \<noteq> i \<Longrightarrow> keeps (forgotten i C) (set_launch v j f)"
  by (rule wp_keeps) (rule forgotten_set)

lemma forgotten_call: "\<not> concerns i c \<Longrightarrow> keeps (forgotten i C) (call net k c)"
  by (auto simp: keeps_def forgotten_def call_def split: prod.splits)

lemma keeps_route_loop: "(\<And>a. keeps I (q a)) \<Longrightarrow> keeps I (route_loop amountIn need q grid m n fee)"
  by (induction n arbitrary: fee) (auto simp: Let_def intro!: keeping)

lemma forgotten_plan [keeping]: "keeps (forgotten i C) (lplan v j amountIn extra)"
proof -
  have quote: "keeps (forgotten i C) (lquote v a)" for a
    unfolding lquote_def Let_def by (intro keeping)
  have final: "keeps (forgotten i C) (plan_quote v amountIn lz f)" for lz f
    unfolding plan_quote_def Let_def by (intro keeping quote)
  have quote6: "keeps (forgotten i C) (quoteMinOut6 v a)" for a
    unfolding quoteMinOut6_def by (intro keeping quote)
  show ?thesis unfolding lplan_def planRouteFee_def Let_def
    by (intro keeping keeps_route_loop quote6) (auto intro!: keeping final split: route_fee.splits)
qed

lemma forgotten_failed [keeping]: "keeps (forgotten i C) (failed v j w)"
  unfolding failed_def lclock_def by (intro keeping forgotten_set_keeps) simp

lemma forgotten_send: "j \<noteq> i \<Longrightarrow> keeps (forgotten i C) (send_launch v net j lane o1 fee q short)"
  unfolding send_launch_def launched_def lsign_def route_of_def lclock_def dispatchFunded_def Let_def
  by (intro keeping forgotten_set_keeps forgotten_call) (simp_all add: concerns_def)

definition landed :: "lenv \<Rightarrow> int \<Rightarrow> bool" where
  "landed v i \<longleftrightarrow> (\<forall>h o1. le_order v i h = Inr o1 \<longrightarrow> ho_status o1 \<noteq> hub_Pending)"

lemma forgotten_one: "landed v i \<Longrightarrow> keeps (forgotten i C) (launchOne v net j lane)"
proof (rule wp_keeps)
  fix st assume "landed v i" "forgotten i C st"
  then show "wp (launchOne v net j lane) (\<lambda>_. forgotten i C) (forgotten i C) st"
    unfolding launchOne_def
    by (intro wps wp_of_keeps [OF forgotten_failed] wp_of_keeps [OF forgotten_send] wp_cons [OF wp_of_keeps [OF forgotten_plan]])
       (auto simp: landed_def intro!: wps wp_of_keeps [OF forgotten_failed] wp_of_keeps [OF forgotten_send] wp_of_keeps [OF forgotten_keeps(3)] split: launch_plan.splits)
qed

lemma forgotten_heads: "landed v i \<Longrightarrow> keeps (forgotten i C) (launch_heads v net n)"
  by (induction n) (auto intro!: keeping forgotten_one)

lemma forgotten_fill: "j \<noteq> i \<or> la_launchedAt r = None \<Longrightarrow> keeps (forgotten i C) (watch_fill v (j, r))"
proof -
  have emit: "j \<noteq> i \<Longrightarrow> keeps (forgotten i C) (emit (LFill j))" by (simp add: keeps_def forgotten_def emit_def)
  assume "j \<noteq> i \<or> la_launchedAt r = None"
  then show ?thesis unfolding watch_fill_def lclock_def prod.case
    by (intro keeping forgotten_set_keeps emit) auto
qed

lemma forgotten_fills: "keeps (forgotten i C) (watchFills v)"
proof (rule wp_keeps)
  fix st assume f: "forgotten i C st"
  have "j \<noteq> i \<or> la_launchedAt r = None" if "(j, r) \<in> set (launch_entries (kj st))" for j r
    using id_entries_record [of "''launches''" "kj st" j r] that f by (auto simp: forgotten_def launch_entries_def launch_of_def orelse_def)
  then have "keeps (forgotten i C) (watch_fill v x)" if "x \<in> set (launch_entries (kj st))" for x
    using that by (cases x) (auto intro: forgotten_fill)
  then have "wp (each (watch_fill v) (launch_entries (kj st))) (\<lambda>_. forgotten i C) (forgotten i C) st"
    by (intro wp_of_keeps [OF keeps_each] f)
  then show "wp (watchFills v) (\<lambda>_. forgotten i C) (forgotten i C) st" unfolding watchFills_def by (intro wps)
qed

lemma forgotten_tick: "landed v i \<Longrightarrow> keeps (forgotten i C) (launch_tick v net settler)"
proof -
  have settle: "keeps (forgotten i C) (settle_all s)" for s by (simp add: keeps_def forgotten_def settle_all_def split: prod.splits)
  have queue: "keeps (forgotten i C) (watchQueue v)" unfolding watchQueue_def watch_lane_def lclock_def by (intro keeping)
  assume "landed v i"
  then show ?thesis unfolding launch_tick_def by (intro keeping settle queue forgotten_heads forgotten_fills)
qed

text \<open>Ticks in any worlds, with any answers of the sender.\<close>

definition launch_ticks :: "(lenv \<times> lcall caller \<times> lcall settler) list \<Rightarrow> lstate \<Rightarrow> lstate" where
  "launch_ticks ws st = foldl (\<lambda>st (v, net, settler). snd (launch_tick v net settler st)) st ws"

text \<open>C36. A launch that does not confirm within its own tick is forgotten: once it has landed (the hub reads the order as
  anything but pending), no later tick ever records its launch time, asks for the dispatch of the funded order, or
  reports its Relay fill, whatever else happens; so a funded order the reserve could not dispatch stays funded, and a
  failed Relay fill is not noticed.\<close>

theorem late_launch_forgotten:
  assumes "canonical ''launches'' (kj st)" "la_launchedAt (launch_of (kj st) i) = None" "LFill i \<notin> set (outs st)"
    and "\<forall>(v, net, settler)\<in>set ws. landed v i"
  shows "la_launchedAt (launch_of (kj (launch_ticks ws st)) i) = None \<and> asked_for i (hist (launch_ticks ws st)) = asked_for i (hist st)
    \<and> LFill i \<notin> set (outs (launch_ticks ws st))"
proof -
  have "forgotten i (asked_for i (hist st)) (launch_ticks ws st)"
    using assms(4)
  proof (induction ws rule: rev_induct)
    case Nil
    show ?case using assms(1-3) by (simp add: launch_ticks_def forgotten_def)
  next
    case (snoc w ws)
    obtain v net settler where w: "w = (v, net, settler)" by (cases w)
    have "forgotten i (asked_for i (hist st)) (launch_ticks ws st)" by (rule snoc.IH) (use snoc.prems in simp)
    then have "forgotten i (asked_for i (hist st)) (snd (launch_tick v net settler (launch_ticks ws st)))"
      using snoc.prems by (intro keepsD [OF forgotten_tick]) (auto simp: w)
    then show ?case by (simp add: launch_ticks_def w)
  qed
  then show ?thesis by (simp add: forgotten_def)
qed

text \<open>The tick that sends it leaves the launch time unset.\<close>

lemma wp_set_unlaunched:
  assumes "la_launchedAt (launch_of (kj st) i) = None" "\<And>r. la_launchedAt (f r) = la_launchedAt r"
    and Q: "\<And>st1. hist st1 = hist st \<Longrightarrow> la_launchedAt (launch_of (kj st1) i) = None \<Longrightarrow> Q () st1"
  shows "wp (set_launch v j f) Q E st"
  unfolding set_launch_def by (intro wps Q) (use assms(1,2) in auto)

lemma inflight_unrecorded:
  assumes "\<And>h k f q s ts. net h k (LaunchNext i f q s) ts = (Inr (result_of StInflight), ts)" "la_launchedAt (launch_of (kj st) i) = None"
  shows "wp (send_launch v net i lane o1 fee q short) (\<lambda>_ st1. la_launchedAt (launch_of (kj st1) i) = None) (\<lambda>st1. la_launchedAt (launch_of (kj st1) i) = None) st"
  unfolding send_launch_def lsign_def Let_def failed_def
  by (intro wps wp_route_of [of True] wp_set_unlaunched [of _ i]) (use assms in \<open>auto simp: result_of_def\<close>)

subsection \<open>A concrete launcher\<close>

text \<open>Order 7 deposits 10 USDC; Relay pays 10 out. The launch is still in flight when its tick ends
  (\<open>slow_lnet\<close>); after it the hub reads the order as funded.\<close>

definition demo_lorder :: hub_order where
  "demo_lorder = \<lparr>ho_kind = 0, ho_status = hub_Pending, ho_createdAt = 0, ho_settledAt = 0, ho_amountIn = 10 * SCALE, ho_amountOut = 1, ho_fee = 0,
     ho_dispatchedAt = 0, ho_lane = 0, ho_outcome = 0, ho_route = ''0xroute'', ho_extra = 0, ho_held = 0, ho_capKey = ''c''\<rparr>"

definition demo_payment :: "string \<Rightarrow> string \<Rightarrow> string \<Rightarrow> order_payment" where
  "demo_payment chain currency to = \<lparr>op_chainId = Some chain, op_currency = Some currency, op_amount = Some (JNum 10), op_recipient = Some to,
     op_expected = Some (JNum 10), op_minimum = Some (JNum 9)\<rparr>"

definition demo_relay_id :: string where
  "demo_relay_id = ''0x'' @ replicate 64 (CHR ''1'')"

definition demo_raw :: relay_quote where
  "demo_raw = \<lparr>rq_text = ''{}'', rq_steps = None, rq_requestId = Some ''0xr'',
     rq_details = \<lparr>qd_recipient = None, qd_sender = None, qd_inAmount = None, qd_outChainId = None, qd_outAddress = None, qd_outAmount = None, qd_outMinimum = None\<rparr>,
     rq_orderId = Some demo_relay_id,
     rq_inputs = [\<lparr>oi_payment = demo_payment ''arc'' (lp_paymentCurrency LAUNCH_DEFAULTS) ''0xdepository'', oi_refunds = [(Some ''arc'', Some ''0xhub'')]\<rparr>],
     rq_output = \<lparr>oo_chainId = Some ''robinhood'', oo_calls = 0, oo_payments = [demo_payment ''robinhood'' ''0xusdg'' ''0xvault''], oo_deadline = 99\<rparr>\<rparr>"

definition demo_lenv :: lenv where
  "demo_lenv = \<lparr>le_p = LAUNCH_DEFAULTS, le_chainId = 5042, le_hub = ''0xhub'', le_scheduler = ''0xs'', le_vault = ''0xvault'', le_rhChainId = 4663,
     le_rhUsdg = ''0xusdg'', le_getAddress = Inr, le_signer = Some \<lparr>qs_address = ''0xsigner'', qs_sign = (\<lambda>d. d @ ''-signed'')\<rparr>,
     le_receiptHash = (\<lambda>_. ''0xt''), le_ref = (\<lambda>_. ''0xref''), le_routeSent = (\<lambda>_ _. Some (''0xref'', demo_relay_id)),
     le_depositOf = (\<lambda>_ _. Some \<lparr>de_from = ''0xhub'', de_token = lp_paymentCurrency LAUNCH_DEFAULTS, de_amount = 10, de_id = demo_relay_id\<rparr>),
     le_ms = (\<lambda>_. 0), le_now = (\<lambda>_. 100), le_latest = None, le_client = (\<lambda>_ _. Inr demo_raw), le_relayStatus = (\<lambda>_ _. Inr None),
     le_nextLaunch = (\<lambda>h. Inr (length h < 3, 0, 7)), le_queueLength = (\<lambda>_ _. Inr 0),
     le_order = (\<lambda>i h. Inr (if length h < 3 then demo_lorder else demo_lorder\<lparr>ho_status := 5\<rparr>)),
     le_openOrders = (\<lambda>_. Inr [7]), le_quoteDispatch = (\<lambda>_ _. Inr 20),
     le_route = (\<lambda>_ _. Inr \<lparr>ri_signer = ''0xsigner'', ri_caller = ''0xhub'', ri_destination = ''0xvault'', ri_depository = ''0xdepository'',
        ri_nativeToken = Some (lp_paymentCurrency LAUNCH_DEFAULTS)\<rparr>),
     le_digest = (\<lambda>_ _ _. Inr ''0xd''), le_nonce = (\<lambda>_. 1)\<rparr>"

definition landed_lenv :: lenv where
  "landed_lenv = demo_lenv\<lparr>le_nextLaunch := \<lambda>_. Inr (False, 0, 0), le_order := \<lambda>i h. Inr (demo_lorder\<lparr>ho_status := 5\<rparr>)\<rparr>"

definition slow_lnet :: "lcall caller" where
  "slow_lnet h k c ts = (Inr (result_of StInflight), ts)"

definition demo_lst :: lstate where
  "demo_lst = \<lparr>kj = with_tasks [] (open_journal None), hist = [], outs = []\<rparr>"

definition demo_lquote :: route_quote where
  "demo_lquote = \<lparr>rq_orderRef = demo_relay_id, rq_deadline = 400, rq_nonce = 1\<rparr>"

definition idle_settler :: "lcall settler" where
  "idle_settler = (\<lambda>_ ts. (Inr (), ts))"

definition demo_body :: quote_request where
  "demo_body = \<lparr>qr_user = ''0xhub'', qr_recipient = ''0xvault'', qr_originChainId = 5042, qr_destinationChainId = 4663,
     qr_originCurrency = lp_originCurrency LAUNCH_DEFAULTS, qr_destinationCurrency = ''0xusdg'', qr_amount = 10 * SCALE\<rparr>"


definition demo_dquote :: deposit_quote where
  "demo_dquote = \<lparr>dq_orderId = demo_relay_id, dq_requestId = Some ''0xr'', dq_expectedOut = 10, dq_minimumOut = 9, dq_deadline = 99\<rparr>"

lemma demo_quote: "lquote demo_lenv (10 * SCALE) st = (Inr demo_dquote, st\<lparr>hist := hist st @ [(''relay'', AskQuote demo_body)]\<rparr>)"
proof -
  have "validateDepositQuote demo_raw (deposit_checks demo_lenv demo_body (10 * SCALE)) = Inr demo_dquote" by code_simp
  then show ?thesis
    by (simp add: lquote_def demo_lenv_def buildDepositQuoteRequest_def checked_def demo_body_def ask_relay_def deposit_checks_def bindk_def ret_def)
qed

lemma demo_fields:
  "le_quoteDispatch demo_lenv i h = Inr 20" "le_p demo_lenv = LAUNCH_DEFAULTS" "le_nextLaunch demo_lenv h = Inr (length h < 3, 0, 7)"
  "le_order demo_lenv i h = Inr (if length h < 3 then demo_lorder else demo_lorder\<lparr>ho_status := 5\<rparr>)" "le_latest demo_lenv = None" "le_queueLength demo_lenv i h = Inr 0"
  by (simp_all add: demo_lenv_def)

lemma demo_plan: "lplan demo_lenv 7 (10 * SCALE) 0 st = (Inr (LaunchPlan 0 demo_dquote 20 0),
    st\<lparr>hist := hist st @ [(''relay'', AskQuote demo_body), (''relay'', AskQuote demo_body)]\<rparr>)"
proof -
  have nums: "dq_expectedOut demo_dquote = 10" "short_bps 10 10 = 0" "bdiv (10 * SCALE) SCALE = 10" "bmod (10 * SCALE) SCALE = 0" "kept_for_lz demo_lenv 20 = 22"
     "lp_maxShortfallBps LAUNCH_DEFAULTS = 100" by code_simp+
  show ?thesis
    by (simp add: lplan_def plan_quote_def planRouteFee_def quoteMinOut6_def demo_quote bindk_def ret_def rd_def eval_nat_numeral Let_def nums demo_fields)
qed

definition quoted_lst :: lstate where
  "quoted_lst = demo_lst\<lparr>hist := [(''relay'', AskQuote demo_body), (''relay'', AskQuote demo_body)]\<rparr>"

lemma demo_one: "launchOne demo_lenv net 7 0 demo_lst = send_launch demo_lenv net 7 0 demo_lorder 0 demo_dquote 0 quoted_lst"
  by (simp add: launchOne_def demo_lst_def demo_lorder_def demo_fields bindk_def rd_def ret_def tryk_def demo_plan quoted_lst_def)

lemma demo_tick:
  assumes "send_launch demo_lenv net 7 0 demo_lorder 0 demo_dquote 0 quoted_lst = (Inr out, st)" "3 \<le> length (hist st)"
  shows "snd (launch_tick demo_lenv net idle_settler demo_lst) = snd (watchFills demo_lenv st)"
proof -
  have six: "lp_maxPerTick LAUNCH_DEFAULTS = Suc 5" by code_simp
  have "settle_all idle_settler demo_lst = (Inr (), demo_lst)"
    by (simp add: settle_all_def idle_settler_def demo_lst_def with_tasks_def save_def)
  moreover have "launch_heads demo_lenv net (Suc n) demo_lst = (Inr (), st)" for n
  proof -
    have "launch_heads demo_lenv net n st = (Inr (), st)"
      using assms by (cases n) (simp_all add: demo_fields bindk_def rd_def ret_def)
    then show ?thesis
      using assms by (simp add: demo_one demo_fields bindk_def rd_def ret_def) (simp add: demo_lst_def)
  qed
  moreover have "watchQueue demo_lenv st = (Inr (), st)"
    using assms by (simp add: watchQueue_def watch_lane_def demo_fields bindk_def thenk_def rd_def ret_def)
  ultimately have "snd (launch_tick demo_lenv net idle_settler demo_lst) = snd (watchFills demo_lenv st)"
    unfolding launch_tick_def demo_fields six
    by (simp only: thenk_def bindk_def ret_def option.case prod.case sum.case)
  then show ?thesis .
qed

lemma watchFills_hist: "hist (snd (watchFills v st)) = hist st"
  using silent_lwatches(2) by (simp add: silent_def)


lemma demo_route: "route_of demo_lenv ''0xroute'' st = (Inr (''0xdepository'', lp_paymentCurrency LAUNCH_DEFAULTS), st)"
proof -
  have "lp_paymentCurrency LAUNCH_DEFAULTS \<noteq> []" by code_simp
  then show ?thesis
    by (simp add: route_of_def must_match_def same_address_def demo_lenv_def bindk_def thenk_def rd_def ret_def)
qed

lemma demo_sign: "lsign demo_lenv r 7 a f demo_relay_id st = (Inr (demo_lquote, ''0xd-signed''), st)"
  by (simp add: lsign_def lclock_def demo_lenv_def demo_lquote_def LAUNCH_DEFAULTS_def bindk_def rd_def ret_def)


definition slow_send :: "lstate" where
  "slow_send = snd (send_launch demo_lenv slow_lnet 7 0 demo_lorder 0 demo_dquote 0 quoted_lst)"

lemma slow_sent:
  "send_launch demo_lenv slow_lnet 7 0 demo_lorder 0 demo_dquote 0 quoted_lst = (Inr Failed, slow_send)"
  "\<exists>k. hist slow_send = hist quoted_lst @ [(k, LaunchNext 7 0 demo_lquote ''0xd-signed'')]"
  "canonical ''launches'' (kj slow_send)" "la_orderId (launch_of (kj slow_send) 7) = Some demo_relay_id"
  "la_launchedAt (launch_of (kj slow_send) 7) = None" "LFill 7 \<notin> set (outs slow_send)"
proof -
  define key where "key s = projr (lkey demo_lenv s)" for s
  have k: "s \<noteq> [] \<Longrightarrow> lkey demo_lenv s = Inr (key s)" for s
    by (simp add: key_def lkey_def taskKey_def demo_lenv_def)
  have f: "le_getAddress demo_lenv = Inr" "ho_route demo_lorder = ''0xroute''" "dq_orderId demo_dquote = demo_relay_id" "lp_failAlertAfter LAUNCH_DEFAULTS = 3"
    by (simp_all add: demo_lenv_def demo_lorder_def demo_dquote_def LAUNCH_DEFAULTS_def)
  have none: "la_launchedAt (launch_of (open_journal None) i) = None" "la_failures (launch_of (open_journal None) i) = None" for i
    by (simp_all add: launch_of_def orelse_def record_of_def ns_of_def open_journal_def Let_def no_launch_def)
  have set: "launch_of (setRecord now ''launches'' (show_int i) p j) k = (if k = i then p (record_of j (''launches'', show_int i)) else launch_of j k)"
    "orelse (record_of j (''launches'', show_int i)) no_launch = launch_of j i" for now i p j k
    by (auto simp: launch_of_def orelse_def record_of_setRecord)
  show "send_launch demo_lenv slow_lnet 7 0 demo_lorder 0 demo_dquote 0 quoted_lst = (Inr Failed, slow_send)"
    by (simp add: slow_send_def send_launch_def failed_def f demo_route demo_sign k lclock_def set_launch_def put_rec_def call_at_def call_def slow_lnet_def result_of_def
      bindk_def thenk_def rd_def ret_def emit_def getj_def quoted_lst_def demo_lst_def demo_fields none)
  show "\<exists>k. hist slow_send = hist quoted_lst @ [(k, LaunchNext 7 0 demo_lquote ''0xd-signed'')]"
  "canonical ''launches'' (kj slow_send)" "la_orderId (launch_of (kj slow_send) 7) = Some demo_relay_id"
  "la_launchedAt (launch_of (kj slow_send) 7) = None" "LFill 7 \<notin> set (outs slow_send)"
    by (simp_all add: slow_send_def send_launch_def failed_def f demo_route demo_sign k lclock_def set_launch_def put_rec_def call_at_def call_def slow_lnet_def result_of_def
      bindk_def thenk_def rd_def ret_def emit_def getj_def quoted_lst_def demo_lst_def demo_fields none set canonical_open)
qed

lemma slow_tick:
  "hist (snd (launch_tick demo_lenv slow_lnet idle_settler demo_lst)) = hist slow_send"
  "snd (launch_tick demo_lenv slow_lnet idle_settler demo_lst) = snd (watchFills demo_lenv slow_send)"
  using slow_sent(2) demo_tick [OF slow_sent(1)] by (auto simp: watchFills_hist quoted_lst_def)

theorem launch_calls_due_witness:
  "\<exists>k a b. hist (snd (launch_tick demo_lenv slow_lnet idle_settler demo_lst)) = [a, b] @ (k, LaunchNext 7 0 demo_lquote ''0xd-signed'') # []
     \<and> launch_due demo_lenv [a, b] k (LaunchNext 7 0 demo_lquote ''0xd-signed'')"
proof -
  obtain k a b where h: "hist (snd (launch_tick demo_lenv slow_lnet idle_settler demo_lst)) = [a, b] @ (k, LaunchNext 7 0 demo_lquote ''0xd-signed'') # []"
    using slow_sent(2) by (auto simp: slow_tick(1) quoted_lst_def)
  have "hist demo_lst = []" by (simp add: demo_lst_def)
  from launch_calls_due [OF this h] h show ?thesis by blast
qed

theorem late_launch_forgotten_witness:
  "la_orderId (launch_of (kj slow_send) 7) = Some demo_relay_id
   \<and> la_launchedAt (launch_of (kj (launch_ticks (replicate 5 (landed_lenv, slow_lnet, idle_settler)) slow_send)) 7) = None"
  using late_launch_forgotten [OF slow_sent(3,5,6), of "replicate 5 (landed_lenv, slow_lnet, idle_settler)"] slow_sent(4)
  by (auto simp: landed_def landed_lenv_def hub_statuses)

end
