(* ===== verification/Debounce.thy ===== *)
theory Debounce
  imports Keeper_Prelude
begin

section \<open>Collapsing triggers (\<open>makeDebouncer\<close> of \<open>keepers/v3/oracle/decide.mjs\<close>)\<close>

text \<open>
  The variables of the closure are the record; the outside is the order of its three entries: a call of the
  trigger, the timer, and the end of the run (\<open>fn\<close> settled, whether it returned or threw).
\<close>

record debouncer =
  db_timer :: bool
  db_running :: bool
  db_again :: bool
  db_reasons :: "string list"

definition idle :: debouncer where
  "idle = \<lparr>db_timer = False, db_running = False, db_again = False, db_reasons = []\<rparr>"

definition schedule :: "string \<Rightarrow> debouncer \<Rightarrow> debouncer" where
  "schedule why d =
     (let d1 = d\<lparr>db_reasons := (if why \<in> set (db_reasons d) then db_reasons d else db_reasons d @ [why])\<rparr> in
      if db_running d1 then d1\<lparr>db_again := True\<rparr> else d1\<lparr>db_timer := True\<rparr>)"

text \<open>\<open>fire\<close> up to the call of \<open>fn\<close>, with the reasons it is called with, and what follows the call.\<close>

definition fire :: "debouncer \<Rightarrow> string list option \<times> debouncer" where
  "fire d = (if db_running d then (None, d\<lparr>db_timer := False, db_again := True\<rparr>)
     else (Some (db_reasons d), d\<lparr>db_timer := False, db_running := True, db_reasons := []\<rparr>))"

definition finish :: "debouncer \<Rightarrow> debouncer" where
  "finish d = (let d1 = d\<lparr>db_running := False\<rparr> in if db_again d1 then schedule ''follow-up'' (d1\<lparr>db_again := False\<rparr>) else d1)"

definition pending :: "debouncer \<Rightarrow> bool" where
  "pending d = (db_timer d \<or> db_again d)"

subsection \<open>Its runs\<close>

datatype deb_event = Triggered string | Started "string list" | Ended

text \<open>\<open>runs es d\<close>: the events \<open>es\<close>, oldest first, lead from the idle debouncer to \<open>d\<close>. \<open>flush\<close> is the timer's
  callback taken at once.\<close>

inductive runs :: "deb_event list \<Rightarrow> debouncer \<Rightarrow> bool" where
  begins: "runs [] idle"
| trigger: "runs es d \<Longrightarrow> runs (es @ [Triggered why]) (schedule why d)"
| timer: "runs es d \<Longrightarrow> db_timer d \<Longrightarrow> fire d = (Some whys, d') \<Longrightarrow> runs (es @ [Started whys]) d'"
| timer_busy: "runs es d \<Longrightarrow> db_timer d \<Longrightarrow> fire d = (None, d') \<Longrightarrow> runs es d'"
| settled: "runs es d \<Longrightarrow> db_running d \<Longrightarrow> runs (es @ [Ended]) (finish d)"

text \<open>Every trigger of \<open>es\<close> is answered by a later run that names it, or still waits in \<open>left\<close>.\<close>

fun answered :: "string list \<Rightarrow> deb_event list \<Rightarrow> bool" where
  "answered left [] = True"
| "answered left (e # es) = ((case e of Triggered w \<Rightarrow> w \<in> set left \<or> (\<exists>ws. Started ws \<in> set es \<and> w \<in> set ws) | _ \<Rightarrow> True) \<and> answered left es)"

text \<open>A run starts only when the one before it has ended.\<close>

fun alternate :: "bool \<Rightarrow> deb_event list \<Rightarrow> bool" where
  "alternate b [] = True"
| "alternate b (e # es) = (case e of Triggered _ \<Rightarrow> alternate b es | Started _ \<Rightarrow> \<not> b \<and> alternate True es | Ended \<Rightarrow> b \<and> alternate False es)"

definition after :: "bool \<Rightarrow> deb_event list \<Rightarrow> bool" where
  "after b es = foldl (\<lambda>b e. case e of Triggered _ \<Rightarrow> b | Started _ \<Rightarrow> True | Ended \<Rightarrow> False) b es"

lemma alternate_snoc: "alternate b (es @ [e]) \<longleftrightarrow> alternate b es \<and> (case e of Triggered _ \<Rightarrow> True | Started _ \<Rightarrow> \<not> after b es | Ended \<Rightarrow> after b es)"
  by (induction es arbitrary: b) (auto simp: after_def split: deb_event.splits)

lemma answered_snoc_keep: "answered left es \<Longrightarrow> set left \<subseteq> set left' \<Longrightarrow> e \<notin> range Triggered \<Longrightarrow> answered left' (es @ [e])"
  by (induction es) (auto split: deb_event.splits)

lemma answered_trigger: "answered left es \<Longrightarrow> set left \<union> {w} \<subseteq> set left' \<Longrightarrow> answered left' (es @ [Triggered w])"
  by (induction es) (auto split: deb_event.splits)

lemma answered_started: "answered ws es \<Longrightarrow> answered left (es @ [Started ws])"
  by (induction es) (auto split: deb_event.splits)

lemma schedule_fields [simp]:
  "set (db_reasons (schedule w d)) = insert w (set (db_reasons d))" "db_running (schedule w d) = db_running d"
  "db_timer (schedule w d) = (db_timer d \<or> \<not> db_running d)" "db_again (schedule w d) = (db_again d \<or> db_running d)"
  by (auto simp: schedule_def Let_def)

definition deb_inv :: "deb_event list \<Rightarrow> debouncer \<Rightarrow> bool" where
  "deb_inv es d \<longleftrightarrow> \<not> (db_timer d \<and> db_running d) \<and> (db_again d \<longrightarrow> db_running d) \<and> (db_reasons d \<noteq> [] \<longleftrightarrow> pending d)
     \<and> answered (db_reasons d) es \<and> alternate False es \<and> after False es = db_running d"

lemma reasons_schedule: "db_reasons (schedule w d) \<noteq> []"
  by (auto simp: schedule_def Let_def)

lemma runs_inv: "runs es d \<Longrightarrow> deb_inv es d"
proof (induction rule: runs.induct)
  case begins
  show ?case by (simp add: deb_inv_def idle_def pending_def after_def)
next
  case (trigger es d why)
  then show ?case using answered_trigger [of "db_reasons d" es why "db_reasons (schedule why d)"]
    by (auto simp: deb_inv_def pending_def alternate_snoc after_def reasons_schedule)
next
  case (timer es d whys d')
  then show ?case using answered_started [of "db_reasons d" es]
    by (auto simp: deb_inv_def pending_def alternate_snoc after_def fire_def split: if_splits)
next
  case (timer_busy es d d')
  then show ?case by (auto simp: deb_inv_def fire_def split: if_splits)
next
  case (settled es d)
  have "answered (db_reasons (finish d)) (es @ [Ended])"
    using settled.IH by (intro answered_snoc_keep [of "db_reasons d"]) (auto simp: deb_inv_def finish_def Let_def)
  with settled show ?case
    by (auto simp: deb_inv_def pending_def alternate_snoc after_def finish_def Let_def reasons_schedule)
qed

text \<open>C29. Whatever the order of triggers, timers and ends of runs, runs never overlap, and every trigger is named by a
  run that starts after it or still waits with a timer pending or behind the current run.\<close>

theorem debounce_answers:
  assumes "runs es d"
  shows "alternate False es \<and> answered (db_reasons d) es \<and> (db_reasons d \<noteq> [] \<longleftrightarrow> pending d)"
  using runs_inv [OF assms] by (simp add: deb_inv_def)

text \<open>What waits is delivered at once: after the current run, if any, the timer is set and its run names every waiting reason.\<close>

lemma debounce_drains:
  assumes "runs es d" "db_reasons d \<noteq> []"
  shows "let d1 = (if db_running d then finish d else d) in db_timer d1 \<and> (\<exists>ws. fst (fire d1) = Some ws \<and> set (db_reasons d) \<subseteq> set ws)"
  using runs_inv [OF assms(1)] assms(2) by (auto simp: deb_inv_def pending_def fire_def finish_def Let_def)

text \<open>The branch of \<open>fire\<close> for a timer during a run is never taken.\<close>

lemma fire_not_busy: "runs es d \<Longrightarrow> db_timer d \<Longrightarrow> fst (fire d) = Some (db_reasons d)"
  using runs_inv [of es d] by (simp add: deb_inv_def fire_def)

theorem debounce_answers_witness:
  "\<exists>d. runs [Triggered ''event'', Triggered ''tick'', Started [''event'', ''tick''], Triggered ''start'', Ended] d
     \<and> db_reasons d = [''start'', ''follow-up''] \<and> alternate False [Triggered ''event'', Triggered ''tick'', Started [''event'', ''tick''], Triggered ''start'', Ended]"
proof -
  let ?d = "schedule ''tick'' (schedule ''event'' idle)" and ?d1 = "schedule ''start'' \<lparr>db_timer = False, db_running = True, db_again = False, db_reasons = []\<rparr>"
  have two: "runs [Triggered ''event'', Triggered ''tick''] ?d"
    using runs.trigger [OF runs.trigger [OF runs.begins]] by simp
  have "db_timer ?d" "fire ?d = (Some [''event'', ''tick''], \<lparr>db_timer = False, db_running = True, db_again = False, db_reasons = []\<rparr>)" by code_simp+
  from runs.trigger [OF runs.timer [OF two this]]
  have four: "runs [Triggered ''event'', Triggered ''tick'', Started [''event'', ''tick''], Triggered ''start''] ?d1" by simp
  have "db_running ?d1" "db_reasons (finish ?d1) = [''start'', ''follow-up'']" by code_simp+
  with runs.settled [OF four] debounce_answers [OF runs.settled [OF four]] show ?thesis by auto
qed

end
