(* ===== verification/Oracle_Keeper.thy ===== *)
theory Oracle_Keeper
  imports Price_Demand Journal_Codec Keeper_Base
begin

section \<open>The oracle push keeper (\<open>keepers/v3/oracle/keeper.mjs\<close>)\<close>

text \<open>
  One definition per method of \<open>OracleKeeper\<close>. The chain is a parameter: \<open>oe_observe\<close> is \<open>observe\<close> of the source at a block
  (\<open>None\<close>: the latest), with its failure as the message; the keys of \<open>observeAll\<close>'s object are taken in the order of
  the stocks, where the code has the order of the answers. Parsing of logs and of \<open>poke\<close>'s arguments is ABI decoding
  and a parameter. The file of the last push, which the restock keeper reads, is a report (\<open>OLastFile\<close>).
\<close>

subsection \<open>State and world\<close>

record last_push =
  px_stocks :: "(string \<times> pushed) list"
  px_pushedAt :: int
  px_l1Block :: int
  px_txHash :: "string option"
  px_guid :: "string option"
  px_reason :: "trigger option"
  px_by :: string

datatype orec = OLast last_push | OPending "int option"

datatype ocall = Poke "string list" int

datatype oresult = PushNoQuote | PushFeeCap int | PushStatus send_status

datatype oreport = ODecided decision "oresult option" | OAlerted string | OLastFile last_push "string list"

type_synonym oh = "ocall history"

record push_log =
  pl_topic :: string
  pl_address :: string
  pl_txHash :: string
  pl_block :: int
  pl_sent :: "(int \<times> string) option"

record oenv =
  oe_p :: oparams
  oe_underlyings :: "string list"
  oe_sender :: string
  oe_chainId :: int
  oe_execute :: bool
  oe_feeBufferBps :: int
  oe_maxFeeWei :: int
  oe_from :: string
  oe_topics :: "string \<times> string \<times> string"
  oe_sentEvent :: "receipt \<Rightarrow> (int \<times> string) option"
  oe_receiptHash :: "receipt \<Rightarrow> string"
  oe_ms :: "oh \<Rightarrow> int"
  oe_now :: "oh \<Rightarrow> int"
  oe_observe :: "int option \<Rightarrow> string \<Rightarrow> oh \<Rightarrow> current result"
  oe_l1Block :: "int option \<Rightarrow> oh \<Rightarrow> int result"
  oe_quote :: "string list \<Rightarrow> oh \<Rightarrow> int result"
  oe_demandFile :: "oh \<Rightarrow> demand_body option option"
  oe_getTransaction :: "string \<Rightarrow> oh \<Rightarrow> (string list option \<times> string) option result"
  oe_blockTime :: "int \<Rightarrow> oh \<Rightarrow> int option result"
  oe_head :: "oh \<Rightarrow> int result"
  oe_logs :: "int \<Rightarrow> int \<Rightarrow> oh \<Rightarrow> push_log list result"

type_synonym ostate = "(orec, ocall, oreport) kst"
type_synonym 'a oop = "(ostate, 'a) op"

text \<open>\<open>TOPICS\<close> and \<open>PRICES_SENT\<close> are hashes of event signatures.\<close>

definition topic_prices_sent :: "oenv \<Rightarrow> string" where "topic_prices_sent v = fst (oe_topics v)"
definition topic_answer :: "oenv \<Rightarrow> string" where "topic_answer v = fst (snd (oe_topics v))"
definition topic_swap :: "oenv \<Rightarrow> string" where "topic_swap v = snd (snd (oe_topics v))"

definition last_of :: "orec journal \<Rightarrow> last_push option" where
  "last_of j = (case record_of j (''oracle'', ''last'') of Some (OLast l) \<Rightarrow> Some l | _ \<Rightarrow> None)"

definition last_stocks :: "orec journal \<Rightarrow> (string \<times> pushed) list" where
  "last_stocks j = (case last_of j of Some l \<Rightarrow> px_stocks l | None \<Rightarrow> [])"

definition lastPushAt :: "orec journal \<Rightarrow> int" where
  "lastPushAt j = (case last_of j of Some l \<Rightarrow> px_pushedAt l | None \<Rightarrow> 0)"

definition lastL1Block :: "orec journal \<Rightarrow> int" where
  "lastL1Block j = (case last_of j of Some l \<Rightarrow> px_l1Block l | None \<Rightarrow> 0)"

definition pending_since :: "orec journal \<Rightarrow> int" where
  "pending_since j = (case record_of j (''oracle'', ''pending'') of Some (OPending (Some s)) \<Rightarrow> s | _ \<Rightarrow> 0)"

definition saveLast :: "oenv \<Rightarrow> last_push \<Rightarrow> unit oop" where
  "saveLast v l = thenk (put_rec (oe_ms v) ''oracle'' ''last'' (\<lambda>_. OLast l))
     (emit (OLastFile l (map fst (filter (\<lambda>(_, o1). ps_pushedAt o1 = px_pushedAt l) (px_stocks l)))))"

definition set_pending :: "oenv \<Rightarrow> int option \<Rightarrow> unit oop" where
  "set_pending v s = put_rec (oe_ms v) ''oracle'' ''pending'' (\<lambda>_. OPending s)"

subsection \<open>Reads\<close>

definition observeAll :: "oenv \<Rightarrow> int option \<Rightarrow> (string \<times> current result) list oop" where
  "observeAll v tag = rd (\<lambda>h. Inr (map (\<lambda>u. (u, map_sum (take 120) id (oe_observe v tag u h))) (oe_underlyings v)))"

definition none_ok :: "(string \<times> current result) list \<Rightarrow> bool" where
  "none_ok obs = list_all (\<lambda>(_, o1). case o1 of Inl _ \<Rightarrow> True | Inr _ \<Rightarrow> False) obs"

text \<open>A missing, unreadable or rejected demand file is no demand.\<close>

definition readDemand :: "oenv \<Rightarrow> int \<Rightarrow> demand option oop" where
  "readDemand v nowSec = rd (\<lambda>h. Inr (case oe_demandFile v h of None \<Rightarrow> None
     | Some body \<Rightarrow> (case parseDemand body (oe_underlyings v) nowSec (op_demandTtlSec (oe_p v)) of Inl _ \<Rightarrow> None | Inr d \<Rightarrow> Some d)))"

definition twapWatch :: "oenv \<Rightarrow> orec journal \<Rightarrow> bool" where
  "twapWatch v j = (op_twapTrigger (oe_p v) \<and> list_ex (\<lambda>(_, l). twapDivergent l (op_maxTwapBps (oe_p v))) (last_stocks j))"

subsection \<open>Pushes seen on chain\<close>

definition historical :: "oenv \<Rightarrow> int \<Rightarrow> (string \<times> current result) list oop" where
  "historical v block = bindk (observeAll v (Some block)) (\<lambda>obs. if none_ok obs then observeAll v None else ret obs)"

definition adoptPush :: "oenv \<Rightarrow> push_log \<Rightarrow> unit oop" where
  "adoptPush v lg =
     bindk (getj last_of) (\<lambda>l0.
     if (case l0 of Some l \<Rightarrow> px_txHash l = Some (pl_txHash lg) | None \<Rightarrow> False) then ret () else
     bindk (rd (oe_getTransaction v (pl_txHash lg))) (\<lambda>tx.
     let us = (case tx of Some (Some us, _) \<Rightarrow> us | _ \<Rightarrow> oe_underlyings v) in
     bindk (rd (oe_blockTime v (pl_block lg))) (\<lambda>block.
     bindk (historical v (pl_block lg)) (\<lambda>obs.
     case block of None \<Rightarrow> throw ''Cannot read properties of null (reading timestamp)''
     | Some pushedAt \<Rightarrow>
        bindk (getj (\<lambda>j. (lastPushAt j, last_stocks j))) (\<lambda>(at, stocks).
        if pushedAt \<le> at then ret () else
        case pl_sent lg of None \<Rightarrow> throw ''Cannot read properties of null (reading args)''
        | Some (rhBlock, guid) \<Rightarrow>
           (case tx of None \<Rightarrow> throw ''Cannot read properties of null (reading from)''
           | Some (_, from) \<Rightarrow>
              saveLast v \<lparr>px_stocks = recordPush stocks us obs pushedAt (Some rhBlock), px_pushedAt = pushedAt, px_l1Block = rhBlock,
                px_txHash = Some (pl_txHash lg), px_guid = Some guid, px_reason = None, px_by = from\<rparr>))))))"

text \<open>The loop over the logs: the value is whether an evaluation is triggered.\<close>

fun on_logs :: "oenv \<Rightarrow> bool \<Rightarrow> push_log list \<Rightarrow> bool oop" where
  "on_logs v wake [] = ret wake"
| "on_logs v wake (l # ls) =
     (if pl_topic l = topic_prices_sent v \<and> lower (pl_address l) = lower (oe_sender v) then thenk (adoptPush v l) (on_logs v wake ls)
      else if pl_topic l = topic_answer v then on_logs v True ls
      else if pl_topic l = topic_swap v then bindk (getj (twapWatch v)) (\<lambda>w. on_logs v (wake \<or> w) ls)
      else on_logs v wake ls)"

definition onLogs :: "oenv \<Rightarrow> push_log list \<Rightarrow> bool oop" where
  "onLogs v ls = on_logs v False ls"

definition recover :: "oenv \<Rightarrow> int \<Rightarrow> bool oop" where
  "recover v lookbackBlocks =
     bindk (getj (\<lambda>j. record_of j (''oracle'', ''last''))) (\<lambda>r.
     if r \<noteq> None then ret False else
     bindk (rd (oe_head v)) (\<lambda>head.
     bindk (rd (oe_logs v (max 0 (head - lookbackBlocks)) head)) (\<lambda>logs.
     if logs = [] then ret False else thenk (adoptPush v (last logs)) (ret True))))"

subsection \<open>Deciding and pushing\<close>

definition poke_key :: "oenv \<Rightarrow> int \<Rightarrow> string result" where
  "poke_key v since = taskKey (show_int (oe_chainId v)) (oe_sender v) (''poke:'' @ show_int since) ''1''"

text \<open>The episode a push belongs to; a dry run does not write it.\<close>

definition episode :: "oenv \<Rightarrow> int \<Rightarrow> int oop" where
  "episode v nowSec =
     bindk (getj pending_since) (\<lambda>s.
     if s \<noteq> 0 then ret s
     else if oe_execute v then thenk (set_pending v (Some nowSec)) (ret nowSec)
     else ret nowSec)"

definition push_landed :: "oenv \<Rightarrow> decision \<Rightarrow> (string \<times> current result) list \<Rightarrow> int \<Rightarrow> receipt \<Rightarrow> unit oop" where
  "push_landed v d current nowSec rc =
     bindk (case oe_sentEvent v rc of Some (b, _) \<Rightarrow> ret b | None \<Rightarrow> rd (oe_l1Block v (Some (r_block rc)))) (\<lambda>l1Block.
     bindk (observeAll v (Some (r_block rc))) (\<lambda>obs0.
     let obs = (if none_ok obs0 then current else obs0) in
     bindk (rd (oe_blockTime v (r_block rc))) (\<lambda>block.
     let pushedAt = orelse block nowSec in
     bindk (getj last_stocks) (\<lambda>stocks.
     thenk (saveLast v \<lparr>px_stocks = recordPush stocks (dc_underlyings d) obs pushedAt (Some l1Block), px_pushedAt = pushedAt, px_l1Block = l1Block,
        px_txHash = Some (oe_receiptHash v rc), px_guid = map_option snd (oe_sentEvent v rc), px_reason = dc_reason d, px_by = oe_from v\<rparr>)
       (set_pending v None)))))"

definition push_prices :: "oenv \<Rightarrow> ocall caller \<Rightarrow> decision \<Rightarrow> (string \<times> current result) list \<Rightarrow> int \<Rightarrow> oresult oop" where
  "push_prices v net d current nowSec =
     bindk (try_read (oe_quote v (dc_underlyings d))) (\<lambda>quoted.
     case quoted of None \<Rightarrow> ret PushNoQuote
     | Some fee \<Rightarrow>
        if fee > oe_maxFeeWei v then thenk (emit (OAlerted ''oracle-fee-cap'')) (ret (PushFeeCap fee)) else
        bindk (episode v nowSec) (\<lambda>since.
        bindk (call_at net (poke_key v since) (Poke (dc_underlyings d) (bdiv (fee * (10000 + oe_feeBufferBps v)) 10000))) (\<lambda>res.
        if sr_status res = StDryRun then
          bindk (getj last_stocks) (\<lambda>stocks.
          thenk (saveLast v \<lparr>px_stocks = recordPush stocks (dc_underlyings d) current nowSec None, px_pushedAt = nowSec, px_l1Block = 0,
             px_txHash = None, px_guid = None, px_reason = dc_reason d, px_by = ''dry-run''\<rparr>) (ret (PushStatus StDryRun)))
        else if sr_status res \<noteq> StConfirmed then
          bindk (getj (\<lambda>j. case poke_key v since of Inl _ \<Rightarrow> None | Inr k \<Rightarrow> task_of j k)) (\<lambda>task.
          thenk (if (case task of Some t \<Rightarrow> t_state t = Quarantined | None \<Rightarrow> False) then emit (OAlerted ''oracle-push'') else ret ())
            (ret (PushStatus (sr_status res))))
        else case sr_rcpt res of None \<Rightarrow> throw ''Cannot read properties of undefined (reading logs)''
        | Some rc \<Rightarrow> thenk (push_landed v d current nowSec rc) (ret (PushStatus StConfirmed)))))"

definition evaluate :: "oenv \<Rightarrow> ocall caller \<Rightarrow> oresult option oop" where
  "evaluate v net =
     bindk (rd (\<lambda>h. Inr (oe_now v h))) (\<lambda>nowSec.
     bindk (observeAll v None) (\<lambda>current.
     bindk (rd (oe_l1Block v None)) (\<lambda>l1Block.
     bindk (readDemand v nowSec) (\<lambda>demand.
     bindk (getj (\<lambda>j. decidePush (oe_p v) \<lparr>pi_nowSec = nowSec, pi_l1Block = Some l1Block, pi_current = current, pi_last = last_stocks j,
        pi_lastPushAt = lastPushAt j, pi_lastL1Block = lastL1Block j, pi_demand = demand\<rparr>)) (\<lambda>decided.
     case decided of Inl e \<Rightarrow> throw e
     | Inr d \<Rightarrow>
        thenk (if dc_refused d \<noteq> [] then emit (OAlerted ''oracle-demand-divergent'') else ret ())
       (thenk (if list_ex snd (dc_blocked d) then emit (OAlerted ''oracle-market-gate'') else ret ())
       (bindk (if dc_push d then bindk (push_prices v net d current nowSec) (\<lambda>r. ret (Some r)) else ret None) (\<lambda>result.
        thenk (emit (ODecided d result)) (ret result)))))))))"

end
