(* ===== verification/Oracle_Safety.thy ===== *)
theory Oracle_Safety
  imports Oracle_Keeper
begin

section \<open>What the oracle keeper pushes, and what it remembers\<close>

subsection \<open>Every push is due\<close>

definition input_of :: "oenv \<Rightarrow> ostate \<Rightarrow> int \<Rightarrow> demand option \<Rightarrow> push_input" where
  "input_of v st b dm = \<lparr>pi_nowSec = oe_now v (hist st), pi_l1Block = Some b,
     pi_current = map (\<lambda>u. (u, map_sum (take 120) id (oe_observe v None u (hist st)))) (oe_underlyings v), pi_last = last_stocks (kj st),
     pi_lastPushAt = lastPushAt (kj st), pi_lastL1Block = lastL1Block (kj st), pi_demand = dm\<rparr>"

definition poked :: "oenv \<Rightarrow> ostate \<Rightarrow> decision \<Rightarrow> oh \<Rightarrow> bool" where
  "poked v st d h \<longleftrightarrow> h = hist st \<or> (\<exists>k fee since. h = hist st @ [(k, Poke (dc_underlyings d) (bdiv (fee * (10000 + oe_feeBufferBps v)) 10000))]
     \<and> oe_quote v (dc_underlyings d) (hist st) = Inr fee \<and> fee \<le> oe_maxFeeWei v
     \<and> since \<in> {pending_since (kj st), oe_now v (hist st)} \<and> poke_key v since = Inr k)"

lemma silent_saves [keeping]:
  "keeps (\<lambda>st. hist st = h) (saveLast v l)" "keeps (\<lambda>st. hist st = h) (set_pending v s)"
  unfolding saveLast_def set_pending_def by (intro keeping)+

lemma silent_landed: "silent (push_landed v d current now rc)"
  unfolding push_landed_def observeAll_def Let_def by (intro silent_keeps keeping)

lemma wp_episode: "(\<And>s st1. hist st1 = hist st \<Longrightarrow> s \<in> {pending_since (kj st), now} \<Longrightarrow> Q s st1) \<Longrightarrow> wp (episode v now) Q E st"
  unfolding episode_def set_pending_def by (intro wps) simp_all

lemma poked_push: "wp (push_prices v net d current (oe_now v (hist st))) (\<lambda>_ st1. poked v st d (hist st1)) (\<lambda>st1. poked v st d (hist st1)) st"
  unfolding push_prices_def saveLast_def
  by (intro wps wp_episode wp_silent [OF silent_landed]) (auto simp: poked_def)

definition due_poke :: "oenv \<Rightarrow> ostate \<Rightarrow> oh \<Rightarrow> bool" where
  "due_poke v st h \<longleftrightarrow> h = hist st \<or> (\<exists>d b dm. decidePush (oe_p v) (input_of v st b dm) = Inr d \<and> dc_push d \<and> oe_l1Block v None (hist st) = Inr b \<and> poked v st d h)"

lemma due_poke_evaluate: "wp (evaluate v net) (\<lambda>_ st1. due_poke v st (hist st1)) (\<lambda>st1. due_poke v st (hist st1)) st"
proof -
  have push: "wp (push_prices v net d current (oe_now v (hist st))) (\<lambda>_ st2. due_poke v st (hist st2)) (\<lambda>st2. due_poke v st (hist st2)) st1"
    if "decidePush (oe_p v) i = Inr d" "i = input_of v st b dm" "dc_push d" "oe_l1Block v None (hist st) = Inr b" "hist st1 = hist st" "kj st1 = kj st"
    for i d b dm current st1
    using poked_push [of v net d current st1] that
    by (auto simp: due_poke_def poked_def elim!: wp_cons)
  have same: "hist st1 = hist st \<Longrightarrow> due_poke v st (hist st1)" for st1
    by (simp add: due_poke_def)
  show ?thesis
    unfolding evaluate_def observeAll_def readDemand_def
    by (intro wps) (auto intro!: wps wp_cons [OF push] intro: same simp: input_of_def)
qed


subsection \<open>A push confirmed late\<close>

text \<open>What the sender does for the key of a transaction it left in flight, whatever it is asked to send.\<close>

lemma tx_call_resumes:
  assumes t: "get ts k = Some t" "t_state t = Sent" "t_key t = k" "t_hash t = Some hh"
    and w: "world h = (p, now, later)" "p_receipt p hh = Inr (Some rc)" "r_status rc = 1"
  shows "\<exists>ts' t'. tx_call c world encode h k x ts = (Inr \<lparr>sr_status = StConfirmed, sr_rcpt = Some rc, sr_reconciled = True, sr_err = None\<rparr>, ts')
    \<and> get ts' k = Some t' \<and> t_state t' = Confirmed \<and> t_hash t' = Some hh \<and> t_nonce t' = t_nonce t"
proof -
  let ?j = "open_journal (Some \<lparr>tasks = ts, records = []\<rparr>) :: unit journal"
  let ?ts' = "tasks (mem (markConfirmed now k hh (r_block rc) ?j))"
  have task: "task_of ?j k = Some t" using t(1) by (simp add: task_of_def open_journal_def Let_def)
  then have new: "get ?ts' k = Some (t\<lparr>t_state := Confirmed, t_hash := Some hh, t_blockNumber := Some (r_block rc), t_raw := None, t_confirmedAt := Some now, t_updatedAt := now\<rparr>)"
    using task_of_markConfirmed [of now k hh "r_block rc" ?j k] by (simp add: task_of_def old_task_def)
  have "tx_call c world encode h k x ts = (Inr \<lparr>sr_status = StConfirmed, sr_rcpt = Some rc, sr_reconciled = True, sr_err = None\<rparr>, ?ts')"
    using t w task by (simp add: tx_call_def send_def reconcile_def persist_def Let_def)
  with new show ?thesis by auto
qed

lemma last_of_saved [simp]:
  "last_of (setRecord now ''oracle'' ''last'' (\<lambda>_. OLast l) j) = Some l"
  "last_of (setRecord now ''oracle'' ''pending'' p j) = last_of j" "last_of (with_tasks ts j) = last_of j"
  by (simp_all add: last_of_def record_of_setRecord)

lemma last_stocks_saved [simp]:
  "last_stocks (setRecord now ''oracle'' ''pending'' p j) = last_stocks j" "last_stocks (with_tasks ts j) = last_stocks j"
  by (simp_all add: last_stocks_def)

lemma tasks_kept [simp]: "tasks (mem (with_tasks ts j)) = ts" "tasks (mem (setRecord now ns i f j)) = tasks (mem j)"
  by (simp_all add: with_tasks_def setRecord_def put_record_def save_def event_def)

lemma get_recordPush:
  assumes "u \<in> set us" "get obs u = Some (Inr o1)"
  shows "\<exists>l. get (recordPush lastp us obs at b) u = Some l \<and> ps_pushedAt l = at \<and> ob_price18 l = ob_price18 o1"
  using assms
proof (induction us arbitrary: lastp rule: rev_induct)
  case (snoc w us)
  show ?case
  proof (cases "w = u")
    case True
    with snoc.prems show ?thesis by (simp add: recordPush_def record_one_def get_put)
  next
    case False
    with snoc show ?thesis by (auto simp: recordPush_def record_one_def get_put split: option.splits sum.splits)
  qed
qed simp

text \<open>A push whose transaction was still in flight when its evaluation ended is remembered wrongly: when a later
  evaluation decides on another push, the sender takes up the old transaction instead (same episode, nothing is
  signed), and the keeper records the stocks of the new decision as pushed in that transaction's block, even stocks it
  did not carry, and even when a newer push of someone else is already known.\<close>

theorem late_poke_mislabelled:
  assumes episode: "pending_since (kj st) = s" "s \<noteq> 0" "poke_key v s = Inr k"
    and task: "task_of (kj st) k = Some t" "t_state t = Sent" "t_key t = k" "t_hash t = Some hh"
    and world: "world (hist st) = (p, now, later)" "p_receipt p hh = Inr (Some rc)" "r_status rc = 1" "oe_sentEvent v rc = Some (b, g)"
    and fee: "oe_quote v (dc_underlyings d) (hist st) = Inr fee" "fee \<le> oe_maxFeeWei v"
    and time: "\<And>h. oe_blockTime v (r_block rc) h = Inr (Some at)"
    and stock: "u \<in> set (dc_underlyings d)" "u \<in> set (oe_underlyings v)" "\<And>h. oe_observe v (Some (r_block rc)) u h = Inr o1"
    and st1: "push_prices v (tx_call c world encode) d current nowSec st = (r, st1)"
  shows "r = Inr (PushStatus StConfirmed)
    \<and> (\<exists>l q. last_of (kj st1) = Some l \<and> px_pushedAt l = at \<and> px_txHash l = Some (oe_receiptHash v rc)
        \<and> get (px_stocks l) u = Some q \<and> ps_pushedAt q = at \<and> ob_price18 q = ob_price18 o1)
    \<and> (\<exists>t'. task_of (kj st1) k = Some t' \<and> t_state t' = Confirmed \<and> t_hash t' = Some hh \<and> t_nonce t' = t_nonce t)"
proof -
  let ?x = "Poke (dc_underlyings d) (bdiv (fee * (10000 + oe_feeBufferBps v)) 10000)"
  obtain ts' t' where call: "tx_call c world encode (hist st) k ?x (tasks (mem (kj st))) = (Inr \<lparr>sr_status = StConfirmed, sr_rcpt = Some rc, sr_reconciled = True, sr_err = None\<rparr>, ts')"
    and t': "get ts' k = Some t'" "t_state t' = Confirmed" "t_hash t' = Some hh" "t_nonce t' = t_nonce t"
    using tx_call_resumes [of "tasks (mem (kj st))" k t hh world "hist st" p now later rc c encode ?x] task world by (auto simp: task_of_def)
  define h1 where "h1 = hist st @ [(k, ?x)]"
  define obs where "obs = map (\<lambda>u. (u, map_sum (take 120) id (oe_observe v (Some (r_block rc)) u h1))) (oe_underlyings v)"
  have got: "get obs u = Some (Inr o1)"
    using stock(2,3) unfolding obs_def by (simp add: map_of_map_restrict restrict_map_def)
  then have "\<not> none_ok obs"
    unfolding none_ok_def list_all_iff by (force dest: map_of_SomeD)
  then have st1': "r = Inr (PushStatus StConfirmed)" "last_of (kj st1) = Some \<lparr>px_stocks = recordPush (last_stocks (kj st)) (dc_underlyings d) obs at (Some b),
      px_pushedAt = at, px_l1Block = b, px_txHash = Some (oe_receiptHash v rc), px_guid = Some g, px_reason = dc_reason d, px_by = oe_from v\<rparr>"
      "tasks (mem (kj st1)) = ts'"
    using st1 episode fee world(4) time call
    by (auto simp: push_prices_def try_read_def push_landed_def episode_def observeAll_def saveLast_def set_pending_def call_at_def call_def put_rec_def step_defs obs_def h1_def Let_def orelse_def)
  with t' get_recordPush [OF stock(1) got] show ?thesis by (auto simp: task_of_def)
qed

text \<open>The push of \<open>B\<close> alone (\<open>A\<close> could not be read) is in flight; then \<open>A\<close> can be read and a push of both is decided.\<close>

definition demo_oenv :: oenv where
  "demo_oenv = \<lparr>oe_p = ORACLE_DEFAULTS, oe_underlyings = [''A'', ''B''], oe_sender = ''0xs'', oe_chainId = 1, oe_execute = True, oe_feeBufferBps = 1000,
     oe_maxFeeWei = 1000, oe_from = ''0xkeeper'', oe_topics = (''0x1'', ''0x2'', ''0x3''), oe_sentEvent = (\<lambda>_. Some (9, ''0xguid'')), oe_receiptHash = (\<lambda>_. ''0xt''),
     oe_ms = (\<lambda>_. 0), oe_now = (\<lambda>_. 100), oe_observe = (\<lambda>_ _ _. Inr (demo_current 1020)), oe_l1Block = (\<lambda>_ _. Inr 9), oe_quote = (\<lambda>_ _. Inr 50),
     oe_demandFile = (\<lambda>_. None), oe_getTransaction = (\<lambda>_ _. Inr None), oe_blockTime = (\<lambda>_ _. Inr (Some 60)), oe_head = (\<lambda>_. Inr 0), oe_logs = (\<lambda>_ _ _. Inr [])\<rparr>"

definition demo_okey :: string where "demo_okey = ''1:0xs:poke:5:v1''"

definition demo_ostate :: ostate where
  "demo_ostate = \<lparr>kj = with_tasks [(demo_okey, demo_task\<lparr>t_key := demo_okey\<rparr>)] (setRecord 0 ''oracle'' ''pending'' (\<lambda>_. OPending (Some 5)) (open_journal None)),
     hist = [(demo_okey, Poke [''B''] 55)], outs = []\<rparr>"

definition demo_both :: decision where
  "demo_both = \<lparr>dc_push = True, dc_underlyings = [''A'', ''B''], dc_reasons = [(''A'', [Initial])], dc_reason = Some Initial, dc_wait = NoWait,
     dc_skipped = [], dc_blocked = [], dc_refused = []\<rparr>"

theorem late_poke_mislabelled_witness:
  "\<exists>r st1 l q. push_prices demo_oenv (tx_call (demo_sender True) (\<lambda>_. (demo_provider (Some \<lparr>r_status = 1, r_block = 4\<rparr>) 8, 0, 0)) (\<lambda>_ _. demo_request)) demo_both [] 100 demo_ostate = (r, st1)
     \<and> last_of (kj st1) = Some l \<and> get (px_stocks l) ''A'' = Some q \<and> ps_pushedAt q = 60"
proof -
  let ?net = "tx_call (demo_sender True) (\<lambda>_. (demo_provider (Some \<lparr>r_status = 1, r_block = 4\<rparr>) 8, 0, 0)) (\<lambda>_ _. demo_request) :: ocall caller"
  obtain r st1 where run: "push_prices demo_oenv ?net demo_both [] 100 demo_ostate = (r, st1)" by fastforce
  have k: "poke_key demo_oenv 5 = Inr demo_okey" by code_simp
  have s: "pending_since (kj demo_ostate) = 5"
    by (simp add: demo_ostate_def pending_since_def record_of_setRecord)
  have t: "task_of (kj demo_ostate) demo_okey = Some (demo_task\<lparr>t_key := demo_okey\<rparr>)"
    by (simp add: demo_ostate_def task_of_def)
  have "\<exists>l q. last_of (kj st1) = Some l \<and> px_pushedAt l = 60 \<and> px_txHash l = Some (oe_receiptHash demo_oenv \<lparr>r_status = 1, r_block = 4\<rparr>)
      \<and> get (px_stocks l) ''A'' = Some q \<and> ps_pushedAt q = 60 \<and> ob_price18 q = ob_price18 (demo_current 1020)"
    using late_poke_mislabelled [OF s _ k t _ _ _ _ _ _ _ _ _ _ _ _ _ run, of "''hssssssss''" "demo_provider (Some \<lparr>r_status = 1, r_block = 4\<rparr>) 8" 0 0 "\<lparr>r_status = 1, r_block = 4\<rparr>" 9 "''0xguid''" 50 60 "''A''" "demo_current 1020"]
    by (simp add: demo_task_def demo_provider_def demo_oenv_def demo_both_def)
  with run show ?thesis by blast
qed

end
