(* ===== verification/Oracle_Watch.thy ===== *)
theory Oracle_Watch
  imports Oracle_Keeper
begin

section \<open>Catching up with logs (\<open>catchUp\<close> of \<open>keepers/v3/oracle/watch.mjs\<close>)\<close>

text \<open>
  The watcher's state is the highest block read; \<open>wt_handed\<close> remembers, for the statements, the logs handed to the callback
  so far. \<open>wt_inner\<close> is the callback's own state. A \<open>maxRange\<close> below one never gets past its first chunk; here
  it is refused. Only one catch-up runs at a time (\<open>catchingUp\<close>), so a catch-up is one step.
\<close>

record ('l, 's) watching =
  wt_last :: "int option"
  wt_handed :: "'l list"
  wt_inner :: 's

record ('l, 's) watch_env =
  we_maxRange :: int
  we_initialLookback :: int
  we_head :: "'s \<Rightarrow> int result"
  we_getLogs :: "int \<Rightarrow> int \<Rightarrow> 's \<Rightarrow> 'l list result"
  we_onLogs :: "'l list \<Rightarrow> ('s, unit) op"

definition ask_inner :: "('s \<Rightarrow> 'a result) \<Rightarrow> (('l, 's) watching, 'a) op" where
  "ask_inner f st = (f (wt_inner st), st)"

definition scan_done :: "int \<Rightarrow> (('l, 's) watching, unit) op" where
  "scan_done to st = (Inr (), st\<lparr>wt_last := Some to\<rparr>)"

definition hand_over :: "('l, 's) watch_env \<Rightarrow> 'l list \<Rightarrow> (('l, 's) watching, unit) op" where
  "hand_over w logs st = (case we_onLogs w logs (wt_inner st) of (r, s1) \<Rightarrow> (r, st\<lparr>wt_handed := wt_handed st @ logs, wt_inner := s1\<rparr>))"

function catch_loop :: "('l, 's) watch_env \<Rightarrow> int \<Rightarrow> int \<Rightarrow> nat \<Rightarrow> (('l, 's) watching, nat) op" where
  "catch_loop w head from n =
     (if from > head then ret n
      else if we_maxRange w < 1 then throw ''maxRange''
      else let to = min head (from + we_maxRange w - 1) in
        bindk (ask_inner (we_getLogs w from to)) (\<lambda>logs.
        thenk (scan_done to)
       (thenk (if logs = [] then ret () else hand_over w logs)
        (catch_loop w head (to + 1) (n + length logs)))))"
  by auto
termination by (relation "measure (\<lambda>(w, head, from, n). nat (head + 1 - from))") auto

declare catch_loop.simps [simp del]

definition first_block :: "('l, 's) watch_env \<Rightarrow> int \<Rightarrow> int option \<Rightarrow> int" where
  "first_block w head lst = (case lst of None \<Rightarrow> max 0 (head - we_initialLookback w) | Some b \<Rightarrow> b + 1)"

definition catchUp :: "('l, 's) watch_env \<Rightarrow> (('l, 's) watching, nat) op" where
  "catchUp w =
     bindk (ask_inner (we_head w)) (\<lambda>head.
     bindk (\<lambda>st. (Inr (wt_last st), st)) (\<lambda>lst.
     bindk (catch_loop w head (first_block w head lst) 0) (\<lambda>n.
     thenk (\<lambda>st. (Inr (), case wt_last st of None \<Rightarrow> st\<lparr>wt_last := Some head\<rparr> | Some b \<Rightarrow> (if b < head then st\<lparr>wt_last := Some head\<rparr> else st)))
      (ret n))))"

text \<open>The watcher of the oracle keeper hands its logs to \<open>onLogs\<close>.\<close>

definition oracle_watch :: "oenv \<Rightarrow> int \<Rightarrow> int \<Rightarrow> (int \<Rightarrow> int \<Rightarrow> oh \<Rightarrow> push_log list result) \<Rightarrow> (push_log, ostate) watch_env" where
  "oracle_watch v maxRange lookback getLogs = \<lparr>we_maxRange = maxRange, we_initialLookback = lookback, we_head = (\<lambda>st. oe_head v (hist st)),
     we_getLogs = (\<lambda>a b st. getLogs a b (hist st)), we_onLogs = (\<lambda>ls. thenk (onLogs v ls) (ret ()))\<rparr>"

subsection \<open>Every log is handed over once\<close>

text \<open>\<open>honest w block chain\<close>: the provider's logs are those of one chain, oldest first.\<close>

definition honest :: "('l, 's) watch_env \<Rightarrow> ('l \<Rightarrow> int) \<Rightarrow> 'l list \<Rightarrow> bool" where
  "honest w block chain \<longleftrightarrow> sorted (map block chain) \<and> 0 \<le> we_initialLookback w \<and> (\<forall>s h. we_head w s = Inr h \<longrightarrow> 0 \<le> h)
     \<and> (\<forall>a b s ls. we_getLogs w a b s = Inr ls \<longrightarrow> ls = filter (\<lambda>l. a \<le> block l \<and> block l \<le> b) chain)"

definition between :: "('l \<Rightarrow> int) \<Rightarrow> 'l list \<Rightarrow> int \<Rightarrow> int \<Rightarrow> 'l list" where
  "between block chain a b = filter (\<lambda>l. a \<le> block l \<and> block l \<le> b) chain"

lemma between_split: "sorted (map block chain) \<Longrightarrow> a \<le> b + 1 \<Longrightarrow> b \<le> c \<Longrightarrow> between block chain a c = between block chain a b @ between block chain (b + 1) c"
proof (induction chain)
  case (Cons l chain)
  show ?case
  proof (cases "block l \<le> b")
    case False
    with Cons.prems have "between block chain a b = []" by (force simp: between_def filter_empty_conv)
    with False Cons show ?thesis by (auto simp: between_def)
  qed (use Cons in \<open>auto simp: between_def\<close>)
qed (simp add: between_def)

lemma between_empty: "b < a \<Longrightarrow> between block chain a b = []"
  by (auto simp: between_def filter_empty_conv)

lemma wp_ask_inner: "(\<And>x. f (wt_inner st) = Inr x \<Longrightarrow> Q x st) \<Longrightarrow> E st \<Longrightarrow> wp (ask_inner f) Q E st"
  by (simp add: wp_def ask_inner_def split: sum.splits)

lemma wp_scan_done: "Q () (st\<lparr>wt_last := Some to\<rparr>) \<Longrightarrow> wp (scan_done to) Q E st"
  by (simp add: wp_def scan_done_def)

lemma wp_hand_over:
  "(\<And>s1. Q () (st\<lparr>wt_handed := wt_handed st @ logs, wt_inner := s1\<rparr>)) \<Longrightarrow> (\<And>s1. E (st\<lparr>wt_handed := wt_handed st @ logs, wt_inner := s1\<rparr>)) \<Longrightarrow> wp (hand_over w logs) Q E st"
  by (simp add: wp_def hand_over_def split: prod.splits sum.splits)

text \<open>From the block \<open>s\<close> on, exactly the logs up to the last block read were handed over.\<close>

definition handed_from :: "('l \<Rightarrow> int) \<Rightarrow> 'l list \<Rightarrow> int \<Rightarrow> ('l, 's) watching \<Rightarrow> bool" where
  "handed_from block chain s st \<longleftrightarrow> (case wt_last st of None \<Rightarrow> wt_handed st = []
     | Some b \<Rightarrow> s \<le> b + 1 \<and> wt_handed st = between block chain s b)"

definition caught :: "int \<Rightarrow> ('l, 's) watching \<Rightarrow> bool" where
  "caught head st \<longleftrightarrow> (\<exists>b. wt_last st = Some b \<and> head \<le> b)"

lemma catch_loop_handed:
  assumes "honest w block chain" "wt_handed st = between block chain s (from - 1)" "s \<le> from" "handed_from block chain s st" "head < from \<longrightarrow> caught head st"
  shows "wp (catch_loop w head from n) (\<lambda>_ st. handed_from block chain s st \<and> caught head st) (handed_from block chain s) st"
  using assms
proof (induction w head "from" n arbitrary: st rule: catch_loop.induct)
  case (1 w head "from" n)
  let ?to = "min head (from + we_maxRange w - 1)"
  have logs: "\<And>st ls. we_getLogs w from ?to (wt_inner st) = Inr ls \<Longrightarrow> ls = between block chain from ?to"
    using "1.prems"(1) unfolding honest_def between_def by blast
  have join: "between block chain s (from - 1) @ between block chain from ?to = between block chain s ?to"
    if "from \<le> head" "1 \<le> we_maxRange w"
    using that "1.prems"(1,3) between_split [of block chain s "from - 1" ?to] by (simp add: honest_def)
  show ?case
    unfolding catch_loop.simps [of w head "from" n] Let_def
    by (intro wps wp_ask_inner wp_scan_done wp_hand_over "1.IH" refl "1.prems"(1,4))
       (use "1.prems" join in \<open>auto simp: handed_from_def caught_def dest!: logs [symmetric]\<close>)
qed

text \<open>\<open>starts_at w s st\<close>: a watcher that has read nothing yet will begin at the block \<open>s\<close>.\<close>

definition starts_at :: "('l, 's) watch_env \<Rightarrow> int \<Rightarrow> ('l, 's) watching \<Rightarrow> bool" where
  "starts_at w s st \<longleftrightarrow> (wt_last st = None \<longrightarrow> (\<forall>h. we_head w (wt_inner st) = Inr h \<longrightarrow> s = max 0 (h - we_initialLookback w)))"

lemma handed_catchUp:
  assumes "honest w block chain" "starts_at w s st" "handed_from block chain s st"
  shows "handed_from block chain s (snd (catchUp w st)) \<and> (\<forall>n. fst (catchUp w st) = Inr n \<longrightarrow> (\<exists>head. we_head w (wt_inner st) = Inr head \<and> caught head (snd (catchUp w st))))"
proof -
  have start: "wp (catch_loop w head (first_block w head (wt_last st)) 0) (\<lambda>_ st. handed_from block chain s st \<and> caught head st) (handed_from block chain s) st"
    if "we_head w (wt_inner st) = Inr head" "0 \<le> head" for head
  proof (intro catch_loop_handed assms)
    have "max 0 (head - we_initialLookback w) \<le> head" using assms(1) that(2) by (simp add: honest_def)
    then show "head < first_block w head (wt_last st) \<longrightarrow> caught head st"
      by (auto simp: first_block_def caught_def split: option.splits)
  qed (use assms that(1) in \<open>auto simp: handed_from_def first_block_def between_empty starts_at_def split: option.splits\<close>)
  show ?thesis
  proof (cases "we_head w (wt_inner st)")
    case (Inl e)
    with assms(3) show ?thesis by (simp add: catchUp_def bindk_def ask_inner_def)
  next
    case (Inr head)
    then have "0 \<le> head" using assms(1) by (auto simp: honest_def)
    with Inr start [OF Inr] show ?thesis
      by (auto simp: catchUp_def bindk_def thenk_def ret_def ask_inner_def wp_def caught_def split: prod.splits sum.splits option.splits)
  qed
qed

definition catch_ups :: "('l, 's) watch_env list \<Rightarrow> ('l, 's) watching \<Rightarrow> ('l, 's) watching" where
  "catch_ups ws st = foldl (\<lambda>st w. snd (catchUp w st)) st ws"


text \<open>A provider with three logs; the callback throws on the log of block 5, which is not handed over again.\<close>

definition demo_watch :: "int \<Rightarrow> (int, nat) watch_env" where
  "demo_watch head = \<lparr>we_maxRange = 4, we_initialLookback = 10, we_head = (\<lambda>_. Inr head), we_getLogs = (\<lambda>a b _. Inr (filter (\<lambda>l. a \<le> l \<and> l \<le> b) [1, 5, 9])),
     we_onLogs = (\<lambda>ls s. (if 5 \<in> set ls then Inl ''getTransaction failed'' else Inr (), s + length ls))\<rparr>"


end
