(* ===== verification/Desk_World.thy ===== *)
theory Desk_World
  imports Discovery Id_Records Desk_Decide Market Price_Demand
begin

section \<open>State and world of the Desk payout keeper\<close>

text \<open>
  The records of the journal of \<open>keepers/v3/desk/keeper.mjs\<close> are \<open>down\<close> next to those of its scanner. The chain (\<open>dw_\<close> fields
  that take the history), hashing and the demand file are parameters. \<open>dw_eventCounts\<close> is what the loop over a receipt's logs
  counts (\<open>DeskPushed\<close>, \<open>DeskPushBlocked\<close>). A stream's fields are fixed by its key, so the decoder reads the stream
  where the code takes them from an earlier record. \<open>dw_fuel\<close> bounds the scan for new queues, whose end is the first index
  the contract rejects. The counters of \<open>summary.streams\<close> are left out.
\<close>

subsection \<open>Settings, records, calls and reports\<close>

record desk_settings = desk_params +
  dk_priceMarginSec :: int
  dk_demandRefreshSec :: int
  dk_scanMarginSec :: int
  dk_deliverAlertSec :: int
  dk_priceAlertSec :: int
  dk_lookbackDays :: int
  dk_discoveryAlertAfter :: int
  dk_market :: "market_params option"

definition DESK_SETTINGS :: desk_settings where
  "DESK_SETTINGS = desk_params.extend DESK_DEFAULTS \<lparr>dk_priceMarginSec = 900, dk_demandRefreshSec = 600, dk_scanMarginSec = 30,
     dk_deliverAlertSec = 2 * DAY, dk_priceAlertSec = 4 * DAY, dk_lookbackDays = 45, dk_discoveryAlertAfter = 5, dk_market = Some MARKET_DEFAULTS\<rparr>"

record desk_item =
  it_key :: string
  it_source :: string
  it_epoch :: int
  it_asset :: string
  it_kind :: int

record desk_queue = pass_record +
  dq_keys :: "string list"
  dq_revisions :: "int list"
  dq_asset :: string
  dq_upperBound :: int
  dq_adoptedCursor :: "int option"
  dq_ours :: bool
  dq_serviced :: "bool option"
  dq_adopted :: bool
  dq_openedAt :: "int option"
  dq_priceWaitSince :: "int option"
  dq_lastTx :: "string option"

record desk_stream =
  ds_done :: bool
  ds_dust :: bool
  ds_protocolDone :: bool
  ds_empty :: bool
  ds_unbuyable :: bool
  ds_entryId :: "int option"
  ds_sealedSeen :: "int option"
  ds_queueId :: "int option"
  ds_value :: "int option"

datatype down = DHealth int string | DScan int | DEntry int string | DQueue desk_queue | DStream desk_stream

datatype dcall = FundProtocolDesk string
  | ForwardProtocolDesk string
  | EntrySource string
  | SealDesk string int "int \<times> int \<times> int \<times> int"
  | SyncPurchased string int
  | OpenDeskQueue "string list"
  | BatchDesk int int int

datatype dreport = DAct string string send_status | DDefer string string | DAlerted string | DFile "demand_body option" | DNoProgress int

type_synonym dh = "dcall history"

subsection \<open>The world\<close>

record stream_info =
  si_kind :: int
  si_counter :: int
  si_totalCredit27 :: int

record queue_info =
  qi_asset :: string
  qi_upperBound :: int
  qi_cursor :: int
  qi_nextScanAt :: int

record policy =
  po_oracle :: string
  po_maxAge :: int
  po_minimum :: int

record dconf =
  dw_p :: desk_settings
  dw_chainId :: int
  dw_execute :: bool
  dw_hasStatusDir :: bool
  dw_rewards :: string
  dw_nft :: string
  dw_manager :: string
  dw_fuel :: nat
  dw_scanner :: "(desk_item, dcall) scanner"
  dw_queueUnique :: "string list \<times> string \<times> int list \<Rightarrow> string"
  dw_receiptHash :: "receipt \<Rightarrow> string"
  dw_eventCounts :: "receipt \<Rightarrow> int \<times> int"
  dw_ms :: "dh \<Rightarrow> int"
  dw_now :: "dh \<Rightarrow> int"
  dw_wall :: "dh \<Rightarrow> int"
  dw_latest :: "(dh \<Rightarrow> int result) option"
  dw_demandFile :: "dh \<Rightarrow> demand_body option"

record denv = dconf +
  dw_policy :: "dh \<Rightarrow> policy result"
  dw_queue :: "int \<Rightarrow> dh \<Rightarrow> queue_info result"
  dw_queueStreams :: "int \<Rightarrow> dh \<Rightarrow> (string list \<times> int list) result"
  dw_queued :: "string \<Rightarrow> dh \<Rightarrow> bool result"
  dw_stream :: "string \<Rightarrow> dh \<Rightarrow> stream_info result"
  dw_sealed :: "string \<Rightarrow> dh \<Rightarrow> bool result"
  dw_entrySource :: "string \<Rightarrow> dh \<Rightarrow> string result"
  dw_purchasedRaw :: "string \<Rightarrow> dh \<Rightarrow> int result"
  dw_delegatedCredit27 :: "string \<Rightarrow> dh \<Rightarrow> int result"
  dw_delegatedFunded :: "string \<Rightarrow> dh \<Rightarrow> int result"
  dw_deliveryInfo :: "string \<Rightarrow> dh \<Rightarrow> (string \<times> int) result"
  dw_rewardPolicy :: "string \<Rightarrow> int \<Rightarrow> dh \<Rightarrow> (int \<times> int \<times> int \<times> int) result"
  dw_delivered :: "int \<Rightarrow> dh \<Rightarrow> int result"
  dw_available :: "int \<Rightarrow> dh \<Rightarrow> int result"
  dw_pending :: "int \<Rightarrow> dh \<Rightarrow> int result"
  dw_entryReason :: "int \<Rightarrow> dh \<Rightarrow> int result"
  dw_nextEntryId :: "dh \<Rightarrow> int result"
  dw_entryOf :: "int \<Rightarrow> dh \<Rightarrow> string result"
  dw_entryKey :: "string \<Rightarrow> dh \<Rightarrow> (string \<times> string) result"
  dw_price :: "string \<Rightarrow> string \<Rightarrow> dh \<Rightarrow> int result"
  dw_arc :: "string \<Rightarrow> string \<Rightarrow> dh \<Rightarrow> arc_reads result"

type_synonym djournal = "(desk_item, down) drec journal"
type_synonym dstate = "((desk_item, down) drec, dcall, dreport) kst"
type_synonym 'a dkop = "(dstate, 'a) op"

definition ZERO :: string where "ZERO = ''0x'' @ replicate 40 (CHR ''0'')"

definition d_own :: "djournal \<Rightarrow> string \<Rightarrow> string \<Rightarrow> down option" where
  "d_own j ns i = own_of (record_of j (ns, i))"

definition d_set :: "denv \<Rightarrow> string \<Rightarrow> string \<Rightarrow> (down option \<Rightarrow> down) \<Rightarrow> unit dkop" where
  "d_set v ns i f = put_rec (dw_ms v) ns i (\<lambda>r. Own (f (own_of r)))"

definition no_queue :: desk_queue where
  "no_queue = pass_record.extend fresh_pass \<lparr>dq_keys = [], dq_revisions = [], dq_asset = [], dq_upperBound = 0, dq_adoptedCursor = None, dq_ours = False,
     dq_serviced = None, dq_adopted = False, dq_openedAt = None, dq_priceWaitSince = None, dq_lastTx = None\<rparr>"

definition queue_of :: "down option \<Rightarrow> desk_queue option" where
  "queue_of r = (case r of Some (DQueue q) \<Rightarrow> Some q | _ \<Rightarrow> None)"

definition set_queue :: "denv \<Rightarrow> int \<Rightarrow> (desk_queue \<Rightarrow> desk_queue) \<Rightarrow> unit dkop" where
  "set_queue v i f = d_set v ''deskQueue'' (show_int i) (\<lambda>r. DQueue (f (orelse (queue_of r) no_queue)))"

definition queue_entries :: "djournal \<Rightarrow> (int \<times> desk_queue) list" where
  "queue_entries j = List.map_filter (\<lambda>(i, r). map_option (Pair i) (queue_of (own_of (Some r)))) (id_entries j ''deskQueue'')"

definition no_stream :: desk_stream where
  "no_stream = \<lparr>ds_done = False, ds_dust = False, ds_protocolDone = False, ds_empty = False, ds_unbuyable = False, ds_entryId = None,
     ds_sealedSeen = None, ds_queueId = None, ds_value = None\<rparr>"

definition stream_of :: "djournal \<Rightarrow> string \<Rightarrow> desk_stream" where
  "stream_of j i = (case d_own j ''deskStream'' i of Some (DStream s) \<Rightarrow> s | _ \<Rightarrow> no_stream)"

definition set_stream :: "denv \<Rightarrow> string \<Rightarrow> (desk_stream \<Rightarrow> desk_stream) \<Rightarrow> unit dkop" where
  "set_stream v i f = d_set v ''deskStream'' i (\<lambda>r. DStream (f (case r of Some (DStream s) \<Rightarrow> s | _ \<Rightarrow> no_stream)))"

definition scan_next :: "djournal \<Rightarrow> string \<Rightarrow> int option" where
  "scan_next j what = (case d_own j ''deskScan'' what of Some (DScan n) \<Rightarrow> Some n | _ \<Rightarrow> None)"

definition dclock :: "denv \<Rightarrow> int dkop" where
  "dclock v = rd (\<lambda>h. Inr (dw_now v h))"

text \<open>\<open>send\<close>: the call, and an alert once its task is quarantined.\<close>

definition d_send :: "denv \<Rightarrow> dcall caller \<Rightarrow> string \<Rightarrow> string \<Rightarrow> dcall \<Rightarrow> string \<Rightarrow> (send_result \<times> string) dkop" where
  "d_send v net contract what c alertKey =
     (case taskKey (show_int (dw_chainId v)) contract what ''1'' of Inl e \<Rightarrow> throw e
     | Inr key \<Rightarrow>
        bindk (call net key c) (\<lambda>res.
        bindk (getj (\<lambda>j. case task_of j key of Some t \<Rightarrow> t_state t = Quarantined | None \<Rightarrow> False)) (\<lambda>stuck.
        thenk (if stuck then emit (DAlerted alertKey) else ret ()) (ret (res, key)))))"

end
