(* ===== verification/Desk_Keeper.thy ===== *)
theory Desk_Keeper
  imports Desk_World
begin

section \<open>The Desk payout keeper (\<open>keepers/v3/desk/keeper.mjs\<close>)\<close>

text \<open>
  One tick: find the streams, adopt the queues somebody opened, walk every stream to the step it waits on, group
  the ready ones into queues, and serve each queue by at most one batch. \<open>covered\<close> and \<open>policy\<close>, which the class keeps
  for the rest of the tick, are arguments.
\<close>

subsection \<open>Discovery\<close>

definition desk_failures :: "djournal \<Rightarrow> int" where
  "desk_failures j = (case d_own j ''discoveryHealth'' ''desk'' of Some (DHealth n _) \<Rightarrow> n | _ \<Rightarrow> 0)"

definition d_discoverPhase :: "denv \<Rightarrow> unit dkop" where
  "d_discoverPhase v =
     tryk (bindk (sync (dw_scanner v)) (\<lambda>_.
           bindk (getj desk_failures) (\<lambda>n.
           if n \<noteq> 0 then d_set v ''discoveryHealth'' ''desk'' (\<lambda>r. DHealth 0 (case r of Some (DHealth _ e) \<Rightarrow> e | _ \<Rightarrow> [])) else ret ())))
       (\<lambda>e. bindk (getj desk_failures) (\<lambda>n.
           let failures = n + 1 in
           thenk (d_set v ''discoveryHealth'' ''desk'' (\<lambda>_. DHealth failures (take 200 e)))
          (thenk (emit (DDefer ''discovery'' (take 120 e)))
           (if failures \<ge> dk_discoveryAlertAfter (dw_p v) then emit (DAlerted ''desk-discovery'') else ret ()))))"

subsection \<open>Queues on chain\<close>

definition perCardOf :: "denv \<Rightarrow> string \<Rightarrow> int dkop" where
  "perCardOf v key =
     bindk (rd (dw_stream v key)) (\<lambda>s.
     bindk (if si_kind s = 1 then ret 0 else rd (dw_purchasedRaw v key)) (\<lambda>purchased.
     ret (perCardRaw (si_kind s) (si_counter s) (si_totalCredit27 s) purchased)))"

definition queueWorth :: "denv \<Rightarrow> policy \<Rightarrow> desk_queue \<Rightarrow> bool dkop" where
  "queueWorth v po q =
     bindk (collect (perCardOf v) (dq_keys q)) (\<lambda>raws.
     bindk (rd (dw_price v (po_oracle po) (dq_asset q))) (\<lambda>price.
     ret (bdiv (sum_list raws * price) E18 \<ge> po_minimum po)))"

fun read_queues :: "denv \<Rightarrow> nat \<Rightarrow> int \<Rightarrow> int dkop" where
  "read_queues v 0 i = throw ''out of fuel''"
| "read_queues v (Suc n) i =
     bindk (try_read (dw_queue v i)) (\<lambda>q.
     case q of None \<Rightarrow> ret i
     | Some q \<Rightarrow>
        bindk (rd (dw_queueStreams v i)) (\<lambda>(keys, revisions).
        thenk (set_queue v i (\<lambda>r. r\<lparr>dq_keys := keys, dq_revisions := revisions, dq_asset := qi_asset q, dq_upperBound := qi_upperBound q,
             dq_adoptedCursor := (if dq_ours r then dq_adoptedCursor r else Some (qi_cursor q))\<rparr>))
          (read_queues v n (i + 1))))"

text \<open>Whether we serve a queue, decided once; a full pass that already ran is done.\<close>

definition adopt_queue :: "denv \<Rightarrow> policy \<Rightarrow> string list \<Rightarrow> int \<times> desk_queue \<Rightarrow> unit dkop" where
  "adopt_queue v po known = (\<lambda>(i, r).
     if dq_serviced r \<noteq> None \<or> \<not> set (map lower (dq_keys r)) \<subseteq> set known then ret () else
     bindk (tryk (bindk (queueWorth v po r) (\<lambda>w. ret (Some w))) (\<lambda>_. ret None)) (\<lambda>worth.
     case worth of None \<Rightarrow> ret ()
     | Some serviced \<Rightarrow> set_queue v i (\<lambda>x. (x\<lparr>dq_serviced := Some serviced, dq_adopted := True\<rparr>)
          \<lparr>ps_done := (if serviced \<and> dq_adoptedCursor r = Some (dq_upperBound r) then True else ps_done x)\<rparr>)))"

definition covered_keys :: "djournal \<Rightarrow> string list" where
  "covered_keys j = concat (map (\<lambda>(_, r). if dq_serviced r = Some True then map lower (dq_keys r) else []) (queue_entries j))"

definition scanQueues :: "denv \<Rightarrow> policy \<Rightarrow> string list dkop" where
  "scanQueues v po =
     bindk (getj (\<lambda>j. orelse (scan_next j ''queues'') 0)) (\<lambda>start.
     bindk (read_queues v (dw_fuel v) start) (\<lambda>i.
     thenk (if i \<noteq> start then d_set v ''deskScan'' ''queues'' (\<lambda>_. DScan i) else ret ())
    (bindk (getj (\<lambda>j. map sg_id (items (dw_scanner v) j))) (\<lambda>known.
     bindk (getj queue_entries) (\<lambda>qs.
     thenk (each (adopt_queue v po known) qs) (getj covered_keys))))))"

subsection \<open>Streams\<close>

text \<open>The share of protocol cards, checked once: \<open>True\<close> when nothing of it is left behind.\<close>

definition protocolShare :: "denv \<Rightarrow> dcall caller \<Rightarrow> desk_item sighting \<Rightarrow> bool dkop" where
  "protocolShare v net x =
     (let item = sg_body x; key = it_key item in
      bindk (getj (\<lambda>j. ds_protocolDone (stream_of j (sg_id x)))) (\<lambda>already.
      if already then ret True else
      bindk (rd (dw_delegatedCredit27 v key)) (\<lambda>credit.
      bindk (rd (dw_delegatedFunded v key)) (\<lambda>funded.
      if bdiv credit P27 \<le> funded then thenk (set_stream v (sg_id x) (\<lambda>r. r\<lparr>ds_protocolDone := True\<rparr>)) (ret True)
      else
        let meth = (if it_kind item = 0 then ''fundProtocolDeskBudget'' else ''forwardProtocolDesk'') in
        bindk (d_send v net (dw_rewards v) (meth @ '':'' @ key @ '':'' @ show_int credit)
          (if it_kind item = 0 then FundProtocolDesk key else ForwardProtocolDesk key) (''desk-protocol-'' @ key)) (\<lambda>(res, _).
        thenk (emit (DAct meth key (sr_status res))) (ret (sr_status res = StConfirmed)))))))"

record ready_stream = ready +
  rd_revision :: int

definition stockStream :: "denv \<Rightarrow> desk_item \<Rightarrow> ready_stream option dkop" where
  "stockStream v item =
     bindk (rd (dw_deliveryInfo v (it_key item))) (\<lambda>(asset, revision).
     ret (if asset = ZERO \<or> revision = 0 then None
       else Some \<lparr>rk_key = it_key item, rk_asset = asset, rk_perCard = bdiv revision P27, rk_readyAt = (it_epoch item + 1) * DAY, rd_revision = revision\<rparr>))"

text \<open>The stream key of an entry's source, if it is one of ours; sources without these views throw.\<close>

definition deskKeyOf :: "denv \<Rightarrow> string \<Rightarrow> string option dkop" where
  "deskKeyOf v src = bindk (try_read (dw_entryKey v src)) (\<lambda>x. ret (case x of None \<Rightarrow> None
     | Some (rewards, key) \<Rightarrow> if lower rewards \<noteq> lower (dw_rewards v) then None else Some (lower key)))"

definition remember_entry :: "denv \<Rightarrow> int \<Rightarrow> unit dkop" where
  "remember_entry v i =
     bindk (rd (dw_entryOf v i)) (\<lambda>src.
     bindk (deskKeyOf v src) (\<lambda>k.
     case k of None \<Rightarrow> ret () | Some k \<Rightarrow> d_set v ''deskEntry'' k (\<lambda>_. DEntry i src)))"

definition entry_of :: "djournal \<Rightarrow> string \<Rightarrow> int option" where
  "entry_of j k = (case d_own j ''deskEntry'' k of Some (DEntry i _) \<Rightarrow> Some i | _ \<Rightarrow> None)"

definition entryIdOf :: "denv \<Rightarrow> string \<Rightarrow> int option dkop" where
  "entryIdOf v key =
     bindk (getj (\<lambda>j. entry_of j (lower key))) (\<lambda>hit.
     case hit of Some i \<Rightarrow> ret (Some i)
     | None \<Rightarrow>
        bindk (getj (\<lambda>j. orelse (scan_next j ''entries'') 1)) (\<lambda>scan.
        bindk (rd (dw_nextEntryId v)) (\<lambda>lst.
        thenk (each (remember_entry v) [scan..lst])
       (thenk (if lst + 1 > scan then d_set v ''deskScan'' ''entries'' (\<lambda>_. DScan (lst + 1)) else ret ())
        (getj (\<lambda>j. entry_of j (lower key)))))))"

record entry_view =
  ev_delivered :: int
  ev_available :: int
  ev_pending :: int
  ev_purchased :: int

definition entry_view_of :: "denv \<Rightarrow> string \<Rightarrow> int option \<Rightarrow> entry_view dkop" where
  "entry_view_of v key entryId =
     (case entryId of None \<Rightarrow> ret \<lparr>ev_delivered = 0, ev_available = 0, ev_pending = 0, ev_purchased = 0\<rparr>
      | Some i \<Rightarrow>
         bindk (rd (dw_delivered v i)) (\<lambda>d.
         bindk (rd (dw_available v i)) (\<lambda>a.
         bindk (rd (dw_pending v i)) (\<lambda>p.
         bindk (rd (dw_purchasedRaw v key)) (\<lambda>r. ret \<lparr>ev_delivered = d, ev_available = a, ev_pending = p, ev_purchased = r\<rparr>)))))"

text \<open>What one round of the loop does: leave it with a result, or send (\<open>Again\<close>: confirmed, look again).\<close>

datatype stream_step = Leave "ready_stream option" | Again

definition after_send :: "string \<Rightarrow> string \<Rightarrow> send_result \<Rightarrow> stream_step dkop" where
  "after_send kind key res = thenk (emit (DAct kind key (sr_status res))) (ret (if sr_status res \<noteq> StConfirmed then Leave None else Again))"

definition await_round :: "denv \<Rightarrow> string \<Rightarrow> string \<Rightarrow> desk_stream \<Rightarrow> int option \<Rightarrow> stream_step dkop" where
  "await_round v i key rec entryId =
     bindk (dclock v) (\<lambda>now.
     let since = orelse (ds_sealedSeen rec) now in
     thenk (if ds_entryId rec \<noteq> entryId \<or> ds_sealedSeen rec = None
        then set_stream v i (\<lambda>r. r\<lparr>ds_entryId := entryId, ds_sealedSeen := Some since\<rparr>) else ret ())
    (thenk (case entryId of None \<Rightarrow> ret ()
       | Some e \<Rightarrow>
          if now - since > dk_deliverAlertSec (dw_p v) then
            bindk (rd (dw_entryReason v e)) (\<lambda>why. if why \<noteq> 1 then emit (DAlerted (''desk-round-'' @ show_int e)) else ret ())
          else ret ())
    (thenk (emit (DDefer key ''await-round'')) (ret (Leave None)))))"

definition stream_ready :: "denv \<Rightarrow> desk_item sighting \<Rightarrow> desk_stream \<Rightarrow> int option \<Rightarrow> stream_info \<Rightarrow> entry_view \<Rightarrow> stream_step dkop" where
  "stream_ready v x rec entryId s ev =
     (let key = it_key (sg_body x) in
      thenk (if ds_entryId rec \<noteq> entryId then set_stream v (sg_id x) (\<lambda>r. r\<lparr>ds_entryId := entryId\<rparr>) else ret ())
     (bindk (rd (dw_deliveryInfo v key)) (\<lambda>(asset, revision).
      ret (Leave (Some \<lparr>rk_key = key, rk_asset = asset, rk_perCard = perCardRaw 0 (si_counter s) (si_totalCredit27 s) (ev_purchased ev),
        rk_readyAt = (it_epoch (sg_body x) + 1) * DAY, rd_revision = revision\<rparr>)))))"

definition do_stage :: "denv \<Rightarrow> dcall caller \<Rightarrow> desk_item sighting \<Rightarrow> desk_stream \<Rightarrow> bool \<Rightarrow> stream_info \<Rightarrow> string \<Rightarrow> int option \<Rightarrow> entry_view \<Rightarrow> stage \<Rightarrow> stream_step dkop" where
  "do_stage v net x rec protocolDone s src entryId ev st =
     (let item = sg_body x; key = it_key item in
      case st of
        EmptyStream \<Rightarrow> thenk (set_stream v (sg_id x) (\<lambda>r. r\<lparr>ds_done := protocolDone, ds_empty := True\<rparr>)) (ret (Leave None))
      | Unbuyable \<Rightarrow>
          thenk (set_stream v (sg_id x) (\<lambda>r. r\<lparr>ds_done := protocolDone, ds_unbuyable := True, ds_entryId := entryId\<rparr>))
         (thenk (emit (DDefer key ''unbuyable'')) (ret (Leave None)))
      | CreateEntry \<Rightarrow>
          bindk (d_send v net (dw_rewards v) (''entrySource:'' @ key) (EntrySource key) (''desk-entry-'' @ key)) (\<lambda>(res, _). after_send ''entrySource'' key res)
      | SealStream \<Rightarrow>
          bindk (rd (dw_rewardPolicy v src (it_epoch item))) (\<lambda>pol.
          bindk (d_send v net (dw_manager v) (''deskSeal:'' @ key) (SealDesk src (it_epoch item) pol) (''desk-seal-'' @ key)) (\<lambda>(res, _). after_send ''seal'' key res))
      | FindEntry \<Rightarrow> thenk (emit (DDefer key ''sealed entry not found yet'')) (ret (Leave None))
      | SyncEntry \<Rightarrow>
          bindk (d_send v net (dw_rewards v) (''syncPurchased:'' @ key @ '':'' @ show_int (ev_delivered ev)) (SyncPurchased key (orelse entryId 0)) (''desk-sync-'' @ key))
            (\<lambda>(res, _). after_send ''syncPurchased'' key res)
      | AwaitRound \<Rightarrow> await_round v (sg_id x) key rec entryId
      | ReadyStage \<Rightarrow> stream_ready v x rec entryId s ev
      | WaitEpoch \<Rightarrow> ret (Leave None))"

definition stream_once :: "denv \<Rightarrow> dcall caller \<Rightarrow> desk_item sighting \<Rightarrow> desk_stream \<Rightarrow> bool \<Rightarrow> stream_step dkop" where
  "stream_once v net x rec protocolDone =
     (let item = sg_body x; key = it_key item in
      bindk (rd (dw_stream v key)) (\<lambda>s.
      bindk (rd (dw_sealed v key)) (\<lambda>seal.
      bindk (rd (dw_entrySource v key)) (\<lambda>src.
      bindk (if seal \<and> ds_entryId rec = None then entryIdOf v key else ret (ds_entryId rec)) (\<lambda>entryId.
      bindk (entry_view_of v key entryId) (\<lambda>ev.
      bindk (dclock v) (\<lambda>now.
      do_stage v net x rec protocolDone s src entryId ev
        (kind0Stage now (dk_deliverAlertSec (dw_p v)) \<lparr>sv_epoch = it_epoch item, sv_budget = bdiv (si_totalCredit27 s) P27, sv_sealed = seal,
           sv_entrySource = (src \<noteq> ZERO), sv_entryId = entryId, sv_delivered = ev_delivered ev, sv_purchasedRaw = ev_purchased ev,
           sv_available = ev_available ev, sv_pending = ev_pending ev, sv_sealedFor = map_option (\<lambda>t. now - t) (ds_sealedSeen rec)\<rparr>))))))))"

fun stream_loop :: "denv \<Rightarrow> dcall caller \<Rightarrow> desk_item sighting \<Rightarrow> desk_stream \<Rightarrow> bool \<Rightarrow> nat \<Rightarrow> ready_stream option dkop" where
  "stream_loop v net x rec protocolDone 0 = ret None"
| "stream_loop v net x rec protocolDone (Suc n) =
     bindk (stream_once v net x rec protocolDone) (\<lambda>out.
     case out of Leave r \<Rightarrow> ret r | Again \<Rightarrow> stream_loop v net x rec protocolDone n)"

definition usdcStream :: "denv \<Rightarrow> dcall caller \<Rightarrow> desk_item sighting \<Rightarrow> desk_stream \<Rightarrow> bool \<Rightarrow> ready_stream option dkop" where
  "usdcStream v net x rec protocolDone = stream_loop v net x rec protocolDone 5"

definition one_stream :: "denv \<Rightarrow> dcall caller \<Rightarrow> string list \<Rightarrow> desk_item sighting \<Rightarrow> desk_stream \<Rightarrow> ready_stream option dkop" where
  "one_stream v net covered x rec =
     bindk (protocolShare v net x) (\<lambda>protocolDone.
     bindk (if it_kind (sg_body x) = 1 then stockStream v (sg_body x) else usdcStream v net x rec protocolDone) (\<lambda>r.
     if r = None then ret None
     else if sg_id x \<in> set covered then
       thenk (if protocolDone then set_stream v (sg_id x) (\<lambda>s. s\<lparr>ds_done := True\<rparr>) else ret ()) (ret None)
     else ret r))"

definition visit_stream :: "denv \<Rightarrow> dcall caller \<Rightarrow> string list \<Rightarrow> int \<Rightarrow> desk_item sighting \<Rightarrow> ready_stream list dkop" where
  "visit_stream v net covered now x =
     bindk (getj (\<lambda>j. stream_of j (sg_id x))) (\<lambda>rec.
     if ds_done rec \<or> it_epoch (sg_body x) < utcDay now - dk_lookbackDays (dw_p v) \<or> \<not> epochOver now (it_epoch (sg_body x)) then ret [] else
     tryk (bindk (one_stream v net covered x rec) (\<lambda>r. ret (case r of None \<Rightarrow> [] | Some s \<Rightarrow> [s])))
       (\<lambda>e. thenk (emit (DDefer (it_key (sg_body x)) (''read failed'' @ take 120 e))) (ret [])))"

definition streamsPhase :: "denv \<Rightarrow> dcall caller \<Rightarrow> string list \<Rightarrow> ready_stream list dkop" where
  "streamsPhase v net covered =
     bindk (dclock v) (\<lambda>now.
     bindk (getj (items (dw_scanner v))) (\<lambda>xs.
     bindk (collect (visit_stream v net covered now) xs) (\<lambda>rs. ret (concat rs))))"

subsection \<open>Opening queues\<close>

definition read_price :: "denv \<Rightarrow> policy \<Rightarrow> string \<Rightarrow> (string \<times> int) dkop" where
  "read_price v po asset = bindk (try_read (dw_price v (po_oracle po) asset)) (\<lambda>p. ret (asset, orelse p 0))"

definition record_dust :: "denv \<Rightarrow> string \<times> int \<Rightarrow> unit dkop" where
  "record_dust v = (\<lambda>(key, value).
     thenk (set_stream v (lower key) (\<lambda>r. r\<lparr>ds_done := True, ds_dust := True, ds_value := Some value\<rparr>)) (emit (DDefer key ''dust'')))"

definition queue_unique :: "denv \<Rightarrow> desk_queue \<Rightarrow> string" where
  "queue_unique v q = dw_queueUnique v (dq_keys q, dq_asset q, dq_revisions q)"

definition link_streams :: "denv \<Rightarrow> int \<Rightarrow> string list \<Rightarrow> unit dkop" where
  "link_streams v i keys = each (\<lambda>k. set_stream v (lower k) (\<lambda>r. r\<lparr>ds_queueId := Some i\<rparr>)) keys"

definition adopt_opened :: "denv \<Rightarrow> string \<Rightarrow> string list \<Rightarrow> unit dkop" where
  "adopt_opened v unique keys =
     bindk (getj (\<lambda>j. find (\<lambda>(_, r). queue_unique v r = unique) (queue_entries j))) (\<lambda>hit.
     case hit of None \<Rightarrow> emit (DDefer unique ''queue exists, adopting next tick'')
     | Some (i, _) \<Rightarrow>
        thenk (set_queue v i (\<lambda>r. r\<lparr>dq_serviced := Some True, dq_adopted := True\<rparr>))
       (thenk (link_streams v i keys) (emit (DDefer (show_int i) ''adoptQueue''))))"

definition claim_queue :: "denv \<Rightarrow> string \<Rightarrow> int \<Rightarrow> unit dkop" where
  "claim_queue v unique i =
     bindk (getj (\<lambda>j. queue_of (d_own j ''deskQueue'' (show_int i)))) (\<lambda>rec.
     case rec of None \<Rightarrow> throw ''Cannot read properties of null (reading keys)''
     | Some r \<Rightarrow>
        if queue_unique v r \<noteq> unique then ret () else
        bindk (dclock v) (\<lambda>now.
        thenk (set_queue v i (\<lambda>r. (r\<lparr>dq_ours := True, dq_serviced := Some True, dq_adopted := False, dq_openedAt := Some now\<rparr>)\<lparr>ps_done := False\<rparr>))
          (link_streams v i (dq_keys r))))"

definition open_group_queue :: "denv \<Rightarrow> dcall caller \<Rightarrow> policy \<Rightarrow> ready_stream list \<Rightarrow> open_group \<Rightarrow> unit dkop" where
  "open_group_queue v net po ready g =
     (let revisions = map (\<lambda>k. case find (\<lambda>r. rk_key r = k) (rev ready) of Some r \<Rightarrow> rd_revision r | None \<Rightarrow> 0) (og_keys g);
          unique = dw_queueUnique v (og_keys g, og_asset g, revisions)
      in bindk (rd (dw_queued v unique)) (\<lambda>queued.
      if queued then adopt_opened v unique (og_keys g) else
      bindk (d_send v net (dw_nft v) (''openDesk:'' @ unique) (OpenDeskQueue (og_keys g)) (''desk-open-'' @ unique)) (\<lambda>(res, _).
      thenk (emit (DAct ''openDeskQueue'' unique (sr_status res)))
      (if sr_status res \<noteq> StConfirmed then ret () else
       bindk (getj (\<lambda>j. orelse (scan_next j ''queues'') 0)) (\<lambda>before.
       thenk (bindk (scanQueues v po) (\<lambda>_. ret ()))
      (bindk (getj (\<lambda>j. orelse (scan_next j ''queues'') 0)) (\<lambda>after.
       each (claim_queue v unique) [before..after - 1])))))))"

definition openPhase :: "denv \<Rightarrow> dcall caller \<Rightarrow> policy \<Rightarrow> ready_stream list \<Rightarrow> unit dkop" where
  "openPhase v net po ready =
     (if ready = [] then ret () else
      bindk (collect (read_price v po) (rev (remdups (rev (map rk_asset ready))))) (\<lambda>prices.
      let plan = planGroups (map ready.truncate ready) prices (po_minimum po) (maxKeysPerQueue (dw_p v)) (marginBps (dw_p v)) in
      thenk (each (record_dust v) (gs_dust plan))
        (each (open_group_queue v net po ready) (gs_open plan))))"

subsection \<open>Price\<close>

datatype price_state = PriceOk | PriceWait string

definition ask_push :: "denv \<Rightarrow> int \<Rightarrow> arc_check \<Rightarrow> price_state dkop" where
  "ask_push v i check =
     (let why = ''awaiting oracle push: '' @ ck_reason check in
      if \<not> dw_execute v then ret (PriceWait why)
      else if \<not> dw_hasStatusDir v then throw ''desk keeper: statusDir (or desk.demandDir) required to request an oracle push''
      else bindk (rd (\<lambda>h. Inr (dw_demandFile v h, dw_wall v h))) (\<lambda>(file, wall).
        let file' = snd (requestPush file ''desk'' [ck_underlying check] (''Desk payout q'' @ show_int i) wall (dk_demandRefreshSec (dw_p v)) 1800) in
        thenk (if file' \<noteq> file then emit (DFile file') else ret ()) (ret (PriceWait why))))"

definition d_priceReady :: "denv \<Rightarrow> policy \<Rightarrow> string \<Rightarrow> int \<Rightarrow> int \<Rightarrow> price_state dkop" where
  "d_priceReady v po asset i nowSec =
     bindk (tryk (bindk (rd (dw_arc v (po_oracle po) asset)) (\<lambda>arc. ret (Inr (checkArcPrice arc asset nowSec (Some (po_maxAge po)) (dk_priceMarginSec (dw_p v))))))
        (\<lambda>e. ret (Inl e))) (\<lambda>check.
     case check of Inl e \<Rightarrow> ret (PriceWait (''price read failed: '' @ take 80 e))
     | Inr ck \<Rightarrow>
        if ck_fresh ck then
          thenk (if dw_execute v \<and> dw_hasStatusDir v
             then bindk (rd (\<lambda>h. Inr (dw_demandFile v h))) (\<lambda>file.
                let file' = snd (clearRequest file ''desk'' (Some [ck_underlying ck])) in
                if file' \<noteq> file then emit (DFile file') else ret ()) else ret ()) (ret PriceOk)
        else if \<not> ck_demandable ck then ret (PriceWait (''price not usable: '' @ ck_reason ck))
        else bindk (case dk_market (dw_p v) of None \<Rightarrow> ret True | Some params \<Rightarrow> rd (\<lambda>_. map_sum id is_open (sessionState nowSec params))) (\<lambda>open_now.
          if \<not> open_now then ret (PriceWait ''market closed: waiting for a session price'') else ask_push v i ck))"

subsection \<open>Serving queues\<close>

definition with_pass :: "pass_record \<Rightarrow> desk_queue \<Rightarrow> desk_queue" where
  "with_pass p q = pass_record.extend p (pass_record.more q)"

text \<open>After a confirmed batch. \<open>rec\<close> is the record as the loop holds it; the patch repeats all of it.\<close>

definition desk_batch_landed :: "denv \<Rightarrow> int \<Rightarrow> desk_queue \<Rightarrow> string \<Rightarrow> int \<Rightarrow> int \<Rightarrow> send_result \<Rightarrow> unit dkop" where
  "desk_batch_landed v i rec key start upperBound res =
     (let (paid, bad) = (case sr_rcpt res of Some rc \<Rightarrow> dw_eventCounts v rc | None \<Rightarrow> (0, 0)) in
      bindk (rd (dw_queue v i)) (\<lambda>q.
      let upd = passUpdate (pass_record.truncate rec) start (qi_cursor q) upperBound paid bad (maxPasses (dw_p v)) in
      case pu_patch upd of
        None \<Rightarrow>
          bindk (rd (\<lambda>h. Inr (dw_ms v h))) (\<lambda>ms.
          thenk (modj (markFailure ms key ''batch confirmed with zero progress'' False))
         (thenk (emit (DAlerted (''desk-queue-'' @ show_int i @ ''-stall''))) (emit (DNoProgress i))))
      | Some patch \<Rightarrow>
          thenk (set_queue v i (\<lambda>_. (with_pass patch rec)\<lparr>dq_lastTx := map_option (dw_receiptHash v) (sr_rcpt res)\<rparr>))
         (thenk (if pu_alert upd then emit (DAlerted (''desk-queue-'' @ show_int i)) else ret ())
           (emit (DAct ''batchDistributeDesk'' (show_int i) StConfirmed)))))"

definition desk_batch_op :: "int \<Rightarrow> int \<Rightarrow> int \<Rightarrow> string" where
  "desk_batch_op i nextScanAt start = ''deskBatch:'' @ show_int i @ '':'' @ show_int nextScanAt @ '':'' @ show_int start"

definition serve_batch :: "denv \<Rightarrow> dcall caller \<Rightarrow> int \<Rightarrow> desk_queue \<Rightarrow> queue_info \<Rightarrow> unit dkop" where
  "serve_batch v net i rec q =
     (let g = deskGasPlan (desk_params.truncate (dw_p v)) (int (length (dq_keys rec))) MAX_CARDS;
          start = (if qi_cursor q = qi_upperBound q then 0 else qi_cursor q)
      in bindk (d_send v net (dw_nft v) (desk_batch_op i (qi_nextScanAt q) start) (BatchDesk i (dg_cards g) (dg_gasLimit g)) (''desk-batch-'' @ show_int i)) (\<lambda>(res, key).
      if sr_status res \<noteq> StConfirmed then emit (DAct ''batchDistributeDesk'' (show_int i) (sr_status res))
      else desk_batch_landed v i rec key start (qi_upperBound q) res))"

definition wait_price :: "denv \<Rightarrow> int \<Rightarrow> desk_queue \<Rightarrow> int \<Rightarrow> string \<Rightarrow> unit dkop" where
  "wait_price v i rec now why =
     (let since = orelse (dq_priceWaitSince rec) now in
      thenk (if dq_priceWaitSince rec = None then set_queue v i (\<lambda>r. r\<lparr>dq_priceWaitSince := Some since\<rparr>) else ret ())
     (thenk (if now - since > dk_priceAlertSec (dw_p v) then emit (DAlerted (''desk-price-'' @ show_int i)) else ret ())
       (emit (DDefer (show_int i) why))))"

definition serve_queue :: "denv \<Rightarrow> dcall caller \<Rightarrow> policy \<Rightarrow> int \<Rightarrow> int \<times> desk_queue \<Rightarrow> unit dkop" where
  "serve_queue v net po now = (\<lambda>(i, rec).
     if dq_serviced rec \<noteq> Some True \<or> ps_done rec then ret () else
     bindk (rd (dw_queue v i)) (\<lambda>q.
     if now mod DAY < SCAN_OFFSET + dk_scanMarginSec (dw_p v) then emit (DDefer (show_int i) ''scan-window'')
     else if now < qi_nextScanAt q then emit (DDefer (show_int i) ''scheduled'')
     else bindk (d_priceReady v po (qi_asset q) i now) (\<lambda>price.
       case price of PriceWait why \<Rightarrow> wait_price v i rec now why
       | PriceOk \<Rightarrow>
          thenk (if dq_priceWaitSince rec \<noteq> None then set_queue v i (\<lambda>r. r\<lparr>dq_priceWaitSince := None\<rparr>) else ret ())
            (serve_batch v net i (rec\<lparr>dq_priceWaitSince := None\<rparr>) q))))"

definition servicePhase :: "denv \<Rightarrow> dcall caller \<Rightarrow> policy \<Rightarrow> unit dkop" where
  "servicePhase v net po = bindk (dclock v) (\<lambda>now. bindk (getj queue_entries) (each (serve_queue v net po now)))"

definition desk_tick :: "denv \<Rightarrow> dcall caller \<Rightarrow> dcall settler \<Rightarrow> unit dkop" where
  "desk_tick v net settler =
     thenk (case dw_latest v of Some f \<Rightarrow> bindk (rd f) (\<lambda>_. ret ()) | None \<Rightarrow> ret ())
    (thenk (settle_all settler)
    (thenk (d_discoverPhase v)
    (bindk (rd (dw_policy v)) (\<lambda>po.
     bindk (scanQueues v po) (\<lambda>covered.
     bindk (streamsPhase v net covered) (\<lambda>ready.
     thenk (openPhase v net po ready) (servicePhase v net po)))))))"

end
