(* ===== verification/Desk_Safety.thy ===== *)
theory Desk_Safety
  imports Desk_Keeper
begin

section \<open>What the Desk keeper asks for, and what it loses\<close>

subsection \<open>Calls that are due\<close>

definition share_due :: "denv \<Rightarrow> dh \<Rightarrow> string \<Rightarrow> bool" where
  "share_due v h key \<longleftrightarrow> (\<exists>credit funded. dw_delegatedCredit27 v key h = Inr credit \<and> dw_delegatedFunded v key h = Inr funded \<and> funded < bdiv credit P27)"

text \<open>The stream is final, unsealed and worth a seal.\<close>

definition sealable :: "denv \<Rightarrow> dh \<Rightarrow> string \<Rightarrow> int \<Rightarrow> bool" where
  "sealable v h key e \<longleftrightarrow> dw_sealed v key h = Inr False \<and> (\<exists>s. dw_stream v key h = Inr s \<and> USDC_GRID \<le> bdiv (si_totalCredit27 s) P27) \<and> epochOver (dw_now v h) e"

text \<open>\<open>now\<close> is read once per phase, \<open>po\<close> once per tick.\<close>

definition batch_due :: "denv \<Rightarrow> dh \<Rightarrow> int \<Rightarrow> bool" where
  "batch_due v h i \<longleftrightarrow> (\<exists>h1 h2 q po arc. earlier h1 h \<and> earlier h2 h \<and> dw_policy v h2 = Inr po \<and> dw_queue v i h = Inr q
     \<and> qi_nextScanAt q \<le> dw_now v h1 \<and> SCAN_OFFSET + dk_scanMarginSec (dw_p v) \<le> dw_now v h1 mod DAY
     \<and> dw_arc v (po_oracle po) (qi_asset q) h = Inr arc
     \<and> ck_fresh (checkArcPrice arc (qi_asset q) (dw_now v h1) (Some (po_maxAge po)) (dk_priceMarginSec (dw_p v))))"

fun desk_due :: "denv \<Rightarrow> dh \<Rightarrow> string \<Rightarrow> dcall \<Rightarrow> bool" where
  "desk_due v h k (FundProtocolDesk key) = share_due v h key"
| "desk_due v h k (ForwardProtocolDesk key) = share_due v h key"
| "desk_due v h k (EntrySource key) = (dw_entrySource v key h = Inr ZERO \<and> (\<exists>e. sealable v h key e))"
| "desk_due v h k (SealDesk src e pol) = (src \<noteq> ZERO \<and> dw_rewardPolicy v src e h = Inr pol \<and> (\<exists>key. dw_entrySource v key h = Inr src \<and> sealable v h key e))"
| "desk_due v h k (SyncPurchased key i) = (dw_sealed v key h = Inr True \<and> (\<exists>d r. dw_delivered v i h = Inr d \<and> dw_purchasedRaw v key h = Inr r \<and> r < d))"
| "desk_due v h k (OpenDeskQueue keys) = (keys \<noteq> [] \<and> length keys \<le> 20 \<and> (\<exists>asset revisions. dw_queued v (dw_queueUnique v (keys, asset, revisions)) h = Inr False))"
| "desk_due v h k (BatchDesk i cards gas) = (batch_due v h i
     \<and> (\<exists>n::nat. deskGasPlan (desk_params.truncate (dw_p v)) (int n) MAX_CARDS = \<lparr>dg_cards = cards, dg_gasLimit = gas, dg_reserve = 500000 * int n + 100000\<rparr>))"

definition desk_dues :: "denv \<Rightarrow> dstate \<Rightarrow> bool" where
  "desk_dues v st \<longleftrightarrow> asked (desk_due v) (hist st)"

lemma desk_dues_prims [simp]:
  "desk_dues v (st\<lparr>kj := j\<rparr>) = desk_dues v st"
  "desk_dues v (st\<lparr>outs := os\<rparr>) = desk_dues v st"
  "desk_dues v (st\<lparr>hist := h\<rparr>) = asked (desk_due v) h"
  "desk_dues v (st\<lparr>kj := j, hist := h\<rparr>) = asked (desk_due v) h"
  "asked (desk_due v) (hist st) = desk_dues v st"
  by (simp_all add: desk_dues_def)

text \<open>The same, with a clock and a policy read earlier.\<close>

definition desk_since :: "denv \<Rightarrow> dh \<Rightarrow> dstate \<Rightarrow> bool" where
  "desk_since v h st \<longleftrightarrow> desk_dues v st \<and> earlier h (hist st)"

lemma desk_since_prims [simp]:
  "desk_since v h (st\<lparr>kj := j\<rparr>) = desk_since v h st"
  "desk_since v h (st\<lparr>outs := os\<rparr>) = desk_since v h st"
  by (simp_all add: desk_since_def)

lemma keeps_since [keeping]:
  "keeps (desk_since v h) (emit x)" "keeps (desk_since v h) (put_rec clock ns i f)" "keeps (desk_since v h) (modj g)"
  by (simp_all add: keeps_def emit_def put_rec_def modj_def)

lemma wp_dclock [wps]: "Q (dw_now v (hist st)) st \<Longrightarrow> E st \<Longrightarrow> wp (dclock v) Q E st"
  by (auto simp: dclock_def intro!: wps)

lemma keeps_sets [keeping]:
  "(\<And>ns i f. keeps I (put_rec (dw_ms v) ns i f)) \<Longrightarrow> keeps I (d_set v ns i g)"
  "(\<And>ns i f. keeps I (put_rec (dw_ms v) ns i f)) \<Longrightarrow> keeps I (set_stream v k g')"
  "(\<And>ns i f. keeps I (put_rec (dw_ms v) ns i f)) \<Longrightarrow> keeps I (set_queue v n g'')"
  by (simp_all add: d_set_def set_stream_def set_queue_def)

lemma wp_sets:
  "(\<And>j. Q () (st\<lparr>kj := j\<rparr>)) \<Longrightarrow> wp (d_set v ns i g) Q E st" "(\<And>j. Q () (st\<lparr>kj := j\<rparr>)) \<Longrightarrow> wp (set_stream v k g') Q E st"
  "(\<And>j. Q () (st\<lparr>kj := j\<rparr>)) \<Longrightarrow> wp (set_queue v n g'') Q E st"
  by (simp_all add: d_set_def set_stream_def set_queue_def wp_put_rec)

lemma keeps_dclock [keeping]: "keeps I (dclock v)"
  unfolding dclock_def by (intro keeping)

subsection \<open>Each operation\<close>

lemma since_send:
  assumes "desk_since v h st" "\<And>k. desk_due v (hist st) k c"
    and Q: "\<And>r st1. desk_since v h st1 \<Longrightarrow> Q r st1" and E: "\<And>st1. desk_since v h st1 \<Longrightarrow> E st1"
  shows "wp (d_send v net contract what c al) Q E st"
  unfolding d_send_def
  by (intro wps Q E) (use assms(1,2) in \<open>auto simp: desk_since_def intro: earlier_snoc\<close>)

lemma since_share: "desk_since v h st \<Longrightarrow> wp (protocolShare v net x) (\<lambda>_. desk_since v h) (desk_since v h) st"
  unfolding protocolShare_def Let_def
  by (intro wps since_send wp_sets) (auto simp: share_due_def)

lemma silent_entryIdOf: "silent (entryIdOf v key)"
  unfolding entryIdOf_def remember_entry_def deskKeyOf_def by (intro silent_keeps keeping)

lemma wp_entry_view: "(\<And>ev. (\<And>i. e = Some i \<Longrightarrow> dw_delivered v i (hist st) = Inr (ev_delivered ev) \<and> dw_purchasedRaw v key (hist st) = Inr (ev_purchased ev)) \<Longrightarrow> Q ev st) \<Longrightarrow> E st
   \<Longrightarrow> wp (entry_view_of v key e) Q E st"
  unfolding entry_view_of_def by (intro wps) simp_all

lemma since_still: "desk_since v h st \<Longrightarrow> hist st1 = hist st \<Longrightarrow> desk_since v h st1"
  by (simp only: desk_since_def desk_dues_def)

lemma since_stage:
  assumes "hist st = H" "desk_since v h st"
    and "dw_stream v (it_key (sg_body x)) H = Inr s" "dw_sealed v (it_key (sg_body x)) H = Inr sl" "dw_entrySource v (it_key (sg_body x)) H = Inr src"
    and ev: "\<And>i. e = Some i \<Longrightarrow> dw_delivered v i H = Inr (ev_delivered ev) \<and> dw_purchasedRaw v (it_key (sg_body x)) H = Inr (ev_purchased ev)"
    and stage: "stg = kind0Stage (dw_now v H) u \<lparr>sv_epoch = it_epoch (sg_body x), sv_budget = bdiv (si_totalCredit27 s) P27, sv_sealed = sl,
           sv_entrySource = (src \<noteq> ZERO), sv_entryId = e, sv_delivered = ev_delivered ev, sv_purchasedRaw = ev_purchased ev,
           sv_available = a, sv_pending = p, sv_sealedFor = f\<rparr>"
  shows "wp (do_stage v net x rec protocolDone s src e ev stg) (\<lambda>_. desk_since v h) (desk_since v h) st"
proof -
  have quiet: "keeps (desk_since v h) (await_round v i k rec e)" "keeps (desk_since v h) (stream_ready v x rec e s ev)" "keeps (desk_since v h) (after_send kind k res)" for i k kind res
    unfolding await_round_def stream_ready_def after_send_def Let_def by (intro keeping)+
  have facts: "stg = CreateEntry \<Longrightarrow> src = ZERO \<and> sealable v H (it_key (sg_body x)) (it_epoch (sg_body x))"
    "stg = SealStream \<Longrightarrow> src \<noteq> ZERO \<and> sealable v H (it_key (sg_body x)) (it_epoch (sg_body x))"
    "stg = SyncEntry \<Longrightarrow> sl \<and> (\<exists>i. e = Some i \<and> ev_purchased ev < ev_delivered ev)"
    using assms(3,4) unfolding stage by (auto simp: kind0Stage_def sealable_def Let_def linorder_not_less split: if_splits)
  show ?thesis
  proof (cases stg)
    case SealStream
    with facts show ?thesis using assms(1,2,5) unfolding do_stage_def Let_def
      by (simp only: stage.case) (intro wps since_send wp_of_keeps [OF quiet(3)]; auto)
  next
    case CreateEntry
    with facts show ?thesis using assms(1,2,5) unfolding do_stage_def Let_def
      by (simp only: stage.case) (intro wps since_send wp_of_keeps [OF quiet(3)]; auto)
  next
    case SyncEntry
    with facts show ?thesis using assms(1,2,4) ev unfolding do_stage_def Let_def
      by (simp only: stage.case) (intro wps since_send wp_of_keeps [OF quiet(3)]; auto simp: orelse_def)
  qed (use assms(2) in \<open>auto simp: do_stage_def Let_def intro!: wp_of_keeps keeping quiet\<close>)
qed

lemma since_stream_once:
  assumes "desk_since v h st"
  shows "wp (stream_once v net x rec protocolDone) (\<lambda>_. desk_since v h) (desk_since v h) st"
proof -
  have later: "desk_since v h st1" if "hist st1 = hist st" for st1
    using assms that by (rule since_still)
  show ?thesis
    unfolding stream_once_def Let_def
    by (intro wps wp_silent [OF silent_entryIdOf] wp_entry_view; (rule since_stage, (assumption | rule refl | simp add: later)+)?) (simp_all add: later)
qed

lemma since_loop: "desk_since v h st \<Longrightarrow> wp (stream_loop v net x rec protocolDone n) (\<lambda>_. desk_since v h) (desk_since v h) st"
proof (induction n arbitrary: st)
  case (Suc n)
  show ?case unfolding stream_loop.simps
    by (intro wps wp_cons [OF since_stream_once]) (auto intro!: wps Suc split: stream_step.splits)
qed (auto intro: wps)

lemma keeps_streams: "keeps (desk_since v h) (streamsPhase v net covered)"
proof -
  have share: "keeps (desk_since v h) (protocolShare v net x)" for x by (rule wp_keeps) (rule since_share)
  have usdc: "keeps (desk_since v h) (usdcStream v net x rec d)" for x rec d unfolding usdcStream_def by (rule wp_keeps) (rule since_loop)
  show ?thesis unfolding streamsPhase_def visit_stream_def one_stream_def stockStream_def by (intro keeping share usdc)
qed

lemma at_scanQueues: "silent (scanQueues v po)"
proof -
  have reads: "keeps (\<lambda>st. hist st = h) (read_queues v n i)" for h n i
    by (induction n arbitrary: i) (auto intro!: keeping split: option.splits)
  show ?thesis unfolding scanQueues_def adopt_queue_def queueWorth_def perCardOf_def by (intro silent_keeps keeping reads)
qed

lemma keeps_silent: "silent m \<Longrightarrow> keeps (desk_since v h) m"
  by (auto simp: keeps_def silent_def intro: since_still)

lemma opened_group: "g \<in> set (gs_open (planGroups rs prices m k mg)) \<Longrightarrow> og_keys g \<noteq> [] \<and> length (og_keys g) \<le> 20"
  using planGroups_open_worth [of rs prices m mg k] by (auto simp: list_all_iff)

lemma keeps_open: "keeps (desk_since v h) (openPhase v net po ready)"
proof -
  have quiet: "keeps (desk_since v h) (link_streams v i ks)" "keeps (desk_since v h) (adopt_opened v u ks)" "keeps (desk_since v h) (claim_queue v u i)"
    "keeps (desk_since v h) (record_dust v kv)" "keeps (desk_since v h) (read_price v po asset)" for u i ks kv asset
    unfolding link_streams_def adopt_opened_def claim_queue_def record_dust_def read_price_def by (intro keeping; simp)+
  have group: "keeps (desk_since v h) (open_group_queue v net po ready g)" if "og_keys g \<noteq> [] \<and> length (og_keys g) \<le> 20" for g
  proof (rule wp_keeps)
    fix st assume s: "desk_since v h st"
    have rest: "keeps (desk_since v h) (bindk (getj (\<lambda>j. orelse (scan_next j ''queues'') 0)) (\<lambda>before.
       thenk (bindk (scanQueues v po) (\<lambda>_. ret ())) (bindk (getj (\<lambda>j. orelse (scan_next j ''queues'') 0)) (\<lambda>after. each (claim_queue v unique) [before..after - 1]))))" for unique
      by (intro keeping keeps_silent at_scanQueues quiet)
    show "wp (open_group_queue v net po ready g) (\<lambda>_. desk_since v h) (desk_since v h) st"
      unfolding open_group_queue_def Let_def
      by (intro wps since_send wp_of_keeps [OF quiet(2)] wp_of_keeps [OF rest]) (use s that in auto)
  qed
  show ?thesis unfolding openPhase_def Let_def by (intro keeping quiet group opened_group)
qed

lemma gas_plan: "deskGasPlan p (int n) w = \<lparr>dg_cards = dg_cards (deskGasPlan p (int n) w), dg_gasLimit = dg_gasLimit (deskGasPlan p (int n) w), dg_reserve = 500000 * int n + 100000\<rparr>"
  by (simp add: deskGasPlan_def Let_def)

lemma wp_priceReady:
  assumes "\<And>st1. hist st1 = hist st \<Longrightarrow> E st1" "\<And>why st1. hist st1 = hist st \<Longrightarrow> Q (PriceWait why) st1"
    "\<And>arc st1. hist st1 = hist st \<Longrightarrow> dw_arc v (po_oracle po) asset (hist st) = Inr arc \<Longrightarrow> ck_fresh (checkArcPrice arc asset now (Some (po_maxAge po)) (dk_priceMarginSec (dw_p v))) \<Longrightarrow> Q PriceOk st1"
  shows "wp (d_priceReady v po asset i now) Q E st"
  unfolding d_priceReady_def ask_push_def Let_def
  by (intro wps allI assms) (auto intro: assms)

lemma earlier_hist_trans: "earlier h1 h2 \<Longrightarrow> earlier h2 h3 \<Longrightarrow> earlier h1 h3"
  by (auto simp: earlier_def)

lemma wp_price_state [wps]:
  "(\<And>why. x = PriceWait why \<Longrightarrow> wp (f why) Q E st) \<Longrightarrow> (x = PriceOk \<Longrightarrow> wp m Q E st) \<Longrightarrow> wp (case x of PriceWait why \<Rightarrow> f why | PriceOk \<Rightarrow> m) Q E st"
  by (cases x) simp_all

lemma since_batch:
  assumes s: "desk_since v h1 st" and "earlier h2 h1" "dw_policy v h2 = Inr po" "hist st = H" "dw_queue v i H = Inr q"
    "qi_nextScanAt q \<le> dw_now v h1" "SCAN_OFFSET + dk_scanMarginSec (dw_p v) \<le> dw_now v h1 mod DAY"
    "dw_arc v (po_oracle po) (qi_asset q) H = Inr arc"
    "ck_fresh (checkArcPrice arc (qi_asset q) (dw_now v h1) (Some (po_maxAge po)) (dk_priceMarginSec (dw_p v)))"
  shows "wp (serve_batch v net i rec q) (\<lambda>_. desk_since v h1) (desk_since v h1) st"
proof -
  have due: "desk_due v (hist st) k (BatchDesk i (dg_cards g) (dg_gasLimit g))"
    if "g = deskGasPlan (desk_params.truncate (dw_p v)) (int (length (dq_keys rec))) MAX_CARDS" for k g
  proof -
    have "batch_due v (hist st) i"
      unfolding batch_due_def using assms by (intro exI [of _ h1] exI [of _ h2] exI [of _ q] exI [of _ po] exI [of _ arc]) (auto simp: desk_since_def intro: earlier_hist_trans)
    then show ?thesis
      using gas_plan unfolding that by auto
  qed
  have landed: "keeps (desk_since v h1) (desk_batch_landed v i r key s u res)" for r key s u res
    unfolding desk_batch_landed_def Let_def by (intro keeping)
  show ?thesis
    unfolding serve_batch_def Let_def
    by (intro wps since_send wp_of_keeps [OF landed]) (use s due in auto)
qed

lemma since_serve:
  assumes s: "desk_since v h1 st" and po: "earlier h2 h1" "dw_policy v h2 = Inr po"
  shows "wp (serve_queue v net po (dw_now v h1) x) (\<lambda>_. desk_since v h1) (desk_since v h1) st"
proof (cases x)
  case (Pair i rec)
  have wait: "keeps (desk_since v h1) (wait_price v i rec now why)" for now why
    unfolding wait_price_def Let_def by (intro keeping)
  show ?thesis
    unfolding Pair serve_queue_def prod.case
    by (intro wps wp_priceReady wp_sets wp_of_keeps [OF wait]; (rule since_batch [OF _ po])?) (auto intro: since_still [OF s] s)
qed

lemma since_service:
  assumes s: "desk_since v h2 st" and po: "dw_policy v h2 = Inr po"
  shows "wp (servicePhase v net po) (\<lambda>_. desk_dues v) (desk_dues v) st"
  unfolding servicePhase_def
  by (intro wps wp_cons [OF wp_each [OF since_serve]]) (use s po in \<open>auto simp: desk_since_def\<close>)

lemma silent_d_discover: "silent (d_discoverPhase v)"
  unfolding d_discoverPhase_def Let_def by (rule silent_keeps) (intro keeping)

lemma desk_dues_still: "desk_dues v st \<Longrightarrow> hist st1 = hist st \<Longrightarrow> desk_dues v st1"
  by (simp only: desk_dues_def)

lemma desk_dues_tick: "desk_dues v st \<Longrightarrow> wp (desk_tick v net settler) (\<lambda>_. desk_dues v) (desk_dues v) st"
proof -
  have since: "desk_since v h st1 \<Longrightarrow> desk_dues v st1" for h st1 by (simp add: desk_since_def)
  have rest: "wp (thenk (openPhase v net po ready) (servicePhase v net po)) (\<lambda>_. desk_dues v) (desk_dues v) st1"
    if "desk_since v h st1" "dw_policy v h = Inr po" for h po ready st1
    by (intro wps wp_cons [OF wp_of_keeps [OF keeps_open that(1)]] since_service [OF _ that(2)] since)
  have streams: "wp (bindk (streamsPhase v net covered) (\<lambda>ready. thenk (openPhase v net po ready) (servicePhase v net po))) (\<lambda>_. desk_dues v) (desk_dues v) st1"
    if "desk_since v h st1" "dw_policy v h = Inr po" for h po covered st1
    by (intro wps(1) wp_bind wp_cons [OF wp_of_keeps [OF keeps_streams that(1)]] rest [OF _ that(2)] since)
  show "desk_dues v st \<Longrightarrow> wp (desk_tick v net settler) (\<lambda>_. desk_dues v) (desk_dues v) st"
    unfolding desk_tick_def
    by (intro wps wp_silent [OF silent_d_discover] wp_silent [OF at_scanQueues] streams) (auto simp: desk_since_def intro: desk_dues_still)
qed


subsection \<open>A worked tick\<close>

text \<open>
  One stock stream of day 0, seen at noon of day 2. The forward of its protocol share stays in flight, a card's part of it is
  worth less than the minimum, and queues hold one stream: the stream is dust.
\<close>

definition demo_item :: desk_item where
  "demo_item = \<lparr>it_key = ''0xK'', it_source = ''0xS'', it_epoch = 0, it_asset = ''0xA'', it_kind = 1\<rparr>"

definition demo_streams :: "(desk_item, dcall) scanner" where
  "demo_streams = \<lparr>sn_name = ''desk'', sn_address = ''0xR'', sn_fromBlock = 10, sn_confirmations = 2, sn_chunk = 4, sn_maxChunks = 5,
     sn_timestamps = False, sn_ms = (\<lambda>_. 0), sn_head = (\<lambda>_. Inl ''down''), sn_logs = (\<lambda>a b _. Inr []),
     sn_block = (\<lambda>b _. Inr None), sn_decode = (\<lambda>l _ _. Inr (Some (''0xk'', demo_item)))\<rparr>"

definition demo_dconf :: dconf where
  "demo_dconf = \<lparr>dw_p = DESK_SETTINGS\<lparr>maxKeysPerQueue := 1\<rparr>, dw_chainId = 1, dw_execute = True, dw_hasStatusDir = True, dw_rewards = ''0xR'',
     dw_nft = ''0xN'', dw_manager = ''0xM'', dw_fuel = 3, dw_scanner = demo_streams, dw_queueUnique = (\<lambda>(ks, a, rs). concat ks @ a), dw_receiptHash = (\<lambda>_. ''0xt''),
     dw_eventCounts = (\<lambda>_. (0, 0)), dw_ms = (\<lambda>_. 0), dw_now = (\<lambda>_. 2 * DAY + 43200), dw_wall = (\<lambda>_. 0), dw_latest = None, dw_demandFile = (\<lambda>_. None)\<rparr>"

definition demo_denv :: denv where
  "demo_denv = dconf.extend demo_dconf \<lparr>
     dw_policy = (\<lambda>_. Inr \<lparr>po_oracle = ''0xO'', po_maxAge = 3600, po_minimum = 100\<rparr>), dw_queue = (\<lambda>_ _. Inl ''revert''), dw_queueStreams = (\<lambda>_ _. Inl ''revert''),
     dw_queued = (\<lambda>_ _. Inr False), dw_stream = (\<lambda>_ _. Inr \<lparr>si_kind = 1, si_counter = P27, si_totalCredit27 = 0\<rparr>), dw_sealed = (\<lambda>_ _. Inr False),
     dw_entrySource = (\<lambda>_ _. Inr ZERO), dw_purchasedRaw = (\<lambda>_ _. Inr 0), dw_delegatedCredit27 = (\<lambda>_ _. Inr (5 * P27)), dw_delegatedFunded = (\<lambda>_ _. Inr 0),
     dw_deliveryInfo = (\<lambda>_ _. Inr (''0xA'', P27)), dw_rewardPolicy = (\<lambda>_ _ _. Inl ''revert''), dw_delivered = (\<lambda>_ _. Inr 0), dw_available = (\<lambda>_ _. Inr 0),
     dw_pending = (\<lambda>_ _. Inr 0), dw_entryReason = (\<lambda>_ _. Inr 0), dw_nextEntryId = (\<lambda>_. Inr 0), dw_entryOf = (\<lambda>_ _. Inl ''revert''),
     dw_entryKey = (\<lambda>_ _. Inl ''revert''), dw_price = (\<lambda>_ _ _. Inr E18), dw_arc = (\<lambda>_ _ _. Inl ''revert'')\<rparr>"

definition slow_dnet :: "dcall caller" where
  "slow_dnet h k c ts = (Inr (result_of StInflight), ts)"

definition idle_desk :: "dcall settler" where
  "idle_desk = (\<lambda>_ ts. (Inr (), ts))"

definition demo_sighted :: djournal where
  "demo_sighted = setRecord 0 ''discover:desk'' ''0xk'' (\<lambda>_. Sighting \<lparr>sg_id = ''0xk'', sg_block = 12, sg_index = 0, sg_tx = ''0xt'', sg_body = demo_item\<rparr>) (open_journal None)"

definition demo_dst :: dstate where
  "demo_dst = \<lparr>kj = demo_sighted, hist = [], outs = []\<rparr>"

definition demo_share :: "string \<times> dcall" where
  "demo_share = (''1:0xr:forwardProtocolDesk:0xK:5000000000000000000000000000:v1'', ForwardProtocolDesk ''0xK'')"

lemma demo_tick_hist: "hist (snd (desk_tick demo_denv slow_dnet idle_desk demo_dst)) = [] @ demo_share # []"
  by code_simp


end
