(* ===== verification/Desk_Loss.thy ===== *)
theory Desk_Loss
  imports Desk_Safety
begin

section \<open>What the Desk keeper loses\<close>

text \<open>
  A stream whose record is done is skipped before anything of it is read. \<open>openPhase\<close> marks dust done without asking
  whether the share of the protocol cards went through, where the other two places that mark a stream done do ask.
\<close>

text \<open>The calls for the protocol share of the stream \<open>i\<close>.\<close>

definition shares_of :: "string \<Rightarrow> dh \<Rightarrow> dh" where
  "shares_of i h = filter (\<lambda>(k, c). case c of FundProtocolDesk key \<Rightarrow> lower key = i | ForwardProtocolDesk key \<Rightarrow> lower key = i | _ \<Rightarrow> False) h"

text \<open>A stream is stored under its key in lower case, as the decoder of the constructor does.\<close>

definition keyed :: "string \<Rightarrow> djournal \<Rightarrow> bool" where
  "keyed ns j \<longleftrightarrow> (\<forall>r x. r \<in> set (records_in j ns) \<longrightarrow> sighting_of (Some r) = Some x \<longrightarrow> sg_id x = lower (it_key (sg_body x)))"

definition decodes_keys :: "denv \<Rightarrow> bool" where
  "decodes_keys v \<longleftrightarrow> (\<forall>l ts h i item. sn_decode (dw_scanner v) l ts h = Inr (Some (i, item)) \<longrightarrow> i = lower (it_key item))"

definition desk_ticks :: "(denv \<times> dcall caller \<times> dcall settler) list \<Rightarrow> dstate \<Rightarrow> dstate" where
  "desk_ticks ws st = foldl (\<lambda>st (v, net, settler). snd (desk_tick v net settler st)) st ws"

definition closed :: "string \<Rightarrow> string \<Rightarrow> dh \<Rightarrow> dstate \<Rightarrow> bool" where
  "closed ns i C st \<longleftrightarrow> keyed ns (kj st) \<and> ds_done (stream_of (kj st) i) \<and> shares_of i (hist st) = C"

lemma shares_of_simps [simp]:
  "shares_of i [] = []"
  "shares_of i (h @ h') = shares_of i h @ shares_of i h'"
  "shares_of i ((k, c) # h) = (case c of FundProtocolDesk key \<Rightarrow> if lower key = i then (k, c) # shares_of i h else shares_of i h
     | ForwardProtocolDesk key \<Rightarrow> if lower key = i then (k, c) # shares_of i h else shares_of i h | _ \<Rightarrow> shares_of i h)"
  by (auto simp: shares_of_def split: dcall.splits)

lemma set_put: "set (put k v o1) \<subseteq> insert (k, v) (set o1)"
  by (induction o1) auto

lemma records_in_setRecord:
  fixes j :: "'r journal"
  shows "set (records_in (setRecord now ns i p j) ns') \<subseteq> insert (p (record_of j (ns, i))) (set (records_in j ns'))"
proof -
  have vals: "set (records_in j ns) = (snd \<circ> snd) ` set (ns_of j ns)" for j :: "'r journal" and ns
    by (simp add: records_in_def entries_def image_image case_prod_unfold)
  have "(snd \<circ> snd) ` set (put i (now, p (record_of j (ns, i))) (ns_of j ns)) \<subseteq> insert (p (record_of j (ns, i))) ((snd \<circ> snd) ` set (ns_of j ns))"
    using image_mono [OF set_put, of "snd \<circ> snd" i "(now, p (record_of j (ns, i)))" "ns_of j ns"] by simp
  then show ?thesis by (simp add: vals ns_of_setRecord subset_insertI)
qed

lemma keyed_setRecord: "keyed ns j \<Longrightarrow> (\<And>x. sighting_of (Some (p (record_of j (ns', k)))) = Some x \<Longrightarrow> sg_id x = lower (it_key (sg_body x)))
   \<Longrightarrow> keyed ns (setRecord now ns' k p j)"
  using records_in_setRecord [of now ns' k p j ns] by (auto simp: keyed_def)

lemma keyed_with_tasks [simp]: "keyed ns (with_tasks ts j) = keyed ns j"
  by (simp add: keyed_def records_in_def entries_def)

lemma stream_of_with_tasks [simp]: "stream_of (with_tasks ts j) i = stream_of j i"
  by (simp add: stream_of_def d_own_def)

lemma stream_of_setRecord: "stream_of (setRecord now ns k p j) i =
    (if ns = ''deskStream'' \<and> k = i then (case own_of (Some (p (record_of j (ns, k)))) of Some (DStream s) \<Rightarrow> s | _ \<Rightarrow> no_stream) else stream_of j i)"
  by (auto simp: stream_of_def d_own_def record_of_setRecord)

lemma closed_set: "ns' \<noteq> ''deskStream'' \<Longrightarrow> keeps (closed ns i C) (d_set v ns' k f)"
  by (auto simp: keeps_def closed_def d_set_def put_rec_def stream_of_setRecord sighting_of_def intro!: keyed_setRecord)

lemma closed_set_queue [keeping]: "keeps (closed ns i C) (set_queue v n f)"
  unfolding set_queue_def by (rule closed_set) simp

lemma stream_patched: "ds_done (stream_of j i) \<Longrightarrow> (\<forall>s. ds_done s \<longrightarrow> ds_done (f s)) \<Longrightarrow>
    ds_done (f (case d_own j ''deskStream'' i of Some (DStream s) \<Rightarrow> s | _ \<Rightarrow> no_stream))"
  by (simp add: stream_of_def)

lemma closed_set_stream: "k \<noteq> i \<or> (\<forall>s. ds_done s \<longrightarrow> ds_done (f s)) \<Longrightarrow> keeps (closed ns i C) (set_stream v k f)"
  using stream_patched [of _ i f]
  by (auto simp: keeps_def closed_def set_stream_def d_set_def put_rec_def stream_of_setRecord sighting_of_def own_of_def d_own_def
      intro!: keyed_setRecord)

lemma same_records:
  assumes "records (mem j') = records (mem j)"
  shows "keyed ns j' = keyed ns j" "stream_of j' = stream_of j"
proof -
  have "ns_of j' = ns_of j" by (intro ext) (simp add: ns_of_def assms)
  then show "keyed ns j' = keyed ns j" "stream_of j' = stream_of j"
    by (auto simp: keyed_def records_in_def entries_def stream_of_def d_own_def record_of_def)
qed

lemma closed_prims [keeping]:
  "keeps (closed ns i C) (emit x)" "keeps (closed ns i C) (settle_all s)" "keeps (closed ns i C) (modj (markFailure now k e q))"
  using same_records [OF records_marks(3)]
  by (simp_all add: keeps_def closed_def emit_def settle_all_def modj_def split: prod.splits)

lemma closed_send: "(\<And>k. shares_of i [(k, c)] = []) \<Longrightarrow> keeps (closed ns i C) (d_send v net contract what c al)"
  unfolding d_send_def by (intro keeping) (auto simp: keeps_def closed_def call_def split: prod.splits)

lemma closed_sync: "item_ns (dw_scanner v) = ns \<Longrightarrow> decodes_keys v \<Longrightarrow> keeps (closed ns i C) (sync (dw_scanner v))"
  by (intro keeps_sync)
     (auto simp: keeps_def closed_def put_rec_def stream_of_setRecord sighting_of_def decodes_keys_def item_ns_def intro!: keyed_setRecord)

lemma keyed_items: "keyed (item_ns s) j \<Longrightarrow> x \<in> set (items s j) \<Longrightarrow> sg_id x = lower (it_key (sg_body x))"
  by (auto simp: keyed_def items_def List.map_filter_def split: option.splits if_splits)

lemma closed_share: "sg_id x = lower (it_key (sg_body x)) \<Longrightarrow> sg_id x \<noteq> i \<Longrightarrow> keeps (closed ns i C) (protocolShare v net x)"
  unfolding protocolShare_def Let_def by (intro keeping closed_set_stream closed_send) auto

lemma closed_entryId [keeping]: "keeps (closed ns i C) (entryIdOf v key)"
  unfolding entryIdOf_def remember_entry_def deskKeyOf_def by (intro keeping closed_set) auto

lemma closed_stage: "sg_id x \<noteq> i \<Longrightarrow> keeps (closed ns i C) (do_stage v net x rec d s src e ev stg)"
  by (cases stg; simp add: do_stage_def Let_def)
     (auto simp: stream_ready_def await_round_def after_send_def dclock_def Let_def intro!: keeping closed_set_stream closed_send)

lemma closed_once: "sg_id x \<noteq> i \<Longrightarrow> keeps (closed ns i C) (stream_once v net x rec d)"
  unfolding stream_once_def entry_view_of_def dclock_def Let_def by (intro keeping closed_stage)

lemma closed_loop: "sg_id x \<noteq> i \<Longrightarrow> keeps (closed ns i C) (stream_loop v net x rec d n)"
  by (induction n) (auto intro!: keeping closed_once split: stream_step.splits)

lemma closed_visit:
  assumes "sg_id x = lower (it_key (sg_body x))"
  shows "keeps (closed ns i C) (visit_stream v net covered now x)"
proof (cases "sg_id x = i")
  case True
  have "wp (visit_stream v net covered now x) (\<lambda>_. closed ns i C) (closed ns i C) st" if "closed ns i C st" for st
  proof -
    have "ds_done (stream_of (kj st) (sg_id x))" using that True by (simp add: closed_def)
    then show ?thesis unfolding visit_stream_def using that by (intro wps) auto
  qed
  then show ?thesis by (rule wp_keeps)
next
  case False
  then have "keeps (closed ns i C) (one_stream v net covered x rec)" for rec
    unfolding one_stream_def stockStream_def usdcStream_def using assms
    by (intro keeping closed_share closed_loop closed_set_stream) auto
  then show ?thesis unfolding visit_stream_def by (intro keeping)
qed

lemma closed_streams: "item_ns (dw_scanner v) = ns \<Longrightarrow> keeps (closed ns i C) (streamsPhase v net covered)"
proof (rule wp_keeps)
  fix st assume "item_ns (dw_scanner v) = ns" "closed ns i C st"
  then have "keeps (closed ns i C) (collect (visit_stream v net covered now) (items (dw_scanner v) (kj st)))" for now
    by (intro keeping closed_visit keyed_items) (auto simp: closed_def)
  then show "wp (streamsPhase v net covered) (\<lambda>_. closed ns i C) (closed ns i C) st"
    unfolding streamsPhase_def dclock_def using \<open>closed ns i C st\<close>
    by (intro wps) (auto intro!: wps intro: wp_cons wp_of_keeps)
qed

lemma closed_scanQueues [keeping]: "keeps (closed ns i C) (scanQueues v po)"
proof -
  have reads: "keeps (closed ns i C) (read_queues v n k)" for n k
    by (induction n arbitrary: k) (auto intro!: keeping split: option.splits)
  show ?thesis unfolding scanQueues_def adopt_queue_def queueWorth_def perCardOf_def
    by (intro keeping reads closed_set) auto
qed

lemma closed_open: "keeps (closed ns i C) (openPhase v net po ready)"
  unfolding openPhase_def open_group_queue_def adopt_opened_def claim_queue_def link_streams_def record_dust_def read_price_def dclock_def Let_def
  by (intro keeping closed_set_stream closed_send) auto

lemma closed_service: "keeps (closed ns i C) (servicePhase v net po)"
proof -
  have price: "keeps (closed ns i C) (d_priceReady v po asset k now)" for asset k now
    unfolding d_priceReady_def ask_push_def Let_def by (intro keeping)
  have batch: "keeps (closed ns i C) (serve_batch v net k rec q)" for k rec q
    unfolding serve_batch_def desk_batch_landed_def Let_def by (intro keeping closed_send) auto
  have wait: "keeps (closed ns i C) (wait_price v k rec now why)" for k rec now why
    unfolding wait_price_def Let_def by (intro keeping)
  show ?thesis unfolding servicePhase_def serve_queue_def dclock_def
    by (intro keeping price) (auto split: price_state.splits intro!: keeping batch wait)
qed

lemma closed_tick: "item_ns (dw_scanner v) = ns \<Longrightarrow> decodes_keys v \<Longrightarrow> keeps (closed ns i C) (desk_tick v net settler)"
  unfolding desk_tick_def d_discoverPhase_def Let_def
  by (intro keeping closed_streams closed_open closed_service closed_sync closed_set) auto

text \<open>Marking a stream as dust is final for the protocol share too, whether or not it was ever funded or forwarded: from
  then on no tick asks for it again, in any world and whatever the sender answers.\<close>

theorem dust_drops_protocol_share:
  assumes "keyed ns (kj st)" and "\<forall>(v, net, settler)\<in>set ws. item_ns (dw_scanner v) = ns \<and> decodes_keys v"
  shows "shares_of (lower key) (hist (desk_ticks ws (snd (record_dust v (key, value) st)))) = shares_of (lower key) (hist st)"
proof -
  let ?st = "snd (record_dust v (key, value) st)" and ?C = "shares_of (lower key) (hist st)"
  have start: "closed ns (lower key) ?C ?st"
    using assms(1) by (auto simp: closed_def record_dust_def set_stream_def d_set_def put_rec_def thenk_def bindk_def emit_def stream_of_setRecord
        sighting_of_def own_of_def intro!: keyed_setRecord)
  have "closed ns (lower key) ?C (desk_ticks ws ?st)"
    using assms(2)
  proof (induction ws rule: rev_induct)
    case (snoc w ws)
    obtain v net settler where w: "w = (v, net, settler)" by (cases w)
    have "closed ns (lower key) ?C (desk_ticks ws ?st)" by (rule snoc.IH) (use snoc.prems in simp)
    then have "closed ns (lower key) ?C (snd (desk_tick v net settler (desk_ticks ws ?st)))"
      using snoc.prems by (intro keepsD [OF closed_tick]) (auto simp: w)
    then show ?case by (simp add: desk_ticks_def w)
  qed (simp add: desk_ticks_def start)
  then show ?thesis by (simp add: closed_def)
qed

lemma demo_keyed_low: "lower (it_key demo_item) = ''0xk''"
  by code_simp

text \<open>The tick left the stream done, and its share not.\<close>

lemma demo_tick_done: "let s = stream_of (kj (snd (desk_tick demo_denv slow_dnet idle_desk demo_dst))) ''0xk'' in ds_done s \<and> ds_dust s \<and> \<not> ds_protocolDone s"
  by code_simp

definition demo_shared :: dstate where
  "demo_shared = snd (streamsPhase demo_denv slow_dnet [] demo_dst)"

lemma demo_shared_hist: "hist demo_shared = [demo_share]"
  by code_simp

lemma demo_records: "records_in (kj demo_shared) ''discover:desk'' = [Sighting \<lparr>sg_id = ''0xk'', sg_block = 12, sg_index = 0, sg_tx = ''0xt'', sg_body = demo_item\<rparr>]"
  by code_simp

theorem dust_drops_protocol_share_witness:
  "shares_of ''0xk'' (hist (desk_ticks (replicate 4 (demo_denv, slow_dnet, idle_desk)) (snd (record_dust demo_denv (''0xK'', 1) demo_shared)))) = [demo_share]"
proof -
  have low: "lower ''0xK'' = ''0xk''" using demo_keyed_low by (simp add: demo_item_def)
  have k: "keyed ''discover:desk'' (kj demo_shared)"
    by (simp add: keyed_def demo_records sighting_of_def demo_item_def low)
  have w: "\<forall>(v, net, settler)\<in>set (replicate 4 (demo_denv, slow_dnet, idle_desk)). item_ns (dw_scanner v) = ''discover:desk'' \<and> decodes_keys v"
    by (simp add: decodes_keys_def demo_denv_def demo_dconf_def dconf.defs item_ns_def demo_streams_def demo_item_def low)
  show ?thesis
    using dust_drops_protocol_share [OF k w, of "''0xK''" demo_denv 1] by (simp add: low demo_shared_hist demo_share_def)
qed

end
