(* ===== verification/Merkle.thy ===== *)
theory Merkle
  imports Keeper_Prelude "HOL-Library.Word"
begin

unbundle bit_operations_syntax

section \<open>The checkpoint tree (\<open>keepers/v3/lib/merkle.mjs\<close>)\<close>

text \<open>
  A digest is a 256-bit word; \<open>kec a b\<close> is keccak256 of two digests one after the other and a parameter of every
  definition. \<open>merkleRoot\<close> is the loop of \<open>ReserveVault.merkleRoot\<close>, which overwrites its argument in place; \<open>climb\<close> is what
  the gate's verifier folds over a proof. \<open>undefined\<close> of JavaScript is \<open>None\<close>.
\<close>

type_synonym digest = "256 word"

subsection \<open>The keeper's tree\<close>

definition pair :: "(digest \<Rightarrow> digest \<Rightarrow> digest) \<Rightarrow> digest \<Rightarrow> digest \<Rightarrow> digest" where
  "pair kec a b = (if a < b then kec a b else kec b a)"

fun next_level :: "(digest \<Rightarrow> digest \<Rightarrow> digest) \<Rightarrow> digest list \<Rightarrow> digest list" where
  "next_level kec [] = []"
| "next_level kec [x] = [x]"
| "next_level kec (x # y # lv) = pair kec x y # next_level kec lv"

lemma length_next_level [simp]: "length (next_level kec lv) = (length lv + 1) div 2"
  by (induction kec lv rule: next_level.induct) auto

function rootOf :: "(digest \<Rightarrow> digest \<Rightarrow> digest) \<Rightarrow> digest list \<Rightarrow> digest option" where
  "rootOf kec lv = (if 1 < length lv then rootOf kec (next_level kec lv) else case lv of [] \<Rightarrow> None | x # _ \<Rightarrow> Some x)"
  by auto
termination by (relation "measure (\<lambda>(kec, lv). length lv)") auto

function proofFor :: "(digest \<Rightarrow> digest \<Rightarrow> digest) \<Rightarrow> digest list \<Rightarrow> nat \<Rightarrow> digest list" where
  "proofFor kec lv i =
     (if 1 < length lv then
        let sib = i XOR 1 in
        (if sib < length lv then [lv ! sib] else []) @ proofFor kec (next_level kec lv) (i div 2)
      else [])"
  by auto
termination by (relation "measure (\<lambda>(kec, lv, i). length lv)") auto

declare rootOf.simps [simp del] proofFor.simps [simp del]

subsection \<open>The contract's tree\<close>

text \<open>The verifier of the gate: fold the pair hash over the proof.\<close>

definition climb :: "(digest \<Rightarrow> digest \<Rightarrow> digest) \<Rightarrow> digest \<Rightarrow> digest list \<Rightarrow> digest" where
  "climb kec x p = foldl (pair kec) x p"

definition hash_row :: "(digest \<Rightarrow> digest \<Rightarrow> digest) \<Rightarrow> nat \<Rightarrow> digest list \<Rightarrow> nat \<Rightarrow> digest list" where
  "hash_row kec n ls i = (let a = 2 * i; b = a + 1 in ls[i := (if b < n then pair kec (ls ! a) (ls ! b) else ls ! a)])"

function merkle_loop :: "(digest \<Rightarrow> digest \<Rightarrow> digest) \<Rightarrow> nat \<Rightarrow> digest list \<Rightarrow> digest list" where
  "merkle_loop kec n ls = (if 1 < n then merkle_loop kec ((n + 1) div 2) (foldl (hash_row kec n) ls [0..<(n + 1) div 2]) else ls)"
  by auto
termination by (relation "measure (\<lambda>(kec, n, ls). n)") auto

declare merkle_loop.simps [simp del]

definition merkleRoot :: "(digest \<Rightarrow> digest \<Rightarrow> digest) \<Rightarrow> digest list \<Rightarrow> digest" where
  "merkleRoot kec leaves = (if leaves = [] then 0 else merkle_loop kec (length leaves) leaves ! 0)"

subsection \<open>The two trees agree\<close>

lemma nth_next_level: "i < (length lv + 1) div 2 \<Longrightarrow>
    next_level kec lv ! i = (if 2 * i + 1 < length lv then pair kec (lv ! (2 * i)) (lv ! (2 * i + 1)) else lv ! (2 * i))"
proof (induction kec lv arbitrary: i rule: next_level.induct)
  case (3 kec x y lv)
  then show ?case by (cases i) auto
qed auto

text \<open>The rows already written are the next level's, the rows to come are still the old ones.\<close>

lemma hash_rows:
  assumes "n \<le> length ls" "m \<le> (n + 1) div 2"
  shows "let ls' = foldl (hash_row kec n) ls [0..<m] in length ls' = length ls
    \<and> (\<forall>i<length ls. ls' ! i = (if i < m then next_level kec (take n ls) ! i else ls ! i))"
  using assms(2)
proof (induction m)
  case (Suc m)
  let ?r = "foldl (hash_row kec n) ls [0..<m]"
  have len: "length ?r = length ls" and rows: "\<And>i. i < length ls \<Longrightarrow> ?r ! i = (if i < m then next_level kec (take n ls) ! i else ls ! i)"
    using Suc by (auto simp: Let_def)
  have m: "2 * m < n" "m < length ls" using Suc.prems assms(1) by auto
  have ab: "?r ! (2 * m) = take n ls ! (2 * m)" "2 * m + 1 < n \<Longrightarrow> ?r ! Suc (2 * m) = take n ls ! Suc (2 * m)"
    using m assms(1) by (auto simp: rows)
  have at: "next_level kec (take n ls) ! m = (if 2 * m + 1 < n then pair kec (?r ! (2 * m)) (?r ! Suc (2 * m)) else ?r ! (2 * m))"
    using Suc.prems assms(1) ab by (subst nth_next_level) (auto simp: min_absorb2)
  have "foldl (hash_row kec n) ls [0..<Suc m] = ?r[m := next_level kec (take n ls) ! m]"
    using at by (simp add: hash_row_def [of kec n ?r] Let_def)
  then show ?case using m len rows by (auto simp: nth_list_update)
qed simp

lemma hash_rows_level:
  assumes "n \<le> length ls"
  shows "take ((n + 1) div 2) (foldl (hash_row kec n) ls [0..<(n + 1) div 2]) = next_level kec (take n ls)"
  using hash_rows [OF assms order_refl, of kec] assms by (auto simp: Let_def list_eq_iff_nth_eq min_absorb2)

lemma merkle_loop_root: "0 < n \<Longrightarrow> n \<le> length ls \<Longrightarrow> rootOf kec (take n ls) = Some (merkle_loop kec n ls ! 0)"
proof (induction kec n ls rule: merkle_loop.induct)
  case (1 kec n ls)
  show ?case
  proof (cases "1 < n")
    case True
    let ?r = "foldl (hash_row kec n) ls [0..<(n + 1) div 2]"
    have "length ?r = length ls" using hash_rows [OF 1(3) order_refl, of kec] by (simp add: Let_def)
    then have "rootOf kec (take ((n + 1) div 2) ?r) = Some (merkle_loop kec ((n + 1) div 2) ?r ! 0)"
      using 1 True by (intro 1(1)) auto
    then show ?thesis using True 1(3)
      by (subst rootOf.simps, subst merkle_loop.simps) (simp add: hash_rows_level [simplified] min_absorb2)
  next
    case False
    with 1(2,3) have "n = 1" "ls \<noteq> []" by auto
    then show ?thesis by (cases ls) (simp_all add: rootOf.simps merkle_loop.simps)
  qed
qed

text \<open>C27. The keeper's root of a checkpoint is the one \<open>ReserveVault\<close> computes over the same leaves, although the contract
  overwrites its array while it reads it; both have one exactly for a checkpoint that is not empty.\<close>

theorem root_is_contracts: "rootOf kec leaves = (if leaves = [] then None else Some (merkleRoot kec leaves))"
  using merkle_loop_root [of "length leaves" leaves kec] by (simp add: merkleRoot_def rootOf.simps)

subsection \<open>Proofs verify\<close>

lemma pair_commute: "pair kec a b = pair kec b a"
  by (auto simp: pair_def)

lemma sibling: "(i :: nat) XOR Suc 0 = (if even i then Suc i else i - 1)"
  by (simp add: xor_Suc_0_eq)

lemma level_step:
  assumes "i < length lv"
  shows "next_level kec lv ! (i div 2) = (if i XOR 1 < length lv then pair kec (lv ! i) (lv ! (i XOR 1)) else lv ! i)"
proof (cases "even i")
  case True
  then obtain j where "i = 2 * j" by blast
  with assms show ?thesis by (simp add: sibling nth_next_level)
next
  case False
  then obtain j where "i = 2 * j + 1" by (rule oddE)
  with assms show ?thesis by (simp add: sibling nth_next_level pair_commute)
qed

lemma climb_proof: "i < length lv \<Longrightarrow> rootOf kec lv = Some (climb kec (lv ! i) (proofFor kec lv i))"
proof (induction kec lv i rule: proofFor.induct)
  case (1 kec lv i)
  show ?case
  proof (cases "1 < length lv")
    case True
    have "rootOf kec (next_level kec lv) = Some (climb kec (next_level kec lv ! (i div 2)) (proofFor kec (next_level kec lv) (i div 2)))"
      using True 1(2) by (intro 1(1)) auto
    with True show ?thesis
      by (subst rootOf.simps, subst proofFor.simps) (simp add: level_step [OF 1(2)] climb_def Let_def)
  next
    case False
    with 1(2) show ?thesis by (cases lv) (auto simp: rootOf.simps proofFor.simps climb_def)
  qed
qed

lemma climb_root: "i < length leaves \<Longrightarrow> climb kec (leaves ! i) (proofFor kec leaves i) = merkleRoot kec leaves"
proof -
  assume i: "i < length leaves"
  then have "leaves \<noteq> []" by auto
  with climb_proof [OF i, of kec] merkle_loop_root [of "length leaves" leaves kec] show ?thesis
    by (simp add: merkleRoot_def)
qed

text \<open>C28. The proof the keeper builds for a leaf leads from that leaf to the contract's root, for every tree and position.\<close>

theorem proof_verifies:
  assumes "i < length leaves"
  shows "climb kec (leaves ! i) (proofFor kec leaves i) = merkleRoot kec leaves"
  using assms by (rule climb_root)

text \<open>Five leaves, so a carried node, under a hash that tells orders apart.\<close>

theorem proof_verifies_witness:
  "climb (\<lambda>a b. 3 * a + 5 * b + 1) ([10, 40, 20, 50, 30] ! 4) (proofFor (\<lambda>a b. 3 * a + 5 * b + 1) [10, 40, 20, 50, 30] 4)
     = merkleRoot (\<lambda>a b. 3 * a + 5 * b + 1) [10, 40, 20, 50, 30]"
  by (rule proof_verifies) simp

end
