(* ===== verification/Two_Chains.thy ===== *)
theory Two_Chains
  imports Keeper_Base
begin

section \<open>Keepers of the canonical lane: two senders, scans of blocks\<close>

text \<open>
  The keepers of \<open>keepers/v3/canonical\<close> sign on two chains. The sender of the other chain keeps its tasks in a journal of
  its own (\<open>lib/runner.mjs\<close>, \<open>side\<close>), which no code but that sender reads: what it answers is a function of the history,
  and a call of it leaves this keeper's journal alone.
\<close>

type_synonym 'c side = "'c history \<Rightarrow> string \<Rightarrow> 'c \<Rightarrow> send_result result"

definition call_side :: "'c side \<Rightarrow> string \<Rightarrow> 'c \<Rightarrow> (('r, 'c, 'o) kst, send_result) op" where
  "call_side net k c st = (net (hist st) k c, st\<lparr>hist := hist st @ [(k, c)]\<rparr>)"

lemma wp_call_side [wps]:
  "(\<And>r. net (hist st) k c = Inr r \<Longrightarrow> Q r (st\<lparr>hist := hist st @ [(k, c)]\<rparr>)) \<Longrightarrow> E (st\<lparr>hist := hist st @ [(k, c)]\<rparr>) \<Longrightarrow> wp (call_side net k c) Q E st"
  by (simp add: wp_def call_side_def split: sum.splits)

definition key_at :: "string result \<Rightarrow> (string \<Rightarrow> ('s, 'a) op) \<Rightarrow> ('s, 'a) op" where
  "key_at key f = (case key of Inl e \<Rightarrow> throw e | Inr k \<Rightarrow> f k)"

lemma wp_key_at [wps]: "(\<And>k. key = Inr k \<Longrightarrow> wp (f k) Q E st) \<Longrightarrow> E st \<Longrightarrow> wp (key_at key f) Q E st"
  by (simp add: key_at_def wp_throw split: sum.split)

lemma keeps_key_at [keeping]: "(\<And>k. key = Inr k \<Longrightarrow> keeps I (f k)) \<Longrightarrow> keeps I (key_at key f)"
  by (simp add: key_at_def keeps_throw split: sum.split)

subsection \<open>Blocks in chunks\<close>

text \<open>
  The loop all four scans share: from the cursor to the head in chunks, each chunk read, handled and then passed by the cursor.
  A chunk below one block would never end; here it is refused.
\<close>

function chunked :: "int \<Rightarrow> (int \<Rightarrow> int \<Rightarrow> ('s, unit) op) \<Rightarrow> int \<Rightarrow> int \<Rightarrow> ('s, unit) op" where
  "chunked span body head start =
     (if start > head then ret ()
      else if span < 1 then throw ''chunk''
      else let to = min head (start + span - 1) in thenk (body start to) (chunked span body head (to + 1)))"
  by auto
termination by (relation "measure (\<lambda>(span, body, head, start). nat (head + 1 - start))") auto

declare chunked.simps [simp del]

text \<open>For evaluation the number of chunks is counted first: the loop then unfolds only on a known start.\<close>

definition as_nat :: "int \<Rightarrow> nat" where
  "as_nat = nat"

lemma as_nat_code [code]: "as_nat 0 = 0" "as_nat (Int.Pos n) = nat_of_num n" "as_nat (Int.Neg n) = 0"
  by (simp_all add: as_nat_def nat_of_num_numeral)

fun chunks :: "nat \<Rightarrow> int \<Rightarrow> (int \<Rightarrow> int \<Rightarrow> ('s, unit) op) \<Rightarrow> int \<Rightarrow> int \<Rightarrow> ('s, unit) op" where
  "chunks 0 span body head start = ret ()"
| "chunks (Suc n) span body head start = (if span < 1 then throw ''chunk'' else
     thenk (body start (min head (start + span - 1))) (chunks n span body head (min head (start + span - 1) + 1)))"

lemma chunked_code [code]:
  "chunked span body head start = chunks (if start > head then 0 else if span < 1 then 1 else as_nat ((head - start) div span + 1)) span body head start"
  unfolding as_nat_def
proof (induction span body head start rule: chunked.induct)
  case (1 span body head start)
  show ?case
  proof (cases "start > head \<or> span < 1")
    case False
    let ?to = "min head (start + span - 1)"
    have rest: "chunked span body head (?to + 1) = chunks (nat ((head - start) div span)) span body head (?to + 1)"
    proof (cases "head \<le> start + span - 1")
      case True
      then have "(head - start) div span = 0" using False by (simp add: div_pos_pos_trivial)
      with True show ?thesis by (subst chunked.simps) simp
    next
      case later: False
      then have "(head - (?to + 1)) div span + 1 = (head - start) div span"
        using False div_add_self2 [of span "head - start - span"] by (simp add: algebra_simps min_absorb2)
      with later False show ?thesis using 1 [of ?to] by simp
    qed
    have "nat ((head - start) div span + 1) = Suc (nat ((head - start) div span))"
      using False by (simp add: nat_add_distrib pos_imp_zdiv_nonneg_iff)
    with False rest show ?thesis by (subst chunked.simps) (simp add: Let_def)
  qed (subst chunked.simps, auto)
qed

lemma keeps_chunked [keeping]: "(\<And>a b. keeps I (body a b)) \<Longrightarrow> keeps I (chunked span body head start)"
proof (induction span body head start rule: chunked.induct)
  case (1 span body head start)
  show ?case by (subst chunked.simps) (auto simp: Let_def intro!: keeping 1)
qed

text \<open>An invariant of the cursor: \<open>J a st\<close> when the next chunk begins at \<open>a\<close>.\<close>

lemma wp_chunked:
  assumes "J start st" and "\<And>a b st. J a st \<Longrightarrow> start \<le> a \<Longrightarrow> a \<le> b \<Longrightarrow> b \<le> head \<Longrightarrow> wp (body a b) (\<lambda>_. J (b + 1)) E st"
    and "\<And>a st. J a st \<Longrightarrow> start \<le> a \<Longrightarrow> E st" and "\<And>a st. J a st \<Longrightarrow> head < a \<Longrightarrow> start \<le> a \<Longrightarrow> Q () st"
  shows "wp (chunked span body head start) Q E st"
  using assms
proof (induction span body head start arbitrary: st rule: chunked.induct)
  case (1 span body head start)
  show ?case
    apply (subst chunked.simps)
    apply (intro wps)
    subgoal using 1(5) [OF 1(2)] by simp
    subgoal using 1(4) [OF 1(2)] by simp
    subgoal for to
      apply (rule wp_cons [OF 1(3) [OF 1(2)]])
      subgoal by simp
      subgoal by simp
      subgoal by simp
      subgoal for _ st1
        using 1(3-5) by (intro 1(1)) auto
      by assumption
    done
qed

lemma chunked_ends: "start \<le> head \<Longrightarrow> 1 \<le> span \<Longrightarrow> chunked span body head start = thenk (body start (min head (start + span - 1))) (chunked span body head (min head (start + span - 1) + 1))"
  by (subst chunked.simps) (simp add: Let_def)

subsection \<open>Reopening a quarantined task (\<open>reopenQuarantined\<close> of \<open>canonical/outbox-executor.mjs\<close>)\<close>

definition reopenQuarantined :: "int \<Rightarrow> int \<Rightarrow> string \<Rightarrow> 'r journal \<Rightarrow> 'r journal" where
  "reopenQuarantined ms nowMs k j = (case task_of j k of
      Some t \<Rightarrow> if t_state t = Quarantined \<and> nowMs - t_updatedAt t \<ge> ms then reopen nowMs k ''auto-reopen (canonical lane deadline)'' j else j
    | None \<Rightarrow> j)"

lemma records_upsert: "records (mem (upsertTask now k f j)) = records (mem j)"
  by (simp add: upsertTask_def Let_def event_def save_def)

lemma records_reopen [simp]: "records (mem (reopenQuarantined ms now k j)) = records (mem j)"
  unfolding reopenQuarantined_def reopen_def by (simp add: records_upsert split: option.split)

lemma same_ns: "records (mem j') = records (mem j) \<Longrightarrow> ns_of j' = ns_of j"
  by (intro ext) (simp add: ns_of_def)

lemma record_of_reopen [simp]: "record_of (reopenQuarantined ms now k j) i = record_of j i"
  by (simp add: record_of_def same_ns [OF records_reopen])

text \<open>\<open>const QUIET\<close>: the statuses that raise no alert.\<close>

definition quiet :: "send_status \<Rightarrow> bool" where
  "quiet s = (s \<in> {StConfirmed, StDryRun, StInflight, StGasCap, StBackoff})"


subsection \<open>Loops that collect\<close>

lemma wp_collect:
  assumes "\<And>x st1. x \<in> set xs \<Longrightarrow> I st1 \<Longrightarrow> wp (f x) (\<lambda>y st2. I st2 \<and> R x y) E st1" and "I st"
  shows "wp (collect f xs) (\<lambda>ys st2. I st2 \<and> list_all2 R xs ys) E st"
  using assms
proof (induction xs arbitrary: st)
  case (Cons x xs)
  from Cons.prems have x: "wp (f x) (\<lambda>y st2. I st2 \<and> R x y) E st" by simp
  have xs: "wp (collect f xs) (\<lambda>ys st2. I st2 \<and> list_all2 R xs ys) E st1" if "I st1" for st1
    by (rule Cons.IH) (use Cons.prems(1) that in auto)
  show ?case unfolding collect.simps
    by (intro wps wp_cons [OF x] wp_cons [OF xs]) auto
qed (simp add: wps)

end
