(* ===== verification/Canonical_Keeper.thy ===== *)
theory Canonical_Keeper
  imports Merkle Two_Chains Id_Records
begin

section \<open>The canonical keeper (\<open>keepers/v3/canonical/keeper.mjs\<close>)\<close>

text \<open>
  One definition per method or loop body. Arc is the keeper's own chain, its sender shares the journal; the sender of RH is
  a \<open>side\<close>. \<open>result\<close> keeps what it read for the life of the process: the model reads the results of a checkpoint once and
  uses them for the leaves and for the calls. Two reads of a block's time in one chunk are the same read.
\<close>

subsection \<open>State and world\<close>

record canonical_params =
  cp_checkpointEverySec :: int
  cp_checkpointBatch :: int
  cp_warnAgeSec :: int
  cp_criticalAgeSec :: int
  cp_outboxAlertSec :: int
  cp_maxReconcilePerTick :: int
  cp_scanChunk :: int
  cp_startLookback :: int

definition CANONICAL_DEFAULTS :: canonical_params where
  "CANONICAL_DEFAULTS = \<lparr>cp_checkpointEverySec = 3600, cp_checkpointBatch = 64, cp_warnAgeSec = 5 * DAY, cp_criticalAgeSec = 7 * DAY,
     cp_outboxAlertSec = 7 * DAY + 12 * 3600, cp_maxReconcilePerTick = 32, cp_scanChunk = 5000, cp_startLookback = 20000\<rparr>"

record hub_result =
  hr_ref :: digest
  hr_underlying :: string
  hr_outcome :: int
  hr_amountIn :: int
  hr_amountOut :: int
  hr_seq :: int

datatype crec = CScan int | CResult digest int | CCheckpoint digest int string int | CSent int | CGate int

datatype ccall = Checkpoint | Reconcile hub_result int "digest list" | CheckStale

datatype creport = CAct string int send_status | CDefer int | CAlerted string

type_synonym ch = "ccall history"

datatype vault_event = OrderExecuted int digest | Checkpointed int int digest

record vault_log =
  vl_block :: int
  vl_tx :: string
  vl_event :: vault_event

record cenv =
  ce_p :: canonical_params
  ce_arcChainId :: int
  ce_rhChainId :: int
  ce_hub :: string
  ce_vault :: string
  ce_kec :: "digest \<Rightarrow> digest \<Rightarrow> digest"
  ce_kec1 :: "digest \<Rightarrow> digest"
  ce_encoded :: "hub_result \<Rightarrow> digest"
  ce_hex :: "digest \<Rightarrow> string"
  ce_ms :: "ch \<Rightarrow> int"
  ce_now :: "ch \<Rightarrow> int"
  ce_latest :: "(ch \<Rightarrow> int result) option"
  ce_rhSettle :: "ch \<Rightarrow> unit result"
  ce_rhHead :: "ch \<Rightarrow> int result"
  ce_logs :: "int \<Rightarrow> int \<Rightarrow> ch \<Rightarrow> vault_log list result"
  ce_blockTime :: "int \<Rightarrow> ch \<Rightarrow> int result"
  ce_resultCount :: "ch \<Rightarrow> int result"
  ce_checkpointedThrough :: "ch \<Rightarrow> int result"
  ce_resultAt :: "int \<Rightarrow> ch \<Rightarrow> hub_result result"
  ce_checkpointCount :: "ch \<Rightarrow> int result"
  ce_checkpointAt :: "int \<Rightarrow> ch \<Rightarrow> (int \<times> int) result"
  ce_orderCount :: "ch \<Rightarrow> int result"
  ce_reconciled :: "digest \<Rightarrow> ch \<Rightarrow> bool result"
  ce_mintsHalted :: "ch \<Rightarrow> bool result"
  ce_unreconciledCount :: "ch \<Rightarrow> int result"

type_synonym cjournal = "crec journal"
type_synonym cstate = "(crec, ccall, creport) kst"
type_synonym 'a cop = "(cstate, 'a) op"

definition cclock :: "cenv \<Rightarrow> int cop" where
  "cclock v = rd (\<lambda>h. Inr (ce_now v h))"

definition c_put :: "cenv \<Rightarrow> string \<Rightarrow> string \<Rightarrow> crec \<Rightarrow> unit cop" where
  "c_put v ns i r = put_rec (ce_ms v) ns i (\<lambda>_. r)"

definition scan_from :: "cjournal \<Rightarrow> int option" where
  "scan_from j = (case record_of j (''scan'', ''results'') of Some (CScan n) \<Rightarrow> Some n | _ \<Rightarrow> None)"

definition sent_at :: "cjournal \<Rightarrow> int" where
  "sent_at j = (case record_of j (''state'', ''checkpoint'') of Some (CSent t) \<Rightarrow> t | _ \<Rightarrow> 0)"

definition gate_cursor :: "cjournal \<Rightarrow> int" where
  "gate_cursor j = (case record_of j (''state'', ''gate'') of Some (CGate n) \<Rightarrow> n | _ \<Rightarrow> 0)"

text \<open>\<open>leafOf\<close> of \<open>lib/merkle.mjs\<close>: the digest of the digest of the ABI encoding.\<close>

definition leafOf :: "cenv \<Rightarrow> hub_result \<Rightarrow> digest" where
  "leafOf v r = ce_kec1 v (ce_encoded v r)"

subsection \<open>Scanning RH\<close>

definition see_vault_log :: "cenv \<Rightarrow> vault_log \<Rightarrow> unit cop" where
  "see_vault_log v l =
     bindk (rd (ce_blockTime v (vl_block l))) (\<lambda>at.
     case vl_event l of
       OrderExecuted s ref \<Rightarrow> c_put v ''results'' (show_int s) (CResult ref at)
     | Checkpointed f t root \<Rightarrow> c_put v ''checkpoints'' (show_int f @ ''-'' @ show_int t) (CCheckpoint root at (vl_tx l) t))"

definition scan_chunk :: "cenv \<Rightarrow> int \<Rightarrow> int \<Rightarrow> unit cop" where
  "scan_chunk v a b =
     bindk (rd (ce_logs v a b)) (\<lambda>logs.
     thenk (each (see_vault_log v) logs) (c_put v ''scan'' ''results'' (CScan (b + 1))))"

definition scanResults :: "cenv \<Rightarrow> unit cop" where
  "scanResults v =
     bindk (rd (ce_rhHead v)) (\<lambda>head.
     bindk (getj scan_from) (\<lambda>n.
     chunked (cp_scanChunk (ce_p v)) (scan_chunk v) head (orelse n (max 0 (head - cp_startLookback (ce_p v))))))"

subsection \<open>Checkpoints\<close>

definition checkpointPhase :: "cenv \<Rightarrow> ccall side \<Rightarrow> unit cop" where
  "checkpointPhase v rh =
     bindk (rd (ce_resultCount v)) (\<lambda>n.
     bindk (rd (ce_checkpointedThrough v)) (\<lambda>through.
     if n - through \<le> 0 then ret () else
     bindk (getj sent_at) (\<lambda>lst.
     bindk (cclock v) (\<lambda>now.
     if now - lst < cp_checkpointEverySec (ce_p v) \<and> n - through < cp_checkpointBatch (ce_p v) then emit (CDefer (n - through)) else
     key_at (taskKey (show_int (ce_rhChainId v)) (ce_vault v) (''checkpoint:'' @ show_int through @ '':'' @ show_int n) ''1'') (\<lambda>k.
     bindk (call_side rh k Checkpoint) (\<lambda>res.
     thenk (emit (CAct ''checkpoint'' through (sr_status res)))
       (if progressed res then bindk (cclock v) (\<lambda>t. c_put v ''state'' ''checkpoint'' (CSent t)) else emit (CAlerted ''checkpoint''))))))))"

subsection \<open>Reconciling\<close>

text \<open>The rows of checkpoint \<open>i\<close> from position \<open>n\<close> on. \<open>budget\<close> and \<open>opn\<close> are the code's variables, \<open>any\<close> whether a
  reconcile was confirmed in this tick.\<close>

fun reconcile_rows :: "cenv \<Rightarrow> ccall caller \<Rightarrow> int \<Rightarrow> int \<Rightarrow> digest list \<Rightarrow> nat \<Rightarrow> hub_result list \<Rightarrow> int \<Rightarrow> int \<Rightarrow> bool \<Rightarrow> (int \<times> int \<times> bool) cop" where
  "reconcile_rows v net orders i leaves n [] budget opn any = ret (budget, opn, any)"
| "reconcile_rows v net orders i leaves n (r # rs) budget opn any =
     (if budget \<le> 0 then ret (budget, opn, any)
      else if uint (hr_ref r) \<ge> orders then reconcile_rows v net orders i leaves (n + 1) rs budget opn any
      else bindk (rd (ce_reconciled v (hr_ref r))) (\<lambda>done.
        if done then reconcile_rows v net orders i leaves (n + 1) rs budget opn any else
        key_at (taskKey (show_int (ce_arcChainId v)) (ce_hub v) (''reconcile:'' @ ce_hex v (hr_ref r) @ '':'' @ show_int i) ''1'') (\<lambda>k.
        bindk (call net k (Reconcile r i (proofFor (ce_kec v) leaves n))) (\<lambda>res.
        thenk (emit (CAct ''reconcile'' (hr_seq r) (sr_status res)))
          (reconcile_rows v net orders i leaves (n + 1) rs (budget - 1) (if sent_ok res then opn else opn + 1) (any \<or> sent_ok res))))))"

definition checkpoint_results :: "cenv \<Rightarrow> int \<Rightarrow> hub_result list cop" where
  "checkpoint_results v i = bindk (rd (ce_checkpointAt v i)) (\<lambda>(f, t). collect (\<lambda>s. rd (ce_resultAt v s)) [f..t])"

fun reconcile_checkpoints :: "cenv \<Rightarrow> ccall caller \<Rightarrow> int \<Rightarrow> int \<Rightarrow> int \<Rightarrow> bool \<Rightarrow> int list \<Rightarrow> bool cop" where
  "reconcile_checkpoints v net orders cur budget any [] = ret any"
| "reconcile_checkpoints v net orders cur budget any (i # is) =
     (if budget \<le> 0 then ret any else
      bindk (checkpoint_results v i) (\<lambda>rs.
      bindk (reconcile_rows v net orders i (map (leafOf v) rs) 0 rs budget 0 any) (\<lambda>(budget', opn, any').
      if opn = 0 \<and> budget' > 0 \<and> i = cur
      then thenk (c_put v ''state'' ''gate'' (CGate (cur + 1))) (reconcile_checkpoints v net orders (cur + 1) budget' any' is)
      else reconcile_checkpoints v net orders cur budget' any' is)))"

definition prune :: "cenv \<Rightarrow> ccall caller \<Rightarrow> unit cop" where
  "prune v net =
     bindk (cclock v) (\<lambda>now.
     key_at (taskKey (show_int (ce_arcChainId v)) (ce_hub v) (''checkStale:'' @ show_int now) ''1'') (\<lambda>k.
     bindk (call net k CheckStale) (\<lambda>res. emit (CAct ''checkStale'' 0 (sr_status res)))))"

definition reconcilePhase :: "cenv \<Rightarrow> ccall caller \<Rightarrow> unit cop" where
  "reconcilePhase v net =
     bindk (rd (ce_checkpointCount v)) (\<lambda>count.
     bindk (rd (ce_orderCount v)) (\<lambda>orders.
     bindk (getj gate_cursor) (\<lambda>cur.
     bindk (reconcile_checkpoints v net orders cur (cp_maxReconcilePerTick (ce_p v)) False [cur..count - 1]) (\<lambda>any.
     if any then prune v net else ret ()))))"

subsection \<open>Watching\<close>

definition result_entries :: "cjournal \<Rightarrow> (int \<times> digest \<times> int) list" where
  "result_entries j = List.map_filter (\<lambda>(s, r). case r of CResult ref at \<Rightarrow> Some (s, ref, at) | _ \<Rightarrow> None) (id_entries j ''results'')"

fun oldest_open :: "cenv \<Rightarrow> int \<Rightarrow> (int \<times> digest \<times> int) list \<Rightarrow> (int \<times> digest \<times> int) option cop" where
  "oldest_open v orders [] = ret None"
| "oldest_open v orders ((s, ref, at) # rs) =
     (if uint ref \<ge> orders then oldest_open v orders rs
      else bindk (rd (ce_reconciled v ref)) (\<lambda>done. if done then oldest_open v orders rs else ret (Some (s, ref, at))))"

text \<open>Whether a checkpoint on the gate covers \<open>toSeq\<close>, newest first.\<close>

fun arrived :: "cenv \<Rightarrow> int \<Rightarrow> int list \<Rightarrow> bool cop" where
  "arrived v toSeq [] = ret False"
| "arrived v toSeq (i # is) = bindk (rd (ce_checkpointAt v i)) (\<lambda>(f, t). if t \<ge> toSeq then ret True else arrived v toSeq is)"

definition watch_checkpoint :: "cenv \<Rightarrow> int \<Rightarrow> string \<times> crec \<Rightarrow> unit cop" where
  "watch_checkpoint v gateCount = (\<lambda>(k, r).
     case r of CCheckpoint root at tx toSeq \<Rightarrow>
       bindk (cclock v) (\<lambda>now.
       if now - at < cp_outboxAlertSec (ce_p v) then ret () else
       bindk (arrived v toSeq (rev [0..gateCount - 1])) (\<lambda>a. if a then ret () else emit (CAlerted (''outbox-'' @ k))))
     | _ \<Rightarrow> ret ())"

definition watchPhase :: "cenv \<Rightarrow> unit cop" where
  "watchPhase v =
     bindk (rd (ce_mintsHalted v)) (\<lambda>halted.
     bindk (rd (ce_unreconciledCount v)) (\<lambda>unrec.
     bindk (rd (ce_checkpointedThrough v)) (\<lambda>_.
     thenk (if halted then emit (CAlerted ''halted'') else ret ())
     (if unrec = 0 then ret () else
      bindk (rd (ce_orderCount v)) (\<lambda>orders.
      bindk (getj result_entries) (\<lambda>results.
      bindk (oldest_open v orders results) (\<lambda>oldest.
      case oldest of None \<Rightarrow> ret ()
      | Some (s, ref, at) \<Rightarrow>
         bindk (cclock v) (\<lambda>now.
         thenk (if now - at \<ge> cp_criticalAgeSec (ce_p v) then emit (CAlerted ''age-critical'')
                else if now - at \<ge> cp_warnAgeSec (ce_p v) then emit (CAlerted ''age-warn'') else ret ())
           (bindk (rd (ce_checkpointCount v)) (\<lambda>gateCount.
            bindk (getj (\<lambda>j. entries j ''checkpoints'')) (each (watch_checkpoint v gateCount)))))))))))) "

definition canonical_tick :: "cenv \<Rightarrow> ccall caller \<Rightarrow> ccall settler \<Rightarrow> ccall side \<Rightarrow> unit cop" where
  "canonical_tick v net settler rh =
     thenk (case ce_latest v of Some f \<Rightarrow> bindk (rd f) (\<lambda>_. ret ()) | None \<Rightarrow> ret ())
    (thenk (settle_all settler)
    (thenk (bindk (rd (ce_rhSettle v)) (\<lambda>_. ret ()))
    (thenk (scanResults v)
    (thenk (checkpointPhase v rh)
    (thenk (reconcilePhase v net) (watchPhase v))))))"

end
