(* ===== verification/Canonical_Safety.thy ===== *)
theory Canonical_Safety
  imports Canonical_Keeper
begin

section \<open>What the canonical keeper proves to the hub\<close>

subsection \<open>Calls that are due\<close>

text \<open>\<open>read_at v h i rs\<close>: in \<open>h\<close> the gate's checkpoint \<open>i\<close> held the results \<open>rs\<close>.\<close>

definition read_at :: "cenv \<Rightarrow> ch \<Rightarrow> int \<Rightarrow> hub_result list \<Rightarrow> bool" where
  "read_at v h i rs \<longleftrightarrow> (\<exists>f t. ce_checkpointAt v i h = Inr (f, t) \<and> list_all2 (\<lambda>s r. ce_resultAt v s h = Inr r) [f..t] rs)"

fun canonical_due :: "cenv \<Rightarrow> ch \<Rightarrow> string \<Rightarrow> ccall \<Rightarrow> bool" where
  "canonical_due v h k Checkpoint = (\<exists>n t. ce_resultCount v h = Inr n \<and> ce_checkpointedThrough v h = Inr t \<and> t < n)"
| "canonical_due v h k (Reconcile r i p) = (ce_reconciled v (hr_ref r) h = Inr False
     \<and> (\<exists>h1. earlier h1 h \<and> (\<exists>orders. ce_orderCount v h1 = Inr orders \<and> uint (hr_ref r) < orders))
     \<and> (\<exists>h1 rs. earlier h1 h \<and> read_at v h1 i rs \<and> r \<in> set rs \<and> climb (ce_kec v) (leafOf v r) p = merkleRoot (ce_kec v) (map (leafOf v) rs)))"
| "canonical_due v h k CheckStale = True"

definition canon_dues :: "cenv \<Rightarrow> cstate \<Rightarrow> bool" where
  "canon_dues v st \<longleftrightarrow> asked (canonical_due v) (hist st)"

definition canon_since :: "cenv \<Rightarrow> ch \<Rightarrow> cstate \<Rightarrow> bool" where
  "canon_since v h st \<longleftrightarrow> canon_dues v st \<and> earlier h (hist st)"

lemma canon_since_keeps [keeping]:
  "keeps (canon_since v h) (emit x)" "keeps (canon_since v h) (c_put v' ns i r)"
  by (simp_all add: keeps_def canon_since_def canon_dues_def emit_def c_put_def put_rec_def)

lemma canon_since_call: "canon_since v h st \<Longrightarrow> canonical_due v (hist st) k c \<Longrightarrow> canon_since v h (st\<lparr>kj := j, hist := hist st @ [(k, c)]\<rparr>)"
  by (auto simp: canon_since_def canon_dues_def intro: earlier_snoc)

lemma canon_since_outs [simp]: "canon_since v h (st\<lparr>outs := os\<rparr>) = canon_since v h st"
  by (simp add: canon_since_def canon_dues_def)

lemma due_rows:
  assumes "canon_since v h st" and "ce_orderCount v h0 = Inr orders" "earlier h0 h" and "read_at v h i all" and "rs = drop n all"
  shows "wp (reconcile_rows v net orders i (map (leafOf v) all) n rs budget opn any) (\<lambda>_. canon_since v h) (canon_since v h) st"
  using assms(1,5)
proof (induction rs arbitrary: n budget opn any st)
  case (Cons r rs)
  from Cons.prems(2) have n: "n < length all" by (metis drop_all leI list.distinct(1))
  with Cons.prems(2) have r: "r = all ! n" "rs = drop (n + 1) all" by (auto simp: Cons_nth_drop_Suc [symmetric])
  have due: "canonical_due v (hist st1) k (Reconcile r i (proofFor (ce_kec v) (map (leafOf v) all) n))"
    if "ce_reconciled v (hr_ref r) (hist st1) = Inr False" "\<not> uint (hr_ref r) \<ge> orders" "canon_since v h st1" for st1 k
  proof -
    have e: "earlier h (hist st1)" "earlier h0 (hist st1)" using that(3) assms(3) by (auto simp: canon_since_def earlier_def)
    moreover have "climb (ce_kec v) (leafOf v r) (proofFor (ce_kec v) (map (leafOf v) all) n) = merkleRoot (ce_kec v) (map (leafOf v) all)"
      using climb_root [of n "map (leafOf v) all" "ce_kec v"] n r by simp
    moreover have "r \<in> set all" using n r by simp
    ultimately show ?thesis using that(1,2) assms(2,4) by auto
  qed
  show ?case
    unfolding reconcile_rows.simps
    by (intro wps Cons.IH) (use Cons.prems(1) r(2) in \<open>auto intro!: canon_since_call due simp del: canonical_due.simps\<close>)
qed (auto intro: wps)

lemma wp_collect_reads:
  "(\<And>rs. list_all2 (\<lambda>s r. f s (hist st) = Inr r) xs rs \<Longrightarrow> Q rs st) \<Longrightarrow> E st \<Longrightarrow> wp (collect (\<lambda>s. rd (f s)) xs) Q E st"
proof (induction xs arbitrary: Q)
  case (Cons x xs)
  show ?case unfolding collect.simps by (intro wps Cons.IH) (use Cons.prems in auto)
qed (auto intro: wps)

lemma wp_checkpoint_results: "(\<And>rs. read_at v (hist st) i rs \<Longrightarrow> Q rs st) \<Longrightarrow> E st \<Longrightarrow> wp (checkpoint_results v i) Q E st"
  unfolding checkpoint_results_def read_at_def
  by (intro wps wp_collect_reads) auto

lemma canon_since_dues: "canon_since v h st \<Longrightarrow> canon_dues v st"
  by (simp add: canon_since_def)

lemma canon_since_now: "canon_dues v st \<Longrightarrow> canon_since v (hist st) st"
  by (simp add: canon_since_def)

lemma earlier_via: "earlier h1 h2 \<Longrightarrow> earlier h2 h3 \<Longrightarrow> earlier h1 h3"
  by (auto simp: earlier_def)

lemma due_checkpoints:
  assumes "canon_since v h0 st" "ce_orderCount v h0 = Inr orders"
  shows "wp (reconcile_checkpoints v net orders cur budget any is) (\<lambda>_. canon_since v h0) (canon_since v h0) st"
  using assms(1)
proof (induction "is" arbitrary: cur budget any st)
  case (Cons i "is")
  have put: "canon_since v h0 st1 \<Longrightarrow> wp (c_put v ns k r) (\<lambda>_. canon_since v h0) (canon_since v h0) st1" for ns k r st1
    by (rule wp_of_keeps) (intro keeping)
  have rows: "wp (reconcile_rows v net orders i (map (leafOf v) rs) 0 rs b o1 a) (\<lambda>_. canon_since v h0) (canon_since v h0) st" if "read_at v (hist st) i rs" for rs b o1 a
  proof -
    have e: "earlier h0 (hist st)" using Cons.prems by (simp add: canon_since_def)
    show ?thesis
      by (rule wp_cons [OF due_rows [OF canon_since_now [OF canon_since_dues [OF Cons.prems]] assms(2) e that]])
         (auto simp: canon_since_def intro: earlier_via [OF e])
  qed
  show ?case unfolding reconcile_checkpoints.simps
    by (intro wps wp_checkpoint_results wp_cons [OF rows]) (use Cons.prems in \<open>auto intro!: wps wp_cons [OF put] Cons.IH\<close>)
qed (auto intro: wps)

lemma keeps_canon_dues [keeping]:
  "keeps (canon_dues v) (emit x)" "keeps (canon_dues v) (c_put v' ns i r)" "keeps (canon_dues v) (settle_all s)"
  by (simp_all add: keeps_def canon_dues_def emit_def c_put_def put_rec_def settle_all_def split: prod.splits)

lemma canon_dues_simps [simp]:
  "canon_dues v (st\<lparr>outs := os\<rparr>) = canon_dues v st" "canon_dues v (st\<lparr>kj := j\<rparr>) = canon_dues v st"
  "canon_dues v (st\<lparr>hist := h\<rparr>) = asked (canonical_due v) h" "canon_dues v (st\<lparr>kj := j, hist := h\<rparr>) = asked (canonical_due v) h"
  "asked (canonical_due v) (hist st) = canon_dues v st"
  by (simp_all add: canon_dues_def)

lemma keeps_scan: "keeps (canon_dues v) (scanResults v)"
  unfolding scanResults_def scan_chunk_def see_vault_log_def
  by (intro keeping) (auto split: vault_event.split intro!: keeping)

lemma keeps_watch: "keeps (canon_dues v) (watchPhase v)"
proof -
  have old: "keeps (canon_dues v) (oldest_open v orders rs)" for orders rs
    by (induction v orders rs rule: oldest_open.induct) (auto intro!: keeping)
  have arr: "keeps (canon_dues v) (arrived v t xs)" for t xs
    by (induction v t xs rule: arrived.induct) (auto intro!: keeping)
  have cp: "keeps (canon_dues v) (watch_checkpoint v g x)" for g x
    unfolding watch_checkpoint_def cclock_def by (cases x; cases "snd x") (auto intro!: keeping arr)
  show ?thesis unfolding watchPhase_def cclock_def by (intro keeping old cp)
qed

lemma due_checkpoint: "canon_dues v st \<Longrightarrow> wp (checkpointPhase v rh) (\<lambda>_. canon_dues v) (canon_dues v) st"
  unfolding checkpointPhase_def cclock_def
  by (intro wps wp_of_keeps [OF keeps_canon_dues(2)]) auto

lemma due_reconcile: "canon_dues v st \<Longrightarrow> wp (reconcilePhase v net) (\<lambda>_. canon_dues v) (canon_dues v) st"
  unfolding reconcilePhase_def prune_def cclock_def
  by (intro wps wp_cons [OF due_checkpoints [OF canon_since_now]]) (auto intro!: wps dest: canon_since_dues)

lemma due_canonical: "canon_dues v st \<Longrightarrow> wp (canonical_tick v net settler rh) (\<lambda>_. canon_dues v) (canon_dues v) st"
  unfolding canonical_tick_def
  by (intro wps wp_cons [OF wp_of_keeps [OF keeps_scan]] wp_cons [OF due_checkpoint] wp_cons [OF due_reconcile] wp_of_keeps [OF keeps_watch]) auto

text \<open>C14. Every transaction a tick of the canonical keeper asks for is due: a checkpoint is sent while results wait for one, and a
  settlement is reconciled only if it belongs to an order of the hub, the hub reads it as not reconciled at that moment,
  it was read as a result of that checkpoint of the gate, and the proof sent along leads from its leaf to the root the
  contract computes over the results of the checkpoint.\<close>

theorem canonical_calls_due:
  assumes "hist st = []" and "hist (snd (canonical_tick v net settler rh st)) = h1 @ (k, c) # h2"
  shows "canonical_due v h1 k c"
proof -
  have "canon_dues v st" using assms(1) by (simp add: canon_dues_def)
  then have "canon_dues v (snd (canonical_tick v net settler rh st))"
    by (intro keepsD [of "canon_dues v"]) (simp_all add: keeps_wp due_canonical)
  then show ?thesis unfolding canon_dues_def by (rule askedD) (rule assms(2))
qed

subsection \<open>The cursor of the gate\<close>

text \<open>
  \<open>honest C S v net\<close>: the checkpoints of the gate are \<open>C\<close>, and \<open>S\<close> holds every reference the hub reads as reconciled, every
  one outside its orders, and every one whose reconcile the sender confirmed.
\<close>

definition honest :: "(int \<Rightarrow> hub_result list) \<Rightarrow> digest set \<Rightarrow> cenv \<Rightarrow> ccall caller \<Rightarrow> bool" where
  "honest C S v net \<longleftrightarrow> (\<forall>h i rs. read_at v h i rs \<longrightarrow> rs = C i) \<and> (\<forall>h ref. ce_reconciled v ref h = Inr True \<longrightarrow> ref \<in> S)
     \<and> (\<forall>h n ref. ce_orderCount v h = Inr n \<longrightarrow> n \<le> uint ref \<longrightarrow> ref \<in> S)
     \<and> (\<forall>h k r i p ts res ts'. net h k (Reconcile r i p) ts = (Inr res, ts') \<longrightarrow> sent_ok res \<longrightarrow> hr_ref r \<in> S)"

definition proved_below :: "(int \<Rightarrow> hub_result list) \<Rightarrow> digest set \<Rightarrow> int \<Rightarrow> bool" where
  "proved_below C S c \<longleftrightarrow> (\<forall>i r. 0 \<le> i \<longrightarrow> i < c \<longrightarrow> r \<in> set (C i) \<longrightarrow> hr_ref r \<in> S)"

definition behind :: "(int \<Rightarrow> hub_result list) \<Rightarrow> digest set \<Rightarrow> cstate \<Rightarrow> bool" where
  "behind C S st \<longleftrightarrow> proved_below C S (gate_cursor (kj st))"

definition at_cursor :: "int \<Rightarrow> cstate \<Rightarrow> bool" where
  "at_cursor c st \<longleftrightarrow> gate_cursor (kj st) = c"

lemma gate_cursor_simps [simp]:
  "gate_cursor (with_tasks ts j) = gate_cursor j"
  "gate_cursor (setRecord now ''state'' ''gate'' (\<lambda>_. CGate n) j) = n"
  "ns \<noteq> ''state'' \<or> i \<noteq> ''gate'' \<Longrightarrow> gate_cursor (setRecord now ns i p j) = gate_cursor j"
  by (auto simp: gate_cursor_def record_of_setRecord)

lemma at_cursor_keeps [keeping]:
  "keeps (at_cursor c) (emit x)" "keeps (at_cursor c) (settle_all s)" "keeps (at_cursor c) (call net k cl)" "keeps (at_cursor c) (call_side rh k cl)"
  by (simp_all add: keeps_def at_cursor_def emit_def settle_all_def call_def call_side_def split: prod.splits)

lemma at_cursor_put: "ns \<noteq> ''state'' \<or> i \<noteq> ''gate'' \<Longrightarrow> keeps (at_cursor c) (c_put v ns i r)"
  by (simp add: keeps_def at_cursor_def c_put_def put_rec_def)

lemma cursor_rows:
  assumes "honest C S v net" "ce_orderCount v h = Inr orders" "at_cursor c st"
  shows "wp (reconcile_rows v net orders i leaves n rs budget opn any)
     (\<lambda>(b, o1, a) st1. at_cursor c st1 \<and> opn \<le> o1 \<and> (o1 = opn \<and> 0 < b \<longrightarrow> (\<forall>r\<in>set rs. hr_ref r \<in> S))) (at_cursor c) st"
  using assms(3)
proof (induction rs arbitrary: n budget opn any st)
  case (Cons r rs)
  have foreign: "orders \<le> uint (hr_ref r) \<Longrightarrow> hr_ref r \<in> S" using assms(1,2) by (auto simp: honest_def)
  have read: "ce_reconciled v (hr_ref r) h' = Inr True \<Longrightarrow> hr_ref r \<in> S" for h' using assms(1) by (auto simp: honest_def)
  have conf: "net h' k (Reconcile r i p) ts = (Inr res, ts') \<Longrightarrow> sent_ok res \<Longrightarrow> hr_ref r \<in> S" for h' k p ts res ts'
    using assms(1) unfolding honest_def by blast
  show ?case unfolding reconcile_rows.simps
    by (intro wps wp_cons [OF Cons.IH]) (use Cons.prems foreign read conf in \<open>auto simp: at_cursor_def split: if_splits\<close>)
qed (auto intro: wps)

lemma cursor_checkpoints:
  assumes hon: "honest C S v net" and ord: "ce_orderCount v h = Inr orders"
  shows "at_cursor c st \<Longrightarrow> proved_below C S c \<Longrightarrow> wp (reconcile_checkpoints v net orders c budget any is) (\<lambda>_. behind C S) (behind C S) st"
proof (induction "is" arbitrary: c budget any st)
  case (Cons i "is")
  have end1: "at_cursor c st1 \<Longrightarrow> behind C S st1" for st1 using Cons.prems(2) by (simp add: at_cursor_def behind_def)
  have step: "wp (if opn = 0 \<and> budget' > 0 \<and> i = c then thenk (c_put v ''state'' ''gate'' (CGate (c + 1))) (reconcile_checkpoints v net orders (c + 1) budget' a is)
      else reconcile_checkpoints v net orders c budget' a is) (\<lambda>_. behind C S) (behind C S) st1"
    if "at_cursor c st1" "opn = 0 \<and> 0 < budget' \<longrightarrow> (\<forall>r\<in>set (C i). hr_ref r \<in> S)" for opn budget' a st1
    unfolding c_put_def using that Cons.prems(2)
    by (intro wps Cons.IH) (auto simp: at_cursor_def proved_below_def less_le_trans dest: zless_imp_add1_zle)
  have rows: "wp (bindk (reconcile_rows v net orders i (map (leafOf v) rs) 0 rs budget 0 any) (\<lambda>(budget', opn, any').
      if opn = 0 \<and> budget' > 0 \<and> i = c then thenk (c_put v ''state'' ''gate'' (CGate (c + 1))) (reconcile_checkpoints v net orders (c + 1) budget' any' is)
      else reconcile_checkpoints v net orders c budget' any' is)) (\<lambda>_. behind C S) (behind C S) st" if "read_at v (hist st) i rs" for rs
  proof -
    have "rs = C i" using that hon unfolding honest_def by blast
    then show ?thesis
      by (intro wp_bind wp_cons [OF cursor_rows [OF hon ord Cons.prems(1)]] wp_prod step end1) auto
  qed
  show ?case unfolding reconcile_checkpoints.simps
    by (intro wps(1-5) wp_if wp_bind [of "checkpoint_results v i"] wp_checkpoint_results rows end1) (use Cons.prems in auto)
qed (auto intro!: wps simp: at_cursor_def behind_def)

lemma keeps_behind: "(\<And>c. keeps (at_cursor c) m) \<Longrightarrow> keeps (behind C S) m"
  by (auto simp: keeps_def at_cursor_def behind_def)

lemma behind_reconcile:
  assumes "honest C S v net"
  shows "keeps (behind C S) (reconcilePhase v net)"
proof (rule wp_keeps)
  fix st assume b: "behind C S st"
  have prune: "keeps (behind C S) (prune v net)"
    unfolding prune_def cclock_def by (rule keeps_behind) (intro keeping)
  have loop: "wp (reconcile_checkpoints v net orders (gate_cursor (kj st)) budget False is) (\<lambda>_. behind C S) (behind C S) st"
    if "ce_orderCount v (hist st) = Inr orders" for orders budget "is"
    using b by (intro cursor_checkpoints [OF assms that]) (simp_all add: at_cursor_def behind_def)
  show "wp (reconcilePhase v net) (\<lambda>_. behind C S) (behind C S) st"
    unfolding reconcilePhase_def
    by (intro wps wp_cons [OF loop]) (use b in \<open>auto intro!: wps wp_of_keeps [OF prune]\<close>)
qed

lemma behind_canonical: "honest C S v net \<Longrightarrow> keeps (behind C S) (canonical_tick v net settler rh)"
proof -
  assume hon: "honest C S v net"
  have scan: "keeps (at_cursor c) (scanResults v)" for c
    unfolding scanResults_def scan_chunk_def see_vault_log_def
    by (intro keeping at_cursor_put) (auto split: vault_event.split intro!: at_cursor_put)
  have send: "keeps (at_cursor c) (checkpointPhase v rh)" for c
    unfolding checkpointPhase_def cclock_def by (intro keeping at_cursor_put) auto
  have old: "keeps (at_cursor c) (oldest_open v orders rs)" for c orders rs
    by (induction v orders rs rule: oldest_open.induct) (auto intro!: keeping)
  have arr: "keeps (at_cursor c) (arrived v t xs)" for c t xs
    by (induction v t xs rule: arrived.induct) (auto intro!: keeping)
  have cp: "keeps (at_cursor c) (watch_checkpoint v g x)" for c g x
    unfolding watch_checkpoint_def cclock_def by (cases x; cases "snd x") (auto intro!: keeping arr)
  have watch: "keeps (at_cursor c) (watchPhase v)" for c
    unfolding watchPhase_def cclock_def by (intro keeping old cp)
  have settle: "keeps (at_cursor c) (settle_all settler)" for c by (intro keeping)
  note still = keeps_behind [OF scan] keeps_behind [OF send] keeps_behind [OF watch] keeps_behind [OF settle]
  show ?thesis unfolding canonical_tick_def by (intro keeping still behind_reconcile hon)
qed

definition canonical_ticks :: "(cenv \<times> ccall caller \<times> ccall settler \<times> ccall side) list \<Rightarrow> cstate \<Rightarrow> cstate" where
  "canonical_ticks ws st = foldl (\<lambda>st (v, net, settler, rh). snd (canonical_tick v net settler rh st)) st ws"

text \<open>C7. The cursor never leaves a settlement behind that is not proved: over any number of ticks, whatever fails, every result of
  every checkpoint below it was read as reconciled, was confirmed reconciled by a transaction of the keeper, or is
  none of the hub's. So the budget of a tick, failed proofs and errors half way only ever delay a proof.\<close>

theorem cursor_behind_proofs:
  assumes "behind C S st" and "\<forall>(v, net, settler, rh)\<in>set ws. honest C S v net"
  shows "behind C S (canonical_ticks ws st)"
  using assms(2)
proof (induction ws rule: rev_induct)
  case Nil
  show ?case using assms(1) by (simp add: canonical_ticks_def)
next
  case (snoc w ws)
  obtain v net settler rh where w: "w = (v, net, settler, rh)" by (cases w)
  have "behind C S (canonical_ticks ws st)" by (rule snoc.IH) (use snoc.prems in simp)
  then have "behind C S (snd (canonical_tick v net settler rh (canonical_ticks ws st)))"
    using snoc.prems by (intro keepsD [OF behind_canonical]) (auto simp: w)
  then show ?case by (simp add: canonical_ticks_def w)
qed

text \<open>A file that does not exist yet has its cursor at zero.\<close>

lemma behind_open: "behind C S \<lparr>kj = open_journal None, hist = h, outs = os\<rparr>"
  by (simp add: behind_def gate_cursor_def record_of_def ns_of_def open_journal_def Let_def proved_below_def)

subsection \<open>A worked life\<close>

text \<open>
  Two checkpoints on the gate of a hub with three orders. The first holds order 0, a reference outside the hub and order 1,
  which the hub already reads as reconciled; the second holds order 2, whose reconcile always fails. The reconcile of order
  0 fails in the first tick and confirms in the second, which moves the cursor past the first checkpoint and no further.
\<close>

definition demo_result :: "digest \<Rightarrow> hub_result" where
  "demo_result ref = \<lparr>hr_ref = ref, hr_underlying = ''0xA'', hr_outcome = 1, hr_amountIn = 5, hr_amountOut = 7, hr_seq = uint ref\<rparr>"

definition demo_results :: "hub_result list" where
  "demo_results = [demo_result 0, demo_result 9, demo_result 1, demo_result 2]"

definition demo_cenv :: cenv where
  "demo_cenv = \<lparr>ce_p = CANONICAL_DEFAULTS, ce_arcChainId = 1, ce_rhChainId = 2, ce_hub = ''0xH'', ce_vault = ''0xV'',
     ce_kec = (\<lambda>a b. 3 * a + 5 * b + 1), ce_kec1 = (\<lambda>a. a + 2), ce_encoded = hr_ref, ce_hex = (\<lambda>d. show_int (uint d)),
     ce_ms = (\<lambda>_. 0), ce_now = (\<lambda>_. 10000), ce_latest = None, ce_rhSettle = (\<lambda>_. Inr ()), ce_rhHead = (\<lambda>_. Inr 3),
     ce_logs = (\<lambda>_ _ _. Inr []), ce_blockTime = (\<lambda>_ _. Inr 100), ce_resultCount = (\<lambda>_. Inr 4), ce_checkpointedThrough = (\<lambda>_. Inr 4),
     ce_resultAt = (\<lambda>s _. if 0 \<le> s \<and> s \<le> 3 then Inr (demo_results ! nat s) else Inl ''revert''), ce_checkpointCount = (\<lambda>_. Inr 2),
     ce_checkpointAt = (\<lambda>i _. if i = 0 then Inr (0, 2) else if i = 1 then Inr (3, 3) else Inl ''revert''), ce_orderCount = (\<lambda>_. Inr 3), ce_reconciled = (\<lambda>ref _. Inr (ref = 1)),
     ce_mintsHalted = (\<lambda>_. Inr False), ce_unreconciledCount = (\<lambda>_. Inr 0)\<rparr>"

definition demo_cnet :: "send_status \<Rightarrow> ccall caller" where
  "demo_cnet s h k c ts = (Inr (result_of (case c of Reconcile r _ _ \<Rightarrow> if hr_ref r = 0 then s else StReverted | _ \<Rightarrow> s)), ts)"

definition demo_cworld :: "send_status \<Rightarrow> cenv \<times> ccall caller \<times> ccall settler \<times> ccall side" where
  "demo_cworld s = (demo_cenv, demo_cnet s, \<lambda>_ ts. (Inr (), ts), \<lambda>_ _ _. Inr (result_of StConfirmed))"

definition demo_cst :: cstate where
  "demo_cst = \<lparr>kj = open_journal None, hist = [], outs = []\<rparr>"


definition demo_gate :: "int \<Rightarrow> hub_result list" where
  "demo_gate i = (if i = 0 then take 3 demo_results else if i = 1 then drop 3 demo_results else [])"

lemma demo_honest: "honest demo_gate (- {2}) demo_cenv (demo_cnet s)"
proof -
  have up: "[0..2 :: int] = [0, 1, 2]" by (simp add: upto_rec1)
  have "rs = demo_gate i" if "read_at demo_cenv h i rs" for h i rs
    using that by (auto simp: read_at_def demo_cenv_def demo_gate_def demo_results_def list_all2_Cons1 up split: if_splits)
  moreover have "(2 :: digest) \<noteq> 0" "(2 :: digest) \<noteq> 1" "uint (2 :: digest) = 2" by simp_all
  ultimately show ?thesis
    by (auto simp: honest_def demo_cenv_def demo_cnet_def result_of_def sent_ok_def split: ccall.splits if_splits)
qed

theorem cursor_behind_proofs_witness:
  "behind demo_gate (- {2}) (canonical_ticks [demo_cworld StReverted, demo_cworld StConfirmed] demo_cst)
   \<and> gate_cursor (kj (canonical_ticks [demo_cworld StReverted] demo_cst)) = 0
   \<and> gate_cursor (kj (canonical_ticks [demo_cworld StReverted, demo_cworld StConfirmed] demo_cst)) = 1"
proof (intro conjI)
  show "behind demo_gate (- {2}) (canonical_ticks [demo_cworld StReverted, demo_cworld StConfirmed] demo_cst)"
    by (rule cursor_behind_proofs) (simp_all add: behind_open demo_cst_def demo_cworld_def demo_honest)
qed (code_simp, code_simp)

lemma demo_canonical_hist: "\<exists>k1 k2. hist (canonical_ticks [demo_cworld StReverted] demo_cst) = [] @ (k1, Reconcile (demo_result 0) 0 [11, 3]) # [(k2, Reconcile (demo_result 2) 1 [])]"
proof -
  have "map snd (hist (canonical_ticks [demo_cworld StReverted] demo_cst)) = [Reconcile (demo_result 0) 0 [11, 3], Reconcile (demo_result 2) 1 []]"
    by code_simp
  then show ?thesis by (auto simp: map_eq_Cons_conv)
qed

theorem canonical_calls_due_witness:
  "\<exists>k1 k2. hist (snd (canonical_tick demo_cenv (demo_cnet StReverted) (\<lambda>_ ts. (Inr (), ts)) (\<lambda>_ _ _. Inr (result_of StConfirmed)) demo_cst))
       = [] @ (k1, Reconcile (demo_result 0) 0 [11, 3]) # [(k2, Reconcile (demo_result 2) 1 [])]
     \<and> canonical_due demo_cenv [] k1 (Reconcile (demo_result 0) 0 [11, 3])"
proof -
  obtain k1 k2 where h: "hist (snd (canonical_tick demo_cenv (demo_cnet StReverted) (\<lambda>_ ts. (Inr (), ts)) (\<lambda>_ _ _. Inr (result_of StConfirmed)) demo_cst))
       = [] @ (k1, Reconcile (demo_result 0) 0 [11, 3]) # [(k2, Reconcile (demo_result 2) 1 [])]"
    using demo_canonical_hist by (auto simp: canonical_ticks_def demo_cworld_def)
  have "hist demo_cst = []" by (simp add: demo_cst_def)
  from canonical_calls_due [OF this h] h show ?thesis by blast
qed

end
