(* ===== verification/Outbox_Keeper.thy ===== *)
theory Outbox_Keeper
  imports Merkle Two_Chains Id_Records
begin

unbundle bit_operations_syntax

section \<open>The outbox executor (\<open>canonical/outbox-executor.mjs\<close>, \<open>canonical/arb-outbox.mjs\<close>)\<close>

text \<open>
  Ethereum is the keeper's own chain, RH is only read. \<open>ArbOutboxSource\<close> keeps the newest confirmed send root for the life of
  the process: the tick takes it and returns the new one. Logs are read as what \<open>parseL2ToL1\<close> makes of them; hashing and
  ABI coding are parameters. Digests are words, so the comparisons of hex strings are equality.
\<close>

subsection \<open>State and world\<close>

record outbox_params =
  op_scanChunk :: int
  op_startLookback :: int
  op_maxGas :: int
  op_gasBufferBps :: int
  op_confirmAlertSec :: int
  op_minEthWei :: int
  op_l1LookbackBlocks :: int
  op_requarantineMs :: int

definition OUTBOX_DEFAULTS :: outbox_params where
  "OUTBOX_DEFAULTS = \<lparr>op_scanChunk = 5000, op_startLookback = 50000, op_maxGas = 600000, op_gasBufferBps = 13000, op_confirmAlertSec = 7 * DAY,
     op_minEthWei = 5000000000000000, op_l1LookbackBlocks = 100000, op_requarantineMs = 3600000\<rparr>"

record l2send =
  ls_caller :: string
  ls_destination :: string
  ls_position :: int
  ls_arbBlockNum :: int
  ls_ethBlockNum :: int
  ls_timestamp :: int
  ls_callvalue :: int
  ls_data :: string
  ls_l2Tx :: string

datatype outcome = Spent | Executed

record send_record =
  sd_send :: l2send
  sd_seenAt :: int
  sd_done :: "outcome option"

datatype obrec = OScan int | OSend send_record

datatype obcall = Execute l2send "digest list" "int option" | Forward

datatype obreport = OSeen int | OAct string int send_status | OAlready int | OWaiting int | OWarn string

type_synonym obh = "obcall history"

record root_log =
  rl_root :: digest
  rl_hash :: digest
  rl_block :: int

record confirmed =
  cf_sendRoot :: digest
  cf_hash :: digest
  cf_sendCount :: int
  cf_l1Block :: int

record obenv =
  ob_p :: outbox_params
  ob_chainId :: int
  ob_outbox :: string
  ob_bridger :: string
  ob_vault :: string
  ob_wallet :: "string option"
  ob_startBlock :: "int option"
  ob_chunk :: int
  ob_kec :: "digest \<Rightarrow> digest \<Rightarrow> digest"
  ob_kec1 :: "digest \<Rightarrow> digest"
  ob_itemHash :: "l2send \<Rightarrow> digest"
  ob_ms :: "obh \<Rightarrow> int"
  ob_now :: "obh \<Rightarrow> int"
  ob_latest :: "(obh \<Rightarrow> int result) option"
  ob_rhHead :: "obh \<Rightarrow> int result"
  ob_l2Logs :: "int \<Rightarrow> int \<Rightarrow> obh \<Rightarrow> l2send list result"
  ob_l1Head :: "obh \<Rightarrow> int result"
  ob_rootLogs :: "int \<Rightarrow> int \<Rightarrow> obh \<Rightarrow> root_log list result"
  ob_l2Block :: "digest \<Rightarrow> obh \<Rightarrow> (int option \<times> digest option) option result"
  ob_proof :: "int \<Rightarrow> int \<Rightarrow> obh \<Rightarrow> (digest \<times> digest \<times> digest list) result"
  ob_isSpent :: "int \<Rightarrow> obh \<Rightarrow> bool result"
  ob_rootKnown :: "digest \<Rightarrow> obh \<Rightarrow> bool result"
  ob_balance :: "string \<Rightarrow> obh \<Rightarrow> int result"
  ob_estimate :: "l2send \<Rightarrow> digest list \<Rightarrow> obh \<Rightarrow> int result"
  ob_checkpointCount :: "obh \<Rightarrow> int result"
  ob_forwardedThrough :: "obh \<Rightarrow> int result"
  ob_bridgerUsdc :: "obh \<Rightarrow> int result"

type_synonym objournal = "obrec journal"
type_synonym obstate = "(obrec, obcall, obreport) kst"
type_synonym 'a obop = "(obstate, 'a) op"

definition oclock :: "obenv \<Rightarrow> int obop" where
  "oclock v = rd (\<lambda>h. Inr (ob_now v h))"

definition send_at :: "objournal \<Rightarrow> int \<Rightarrow> send_record option" where
  "send_at j i = (case record_of j (''sends'', show_int i) of Some (OSend s) \<Rightarrow> Some s | _ \<Rightarrow> None)"

definition o_put :: "obenv \<Rightarrow> string \<Rightarrow> string \<Rightarrow> (obrec option \<Rightarrow> obrec) \<Rightarrow> unit obop" where
  "o_put v ns i f = put_rec (ob_ms v) ns i f"

text \<open>\<open>setRecord('sends', pos, { done, doneAt })\<close>.\<close>

definition mark_done :: "obenv \<Rightarrow> int \<Rightarrow> send_record \<Rightarrow> outcome \<Rightarrow> unit obop" where
  "mark_done v i s d = o_put v ''sends'' (show_int i) (\<lambda>r. case r of Some (OSend x) \<Rightarrow> OSend (x\<lparr>sd_done := Some d\<rparr>) | _ \<Rightarrow> OSend (s\<lparr>sd_done := Some d\<rparr>))"

subsection \<open>Confirmed send roots (\<open>ArbOutboxSource\<close>)\<close>

text \<open>\<open>Outbox.calculateMerkleRoot\<close>: bit \<open>i\<close> of the path says on which side level \<open>i\<close> goes.\<close>

fun fold_path :: "(digest \<Rightarrow> digest \<Rightarrow> digest) \<Rightarrow> int \<Rightarrow> nat \<Rightarrow> digest \<Rightarrow> digest list \<Rightarrow> digest" where
  "fold_path kec route i h [] = h"
| "fold_path kec route i h (node # proof) = fold_path kec route (Suc i) (if odd (route div 2 ^ i) then kec node h else kec h node) proof"

definition merkleRootFrom :: "obenv \<Rightarrow> digest list \<Rightarrow> int \<Rightarrow> digest \<Rightarrow> digest" where
  "merkleRootFrom v proof path item = fold_path (ob_kec v) path 0 (ob_kec1 v item) proof"

definition newest :: "root_log list \<Rightarrow> root_log option \<Rightarrow> root_log option" where
  "newest ls found = (if ls = [] then found else Some (last ls))"

function scan_forward :: "obenv \<Rightarrow> int \<Rightarrow> int \<Rightarrow> root_log option \<Rightarrow> root_log option obop" where
  "scan_forward v head start found =
     (if start > head then ret found
      else if ob_chunk v < 1 then throw ''chunk''
      else bindk (rd (ob_rootLogs v start (min head (start + ob_chunk v - 1)))) (\<lambda>l. scan_forward v head (start + ob_chunk v) (newest l found)))"
  by auto
termination by (relation "measure (\<lambda>(v, head, start, found). nat (head + 1 - start))") auto

function scan_back :: "obenv \<Rightarrow> int \<Rightarrow> int \<Rightarrow> root_log option obop" where
  "scan_back v low to =
     (if to < low then ret None
      else if ob_chunk v < 1 then throw ''chunk''
      else bindk (rd (ob_rootLogs v (max 0 (to - ob_chunk v + 1)) to)) (\<lambda>l. if l \<noteq> [] then ret (Some (last l)) else scan_back v low (to - ob_chunk v)))"
  by auto
termination by (relation "measure (\<lambda>(v, low, to). nat (to + 1 - low))") auto

declare scan_forward.simps [simp del] scan_back.simps [simp del]

definition find_root :: "obenv \<Rightarrow> confirmed option \<Rightarrow> int \<Rightarrow> root_log option obop" where
  "find_root v lst head = (case lst of
     Some c \<Rightarrow> scan_forward v head (cf_l1Block c + 1) None
   | None \<Rightarrow> scan_back v (max 0 (head - op_l1LookbackBlocks (ob_p v))) head)"

definition confirm_root :: "obenv \<Rightarrow> root_log \<Rightarrow> confirmed obop" where
  "confirm_root v l =
     bindk (rd (ob_l2Block v (rl_hash l))) (\<lambda>b.
     case b of None \<Rightarrow> throw ''L2 block of confirmed send root not found on the RH node''
     | Some (Some n, Some root) \<Rightarrow>
        if root \<noteq> rl_root l then throw ''L2 block sendRoot is not the Outbox SendRootUpdated''
        else ret \<lparr>cf_sendRoot = rl_root l, cf_hash = rl_hash l, cf_sendCount = n, cf_l1Block = rl_block l\<rparr>
     | Some _ \<Rightarrow> throw ''RH node did not return Arbitrum block fields (sendCount/sendRoot)'')"

definition latestConfirmed :: "obenv \<Rightarrow> confirmed option \<Rightarrow> confirmed option obop" where
  "latestConfirmed v lst =
     bindk (rd (ob_l1Head v)) (\<lambda>head.
     bindk (find_root v lst head) (\<lambda>found.
     case found of None \<Rightarrow> ret lst | Some l \<Rightarrow> bindk (confirm_root v l) (\<lambda>c. ret (Some c))))"

subsection \<open>Scanning RH\<close>

definition see_send :: "obenv \<Rightarrow> l2send \<Rightarrow> unit obop" where
  "see_send v s =
     (if ls_caller s \<noteq> ob_vault v then ret () else
      bindk (getj (\<lambda>j. record_of j (''sends'', show_int (ls_position s)))) (\<lambda>r.
      if r \<noteq> None then ret () else
      bindk (oclock v) (\<lambda>now.
      thenk (o_put v ''sends'' (show_int (ls_position s)) (\<lambda>_. OSend \<lparr>sd_send = s, sd_seenAt = now, sd_done = None\<rparr>))
        (emit (OSeen (ls_position s))))))"

definition o_chunk :: "obenv \<Rightarrow> int \<Rightarrow> int \<Rightarrow> unit obop" where
  "o_chunk v a b = bindk (rd (ob_l2Logs v a b)) (\<lambda>ss. thenk (each (see_send v) ss) (o_put v ''scan'' ''l2'' (\<lambda>_. OScan (b + 1))))"

definition o_scan :: "obenv \<Rightarrow> unit obop" where
  "o_scan v =
     bindk (rd (ob_rhHead v)) (\<lambda>head.
     bindk (getj (\<lambda>j. case record_of j (''scan'', ''l2'') of Some (OScan n) \<Rightarrow> Some n | _ \<Rightarrow> None)) (\<lambda>n.
     chunked (op_scanChunk (ob_p v)) (o_chunk v) head (orelse n (orelse (ob_startBlock v) (max 0 (head - op_startLookback (ob_p v)))))))"

subsection \<open>Executing\<close>

definition open_sends :: "objournal \<Rightarrow> (int \<times> send_record) list" where
  "open_sends j = List.map_filter (\<lambda>(i, r). case r of OSend s \<Rightarrow> if sd_done s = None then Some (i, s) else None | _ \<Rightarrow> None) (id_entries j ''sends'')"

definition gas_for :: "obenv \<Rightarrow> int \<Rightarrow> int" where
  "gas_for v est = min (bdiv (est * op_gasBufferBps (ob_p v)) 10000) (op_maxGas (ob_p v))"

definition run_execute :: "obenv \<Rightarrow> obcall caller \<Rightarrow> int \<Rightarrow> send_record \<Rightarrow> digest list \<Rightarrow> int option \<Rightarrow> unit obop" where
  "run_execute v net i s proof gas =
     key_at (taskKey (show_int (ob_chainId v)) (ob_outbox v) (''execute:'' @ show_int i) ''1'') (\<lambda>k.
     bindk (rd (\<lambda>h. Inr (ob_ms v h))) (\<lambda>ms.
     thenk (modj (reopenQuarantined (op_requarantineMs (ob_p v)) ms k))
    (bindk (call net k (Execute (sd_send s) proof gas)) (\<lambda>res.
     thenk (emit (OAct ''execute'' i (sr_status res)))
       (if sent_ok res then mark_done v i s Executed
        else if \<not> quiet (sr_status res) then emit (OWarn (''execute-'' @ show_int i))
        else if sr_status res = StGasCap then emit (OWarn (''gascap-'' @ show_int i)) else ret ())))))"

text \<open>The gas estimate: \<open>Inl\<close> when it is above the cap, and no limit when the estimate itself failed.\<close>

definition plan_gas :: "obenv \<Rightarrow> l2send \<Rightarrow> digest list \<Rightarrow> (unit + int option) obop" where
  "plan_gas v s proof = bindk (try_read (ob_estimate v s proof)) (\<lambda>e. ret (case e of
      None \<Rightarrow> Inr None | Some est \<Rightarrow> if est > op_maxGas (ob_p v) then Inl () else Inr (Some (gas_for v est))))"

definition warn_low :: "obenv \<Rightarrow> unit obop" where
  "warn_low v = (case ob_wallet v of None \<Rightarrow> ret ()
     | Some a \<Rightarrow> bindk (rd (ob_balance v a)) (\<lambda>bal. if bal < op_minEthWei (ob_p v) then emit (OWarn ''eth-low'') else ret ()))"

definition proof_ok :: "obenv \<Rightarrow> l2send \<Rightarrow> confirmed \<Rightarrow> digest \<times> digest \<times> digest list \<Rightarrow> bool" where
  "proof_ok v s conf = (\<lambda>(snt, root, proof). snt = ob_itemHash v s \<and> merkleRootFrom v proof (ls_position s) (ob_itemHash v s) = root \<and> root = cf_sendRoot conf)"

definition execute :: "obenv \<Rightarrow> obcall caller \<Rightarrow> int \<Rightarrow> send_record \<Rightarrow> confirmed \<Rightarrow> unit obop" where
  "execute v net i s conf =
     bindk (rd (ob_proof v (cf_sendCount conf) (ls_position (sd_send s)))) (\<lambda>(snt, root, proof).
     if \<not> proof_ok v (sd_send s) conf (snt, root, proof) then emit (OWarn (''proof-'' @ show_int i)) else
     bindk (rd (ob_rootKnown v root)) (\<lambda>known.
     if \<not> known then emit (OWarn (''root-'' @ show_int i)) else
     thenk (warn_low v)
    (bindk (plan_gas v (sd_send s) proof) (\<lambda>g.
     case g of Inl _ \<Rightarrow> emit (OWarn (''gas-'' @ show_int i)) | Inr gas \<Rightarrow> run_execute v net i s proof gas))))"

definition handle_send :: "obenv \<Rightarrow> obcall caller \<Rightarrow> confirmed option \<Rightarrow> int \<times> send_record \<Rightarrow> unit obop" where
  "handle_send v net conf = (\<lambda>(i, s).
     bindk (rd (ob_isSpent v i)) (\<lambda>spent.
     if spent then thenk (mark_done v i s Spent) (emit (OAlready i)) else
     bindk (oclock v) (\<lambda>now.
     case conf of
       Some c \<Rightarrow> if cf_sendCount c \<le> i
         then thenk (emit (OWaiting i)) (if now - ls_timestamp (sd_send s) \<ge> op_confirmAlertSec (ob_p v) then emit (OWarn (''unconfirmed-'' @ show_int i)) else ret ())
         else execute v net i (s\<lparr>sd_send := (sd_send s)\<lparr>ls_position := i\<rparr>\<rparr>) c
     | None \<Rightarrow> thenk (emit (OWaiting i)) (if now - ls_timestamp (sd_send s) \<ge> op_confirmAlertSec (ob_p v) then emit (OWarn (''unconfirmed-'' @ show_int i)) else ret ()))))"

definition executePhase :: "obenv \<Rightarrow> obcall caller \<Rightarrow> confirmed option \<Rightarrow> confirmed option obop" where
  "executePhase v net lst =
     bindk (getj open_sends) (\<lambda>os.
     if os = [] then ret lst else
     bindk (tryk (bindk (latestConfirmed v lst) (\<lambda>c. ret (Some c))) (\<lambda>_. ret None)) (\<lambda>conf.
     case conf of None \<Rightarrow> thenk (emit (OWarn ''confirmed-state'')) (ret lst)
     | Some c \<Rightarrow> thenk (each (handle_send v net c) os) (ret c)))"

subsection \<open>Forwarding\<close>

definition run_forward :: "obenv \<Rightarrow> obcall caller \<Rightarrow> int \<Rightarrow> int \<Rightarrow> unit obop" where
  "run_forward v net n through =
     key_at (taskKey (show_int (ob_chainId v)) (ob_bridger v) (''forward:'' @ show_int through @ '':'' @ show_int n) ''1'') (\<lambda>k.
     bindk (rd (\<lambda>h. Inr (ob_ms v h))) (\<lambda>ms.
     thenk (modj (reopenQuarantined (op_requarantineMs (ob_p v)) ms k))
    (bindk (call net k Forward) (\<lambda>res.
     thenk (emit (OAct ''forward'' through (sr_status res))) (if \<not> quiet (sr_status res) then emit (OWarn ''forward'') else ret ())))))"

definition forwardPhase :: "obenv \<Rightarrow> obcall caller \<Rightarrow> unit obop" where
  "forwardPhase v net =
     bindk (rd (ob_checkpointCount v)) (\<lambda>n.
     bindk (rd (ob_forwardedThrough v)) (\<lambda>through.
     if n - through \<le> 0 then ret () else
     bindk (rd (ob_bridgerUsdc v)) (\<lambda>bal.
     thenk (if bal < 1000000 * (n - through) then emit (OWarn ''bridger-usdc'') else ret ())
       (if bal < 1000000 then ret () else run_forward v net n through))))"

definition outbox_tick :: "obenv \<Rightarrow> obcall caller \<Rightarrow> obcall settler \<Rightarrow> confirmed option \<Rightarrow> confirmed option obop" where
  "outbox_tick v net settler lst =
     thenk (case ob_latest v of Some f \<Rightarrow> bindk (rd f) (\<lambda>_. ret ()) | None \<Rightarrow> ret ())
    (thenk (settle_all settler)
    (thenk (o_scan v)
    (bindk (executePhase v net lst) (\<lambda>c.
     thenk (tryk (forwardPhase v net) (\<lambda>_. emit (OWarn ''forward-read''))) (ret c)))))"

end
