(* ===== verification/Outbox_Safety.thy ===== *)
theory Outbox_Safety
  imports Outbox_Keeper
begin

section \<open>What the outbox executor executes\<close>

subsection \<open>Calls that are due\<close>

definition execute_due :: "obenv \<Rightarrow> obh \<Rightarrow> l2send \<Rightarrow> digest list \<Rightarrow> int option \<Rightarrow> bool" where
  "execute_due v h s proof gas \<longleftrightarrow> ls_caller s = ob_vault v \<and> ob_isSpent v (ls_position s) h = Inr False
     \<and> ob_rootKnown v (merkleRootFrom v proof (ls_position s) (ob_itemHash v s)) h = Inr True
     \<and> (\<exists>n. ls_position s < n \<and> ob_proof v n (ls_position s) h = Inr (ob_itemHash v s, merkleRootFrom v proof (ls_position s) (ob_itemHash v s), proof))
     \<and> (\<forall>g. gas = Some g \<longrightarrow> g \<le> op_maxGas (ob_p v))"

fun outbox_due :: "obenv \<Rightarrow> obh \<Rightarrow> string \<Rightarrow> obcall \<Rightarrow> bool" where
  "outbox_due v h k (Execute s proof gas) = execute_due v h s proof gas"
| "outbox_due v h k Forward = (\<exists>n t b. ob_checkpointCount v h = Inr n \<and> ob_forwardedThrough v h = Inr t \<and> t < n \<and> ob_bridgerUsdc v h = Inr b \<and> 1000000 \<le> b)"

text \<open>What is recorded was sent by the vault and is recorded under its position.\<close>

definition sends_ok :: "string \<Rightarrow> objournal \<Rightarrow> bool" where
  "sends_ok vault j \<longleftrightarrow> canonical ''sends'' j \<and> (\<forall>i s. send_at j i = Some s \<longrightarrow> ls_caller (sd_send s) = vault)"

definition ob_dues :: "obenv \<Rightarrow> obstate \<Rightarrow> bool" where
  "ob_dues v st \<longleftrightarrow> asked (outbox_due v) (hist st) \<and> sends_ok (ob_vault v) (kj st)"

lemma send_at_simps [simp]:
  "send_at (with_tasks ts j) i = send_at j i" "send_at (reopenQuarantined ms now k j) i = send_at j i"
  "ns \<noteq> ''sends'' \<Longrightarrow> send_at (setRecord now ns k p j) i = send_at j i"
  by (simp_all add: send_at_def record_of_setRecord)

lemma send_at_set [simp]: "send_at (setRecord now ''sends'' (show_int i) p j) i' =
    (if i' = i then (case p (record_of j (''sends'', show_int i)) of OSend s \<Rightarrow> Some s | _ \<Rightarrow> None) else send_at j i')"
  by (auto simp: send_at_def record_of_setRecord)

lemma canonical_reopen [simp]: "canonical ns (reopenQuarantined ms now k j) = canonical ns j"
  by (simp add: canonical_def same_ns [OF records_reopen])

lemma send_at_record: "record_of j (''sends'', show_int i) = Some (OSend s) \<Longrightarrow> send_at j i = Some s"
  by (simp add: send_at_def)

lemma sends_ok_simps [simp]:
  "sends_ok x (with_tasks ts j) = sends_ok x j" "sends_ok x (reopenQuarantined ms now k j) = sends_ok x j"
  "ns \<noteq> ''sends'' \<Longrightarrow> sends_ok x (setRecord now ns k p j) = sends_ok x j"
  by (simp_all add: sends_ok_def)

lemma open_send_at: "canonical ''sends'' j \<Longrightarrow> (i, s) \<in> set (open_sends j) \<Longrightarrow> send_at j i = Some s \<and> sd_done s = None"
  by (auto simp: open_sends_def List.map_filter_def send_at_def split: obrec.splits if_splits dest!: id_entries_record)

lemma ob_dues_simps [simp]:
  "ob_dues v (st\<lparr>outs := os\<rparr>) = ob_dues v st"
  "ob_dues v (st\<lparr>kj := j\<rparr>) \<longleftrightarrow> asked (outbox_due v) (hist st) \<and> sends_ok (ob_vault v) j"
  "ob_dues v (st\<lparr>kj := j, hist := h\<rparr>) \<longleftrightarrow> asked (outbox_due v) h \<and> sends_ok (ob_vault v) j"
  by (simp_all add: ob_dues_def)

lemma ob_dues_keeps [keeping]:
  "keeps (ob_dues v) (emit x)" "keeps (ob_dues v) (settle_all s)" "keeps (ob_dues v) (modj (reopenQuarantined ms now k))"
  by (simp_all add: keeps_def ob_dues_def emit_def settle_all_def modj_def split: prod.splits)

lemma ob_dues_put: "ns \<noteq> ''sends'' \<Longrightarrow> keeps (ob_dues v) (o_put v' ns i f)"
  by (simp add: keeps_def ob_dues_def o_put_def put_rec_def)

lemma ob_dues_done [keeping]: "ls_caller (sd_send s) = ob_vault v \<Longrightarrow> keeps (ob_dues v) (mark_done v' i s d)"
  by (auto simp: keeps_def ob_dues_def sends_ok_def mark_done_def o_put_def put_rec_def split: option.splits obrec.splits if_splits dest: send_at_record)

lemma due_o_scan: "keeps (ob_dues v) (o_scan v)"
proof -
  have new: "keeps (ob_dues v) (see_send v s)" for s
    unfolding see_send_def oclock_def o_put_def
    by (intro keeping) (auto simp: keeps_def ob_dues_def sends_ok_def put_rec_def split: if_splits)
  show ?thesis unfolding o_scan_def o_chunk_def by (intro keeping new ob_dues_put) auto
qed

lemma plan_gas_cap: "(\<And>gas. (\<forall>g. gas = Some g \<longrightarrow> g \<le> op_maxGas (ob_p v)) \<Longrightarrow> Q (Inr gas) st) \<Longrightarrow> (\<And>u. Q (Inl u) st) \<Longrightarrow> E st \<Longrightarrow> wp (plan_gas v s proof) Q E st"
  unfolding plan_gas_def by (intro wps) (auto simp: gas_for_def)

lemma due_run_execute:
  assumes "ob_dues v st" "execute_due v (hist st) (sd_send s) proof gas"
  shows "wp (run_execute v net i s proof gas) (\<lambda>_. ob_dues v) (ob_dues v) st"
proof -
  have "ls_caller (sd_send s) = ob_vault v" using assms(2) by (simp add: execute_due_def)
  note fin = wp_of_keeps [OF ob_dues_done [OF this]]
  show ?thesis unfolding run_execute_def
    by (intro wps fin) (use assms in \<open>auto simp: ob_dues_def\<close>)
qed

lemma due_execute:
  assumes "ob_dues v st" "ls_caller (sd_send s) = ob_vault v" "ls_position (sd_send s) < cf_sendCount c"
    and "ob_isSpent v (ls_position (sd_send s)) (hist st) = Inr False"
  shows "wp (execute v net i s c) (\<lambda>_. ob_dues v) (ob_dues v) st"
  unfolding execute_def warn_low_def
  by (intro wps plan_gas_cap due_run_execute) (use assms in \<open>auto simp: execute_due_def proof_ok_def\<close>)

lemma due_o_handle:
  assumes "ob_dues v st" "ls_caller (sd_send s) = ob_vault v"
  shows "wp (handle_send v net conf (i, s)) (\<lambda>_. ob_dues v) (ob_dues v) st"
  unfolding handle_send_def oclock_def prod.case
  by (intro wps wp_cons [OF wp_of_keeps [OF ob_dues_done [OF assms(2)] assms(1)]] due_execute) (use assms in auto)

lemma keeps_latest [keeping]: "keeps (ob_dues v) (latestConfirmed v' lst)"
proof -
  have fwd: "keeps (ob_dues v) (scan_forward v' head start found)" for head start found
    by (induction v' head start found rule: scan_forward.induct) (subst scan_forward.simps, auto intro!: keeping)
  have backward: "keeps (ob_dues v) (scan_back v' low to)" for low to
    by (induction v' low to rule: scan_back.induct) (subst scan_back.simps, auto intro!: keeping)
  show ?thesis unfolding latestConfirmed_def find_root_def confirm_root_def
    by (intro keeping fwd backward)
qed

lemma due_executePhase:
  assumes "ob_dues v st"
  shows "wp (executePhase v net lst) (\<lambda>_. ob_dues v) (ob_dues v) st"
proof -
  have "ls_caller (sd_send s) = ob_vault v" if "(i, s) \<in> set (open_sends (kj st))" for i s
    using open_send_at [OF _ that] assms by (auto simp: ob_dues_def sends_ok_def)
  then have "wp (handle_send v net c x) (\<lambda>_. ob_dues v) (ob_dues v) st1" if "x \<in> set (open_sends (kj st))" "ob_dues v st1" for x st1 c
    using that by (cases x) (auto intro: due_o_handle)
  then have each: "wp (each (handle_send v net c) (open_sends (kj st))) (\<lambda>_. ob_dues v) (ob_dues v) st1" if "ob_dues v st1" for c st1
    using that by (intro wp_each)
  show ?thesis unfolding executePhase_def
    by (intro wps wp_cons [OF wp_of_keeps [OF keeps_latest assms]] wp_cons [OF each]) (auto simp: assms intro!: wps wp_cons [OF each])
qed

lemma due_forward: "ob_dues v st \<Longrightarrow> wp (forwardPhase v net) (\<lambda>_. ob_dues v) (ob_dues v) st"
  unfolding forwardPhase_def run_forward_def
  by (intro wps) (auto simp: ob_dues_def)

lemma due_outbox: "ob_dues v st \<Longrightarrow> wp (outbox_tick v net settler lst) (\<lambda>_. ob_dues v) (ob_dues v) st"
  unfolding outbox_tick_def
  by (intro wps wp_cons [OF wp_of_keeps [OF due_o_scan]] wp_cons [OF due_executePhase] wp_cons [OF due_forward]) (auto simp: ob_dues_def intro!: wps)


subsection \<open>Nothing is closed that was not executed\<close>

text \<open>\<open>truthful S v net\<close>: \<open>S\<close> holds every position the Outbox reads as spent and every one whose execution the sender confirmed.\<close>

definition truthful :: "int set \<Rightarrow> obenv \<Rightarrow> obcall caller \<Rightarrow> bool" where
  "truthful S v net \<longleftrightarrow> (\<forall>i h. ob_isSpent v i h = Inr True \<longrightarrow> i \<in> S)
     \<and> (\<forall>h k s p g ts res ts'. net h k (Execute s p g) ts = (Inr res, ts') \<longrightarrow> sent_ok res \<longrightarrow> ls_position s \<in> S)"

definition accounted :: "int set \<Rightarrow> objournal \<Rightarrow> obstate \<Rightarrow> bool" where
  "accounted S j0 st \<longleftrightarrow> canonical ''sends'' (kj st) \<and> (\<forall>i s. send_at (kj st) i = Some s \<longrightarrow> sd_done s \<noteq> None \<longrightarrow> i \<in> S)
     \<and> (\<forall>i s0. send_at j0 i = Some s0 \<longrightarrow> (\<exists>s. send_at (kj st) i = Some s \<and> sd_send s = sd_send s0))"

lemma accounted_outs [simp]: "accounted S j0 (st\<lparr>outs := os\<rparr>) = accounted S j0 st"
  by (simp add: accounted_def)

lemma accounted_keeps [keeping]:
  "keeps (accounted S j0) (emit x)" "keeps (accounted S j0) (settle_all s)" "keeps (accounted S j0) (modj (reopenQuarantined ms now k))"
  "keeps (accounted S j0) (call net k c)"
  by (simp_all add: keeps_def accounted_def emit_def settle_all_def modj_def call_def split: prod.splits)

lemma accounted_put: "ns \<noteq> ''sends'' \<Longrightarrow> keeps (accounted S j0) (o_put v' ns i f)"
  by (simp add: keeps_def accounted_def o_put_def put_rec_def)

lemma accounted_latest [keeping]: "keeps (accounted S j0) (latestConfirmed v lst)"
proof -
  have fwd: "keeps (accounted S j0) (scan_forward v head start found)" for head start found
    by (induction v head start found rule: scan_forward.induct) (subst scan_forward.simps, auto intro!: keeping)
  have backward: "keeps (accounted S j0) (scan_back v low to)" for low to
    by (induction v low to rule: scan_back.induct) (subst scan_back.simps, auto intro!: keeping)
  show ?thesis unfolding latestConfirmed_def find_root_def confirm_root_def by (intro keeping fwd backward)
qed

lemma send_at_none: "record_of j (''sends'', show_int i) = None \<Longrightarrow> send_at j i = None"
  by (simp add: send_at_def)

lemma accounted_scan: "keeps (accounted S j0) (o_scan v)"
proof -
  have fresh: "accounted S j0 st \<Longrightarrow> record_of (kj st) (''sends'', show_int (ls_position s)) = None \<Longrightarrow>
      accounted S j0 (st\<lparr>kj := setRecord now ''sends'' (show_int (ls_position s)) (\<lambda>_. OSend \<lparr>sd_send = s, sd_seenAt = n, sd_done = None\<rparr>) (kj st)\<rparr>)" for st s now n
    unfolding accounted_def using send_at_none by simp (metis option.distinct(1))
  have new: "wp (see_send v s) (\<lambda>_. accounted S j0) (accounted S j0) st" if "accounted S j0 st" for s st
    unfolding see_send_def oclock_def o_put_def
    by (intro wps wp_of_keeps [OF accounted_keeps(1)]) (use that in \<open>auto intro: fresh\<close>)
  show ?thesis unfolding o_scan_def o_chunk_def by (intro keeping wp_keeps [OF new] accounted_put) auto
qed

lemma send_at_recorded: "send_at j i = Some s \<Longrightarrow> record_of j (''sends'', show_int i) = Some (OSend s)"
  by (simp add: send_at_def split: option.splits obrec.splits)

lemma accounted_marked:
  assumes a: "accounted S j0 st" and s: "send_at (kj st) i = Some s" "i \<in> S"
    and new: "\<And>k. send_at j k = (if k = i then Some (s\<lparr>sd_done := Some d\<rparr>) else send_at (kj st) k)" "canonical ''sends'' j"
  shows "accounted S j0 (st\<lparr>kj := j\<rparr>)"
proof -
  have "\<exists>s1. send_at j k = Some s1 \<and> sd_send s1 = sd_send s0" if "send_at j0 k = Some s0" for k s0
  proof -
    from a that obtain s2 where "send_at (kj st) k = Some s2" "sd_send s2 = sd_send s0" unfolding accounted_def by blast
    with s(1) new(1) [of k] show ?thesis by auto
  qed
  with a s(2) new show ?thesis by (auto simp: accounted_def split: if_splits)
qed

lemma accounted_done: "accounted S j0 st \<Longrightarrow> send_at (kj st) i = Some s' \<Longrightarrow> i \<in> S \<Longrightarrow> wp (mark_done v i s d) (\<lambda>_. accounted S j0) (accounted S j0) st"
  unfolding mark_done_def o_put_def
  by (intro wps accounted_marked [of _ _ _ i s' _ d]) (auto simp: send_at_recorded accounted_def)

lemma accounted_execute:
  assumes hon: "truthful S v net" and a: "accounted S j1 st" and j1: "send_at j1 (ls_position (sd_send s)) = Some s0" "i = ls_position (sd_send s)"
  shows "wp (execute v net i s c) (\<lambda>_. accounted S j1) (accounted S j1) st"
proof -
  have mark: "wp (mark_done v i s Executed) (\<lambda>_. accounted S j1) (accounted S j1) st1" if "accounted S j1 st1" "i \<in> S" for st1
  proof -
    from that(1) j1 obtain s' where "send_at (kj st1) i = Some s'" unfolding accounted_def by blast
    then show ?thesis using that by (intro accounted_done)
  qed
  have conf: "net h k (Execute (sd_send s) p g) ts = (Inr res, ts') \<Longrightarrow> sent_ok res \<Longrightarrow> i \<in> S" for h k p g ts res ts'
    using hon j1(2) unfolding truthful_def by metis
  have run: "wp (run_execute v net i s p g) (\<lambda>_. accounted S j1) (accounted S j1) st1" if "accounted S j1 st1" for p g st1
    unfolding run_execute_def
    by (intro wps mark conf) (use that in \<open>auto simp: accounted_def\<close>)
  show ?thesis unfolding execute_def warn_low_def
    by (intro wps plan_gas_cap run) (use a in \<open>auto simp: accounted_def\<close>)
qed

lemma accounted_handle:
  assumes hon: "truthful S v net" and a: "accounted S j1 st" and j1: "send_at j1 i = Some s0"
  shows "wp (handle_send v net conf (i, s)) (\<lambda>_. accounted S j1) (accounted S j1) st"
proof -
  from a j1 obtain s' where s': "send_at (kj st) i = Some s'" unfolding accounted_def by blast
  have spent: "ob_isSpent v i (hist st) = Inr True \<Longrightarrow> wp (mark_done v i s Spent) (\<lambda>_. accounted S j1) (accounted S j1) st"
    using hon a s' by (intro accounted_done) (auto simp: truthful_def)
  show ?thesis unfolding handle_send_def oclock_def prod.case
    by (intro wps wp_cons [OF spent] accounted_execute [OF hon]) (use a j1 in \<open>auto simp: accounted_def\<close>)
qed

lemma accounted_phase: "truthful S v net \<Longrightarrow> keeps (accounted S j0) (executePhase v net lst)"
proof (rule wp_keeps)
  fix st assume hon: "truthful S v net" and a: "accounted S j0 st"
  have start: "accounted S (kj st) st" using a by (simp add: accounted_def)
  have recorded: "\<exists>s0. send_at (kj st) (fst x) = Some s0" if "x \<in> set (open_sends (kj st))" for x
    using that open_send_at [of "kj st" "fst x" "snd x"] a by (auto simp: accounted_def)
  have loop: "wp (each (handle_send v net c) (open_sends (kj st))) (\<lambda>_. accounted S (kj st)) (accounted S (kj st)) st1" if "accounted S (kj st) st1" for c st1
  proof (rule wp_each [where I = "accounted S (kj st)"])
    show "accounted S (kj st) st1" by (rule that)
  next
    fix x st2 assume "x \<in> set (open_sends (kj st))" "accounted S (kj st) st2"
    then obtain s0 where "send_at (kj st) (fst x) = Some s0" using recorded by blast
    from accounted_handle [OF hon \<open>accounted S (kj st) st2\<close> this, of c "snd x"]
    show "wp (handle_send v net c x) (\<lambda>_. accounted S (kj st)) (accounted S (kj st)) st2" by simp
  qed
  have "wp (executePhase v net lst) (\<lambda>_. accounted S (kj st)) (accounted S (kj st)) st"
    unfolding executePhase_def
    by (intro wps wp_cons [OF wp_of_keeps [OF accounted_latest start]]) (auto simp: start intro!: wps wp_cons [OF loop] intro: keepsD [OF accounted_keeps(1)] wp_of_keeps [OF accounted_keeps(1)])
  moreover have "accounted S (kj st) st1 \<Longrightarrow> accounted S j0 st1" for st1
    using a unfolding accounted_def by metis
  ultimately show "wp (executePhase v net lst) (\<lambda>_. accounted S j0) (accounted S j0) st"
    by (auto elim!: wp_cons)
qed

lemma accounted_tick: "truthful S v net \<Longrightarrow> keeps (accounted S j0) (outbox_tick v net settler lst)"
  unfolding outbox_tick_def forwardPhase_def run_forward_def
  by (intro keeping accounted_scan accounted_phase)

definition outbox_ticks :: "(obenv \<times> obcall caller \<times> obcall settler \<times> confirmed option) list \<Rightarrow> obstate \<Rightarrow> obstate" where
  "outbox_ticks ws st = foldl (\<lambda>st (v, net, settler, lst). snd (outbox_tick v net settler lst st)) st ws"

text \<open>C8. No checkpoint message is lost: over any number of ticks, whatever fails and whatever roots are remembered between them, a recorded
  message stays recorded unchanged, and it is closed only if the Outbox was read as having executed it or the executor's
  own transaction for it was confirmed.\<close>

theorem outbox_accounts:
  assumes "accounted S (kj st) st" and "\<forall>(v, net, settler, lst)\<in>set ws. truthful S v net"
  shows "accounted S (kj st) (outbox_ticks ws st)"
  using assms(2)
proof (induction ws rule: rev_induct)
  case Nil
  show ?case using assms(1) by (simp add: outbox_ticks_def)
next
  case (snoc w ws)
  obtain v net settler lst where w: "w = (v, net, settler, lst)" by (cases w)
  have "accounted S (kj st) (outbox_ticks ws st)" by (rule snoc.IH) (use snoc.prems in simp)
  then have "accounted S (kj st) (snd (outbox_tick v net settler lst (outbox_ticks ws st)))"
    using snoc.prems by (intro keepsD [OF accounted_tick]) (auto simp: w)
  then show ?case by (simp add: outbox_ticks_def w)
qed


text \<open>
  A run: RH has a message of the vault at position 1 and somebody else's at 0; the confirmed root 37 covers both. The first
  tick executes the vault's, but the transaction reverts; in the second one it is confirmed.
\<close>

definition demo_send :: "string \<Rightarrow> int \<Rightarrow> l2send" where
  "demo_send c i = \<lparr>ls_caller = c, ls_destination = ''0xB'', ls_position = i, ls_arbBlockNum = 1, ls_ethBlockNum = 1, ls_timestamp = 0, ls_callvalue = 0, ls_data = '''', ls_l2Tx = ''0xT''\<rparr>"

definition demo_obenv :: obenv where
  "demo_obenv = \<lparr>ob_p = OUTBOX_DEFAULTS, ob_chainId = 1, ob_outbox = ''0xO'', ob_bridger = ''0xB'', ob_vault = ''0xV'', ob_wallet = None,
     ob_startBlock = Some 0, ob_chunk = 10000, ob_kec = (\<lambda>a b. 3 * a + 5 * b + 1), ob_kec1 = (\<lambda>a. a + 2), ob_itemHash = (\<lambda>s. word_of_int (ls_position s)),
     ob_ms = (\<lambda>_. 0), ob_now = (\<lambda>_. 100), ob_latest = None, ob_rhHead = (\<lambda>_. Inr 3), ob_l2Logs = (\<lambda>_ _ _. Inr [demo_send ''0xW'' 0, demo_send ''0xV'' 1]),
     ob_l1Head = (\<lambda>_. Inr 5), ob_rootLogs = (\<lambda>_ _ _. Inr [\<lparr>rl_root = 37, rl_hash = 8, rl_block = 4\<rparr>]), ob_l2Block = (\<lambda>_ _. Inr (Some (Some 2, Some 37))),
     ob_proof = (\<lambda>_ _ _. Inr (1, 37, [7])), ob_isSpent = (\<lambda>_ _. Inr False), ob_rootKnown = (\<lambda>r _. Inr (r = 37)), ob_balance = (\<lambda>_ _. Inr 0),
     ob_estimate = (\<lambda>_ _ _. Inr 400000), ob_checkpointCount = (\<lambda>_. Inr 0), ob_forwardedThrough = (\<lambda>_. Inr 0), ob_bridgerUsdc = (\<lambda>_. Inr 0)\<rparr>"

definition demo_obnet :: "send_status \<Rightarrow> obcall caller" where
  "demo_obnet s h k c ts = (Inr (result_of (case c of Execute x _ _ \<Rightarrow> if ls_position x = 1 then s else StReverted | _ \<Rightarrow> s)), ts)"

definition demo_obst :: obstate where
  "demo_obst = \<lparr>kj = open_journal None, hist = [], outs = []\<rparr>"

definition demo_obworld :: "send_status \<Rightarrow> obenv \<times> obcall caller \<times> obcall settler \<times> confirmed option" where
  "demo_obworld s = (demo_obenv, demo_obnet s, \<lambda>_ ts. (Inr (), ts), None)"

lemma send_at_open: "send_at (open_journal None) i = None"
  by (simp add: send_at_def record_of_def ns_of_def open_journal_def Let_def)


theorem outbox_accounts_witness:
  "accounted {1} (kj demo_obst) (outbox_ticks [demo_obworld StReverted, demo_obworld StConfirmed] demo_obst)
   \<and> map_option sd_done (send_at (kj (outbox_ticks [demo_obworld StReverted] demo_obst)) 1) = Some None
   \<and> map_option sd_done (send_at (kj (outbox_ticks [demo_obworld StConfirmed] demo_obst)) 1) = Some (Some Executed)"
proof (intro conjI)
  have sound: "truthful {1} demo_obenv (demo_obnet s)" for s
    by (auto simp: truthful_def demo_obenv_def demo_obnet_def result_of_def sent_ok_def split: if_splits)
  show "accounted {1} (kj demo_obst) (outbox_ticks [demo_obworld StReverted, demo_obworld StConfirmed] demo_obst)"
    by (rule outbox_accounts) (simp_all add: accounted_def demo_obst_def canonical_open send_at_open demo_obworld_def sound)
qed (code_simp, code_simp)

end
