(* ===== verification/Cctp_Keeper.thy ===== *)
theory Cctp_Keeper
  imports Relay Two_Chains Journal_Codec
begin

section \<open>The CCTP relayer (\<open>canonical/cctp-relayer.mjs\<close>, \<open>canonical/iris.mjs\<close>)\<close>

text \<open>
  Arc is the keeper's own chain, the Ethereum sender is a \<open>side\<close>. \<open>IrisClient\<close> keeps one number for the life of the
  process, until when it is blocked: a tick takes it and returns it. Addresses inside a message are the lower-case hex
  digits of their 20 bytes, and so is the sender a lane expects (\<open>getAddress\<close> only rewrites the case of the letters).
\<close>

subsection \<open>Attestations (\<open>iris.mjs\<close>)\<close>

record iris_msg =
  im_status :: string
  im_attestation :: "string option"
  im_message :: "string option"

text \<open>What \<open>fetch\<close> comes back with: the status and the parsed body, \<open>None\<close> for text that is not JSON, and then the array
  \<open>messages\<close>, \<open>None\<close> when it is not one.\<close>

datatype reply = FetchFailed string | Reply int "iris_msg list option option"

datatype iris_state = Complete | Pending | RateLimited | IrisError string

definition BLOCK_MS :: int where
  "BLOCK_MS = 5 * 60000"

text \<open>\<open>/^0x[0-9a-fA-F]+$/.test(x ?? '')\<close>, and \<open>messages.every(...)\<close>.\<close>

definition hex_text :: "string option \<Rightarrow> bool" where
  "hex_text x = (case x of Some s \<Rightarrow> hex_from 1 s | None \<Rightarrow> False)"

definition attested :: "iris_msg \<Rightarrow> bool" where
  "attested m \<longleftrightarrow> im_status m = ''complete'' \<and> hex_text (im_attestation m) \<and> hex_text (im_message m)"

definition read_reply :: "int \<Rightarrow> int \<Rightarrow> reply \<Rightarrow> (iris_state \<times> iris_msg list) \<times> int" where
  "read_reply now blocked r = (case r of
     FetchFailed e \<Rightarrow> ((IrisError (''fetch: '' @ e), []), blocked)
   | Reply status body \<Rightarrow>
       if status = 404 then ((Pending, []), blocked)
       else if status = 429 then ((RateLimited, []), now + BLOCK_MS)
       else if status < 200 \<or> 299 < status then ((IrisError (''HTTP '' @ show_int status), []), blocked)
       else case body of None \<Rightarrow> ((IrisError ''bad JSON'', []), blocked)
       | Some ms \<Rightarrow> (case orelse ms [] of [] \<Rightarrow> ((Pending, []), blocked)
           | m # rest \<Rightarrow> ((if list_all attested (m # rest) then Complete else Pending, m # rest), blocked)))"

subsection \<open>Messages (\<open>parseCctpV2\<close>)\<close>

definition digit_of :: "char \<Rightarrow> int" where
  "digit_of c = (case List.find (\<lambda>(d, _). d = c) (zip ''0123456789abcdefABCDEF'' ([0..15] @ [10..15])) of Some (_, n) \<Rightarrow> n | None \<Rightarrow> 0)"

fun hex_pairs :: "string \<Rightarrow> int list option" where
  "hex_pairs [] = Some []"
| "hex_pairs [c] = None"
| "hex_pairs (c # d # s) = (if is_hex c \<and> is_hex d then map_option ((#) (16 * digit_of c + digit_of d)) (hex_pairs s) else None)"

text \<open>\<open>getBytes\<close>: \<open>None\<close> is its throw.\<close>

definition getBytes :: "string \<Rightarrow> int list option" where
  "getBytes s = (if starts_with ''0x'' s \<or> starts_with ''0X'' s then hex_pairs (drop 2 s) else None)"

definition hexlify :: "int list \<Rightarrow> string" where
  "hexlify bs = ''0x'' @ concat (map (\<lambda>b. [''0123456789abcdef'' ! nat (b div 16 mod 16), ''0123456789abcdef'' ! nat (b mod 16)]) bs)"

definition cut :: "int list \<Rightarrow> nat \<Rightarrow> nat \<Rightarrow> int list" where
  "cut b i n = take n (drop i b)"

definition big_endian :: "int list \<Rightarrow> int" where
  "big_endian = foldl (\<lambda>n b. 256 * n + b) 0"

record cctp_msg =
  cm_sourceDomain :: int
  cm_destinationDomain :: int
  cm_nonce :: string
  cm_sender :: string
  cm_recipient :: string
  cm_destinationCaller :: string
  cm_minFinality :: int
  cm_finalityExecuted :: int
  cm_mintRecipient :: string
  cm_messageSender :: string
  cm_hookData :: "int list"

text \<open>Every field is there when the last one that is needed in full, the 32 bytes of \<open>messageSender\<close>, is; otherwise
  \<open>getAddress\<close> (or \<open>BigInt('0x')\<close>) throws.\<close>

definition parseCctpV2 :: "string \<Rightarrow> cctp_msg option" where
  "parseCctpV2 s = (case getBytes s of None \<Rightarrow> None | Some b \<Rightarrow>
     if length b < 148 + 100 + 32 then None
     else let adr = \<lambda>i. hexlify (cut b (i + 12) 20)
          in Some \<lparr>cm_sourceDomain = big_endian (cut b 4 4), cm_destinationDomain = big_endian (cut b 8 4), cm_nonce = hexlify (cut b 12 32),
               cm_sender = adr 44, cm_recipient = adr 76, cm_destinationCaller = adr 108, cm_minFinality = big_endian (cut b 140 4),
               cm_finalityExecuted = big_endian (cut b 144 4), cm_mintRecipient = adr (148 + 36), cm_messageSender = adr (148 + 100), cm_hookData = drop (148 + 228) b\<rparr>)"

subsection \<open>State and world\<close>

datatype lane = CheckpointLane | DeliverLane

record cctp_params =
  xp_scanChunk :: int
  xp_startLookback :: "lane \<Rightarrow> int"
  xp_pendingAlertSec :: int
  xp_deliverL2GasLimit :: int
  xp_l2FeeMultiplier :: int
  xp_l2MinFeeWei :: int
  xp_l1BaseFeeMultiplier :: int
  xp_maxTicketWei :: int
  xp_minEthWei :: int

text \<open>\<open>startLookback\<close> by the lane whose source chain it is for: Ethereum for checkpoints, Arc for deliveries.\<close>

definition CCTP_DEFAULTS :: cctp_params where
  "CCTP_DEFAULTS = \<lparr>xp_scanChunk = 5000, xp_startLookback = case_lane 20000 50000, xp_pendingAlertSec = 2 * 3600, xp_deliverL2GasLimit = 1500000,
     xp_l2FeeMultiplier = 3, xp_l2MinFeeWei = 100000000, xp_l1BaseFeeMultiplier = 2, xp_maxTicketWei = 20000000000000000, xp_minEthWei = 5000000000000000\<rparr>"

record src_record =
  sc_lane :: lane
  sc_tx :: string
  sc_block :: int
  sc_at :: int
  sc_done :: bool

datatype xrec = LaneScan int | Src src_record

text \<open>The calls: \<open>CanonicalGate.relay\<close>, and \<open>EthereumBridger.relay\<close> with the ticket's gas limit, fee and value.\<close>

datatype xcall = RelayGate string string | RelayBridge string string int int int

datatype xreport = XSource lane string | XPending lane string iris_state | XReceived lane string | XRelay lane string send_status | XWarn string

type_synonym xh = "xcall history"

record xenv =
  xe_p :: cctp_params
  xe_arcChainId :: int
  xe_ethChainId :: int
  xe_gate :: string
  xe_bridger :: string
  xe_domain :: "lane \<Rightarrow> int"
  xe_messageSender :: "lane \<Rightarrow> string"
  xe_startBlock :: "lane \<Rightarrow> int option"
  xe_wallet :: "string option"
  xe_ms :: "xh \<Rightarrow> int"
  xe_now :: "lane \<Rightarrow> xh \<Rightarrow> int"
  xe_latest :: "(xh \<Rightarrow> unit result) option"
  xe_ethSettle :: "xh \<Rightarrow> unit result"
  xe_head :: "lane \<Rightarrow> xh \<Rightarrow> int result"
  xe_logs :: "lane \<Rightarrow> int \<Rightarrow> int \<Rightarrow> xh \<Rightarrow> (string \<times> int) list result"
  xe_blockTime :: "lane \<Rightarrow> int \<Rightarrow> xh \<Rightarrow> int result"
  xe_fetch :: "int \<Rightarrow> string \<Rightarrow> xh \<Rightarrow> reply"
  xe_usedNonces :: "lane \<Rightarrow> string \<Rightarrow> xh \<Rightarrow> int result"
  xe_rhGasPrice :: "xh \<Rightarrow> int option result"
  xe_l1BaseFee :: "xh \<Rightarrow> int option result"
  xe_submissionFee :: "int \<Rightarrow> int \<Rightarrow> xh \<Rightarrow> int result"
  xe_ethBalance :: "string \<Rightarrow> xh \<Rightarrow> int result"

type_synonym xjournal = "xrec journal"
type_synonym xstate = "(xrec, xcall, xreport) kst"
type_synonym 'a xop = "(xstate, 'a) op"

fun other_end :: "lane \<Rightarrow> lane" where
  "other_end CheckpointLane = DeliverLane"
| "other_end DeliverLane = CheckpointLane"

fun lane_name :: "lane \<Rightarrow> string" where
  "lane_name CheckpointLane = ''checkpoint''"
| "lane_name DeliverLane = ''deliver''"

definition src_id :: "lane \<Rightarrow> string \<Rightarrow> string" where
  "src_id l tx = lane_name l @ '':'' @ tx"

definition x_put :: "xenv \<Rightarrow> string \<Rightarrow> string \<Rightarrow> (xrec option \<Rightarrow> xrec) \<Rightarrow> unit xop" where
  "x_put v ns i f = put_rec (xe_ms v) ns i f"


subsection \<open>Scanning the source chain\<close>

definition see_source :: "xenv \<Rightarrow> lane \<Rightarrow> string \<times> int \<Rightarrow> unit xop" where
  "see_source v l = (\<lambda>(tx, block).
     bindk (getj (\<lambda>j. record_of j (''src'', src_id l tx))) (\<lambda>r.
     if r \<noteq> None then ret () else
     bindk (rd (xe_blockTime v l block)) (\<lambda>at.
     thenk (x_put v ''src'' (src_id l tx) (\<lambda>_. Src \<lparr>sc_lane = l, sc_tx = tx, sc_block = block, sc_at = at, sc_done = False\<rparr>)) (emit (XSource l tx)))))"

definition x_chunk :: "xenv \<Rightarrow> lane \<Rightarrow> int \<Rightarrow> int \<Rightarrow> unit xop" where
  "x_chunk v l a b = bindk (rd (xe_logs v l a b)) (\<lambda>ls. thenk (each (see_source v l) ls) (x_put v ''scan'' (lane_name l) (\<lambda>_. LaneScan (b + 1))))"

definition x_scan :: "xenv \<Rightarrow> lane \<Rightarrow> unit xop" where
  "x_scan v l =
     bindk (rd (xe_head v l)) (\<lambda>head.
     bindk (getj (\<lambda>j. case record_of j (''scan'', lane_name l) of Some (LaneScan n) \<Rightarrow> Some n | _ \<Rightarrow> None)) (\<lambda>n.
     chunked (xp_scanChunk (xe_p v)) (x_chunk v l) head (orelse n (orelse (xe_startBlock v l) (max 0 (head - xp_startLookback (xe_p v) l))))))"

subsection \<open>Relaying\<close>

definition irisMessages :: "xenv \<Rightarrow> int \<Rightarrow> string \<Rightarrow> int \<Rightarrow> ((iris_state \<times> iris_msg list) \<times> int) xop" where
  "irisMessages v domain tx blocked =
     bindk (rd (\<lambda>h. Inr (xe_ms v h))) (\<lambda>now.
     if now < blocked then ret ((RateLimited, []), blocked)
     else bindk (rd (\<lambda>h. Inr (xe_fetch v domain tx h))) (\<lambda>r. ret (read_reply now blocked r)))"

definition warn_ticket :: "xenv \<Rightarrow> int \<Rightarrow> unit xop" where
  "warn_ticket v value = (case xe_wallet v of None \<Rightarrow> ret ()
     | Some a \<Rightarrow> bindk (rd (xe_ethBalance v a)) (\<lambda>bal. if bal < value + xp_minEthWei (xe_p v) then emit (XWarn ''eth-low'') else ret ()))"

text \<open>The retryable ticket: gas limit, fee per gas and value, \<open>None\<close> above the cap.\<close>

definition ticket :: "xenv \<Rightarrow> cctp_msg \<Rightarrow> (int \<times> int \<times> int) option xop" where
  "ticket v x =
     bindk (rd (xe_rhGasPrice v)) (\<lambda>price.
     bindk (rd (xe_l1BaseFee v)) (\<lambda>base.
     bindk (rd (xe_submissionFee v (int (length (cm_hookData x)) + 4) (orelse base 0 * xp_l1BaseFeeMultiplier (xe_p v)))) (\<lambda>submission.
     let fee = max (orelse price 0 * xp_l2FeeMultiplier (xe_p v)) (xp_l2MinFeeWei (xe_p v));
         value = submission + xp_deliverL2GasLimit (xe_p v) * fee
     in if value > xp_maxTicketWei (xe_p v) then thenk (emit (XWarn ''ticket-cap'')) (ret None)
        else thenk (warn_ticket v value) (ret (Some (xp_deliverL2GasLimit (xe_p v), fee, value))))))"

text \<open>\<open>relay\<close>: the call the lane makes, if any, then what its result is. \<open>True\<close> when it confirmed.\<close>

definition send_relay :: "xenv \<Rightarrow> xcall caller \<Rightarrow> xcall side \<Rightarrow> lane \<Rightarrow> cctp_msg \<Rightarrow> string \<Rightarrow> string \<Rightarrow> send_result option xop" where
  "send_relay v net eth l x msg att =
     (if l = CheckpointLane then
        key_at (taskKey (show_int (xe_arcChainId v)) (xe_gate v) (''cctp:'' @ show_int (cm_sourceDomain x) @ '':'' @ cm_nonce x) ''1'') (\<lambda>k.
        bindk (rd (\<lambda>h. Inr (xe_ms v h))) (\<lambda>ms.
        thenk (modj (reopenQuarantined 3600000 ms k))
       (bindk (call net k (RelayGate msg att)) (\<lambda>res. ret (Some res)))))
      else
        key_at (taskKey (show_int (xe_ethChainId v)) (xe_bridger v) (''cctp:'' @ show_int (cm_sourceDomain x) @ '':'' @ cm_nonce x) ''1'') (\<lambda>k.
        bindk (ticket v x) (\<lambda>t. case t of None \<Rightarrow> ret None
        | Some (gasLimit, fee, value) \<Rightarrow> bindk (call_side eth k (RelayBridge msg att gasLimit fee value)) (\<lambda>res. ret (Some res)))))"

definition relay :: "xenv \<Rightarrow> xcall caller \<Rightarrow> xcall side \<Rightarrow> lane \<Rightarrow> cctp_msg \<Rightarrow> string \<Rightarrow> string \<Rightarrow> bool xop" where
  "relay v net eth l x msg att =
     bindk (send_relay v net eth l x msg att) (\<lambda>r. case r of None \<Rightarrow> ret False
     | Some res \<Rightarrow>
        thenk (emit (XRelay l (cm_nonce x) (sr_status res)))
       (thenk (if \<not> quiet (sr_status res) then emit (XWarn (''relay-'' @ lane_name l @ ''-'' @ cm_nonce x)) else ret ())
         (ret (sent_ok res))))"

text \<open>Our hook: the route of the lane, sent by our contract.\<close>

definition ours :: "(lane \<Rightarrow> int) \<Rightarrow> (lane \<Rightarrow> string) \<Rightarrow> lane \<Rightarrow> cctp_msg \<Rightarrow> bool" where
  "ours domains senders l x \<longleftrightarrow> cm_sourceDomain x = domains l \<and> cm_destinationDomain x = domains (other_end l) \<and> cm_messageSender x = senders l"

text \<open>One message of a source transaction; the result says whether it stays open.\<close>

definition relay_msg :: "xenv \<Rightarrow> xcall caller \<Rightarrow> xcall side \<Rightarrow> lane \<Rightarrow> iris_msg \<Rightarrow> bool xop" where
  "relay_msg v net eth l m =
     (case Option.bind (im_message m) parseCctpV2 of None \<Rightarrow> ret False
      | Some x \<Rightarrow>
        if \<not> ours (xe_domain v) (xe_messageSender v) l x then ret False else
        bindk (rd (xe_usedNonces v l (cm_nonce x))) (\<lambda>used.
        if used \<noteq> 0 then thenk (emit (XReceived l (cm_nonce x))) (ret False)
        else bindk (relay v net eth l x (orelse (im_message m) '''') (orelse (im_attestation m) '''')) (\<lambda>ok. ret (\<not> ok))))"

definition close_src :: "xenv \<Rightarrow> string \<Rightarrow> src_record \<Rightarrow> unit xop" where
  "close_src v i s = x_put v ''src'' i (\<lambda>r. case r of Some (Src x) \<Rightarrow> Src (x\<lparr>sc_done := True\<rparr>) | _ \<Rightarrow> Src (s\<lparr>sc_done := True\<rparr>))"

definition relay_src :: "xenv \<Rightarrow> xcall caller \<Rightarrow> xcall side \<Rightarrow> lane \<Rightarrow> string \<times> src_record \<Rightarrow> int \<Rightarrow> int xop" where
  "relay_src v net eth l = (\<lambda>(i, s) blocked.
     bindk (irisMessages v (xe_domain v l) (sc_tx s) blocked) (\<lambda>((state, ms), blocked1).
     if state \<noteq> Complete then
       bindk (rd (\<lambda>h. Inr (xe_now v l h))) (\<lambda>now.
       thenk (emit (XPending l (sc_tx s) state))
      (thenk (if now - sc_at s \<ge> xp_pendingAlertSec (xe_p v) then emit (XWarn (''pending-'' @ i)) else ret ())
        (ret blocked1)))
     else
       bindk (collect (relay_msg v net eth l) ms) (\<lambda>open.
       thenk (if True \<notin> set open then close_src v i s else ret ()) (ret blocked1))))"

fun relay_all :: "xenv \<Rightarrow> xcall caller \<Rightarrow> xcall side \<Rightarrow> lane \<Rightarrow> (string \<times> src_record) list \<Rightarrow> int \<Rightarrow> int xop" where
  "relay_all v net eth l [] blocked = ret blocked"
| "relay_all v net eth l (s # ss) blocked = bindk (relay_src v net eth l s blocked) (\<lambda>blocked1. relay_all v net eth l ss blocked1)"

definition open_sources :: "lane \<Rightarrow> xjournal \<Rightarrow> (string \<times> src_record) list" where
  "open_sources l j = List.map_filter (\<lambda>(i, r). case r of Src s \<Rightarrow> if sc_lane s = l \<and> \<not> sc_done s then Some (i, s) else None | _ \<Rightarrow> None) (entries j ''src'')"

definition relayLane :: "xenv \<Rightarrow> xcall caller \<Rightarrow> xcall side \<Rightarrow> lane \<Rightarrow> int \<Rightarrow> int xop" where
  "relayLane v net eth l blocked = bindk (getj (open_sources l)) (\<lambda>ss. relay_all v net eth l ss blocked)"

definition cctp_tick :: "xenv \<Rightarrow> xcall caller \<Rightarrow> xcall settler \<Rightarrow> xcall side \<Rightarrow> int \<Rightarrow> int xop" where
  "cctp_tick v net settler eth blocked =
     thenk (case xe_latest v of Some f \<Rightarrow> rd f | None \<Rightarrow> ret ())
    (thenk (settle_all settler)
    (thenk (rd (xe_ethSettle v))
    (thenk (x_scan v CheckpointLane)
    (bindk (relayLane v net eth CheckpointLane blocked) (\<lambda>blocked1.
     thenk (x_scan v DeliverLane)
       (relayLane v net eth DeliverLane blocked1))))))"

end
