(* ===== verification/Cctp_Safety.thy ===== *)
theory Cctp_Safety
  imports Cctp_Keeper
begin

section \<open>What the CCTP relayer relays\<close>

subsection \<open>Calls that are due\<close>

text \<open>\<open>complete v l h m\<close>: at some moment up to \<open>h\<close> Iris listed \<open>m\<close> among the complete messages of a source transaction.\<close>

definition complete :: "xenv \<Rightarrow> lane \<Rightarrow> xh \<Rightarrow> iris_msg \<Rightarrow> bool" where
  "complete v l h m \<longleftrightarrow> (\<exists>h1 tx now b ms b1. earlier h1 h \<and> read_reply now b (xe_fetch v (xe_domain v l) tx h1) = ((Complete, ms), b1) \<and> m \<in> set ms)"

definition relay_due :: "xenv \<Rightarrow> lane \<Rightarrow> xh \<Rightarrow> string \<Rightarrow> string \<Rightarrow> cctp_msg \<Rightarrow> bool" where
  "relay_due v l h msg att x \<longleftrightarrow> parseCctpV2 msg = Some x \<and> ours (xe_domain v) (xe_messageSender v) l x \<and> xe_usedNonces v l (cm_nonce x) h = Inr 0
     \<and> (\<exists>m. complete v l h m \<and> attested m \<and> im_message m = Some msg \<and> im_attestation m = Some att)"

definition ticket_due :: "xenv \<Rightarrow> xh \<Rightarrow> cctp_msg \<Rightarrow> int \<Rightarrow> int \<Rightarrow> int \<Rightarrow> bool" where
  "ticket_due v h x gas fee value \<longleftrightarrow> gas = xp_deliverL2GasLimit (xe_p v) \<and> xp_l2MinFeeWei (xe_p v) \<le> fee \<and> value \<le> xp_maxTicketWei (xe_p v)
     \<and> (\<exists>base submission. xe_submissionFee v (int (length (cm_hookData x)) + 4) base h = Inr submission \<and> value = submission + gas * fee)"

fun xcall_due :: "xenv \<Rightarrow> xh \<Rightarrow> string \<Rightarrow> xcall \<Rightarrow> bool" where
  "xcall_due v h k (RelayGate msg att) = (\<exists>x. relay_due v CheckpointLane h msg att x)"
| "xcall_due v h k (RelayBridge msg att gas fee value) = (\<exists>x. relay_due v DeliverLane h msg att x \<and> ticket_due v h x gas fee value)"

declare xcall_due.simps [simp del]

definition x_dues :: "xenv \<Rightarrow> xh \<Rightarrow> xstate \<Rightarrow> bool" where
  "x_dues v h st \<longleftrightarrow> asked (xcall_due v) (hist st) \<and> earlier h (hist st)"

lemma x_dues_simps [simp]:
  "x_dues v h (st\<lparr>outs := os\<rparr>) = x_dues v h st" "x_dues v h (st\<lparr>kj := j\<rparr>) = x_dues v h st"
  by (simp_all add: x_dues_def)

lemma x_dues_call: "x_dues v h st \<Longrightarrow> xcall_due v (hist st) k c \<Longrightarrow> x_dues v h (st\<lparr>hist := hist st @ [(k, c)]\<rparr>)"
  by (simp add: x_dues_def earlier_snoc)

lemma x_dues_call_kj: "x_dues v h st \<Longrightarrow> xcall_due v (hist st) k c \<Longrightarrow> x_dues v h (st\<lparr>kj := j, hist := hist st @ [(k, c)]\<rparr>)"
  by (simp add: x_dues_def earlier_snoc)

lemma x_dues_keeps [keeping]:
  "keeps (x_dues v h) (emit x)" "keeps (x_dues v h) (settle_all s)" "keeps (x_dues v h) (modj f)" "keeps (x_dues v h) (x_put v' ns i g)"
  by (simp_all add: keeps_def x_dues_def x_put_def)

lemma keeps_x_scan: "keeps (x_dues v h) (x_scan v' l)"
  unfolding x_scan_def x_chunk_def see_source_def by (intro keeping)

lemma wp_ticket:
  assumes "\<And>t st1. hist st1 = hist st \<Longrightarrow> kj st1 = kj st \<Longrightarrow> \<forall>gas fee value. t = Some (gas, fee, value) \<longrightarrow> ticket_due v (hist st) x gas fee value \<Longrightarrow> Q t st1"
    and "\<And>st1. hist st1 = hist st \<Longrightarrow> kj st1 = kj st \<Longrightarrow> E st1"
  shows "wp (ticket v x) Q E st"
  unfolding ticket_def warn_ticket_def
  by (intro wps assms) (auto simp: ticket_due_def)

lemma x_dues_moved: "x_dues v h st \<Longrightarrow> hist st1 = hist st \<Longrightarrow> x_dues v h st1"
  by (simp add: x_dues_def)

lemma due_send_relay:
  assumes "x_dues v h st" "relay_due v l (hist st) msg att x"
  shows "wp (send_relay v net eth l x msg att) (\<lambda>_. x_dues v h) (x_dues v h) st"
proof (cases l)
  case CheckpointLane
  then show ?thesis unfolding send_relay_def
    by (intro wps) (use assms in \<open>auto intro!: x_dues_call_kj simp: xcall_due.simps\<close>)
next
  case DeliverLane
  have "x_dues v h (st1\<lparr>hist := hist st1 @ [(k, RelayBridge msg att gas fee w)]\<rparr>)"
    if "hist st1 = hist st" "ticket_due v (hist st) x gas fee w" for st1 k gas fee w
    using assms that DeliverLane by (intro x_dues_call x_dues_moved [OF assms(1)]) (auto simp: xcall_due.simps)
  with DeliverLane show ?thesis unfolding send_relay_def
    by (intro wps wp_ticket) (use assms(1) in \<open>auto intro: x_dues_moved [OF assms(1)]\<close>)
qed

lemma complete_later: "complete v l h m \<Longrightarrow> earlier h h2 \<Longrightarrow> complete v l h2 m"
  unfolding complete_def earlier_def by (metis append.assoc)

lemma due_relay_msg:
  assumes "complete v l h m" "attested m"
  shows "keeps (x_dues v h) (relay_msg v net eth l m)"
proof (rule wp_keeps)
  fix st assume st: "x_dues v h st"
  have "complete v l (hist st) m" using complete_later [OF assms(1)] st by (simp add: x_dues_def)
  moreover obtain msg att where m: "im_message m = Some msg" "im_attestation m = Some att"
    using assms(2) by (auto simp: attested_def hex_text_def split: option.splits)
  ultimately have due: "relay_due v l (hist st) msg att x"
    if "Option.bind (im_message m) parseCctpV2 = Some x" "ours (xe_domain v) (xe_messageSender v) l x" "xe_usedNonces v l (cm_nonce x) (hist st) = Inr 0" for x
    using that assms(2) by (auto simp: relay_due_def)
  have relayed: "wp (relay v net eth l x msg att) (\<lambda>_. x_dues v h) (x_dues v h) st" if "relay_due v l (hist st) msg att x" for x
    unfolding relay_def by (intro wps wp_cons [OF due_send_relay [OF st that]]) (auto intro!: wps)
  show "wp (relay_msg v net eth l m) (\<lambda>_. x_dues v h) (x_dues v h) st"
    unfolding relay_msg_def
    by (intro wps) (auto simp: st m orelse_def intro!: wps wp_cons [OF relayed] due)
qed

lemma complete_attested: "read_reply now b r = ((Complete, ms), b1) \<Longrightarrow> list_all attested ms"
  by (auto simp: read_reply_def split: reply.splits option.splits list.splits if_splits) (metis list.pred_inject(2))

lemma wp_iris:
  assumes "\<And>ms b1. \<exists>now b. read_reply now b (xe_fetch v d tx (hist st)) = ((Complete, ms), b1) \<Longrightarrow> Q ((Complete, ms), b1) st"
    and "\<And>a ms b1. a \<noteq> Complete \<Longrightarrow> Q ((a, ms), b1) st" and "E st"
  shows "wp (irisMessages v d tx b) Q E st"
proof -
  obtain a ms b1 where r: "read_reply (xe_ms v (hist st)) b (xe_fetch v d tx (hist st)) = ((a, ms), b1)" by (metis surj_pair)
  have "Q ((a, ms), b1) st" using assms(1) [of ms b1] assms(2) [of a ms b1] r by (cases "a = Complete") auto
  then show ?thesis unfolding irisMessages_def by (intro wps) (auto simp: r intro: assms)
qed

lemma due_relay_src:
  assumes "asked (xcall_due v) (hist st)"
  shows "wp (relay_src v net eth l s b) (\<lambda>_ st. asked (xcall_due v) (hist st)) (\<lambda>st. asked (xcall_due v) (hist st)) st"
proof -
  obtain i r where s: "s = (i, r)" by (cases s)
  have st: "x_dues v (hist st) st" using assms by (simp add: x_dues_def)
  have msgs: "keeps (x_dues v (hist st)) (collect (relay_msg v net eth l) ms)"
    if "\<exists>now b. read_reply now b (xe_fetch v (xe_domain v l) (sc_tx r) (hist st)) = ((Complete, ms), b1)" for ms b1
  proof -
    have "complete v l (hist st) m" "attested m" if "m \<in> set ms" for m
      using that \<open>\<exists>now b. _ now b = _\<close> complete_attested by (auto simp: list_all_iff complete_def) (metis earlier_refl)+
    then show ?thesis by (intro keeping due_relay_msg)
  qed
  have "wp (relay_src v net eth l s b) (\<lambda>_. x_dues v (hist st)) (x_dues v (hist st)) st"
    unfolding s relay_src_def prod.case close_src_def
    by (intro wps wp_iris) (auto simp: st intro!: wps wp_cons [OF wp_of_keeps [OF msgs st]] wp_cons [OF wp_of_keeps [OF x_dues_keeps(4)]])
  then show ?thesis by (rule wp_cons) (simp_all add: x_dues_def)
qed

lemma due_relay_all: "asked (xcall_due v) (hist st) \<Longrightarrow> wp (relay_all v net eth l ss b) (\<lambda>_ st. asked (xcall_due v) (hist st)) (\<lambda>st. asked (xcall_due v) (hist st)) st"
  by (induction ss arbitrary: b st) (auto intro!: wps wp_cons [OF due_relay_src])

lemma keeps_asked: "(\<And>h. keeps (x_dues v h) m) \<Longrightarrow> asked (xcall_due v) (hist st) \<Longrightarrow> wp m (\<lambda>_ st. asked (xcall_due v) (hist st)) (\<lambda>st. asked (xcall_due v) (hist st)) st"
  by (rule wp_cons [OF wp_of_keeps [of "x_dues v (hist st)"]]) (auto simp: x_dues_def)

lemma due_cctp: "asked (xcall_due v) (hist st) \<Longrightarrow> wp (cctp_tick v net settler eth b) (\<lambda>_ st. asked (xcall_due v) (hist st)) (\<lambda>st. asked (xcall_due v) (hist st)) st"
  unfolding cctp_tick_def relayLane_def
  by (intro wps wp_cons [OF keeps_asked [OF keeps_x_scan]] wp_cons [OF due_relay_all] due_relay_all) auto

text \<open>C16. Every transaction a tick of the relayer asks for is due: the message and the attestation it carries were listed by
  Iris as complete, the message parses as one of the lane's route sent by our own contract, and its nonce reads as unused
  on the destination at that moment. A delivery pays a ticket of exactly the submission fee and the gas at a price not
  below the floor, and never more than the cap.\<close>

theorem cctp_calls_due:
  assumes "hist st = []" and "hist (snd (cctp_tick v net settler eth b st)) = h1 @ (k, c) # h2"
  shows "xcall_due v h1 k c"
proof -
  have "wp (cctp_tick v net settler eth b) (\<lambda>_ st. asked (xcall_due v) (hist st)) (\<lambda>st. asked (xcall_due v) (hist st)) st"
    by (rule due_cctp) (simp add: assms(1))
  then have "asked (xcall_due v) (hist (snd (cctp_tick v net settler eth b st)))"
    by (simp add: wp_def split: prod.splits sum.splits)
  then show ?thesis by (rule askedD) (rule assms(2))
qed


subsection \<open>Nothing is closed before it arrived\<close>

definition src_at :: "xjournal \<Rightarrow> string \<Rightarrow> src_record option" where
  "src_at j i = (case record_of j (''src'', i) of Some (Src s) \<Rightarrow> Some s | _ \<Rightarrow> None)"

text \<open>
  \<open>M\<close> is what Iris lists for a source transaction once it is complete, \<open>S\<close> holds every nonce the destination reads as used and
  every one our own relay of which confirmed.
\<close>

definition msg_received :: "(lane \<times> string) set \<Rightarrow> (lane \<Rightarrow> int) \<Rightarrow> (lane \<Rightarrow> string) \<Rightarrow> lane \<Rightarrow> iris_msg \<Rightarrow> bool" where
  "msg_received S d c l m \<longleftrightarrow> (\<forall>x. Option.bind (im_message m) parseCctpV2 = Some x \<longrightarrow> ours d c l x \<longrightarrow> (l, cm_nonce x) \<in> S)"

record cctp_world =
  cw_messages :: "lane \<Rightarrow> string \<Rightarrow> iris_msg list"
  cw_used :: "(lane \<times> string) set"
  cw_domain :: "lane \<Rightarrow> int"
  cw_sender :: "lane \<Rightarrow> string"

definition cctp_truthful :: "cctp_world \<Rightarrow> xenv \<Rightarrow> xcall caller \<Rightarrow> xcall side \<Rightarrow> bool" where
  "cctp_truthful w v net eth \<longleftrightarrow> xe_domain v = cw_domain w \<and> xe_messageSender v = cw_sender w
     \<and> (\<forall>l tx h now b ms b1. read_reply now b (xe_fetch v (xe_domain v l) tx h) = ((Complete, ms), b1) \<longrightarrow> ms = cw_messages w l tx)
     \<and> (\<forall>l n h u. xe_usedNonces v l n h = Inr u \<longrightarrow> u \<noteq> 0 \<longrightarrow> (l, n) \<in> cw_used w)
     \<and> (\<forall>h k msg att ts res ts1 x. net h k (RelayGate msg att) ts = (Inr res, ts1) \<longrightarrow> sent_ok res \<longrightarrow> parseCctpV2 msg = Some x \<longrightarrow> (CheckpointLane, cm_nonce x) \<in> cw_used w)
     \<and> (\<forall>h k msg att g f val res x. eth h k (RelayBridge msg att g f val) = Inr res \<longrightarrow> sent_ok res \<longrightarrow> parseCctpV2 msg = Some x \<longrightarrow> (DeliverLane, cm_nonce x) \<in> cw_used w)"

definition src_received :: "cctp_world \<Rightarrow> src_record \<Rightarrow> bool" where
  "src_received w s \<longleftrightarrow> (\<forall>m\<in>set (cw_messages w (sc_lane s) (sc_tx s)). msg_received (cw_used w) (cw_domain w) (cw_sender w) (sc_lane s) m)"

definition relayed :: "cctp_world \<Rightarrow> xjournal \<Rightarrow> xstate \<Rightarrow> bool" where
  "relayed w j0 st \<longleftrightarrow> well_keyed (ns_of (kj st) ''src'') \<and> (\<forall>i s. src_at (kj st) i = Some s \<longrightarrow> sc_done s \<longrightarrow> src_received w s)
     \<and> (\<forall>i s0. src_at j0 i = Some s0 \<longrightarrow> (\<exists>d. src_at (kj st) i = Some (s0\<lparr>sc_done := d\<rparr>)))"

lemma src_at_simps [simp]:
  "src_at (with_tasks ts j) i = src_at j i" "src_at (reopenQuarantined ms now k j) i = src_at j i"
  "ns \<noteq> ''src'' \<Longrightarrow> src_at (setRecord now ns k p j) i = src_at j i"
  by (simp_all add: src_at_def record_of_setRecord)

lemma src_at_set [simp]: "src_at (setRecord now ''src'' k p j) i =
    (if i = k then (case p (record_of j (''src'', k)) of Src s \<Rightarrow> Some s | _ \<Rightarrow> None) else src_at j i)"
  by (auto simp: src_at_def record_of_setRecord)

lemma src_at_none: "record_of j (''src'', i) = None \<Longrightarrow> src_at j i = None"
  by (simp add: src_at_def)

lemma src_at_recorded: "src_at j i = Some s \<Longrightarrow> record_of j (''src'', i) = Some (Src s)"
  by (simp add: src_at_def split: option.splits xrec.splits)

lemma keyed_src [simp]:
  "ns_of (reopenQuarantined ms now k j) = ns_of j"
  by (simp add: same_ns [OF records_reopen])

lemma relayed_simps [simp]:
  "relayed w j0 (st\<lparr>outs := os\<rparr>) = relayed w j0 st" "relayed w j0 (st\<lparr>hist := h\<rparr>) = relayed w j0 st"
  "relayed w j0 (st\<lparr>kj := with_tasks ts j\<rparr>) = relayed w j0 (st\<lparr>kj := j\<rparr>)" "relayed w j0 (st\<lparr>kj := j, hist := h\<rparr>) = relayed w j0 (st\<lparr>kj := j\<rparr>)"
  "relayed w j0 (st\<lparr>kj := reopenQuarantined ms now k j\<rparr>) = relayed w j0 (st\<lparr>kj := j\<rparr>)" "relayed w j0 (st\<lparr>kj := kj st\<rparr>) = relayed w j0 st"
  by (simp_all add: relayed_def)

lemma relayed_keeps [keeping]:
  "keeps (relayed w j0) (emit x)" "keeps (relayed w j0) (settle_all s)" "keeps (relayed w j0) (modj (reopenQuarantined ms now k))"
  by (simp_all add: keeps_def emit_def settle_all_def modj_def split: prod.splits)

lemma relayed_put: "ns \<noteq> ''src'' \<Longrightarrow> keeps (relayed w j0) (x_put v ns i f)"
  by (simp add: keeps_def relayed_def x_put_def put_rec_def ns_of_setRecord)

lemma relayed_scan: "keeps (relayed w j0) (x_scan v l)"
proof -
  have fresh: "relayed w j0 st \<Longrightarrow> record_of (kj st) (''src'', i) = None \<Longrightarrow> \<not> sc_done s \<Longrightarrow> relayed w j0 (st\<lparr>kj := setRecord now ''src'' i (\<lambda>_. Src s) (kj st)\<rparr>)" for st i s now
    unfolding relayed_def using src_at_none by (simp add: ns_of_setRecord well_keyed_put) (metis option.distinct(1))
  have new: "wp (see_source v l x) (\<lambda>_. relayed w j0) (relayed w j0) st" if "relayed w j0 st" for x st
    unfolding see_source_def x_put_def
    by (intro wps) (use that in \<open>auto intro: fresh\<close>)
  show ?thesis unfolding x_scan_def x_chunk_def by (intro keeping wp_keeps [OF new] relayed_put) auto
qed

lemma relayed_closed:
  assumes a: "relayed w j0 st" and s: "src_at (kj st) i = Some (s\<lparr>sc_done := d\<rparr>)" "src_received w s"
  shows "wp (close_src v i s) (\<lambda>_. relayed w j0) (relayed w j0) st"
proof -
  let ?j = "\<lambda>now. setRecord now ''src'' i (\<lambda>r. case r of Some (Src x) \<Rightarrow> Src (x\<lparr>sc_done := True\<rparr>) | _ \<Rightarrow> Src (s\<lparr>sc_done := True\<rparr>)) (kj st)"
  have at: "src_at (?j now) k = (if k = i then Some (s\<lparr>sc_done := True\<rparr>) else src_at (kj st) k)" for now k
    using src_at_recorded [OF s(1)] by simp
  have got: "src_received w (s\<lparr>sc_done := e\<rparr>)" for e using s(2) by (simp add: src_received_def)
  have "\<exists>d. src_at (?j now) k = Some (s0\<lparr>sc_done := d\<rparr>)" if "src_at j0 k = Some s0" for k s0 now
  proof -
    from a that obtain e where e: "src_at (kj st) k = Some (s0\<lparr>sc_done := e\<rparr>)" unfolding relayed_def by blast
    show ?thesis
    proof (cases "k = i")
      case True
      with e s(1) have "s\<lparr>sc_done := True\<rparr> = s0\<lparr>sc_done := True\<rparr>" by (cases s; cases s0) simp
      with True show ?thesis unfolding at by auto
    qed (auto simp: at e)
  qed
  with a have "relayed w j0 (st\<lparr>kj := ?j now\<rparr>)" for now
    unfolding relayed_def using got by (simp del: src_at_set add: at ns_of_setRecord well_keyed_put)
  then show ?thesis unfolding close_src_def x_put_def by (intro wps)
qed


lemma relayed_moved: "relayed w j0 st \<Longrightarrow> kj st1 = kj st \<Longrightarrow> relayed w j0 st1"
  by (simp add: relayed_def)

lemma relayed_send:
  assumes hon: "cctp_truthful w v net eth" and a: "relayed w j0 st" and x: "parseCctpV2 msg = Some x"
  shows "wp (send_relay v net eth l x msg att) (\<lambda>r st. relayed w j0 st \<and> (\<forall>res. r = Some res \<longrightarrow> sent_ok res \<longrightarrow> (l, cm_nonce x) \<in> cw_used w)) (relayed w j0) st"
proof -
  have conf: "net h k (RelayGate msg att) ts = (Inr res, ts1) \<Longrightarrow> sent_ok res \<Longrightarrow> (CheckpointLane, cm_nonce x) \<in> cw_used w"
    "eth h k (RelayBridge msg att g f val) = Inr res \<Longrightarrow> sent_ok res \<Longrightarrow> (DeliverLane, cm_nonce x) \<in> cw_used w" for h k ts res ts1 g f val
    using hon x unfolding cctp_truthful_def by blast+
  show ?thesis
  proof (cases l)
    case CheckpointLane
    then show ?thesis unfolding send_relay_def by (intro wps) (use a conf in auto)
  next
    case DeliverLane
    then show ?thesis unfolding send_relay_def by (intro wps wp_ticket) (use conf relayed_moved [OF a] in auto)
  qed
qed

lemma relayed_msg:
  assumes hon: "cctp_truthful w v net eth" and a: "relayed w j0 st" and m: "attested m"
  shows "wp (relay_msg v net eth l m) (\<lambda>open st. relayed w j0 st \<and> (\<not> open \<longrightarrow> msg_received (cw_used w) (cw_domain w) (cw_sender w) l m)) (relayed w j0) st"
proof -
  obtain msg att where ma: "im_message m = Some msg" "im_attestation m = Some att"
    using m by (auto simp: attested_def hex_text_def split: option.splits)
  have relayed: "wp (relay v net eth l x msg att) (\<lambda>ok st. relayed w j0 st \<and> (ok \<longrightarrow> (l, cm_nonce x) \<in> cw_used w)) (relayed w j0) st" if "parseCctpV2 msg = Some x" for x
    unfolding relay_def by (intro wps wp_cons [OF relayed_send [OF hon a that]]) (auto intro!: wps)
  have used: "xe_usedNonces v l n h = Inr u \<Longrightarrow> u \<noteq> 0 \<Longrightarrow> (l, n) \<in> cw_used w" for n h u
    using hon by (simp add: cctp_truthful_def)
  have d: "xe_domain v = cw_domain w" "xe_messageSender v = cw_sender w"
    using hon by (simp_all add: cctp_truthful_def)
  show ?thesis unfolding relay_msg_def d
    by (intro wps) (auto simp: a ma orelse_def msg_received_def intro!: wps wp_cons [OF relayed] used)
qed

lemma relayed_src:
  assumes hon: "cctp_truthful w v net eth" and a: "relayed w j0 st" and s: "src_at j0 i = Some s" "sc_lane s = l"
  shows "wp (relay_src v net eth l (i, s) b) (\<lambda>_. relayed w j0) (relayed w j0) st"
proof -
  have msgs: "wp (collect (relay_msg v net eth l) ms) (\<lambda>os st. relayed w j0 st \<and> (True \<notin> set os \<longrightarrow> src_received w s)) (relayed w j0) st"
    if "\<exists>now b. read_reply now b (xe_fetch v (xe_domain v l) (sc_tx s) (hist st)) = ((Complete, ms), b1)" for ms b1
  proof -
    have eq: "ms = cw_messages w (sc_lane s) (sc_tx s)" using that hon unfolding cctp_truthful_def s(2) by metis
    have at: "attested m" if "m \<in> set ms" for m
      using \<open>\<exists>now b. _ now b = _\<close> that complete_attested by (auto simp: list_all_iff)
    have all: "list_all2 (\<lambda>m open. \<not> open \<longrightarrow> msg_received (cw_used w) (cw_domain w) (cw_sender w) l m) ms os \<Longrightarrow> True \<notin> set os \<Longrightarrow> src_received w s" for os
      unfolding src_received_def s(2) eq list_all2_conv_all_nth by (metis in_set_conv_nth nth_mem)
    show ?thesis
      by (rule wp_cons [OF wp_collect [where I = "relayed w j0", OF relayed_msg [OF hon _ at] a]]) (auto intro: all)
  qed
  have shut: "wp (close_src v i s) (\<lambda>_. relayed w j0) (relayed w j0) st1" if "relayed w j0 st1" "src_received w s" for st1
  proof -
    from that(1) s(1) obtain d where "src_at (kj st1) i = Some (s\<lparr>sc_done := d\<rparr>)" unfolding relayed_def by blast
    with that show ?thesis by (intro relayed_closed)
  qed
  show ?thesis unfolding relay_src_def prod.case
    by (intro wps wp_iris) (auto simp: a intro!: wps wp_cons [OF msgs] wp_cons [OF shut])
qed

lemma relayed_all:
  assumes hon: "cctp_truthful w v net eth" and s: "\<forall>(i, s)\<in>set ss. src_at j0 i = Some s \<and> sc_lane s = l"
  shows "relayed w j0 st \<Longrightarrow> wp (relay_all v net eth l ss b) (\<lambda>_. relayed w j0) (relayed w j0) st"
  using s
proof (induction ss arbitrary: b st)
  case (Cons x ss)
  then show ?case by (cases x) (auto intro!: wps wp_cons [OF relayed_src [OF hon]] Cons.IH)
qed (auto intro: wps)

lemma open_source_at: "well_keyed (ns_of j ''src'') \<Longrightarrow> (i, s) \<in> set (open_sources l j) \<Longrightarrow> src_at j i = Some s \<and> sc_lane s = l"
  by (auto simp: open_sources_def List.map_filter_def src_at_def entries_def record_of_def in_object_iff split: xrec.splits if_splits)

lemma relayed_lane:
  assumes hon: "cctp_truthful w v net eth"
  shows "keeps (relayed w j0) (relayLane v net eth l b)"
proof (rule wp_keeps)
  fix st assume a: "relayed w j0 st"
  have self: "\<exists>d. s0 = s0\<lparr>sc_done := d\<rparr>" for s0 :: src_record by (rule exI [of _ "sc_done s0"]) simp
  have start: "relayed w (kj st) st" using a self by (auto simp: relayed_def)
  have listed: "\<forall>(i, s)\<in>set (open_sources l (kj st)). src_at (kj st) i = Some s \<and> sc_lane s = l"
    using open_source_at a by (fastforce simp: relayed_def)
  have old: "relayed w (kj st) st1 \<Longrightarrow> relayed w j0 st1" for st1
    using a unfolding relayed_def by (metis src_record.surjective src_record.update_convs(5))
  have "wp (relayLane v net eth l b) (\<lambda>_. relayed w (kj st)) (relayed w (kj st)) st"
    unfolding relayLane_def by (intro wps relayed_all [OF hon listed] start)
  then show "wp (relayLane v net eth l b) (\<lambda>_. relayed w j0) (relayed w j0) st"
    by (rule wp_cons) (auto intro: old)
qed

lemma relayed_tick: "cctp_truthful w v net eth \<Longrightarrow> keeps (relayed w j0) (cctp_tick v net settler eth b)"
  unfolding cctp_tick_def by (intro keeping relayed_scan relayed_lane)

definition cctp_ticks :: "(xenv \<times> xcall caller \<times> xcall settler \<times> xcall side \<times> int) list \<Rightarrow> xstate \<Rightarrow> xstate" where
  "cctp_ticks ws st = foldl (\<lambda>st (v, net, settler, eth, b). snd (cctp_tick v net settler eth b st)) st ws"

text \<open>C9. No message of the lane is forgotten: over any number of ticks, whatever fails, every recorded source transaction stays
  recorded as it is, and it is closed only when each of its complete messages that is ours has arrived, its nonce read as
  used on the destination or our relay of it confirmed.\<close>

theorem cctp_closed_received:
  assumes "relayed w (kj st) st" and "\<forall>(v, net, settler, eth, b)\<in>set ws. cctp_truthful w v net eth"
  shows "relayed w (kj st) (cctp_ticks ws st)"
  using assms(2)
proof (induction ws rule: rev_induct)
  case Nil
  show ?case using assms(1) by (simp add: cctp_ticks_def)
next
  case (snoc x ws)
  obtain v net settler eth b where x: "x = (v, net, settler, eth, b)" by (cases x)
  have "relayed w (kj st) (cctp_ticks ws st)" by (rule snoc.IH) (use snoc.prems in simp)
  then have "relayed w (kj st) (snd (cctp_tick v net settler eth b (cctp_ticks ws st)))"
    using snoc.prems by (intro keepsD [OF relayed_tick]) (auto simp: x)
  then show ?case by (simp add: cctp_ticks_def x)
qed


subsection \<open>A worked run\<close>

text \<open>
  One source transaction on Ethereum with one message: 280 bytes from domain 0 to domain 26, all else zero but the last byte
  of the sender. The relay of the first tick reverts, that of the second confirms.
\<close>

definition demo_hex :: string where
  "demo_hex = ''0x'' @ replicate 22 (CHR ''0'') @ ''1a'' @ replicate 534 (CHR ''0'') @ ''bb''"

definition demo_nonce :: string where
  "demo_nonce = ''0x'' @ replicate 64 (CHR ''0'')"

definition demo_iris :: iris_msg where
  "demo_iris = \<lparr>im_status = ''complete'', im_attestation = Some ''0xa'', im_message = Some demo_hex\<rparr>"

definition demo_xenv :: xenv where
  "demo_xenv = \<lparr>xe_p = CCTP_DEFAULTS, xe_arcChainId = 1, xe_ethChainId = 2, xe_gate = ''0xG'', xe_bridger = ''0xB'', xe_domain = case_lane 0 26,
     xe_messageSender = case_lane (''0x'' @ replicate 38 (CHR ''0'') @ ''bb'') ''0xg'', xe_startBlock = (\<lambda>_. Some 3), xe_wallet = None, xe_ms = (\<lambda>_. 0), xe_now = (\<lambda>_ _. 100),
     xe_latest = None, xe_ethSettle = (\<lambda>_. Inr ()), xe_head = (\<lambda>l _. Inr (case_lane 3 2 l)), xe_logs = (\<lambda>_ _ _ _. Inr [(''0xT'', 3)]), xe_blockTime = (\<lambda>_ _ _. Inr 50),
     xe_fetch = (\<lambda>_ _ _. Reply 200 (Some (Some [demo_iris]))), xe_usedNonces = (\<lambda>_ _ _. Inr 0), xe_rhGasPrice = (\<lambda>_. Inr None), xe_l1BaseFee = (\<lambda>_. Inr None),
     xe_submissionFee = (\<lambda>_ _ _. Inr 0), xe_ethBalance = (\<lambda>_ _. Inr 0)\<rparr>"

definition demo_xnet :: "send_status \<Rightarrow> xcall caller" where
  "demo_xnet s h k c ts = (Inr (result_of (if c = RelayGate demo_hex ''0xa'' then s else StReverted)), ts)"

definition demo_xworld :: "send_status \<Rightarrow> xenv \<times> xcall caller \<times> xcall settler \<times> xcall side \<times> int" where
  "demo_xworld s = (demo_xenv, demo_xnet s, \<lambda>_ ts. (Inr (), ts), \<lambda>_ _ _. Inr (result_of StReverted), 0)"

definition demo_xst :: xstate where
  "demo_xst = \<lparr>kj = open_journal None, hist = [], outs = []\<rparr>"

definition demo_cctp :: cctp_world where
  "demo_cctp = \<lparr>cw_messages = \<lambda>_ _. [demo_iris], cw_used = {(CheckpointLane, demo_nonce)}, cw_domain = xe_domain demo_xenv, cw_sender = xe_messageSender demo_xenv\<rparr>"

lemma demo_parsed: "map_option cm_nonce (parseCctpV2 demo_hex) = Some demo_nonce"
  by code_simp


theorem cctp_calls_due_witness:
  "\<exists>k. hist (snd (cctp_tick demo_xenv (demo_xnet StReverted) (\<lambda>_ ts. (Inr (), ts)) (\<lambda>_ _ _. Inr (result_of StReverted)) 0 demo_xst)) = [] @ (k, RelayGate demo_hex ''0xa'') # []
     \<and> xcall_due demo_xenv [] k (RelayGate demo_hex ''0xa'')"
proof -
  have "map snd (hist (snd (cctp_tick demo_xenv (demo_xnet StReverted) (\<lambda>_ ts. (Inr (), ts)) (\<lambda>_ _ _. Inr (result_of StReverted)) 0 demo_xst))) = [RelayGate demo_hex ''0xa'']"
    by code_simp
  then obtain k where h: "hist (snd (cctp_tick demo_xenv (demo_xnet StReverted) (\<lambda>_ ts. (Inr (), ts)) (\<lambda>_ _ _. Inr (result_of StReverted)) 0 demo_xst)) = [] @ (k, RelayGate demo_hex ''0xa'') # []"
    by auto
  have "hist demo_xst = []" by (simp add: demo_xst_def)
  from cctp_calls_due [OF this h] h show ?thesis by blast
qed

theorem cctp_closed_received_witness:
  "relayed demo_cctp (kj demo_xst) (cctp_ticks [demo_xworld StReverted, demo_xworld StConfirmed] demo_xst)
   \<and> map_option sc_done (src_at (kj (cctp_ticks [demo_xworld StReverted] demo_xst)) ''checkpoint:0xT'') = Some False
   \<and> map_option sc_done (src_at (kj (cctp_ticks [demo_xworld StConfirmed] demo_xst)) ''checkpoint:0xT'') = Some True"
proof (intro conjI)
  have "attested demo_iris" by code_simp
  then have iris: "read_reply now b (xe_fetch demo_xenv d tx h) = ((Complete, ms), b1) \<Longrightarrow> ms = [demo_iris]" for now b d tx h ms b1
    by (simp add: demo_xenv_def read_reply_def orelse_def)
  have "(CheckpointLane, cm_nonce x) \<in> cw_used demo_cctp" if "parseCctpV2 demo_hex = Some x" for x
    using demo_parsed that by (simp add: demo_cctp_def)
  then have sound: "cctp_truthful demo_cctp demo_xenv (demo_xnet s) (\<lambda>_ _ _. Inr (result_of StReverted))" for s
    using iris unfolding cctp_truthful_def
    by (auto simp: demo_cctp_def demo_xnet_def result_of_def sent_ok_def split: if_splits) (simp_all add: demo_xenv_def)
  have start: "relayed demo_cctp (kj demo_xst) demo_xst"
    by (simp add: relayed_def demo_xst_def src_at_def record_of_def ns_of_def open_journal_def Let_def)
  show "relayed demo_cctp (kj demo_xst) (cctp_ticks [demo_xworld StReverted, demo_xworld StConfirmed] demo_xst)"
    by (rule cctp_closed_received [OF start]) (simp add: demo_xworld_def sound)
qed (code_simp, code_simp)

end
