(* ===== verification/Vault_Keeper.thy ===== *)
theory Vault_Keeper
  imports Relay Two_Chains Journal_Codec
begin

section \<open>The RH vault worker (\<open>vault/keeper.mjs\<close>)\<close>

text \<open>
  References are the keys the journal uses for them. The worker caches the return route's address for the life of the
  process; the model asks for it every time. The random nonce of a quote is a parameter, and so are \<open>getAddress\<close>, the vault's
  and the route's views, the quote service and the signer.
\<close>

subsection \<open>State and world\<close>

definition SCALE :: int where
  "SCALE = 10 ^ 12"

record vault_params =
  vp_scanChunk :: int
  vp_startLookback :: int
  vp_quoteTtlSec :: int
  vp_minReturn6 :: int
  vp_maxReturnShortBps :: int
  vp_waitAlertSec :: int
  vp_maxPerTick :: int
  vp_destinationCurrency :: string

definition VAULT_DEFAULTS :: vault_params where
  "VAULT_DEFAULTS = \<lparr>vp_scanChunk = 5000, vp_startLookback = 20000, vp_quoteTtlSec = 300, vp_minReturn6 = 1000000, vp_maxReturnShortBps = 100,
     vp_waitAlertSec = 10 * 60, vp_maxPerTick = 8, vp_destinationCurrency = ''0x0000000000000000000000000000000000000000''\<rparr>"

datatype vlog = OrderWaitingFunds string int | OrderExecuted string int int

datatype vrec = VScan int | WaitingOrder int int | Returnable int int | Returned string "string option" int int int

record signed_quote =
  vq_requestId :: string
  vq_deadline :: int
  vq_nonce :: int

datatype vcall = ExecuteFunded string | ReturnFunds string int signed_quote string

datatype vreport = VExecuted string send_status | VReturned string send_status int | VDeferred string string | VAlert string

type_synonym vh = "vcall history"

record venv =
  ve_p :: vault_params
  ve_chainId :: int
  ve_arcChainId :: int
  ve_vault :: string
  ve_hub :: string
  ve_getAddress :: "string \<Rightarrow> string result"
  ve_sign :: "(string \<Rightarrow> string) option"
  ve_ms :: "vh \<Rightarrow> int"
  ve_now :: "vh \<Rightarrow> int"
  ve_latest :: "(vh \<Rightarrow> unit result) option"
  ve_head :: "vh \<Rightarrow> int result"
  ve_logs :: "int \<Rightarrow> int \<Rightarrow> vh \<Rightarrow> vlog list result"
  ve_floatEnabled :: "vh \<Rightarrow> bool result"
  ve_freeSettlement :: "vh \<Rightarrow> int result"
  ve_settled :: "string \<Rightarrow> vh \<Rightarrow> bool result"
  ve_waitingOrder :: "string \<Rightarrow> vh \<Rightarrow> (string \<times> int) result"
  ve_funding :: "string \<Rightarrow> vh \<Rightarrow> int result"
  ve_proceeds :: "string \<Rightarrow> vh \<Rightarrow> int result"
  ve_settlement :: "vh \<Rightarrow> string result"
  ve_quote :: "quote_request \<Rightarrow> vh \<Rightarrow> relay_quote result"
  ve_returnRoute :: "vh \<Rightarrow> string result"
  ve_quoteDigest :: "string \<Rightarrow> string \<Rightarrow> int \<Rightarrow> int \<Rightarrow> signed_quote \<Rightarrow> vh \<Rightarrow> string result"
  ve_nonce :: "vh \<Rightarrow> int"

type_synonym vjournal = "vrec journal"
type_synonym vstate = "(vrec, vcall, vreport) kst"
type_synonym 'a vop = "(vstate, 'a) op"

definition v_put :: "venv \<Rightarrow> string \<Rightarrow> string \<Rightarrow> vrec \<Rightarrow> unit vop" where
  "v_put v ns i r = put_rec (ve_ms v) ns i (\<lambda>_. r)"

definition vclock :: "venv \<Rightarrow> int vop" where
  "vclock v = rd (\<lambda>h. Inr (ve_now v h))"

definition forget :: "string \<Rightarrow> string \<Rightarrow> unit vop" where
  "forget ns i = modj (clearRecord ns i)"

definition vkey :: "venv \<Rightarrow> string \<Rightarrow> string result" where
  "vkey v what = taskKey (show_int (ve_chainId v)) (ve_vault v) what ''1''"

subsection \<open>Scanning\<close>

definition see_vault :: "venv \<Rightarrow> vlog \<Rightarrow> unit vop" where
  "see_vault v l = (case l of
     OrderWaitingFunds ref needed \<Rightarrow> bindk (vclock v) (\<lambda>now. v_put v ''waiting'' ref (WaitingOrder now needed))
   | OrderExecuted ref outcome seq \<Rightarrow> if outcome \<noteq> 0 then v_put v ''returnable'' ref (Returnable outcome seq) else ret ())"

definition v_chunk :: "venv \<Rightarrow> int \<Rightarrow> int \<Rightarrow> unit vop" where
  "v_chunk v a b = bindk (rd (ve_logs v a b)) (\<lambda>ls. thenk (each (see_vault v) ls) (v_put v ''scan'' ''vault'' (VScan (b + 1))))"

definition v_scan :: "venv \<Rightarrow> unit vop" where
  "v_scan v =
     bindk (rd (ve_head v)) (\<lambda>head.
     bindk (getj (\<lambda>j. case record_of j (''scan'', ''vault'') of Some (VScan n) \<Rightarrow> Some n | _ \<Rightarrow> None)) (\<lambda>n.
     chunked (vp_scanChunk (ve_p v)) (v_chunk v) head (orelse n (max 0 (head - vp_startLookback (ve_p v))))))"

subsection \<open>Buys that waited for the float\<close>

definition waiting_long :: "venv \<Rightarrow> string \<Rightarrow> vrec \<Rightarrow> unit vop" where
  "waiting_long v ref r = bindk (vclock v) (\<lambda>now.
     if now - (case r of WaitingOrder seen _ \<Rightarrow> seen | _ \<Rightarrow> now) > vp_waitAlertSec (ve_p v) then emit (VAlert (''waiting-'' @ ref)) else ret ())"

definition execute_one :: "venv \<Rightarrow> vcall caller \<Rightarrow> bool \<Rightarrow> int \<Rightarrow> string \<times> vrec \<Rightarrow> unit vop" where
  "execute_one v net floatOn free = (\<lambda>(ref, r).
     bindk (rd (ve_settled v ref)) (\<lambda>settled.
     if settled then forget ''waiting'' ref else
     bindk (rd (ve_waitingOrder v ref)) (\<lambda>(underlying, amountIn).
     if underlying = ''0x0000000000000000000000000000000000000000'' then forget ''waiting'' ref else
     bindk (rd (ve_funding v ref)) (\<lambda>own.
     if own \<ge> amountIn \<or> floatOn \<and> free \<ge> amountIn then
       key_at (vkey v (''executeFunded:'' @ ref)) (\<lambda>k.
       bindk (call net k (ExecuteFunded ref)) (\<lambda>res.
       thenk (emit (VExecuted ref (sr_status res)))
         (if sent_ok res then forget ''waiting'' ref else ret ())))
     else thenk (emit (VDeferred ref ''float short'')) (waiting_long v ref r)))))"

definition executeWaiting :: "venv \<Rightarrow> vcall caller \<Rightarrow> unit vop" where
  "executeWaiting v net =
     bindk (getj (\<lambda>j. entries j ''waiting'')) (\<lambda>ws.
     if ws = [] then ret () else
     bindk (rd (ve_floatEnabled v)) (\<lambda>floatOn.
     bindk (rd (ve_freeSettlement v)) (\<lambda>free.
     each (execute_one v net floatOn free) ws)))"

subsection \<open>Liabilities sent home\<close>

definition return_expect :: "venv \<Rightarrow> quote_request \<Rightarrow> deposit_expect" where
  "return_expect v b = \<lparr>dx_user = qr_user b, dx_recipient = qr_recipient b, dx_amount = qr_amount b, dx_originChainId = qr_originChainId b,
     dx_destinationChainId = qr_destinationChainId b, dx_destinationCurrency = qr_destinationCurrency b, dx_minOut = None, dx_nativeScale = Some 1, dx_paymentCurrency = None\<rparr>"

text \<open>Everything that goes wrong while quoting is caught alike.\<close>

definition ask_return :: "venv \<Rightarrow> int \<Rightarrow> deposit_quote option vop" where
  "ask_return v owed = tryk
     (bindk (rd (ve_settlement v)) (\<lambda>currency.
      case buildDepositQuoteRequest (ve_getAddress v) (ve_vault v) (ve_hub v) owed (ve_chainId v) (ve_arcChainId v) currency (vp_destinationCurrency (ve_p v)) of
        Inl e \<Rightarrow> throw ''quote''
      | Inr body \<Rightarrow> bindk (rd (ve_quote v body)) (\<lambda>raw.
          case validateDepositQuote raw (return_expect v body) of Inl e \<Rightarrow> throw ''quote rejected'' | Inr q \<Rightarrow> ret (Some q))))
     (\<lambda>_. ret None)"

definition shortBps :: "int \<Rightarrow> int \<Rightarrow> int" where
  "shortBps owed out = (let need18 = owed * SCALE in if out \<ge> need18 then 0 else bdiv ((need18 - out) * 10000) need18)"

definition send_return :: "venv \<Rightarrow> vcall caller \<Rightarrow> string \<Rightarrow> int \<Rightarrow> deposit_quote \<Rightarrow> (string \<Rightarrow> string) \<Rightarrow> unit vop" where
  "send_return v net ref owed q sign =
     bindk (rd (ve_returnRoute v)) (\<lambda>route.
     bindk (vclock v) (\<lambda>now.
     bindk (rd (\<lambda>h. Inr (ve_nonce v h))) (\<lambda>nonce.
     let sq = \<lparr>vq_requestId = dq_orderId q, vq_deadline = now + vp_quoteTtlSec (ve_p v), vq_nonce = nonce\<rparr>; minOut = dq_expectedOut q in
     bindk (rd (ve_quoteDigest v route ref owed minOut sq)) (\<lambda>digest.
     thenk (v_put v ''returns'' ref (Returned (dq_orderId q) (dq_requestId q) owed minOut now))
       (key_at (vkey v (''returnFunds:'' @ ref @ '':'' @ dq_orderId q)) (\<lambda>k.
        bindk (call net k (ReturnFunds ref minOut sq (sign digest))) (\<lambda>res.
        thenk (emit (VReturned ref (sr_status res) owed))
          (if sent_ok res then forget ''returnable'' ref else ret ()))))))))"

definition try_return :: "venv \<Rightarrow> vcall caller \<Rightarrow> string \<Rightarrow> int \<Rightarrow> unit vop" where
  "try_return v net ref owed =
     bindk (ask_return v owed) (\<lambda>r. case r of
       None \<Rightarrow> thenk (emit (VDeferred ref ''quote'')) (emit (VAlert (''return-'' @ ref @ ''-quote'')))
     | Some q \<Rightarrow>
         if shortBps owed (dq_expectedOut q) > vp_maxReturnShortBps (ve_p v) then emit (VDeferred ref ''Relay shortfall'')
         else case ve_sign v of None \<Rightarrow> throw ''vault worker: no quote signer (QUOTE_SIGNER_KEY_PATH)''
         | Some sign \<Rightarrow> send_return v net ref owed q sign)"

text \<open>One liability: whether it counts towards \<open>maxPerTick\<close>.\<close>

definition return_one :: "venv \<Rightarrow> vcall caller \<Rightarrow> string \<Rightarrow> bool vop" where
  "return_one v net ref =
     bindk (rd (ve_funding v ref)) (\<lambda>f.
     bindk (rd (ve_proceeds v ref)) (\<lambda>p.
     if f + p = 0 then thenk (forget ''returnable'' ref) (ret False)
     else if f + p < vp_minReturn6 (ve_p v) then thenk (emit (VDeferred ref ''below minReturn'')) (ret False)
     else thenk (try_return v net ref (f + p)) (ret True)))"

fun return_all :: "venv \<Rightarrow> vcall caller \<Rightarrow> string list \<Rightarrow> int \<Rightarrow> unit vop" where
  "return_all v net [] n = ret ()"
| "return_all v net (ref # refs) n =
     (if n \<ge> vp_maxPerTick (ve_p v) then ret ()
      else bindk (return_one v net ref) (\<lambda>counted. return_all v net refs (if counted then n + 1 else n)))"

definition returnLiabilities :: "venv \<Rightarrow> vcall caller \<Rightarrow> unit vop" where
  "returnLiabilities v net = bindk (getj (\<lambda>j. map fst (entries j ''returnable''))) (\<lambda>refs. return_all v net refs 0)"

definition vault_tick :: "venv \<Rightarrow> vcall caller \<Rightarrow> vcall settler \<Rightarrow> unit vop" where
  "vault_tick v net settler =
     thenk (case ve_latest v of Some f \<Rightarrow> rd f | None \<Rightarrow> ret ())
    (thenk (settle_all settler)
    (thenk (v_scan v)
    (thenk (executeWaiting v net)
      (returnLiabilities v net))))"

end
