(* ===== verification/Vault_Safety.thy ===== *)
theory Vault_Safety
  imports Vault_Keeper
begin

section \<open>What the vault worker asks for\<close>

definition funded :: "venv \<Rightarrow> vh \<Rightarrow> string \<Rightarrow> int \<Rightarrow> bool" where
  "funded v h ref amount \<longleftrightarrow> (\<exists>own. ve_funding v ref h = Inr own \<and> amount \<le> own)
     \<or> (\<exists>h1 free. earlier h1 h \<and> ve_floatEnabled v h1 = Inr True \<and> ve_freeSettlement v h1 = Inr free \<and> amount \<le> free)"

definition quoted :: "venv \<Rightarrow> vh \<Rightarrow> int \<Rightarrow> deposit_quote \<Rightarrow> bool" where
  "quoted v h owed q \<longleftrightarrow> (\<exists>body raw. ve_getAddress v (ve_vault v) = Inr (qr_user body) \<and> ve_getAddress v (ve_hub v) = Inr (qr_recipient body) \<and> qr_amount body = owed
     \<and> qr_originChainId body = ve_chainId v \<and> qr_destinationChainId body = ve_arcChainId v \<and> ve_quote v body h = Inr raw \<and> validateDepositQuote raw (return_expect v body) = Inr q)"

definition return_due :: "venv \<Rightarrow> vh \<Rightarrow> string \<Rightarrow> int \<Rightarrow> signed_quote \<Rightarrow> string \<Rightarrow> int \<Rightarrow> bool" where
  "return_due v h ref minOut sq sig owed \<longleftrightarrow>
     (\<exists>f p. ve_funding v ref h = Inr f \<and> ve_proceeds v ref h = Inr p \<and> owed = f + p) \<and> owed \<noteq> 0 \<and> vp_minReturn6 (ve_p v) \<le> owed
     \<and> (\<exists>q. quoted v h owed q \<and> minOut = dq_expectedOut q \<and> vq_requestId sq = dq_orderId q) \<and> shortBps owed minOut \<le> vp_maxReturnShortBps (ve_p v)
     \<and> (\<exists>route digest sign. ve_returnRoute v h = Inr route \<and> ve_quoteDigest v route ref owed minOut sq h = Inr digest \<and> ve_sign v = Some sign \<and> sig = sign digest)
     \<and> vq_deadline sq = ve_now v h + vp_quoteTtlSec (ve_p v)"

fun vcall_due :: "venv \<Rightarrow> vh \<Rightarrow> string \<Rightarrow> vcall \<Rightarrow> bool" where
  "vcall_due v h k (ExecuteFunded ref) = (vkey v (''executeFunded:'' @ ref) = Inr k \<and> ve_settled v ref h = Inr False
     \<and> (\<exists>u amount. ve_waitingOrder v ref h = Inr (u, amount) \<and> u \<noteq> ''0x0000000000000000000000000000000000000000'' \<and> funded v h ref amount))"
| "vcall_due v h k (ReturnFunds ref minOut sq sig) = (vkey v (''returnFunds:'' @ ref @ '':'' @ vq_requestId sq) = Inr k \<and> (\<exists>owed. return_due v h ref minOut sq sig owed))"

declare vcall_due.simps [simp del]

definition v_dues :: "venv \<Rightarrow> vh \<Rightarrow> vstate \<Rightarrow> bool" where
  "v_dues v h st \<longleftrightarrow> asked (vcall_due v) (hist st) \<and> earlier h (hist st)"

lemma v_dues_simps [simp]:
  "v_dues v h (st\<lparr>outs := os\<rparr>) = v_dues v h st" "v_dues v h (st\<lparr>kj := j\<rparr>) = v_dues v h st"
  "v_dues v h (st\<lparr>kj := j, hist := x\<rparr>) = v_dues v h (st\<lparr>hist := x\<rparr>)"
  by (simp_all add: v_dues_def)

lemma v_dues_call: "v_dues v h st \<Longrightarrow> vcall_due v (hist st) k c \<Longrightarrow> v_dues v h (st\<lparr>hist := hist st @ [(k, c)]\<rparr>)"
  by (simp add: v_dues_def earlier_snoc)

lemma v_dues_keeps [keeping]:
  "keeps (v_dues v h) (emit x)" "keeps (v_dues v h) (settle_all s)" "keeps (v_dues v h) (v_put v' ns i r)" "keeps (v_dues v h) (forget ns i)"
  by (simp_all add: keeps_def v_dues_def v_put_def forget_def)

lemma due_v_scan: "keeps (v_dues v h) (v_scan v')"
  unfolding v_scan_def v_chunk_def see_vault_def vclock_def by (intro keeping, simp split: vlog.split) (auto intro!: keeping)

lemma due_execute_one:
  assumes "v_dues v h st" and "ve_floatEnabled v h = Inr floatOn" "ve_freeSettlement v h = Inr free"
  shows "wp (execute_one v net floatOn free x) (\<lambda>_. v_dues v h) (v_dues v h) st"
proof -
  have due: "vcall_due v (hist st) k (ExecuteFunded ref)"
    if "vkey v (''executeFunded:'' @ ref) = Inr k" "ve_settled v ref (hist st) = Inr False" "ve_waitingOrder v ref (hist st) = Inr (u, a)"
      "u \<noteq> ''0x0000000000000000000000000000000000000000''" "ve_funding v ref (hist st) = Inr own" "a \<le> own \<or> floatOn \<and> a \<le> free" for k ref u a own
    using that assms by (auto simp: vcall_due.simps funded_def v_dues_def)
  show ?thesis
    unfolding execute_one_def waiting_long_def vclock_def forget_def
    by (intro wps) (use assms(1) in \<open>auto intro!: v_dues_call due\<close>)
qed

lemma v_dues_later: "v_dues v h st \<Longrightarrow> asked (vcall_due v) (hist st)" "asked (vcall_due v) (hist st) \<Longrightarrow> v_dues v (hist st) st"
  by (simp_all add: v_dues_def)

lemma due_executeWaiting: "asked (vcall_due v) (hist st) \<Longrightarrow> wp (executeWaiting v net) (\<lambda>_ st. asked (vcall_due v) (hist st)) (\<lambda>st. asked (vcall_due v) (hist st)) st"
  unfolding executeWaiting_def
proof (intro wps)
  fix floatOn free
  assume a: "asked (vcall_due v) (hist st)" and f: "ve_floatEnabled v (hist st) = Inr floatOn" "ve_freeSettlement v (hist st) = Inr free"
  have "wp (each (execute_one v net floatOn free) (entries (kj st) ''waiting'')) (\<lambda>_. v_dues v (hist st)) (v_dues v (hist st)) st"
    by (intro wp_each due_execute_one f v_dues_later(2) a)
  then show "wp (each (execute_one v net floatOn free) (entries (kj st) ''waiting'')) (\<lambda>_ st. asked (vcall_due v) (hist st)) (\<lambda>st. asked (vcall_due v) (hist st)) st"
    by (rule wp_cons) (auto dest: v_dues_later)
qed simp_all

lemma built_request:
  assumes "buildDepositQuoteRequest ga u r a oc dc ocur dcur = Inr body"
  shows "ga u = Inr (qr_user body)" "ga r = Inr (qr_recipient body)" "qr_amount body = a" "qr_originChainId body = oc" "qr_destinationChainId body = dc"
  using assms by (auto simp: buildDepositQuoteRequest_def checked_def split: sum.splits)

lemma wp_ask_return: "(\<And>q. quoted v (hist st) owed q \<Longrightarrow> Q (Some q) st) \<Longrightarrow> Q None st \<Longrightarrow> wp (ask_return v owed) Q E st"
  unfolding ask_return_def
proof (intro wps)
  fix currency body raw q
  assume q: "\<And>q. quoted v (hist st) owed q \<Longrightarrow> Q (Some q) st"
    and body: "buildDepositQuoteRequest (ve_getAddress v) (ve_vault v) (ve_hub v) owed (ve_chainId v) (ve_arcChainId v) currency (vp_destinationCurrency (ve_p v)) = Inr body"
    and raw: "ve_quote v body (hist st) = Inr raw" "validateDepositQuote raw (return_expect v body) = Inr q"
  have "quoted v (hist st) owed q" using built_request [OF body] raw unfolding quoted_def by blast
  then show "Q (Some q) st" by (rule q)
qed (auto intro: wps)

lemma due_send_return:
  assumes "v_dues v h st" and "ve_funding v ref (hist st) = Inr f" "ve_proceeds v ref (hist st) = Inr p" "owed = f + p" "owed \<noteq> 0" "vp_minReturn6 (ve_p v) \<le> owed"
    and "quoted v (hist st) owed q" "shortBps owed (dq_expectedOut q) \<le> vp_maxReturnShortBps (ve_p v)" "ve_sign v = Some sign"
  shows "wp (send_return v net ref owed q sign) (\<lambda>_. v_dues v h) (v_dues v h) st"
proof -
  have due: "vcall_due v (hist st) k (ReturnFunds ref (dq_expectedOut q) sq (sign digest))"
    if "sq = \<lparr>vq_requestId = dq_orderId q, vq_deadline = ve_now v (hist st) + vp_quoteTtlSec (ve_p v), vq_nonce = n\<rparr>"
      "ve_returnRoute v (hist st) = Inr route" "ve_quoteDigest v route ref owed (dq_expectedOut q) sq (hist st) = Inr digest"
      "vkey v (''returnFunds:'' @ ref @ '':'' @ dq_orderId q) = Inr k" for sq n route digest k
  proof -
    have "return_due v (hist st) ref (dq_expectedOut q) sq (sign digest) owed"
      using that assms unfolding return_due_def by auto
    then show ?thesis using that(1,4) by (auto simp: vcall_due.simps)
  qed
  show ?thesis
    unfolding send_return_def vclock_def v_put_def forget_def
    by (intro wps) (use assms(1) in \<open>auto intro!: v_dues_call due\<close>)
qed

lemma due_return_all: "v_dues v h st \<Longrightarrow> wp (return_all v net refs n) (\<lambda>_. v_dues v h) (v_dues v h) st"
proof (induction refs arbitrary: n st)
  case (Cons ref refs)
  have one: "wp (return_one v net ref) (\<lambda>_. v_dues v h) (v_dues v h) st"
    unfolding return_one_def try_return_def forget_def
    by (intro wps wp_ask_return) (use Cons.prems in \<open>auto intro!: wps wp_cons [OF due_send_return]\<close>)
  show ?case unfolding return_all.simps
    by (intro wps wp_cons [OF one] Cons.IH) (use Cons.prems in auto)
qed (auto intro: wps)

lemma due_vault: "asked (vcall_due v) (hist st) \<Longrightarrow> wp (vault_tick v net settler) (\<lambda>_ st. asked (vcall_due v) (hist st)) (\<lambda>st. asked (vcall_due v) (hist st)) st"
proof -
  have silent: "keeps (\<lambda>st. asked (vcall_due v) (hist st)) (v_scan v)"
    using due_v_scan [of v "[]" v] by (simp add: v_dues_def [abs_def] earlier_def)
  have final: "wp (return_all v net refs n) (\<lambda>_ st. asked (vcall_due v) (hist st)) (\<lambda>st. asked (vcall_due v) (hist st)) st1"
    if "asked (vcall_due v) (hist st1)" for refs n st1
    by (rule wp_cons [OF due_return_all [OF v_dues_later(2) [OF that]]]) (auto dest: v_dues_later)
  show "asked (vcall_due v) (hist st) \<Longrightarrow> ?thesis" unfolding vault_tick_def returnLiabilities_def
    by (intro wps wp_cons [OF wp_of_keeps [OF silent]] wp_cons [OF due_executeWaiting] final) auto
qed

lemma vault_dues:
  assumes "hist st = []" and "hist (snd (vault_tick v net settler st)) = h1 @ (k, c) # h2"
  shows "vcall_due v h1 k c"
proof -
  have "wp (vault_tick v net settler) (\<lambda>_ st. asked (vcall_due v) (hist st)) (\<lambda>st. asked (vcall_due v) (hist st)) st"
    by (rule due_vault) (simp_all add: assms(1))
  then have "asked (vcall_due v) (hist (snd (vault_tick v net settler st)))"
    by (simp add: wp_def split: prod.splits sum.splits)
  then show ?thesis by (rule askedD) (rule assms(2))
qed

text \<open>C17. Every transaction a tick of the worker asks for is due: a waiting buy is executed only while the vault reads it as
  waiting, not settled, and covered by its own funding or by the float free when the pass began; a liability is returned
  only for exactly what the vault reads as owed, at least the minimum, on a quote validated for the vault, the hub and that
  amount whose output is the signed minimum and falls short by at most the allowed basis points.\<close>

theorem vault_calls_due:
  assumes "hist st = []" and "hist (snd (vault_tick v net settler st)) = h1 @ (k, c) # h2"
  shows "vcall_due v h1 k c"
  using assms by (rule vault_dues)


text \<open>The task journal never holds a return back: returns of one liability on two different quotes go under different task
  keys, and every pass fetches a fresh quote, so neither a transaction still in flight nor back-off nor quarantine of an
  earlier return stops the next one. In the witness the liability is returned twice, the first transaction being in flight.\<close>

theorem return_keys_fresh:
  assumes "hist st1 = []" "hist st2 = []" "ve_chainId v1 = ve_chainId v2" "ve_vault v1 = ve_vault v2"
    and "hist (snd (vault_tick v1 net1 settler1 st1)) = a1 @ (k1, ReturnFunds ref m1 q1 s1) # b1"
    and "hist (snd (vault_tick v2 net2 settler2 st2)) = a2 @ (k2, ReturnFunds ref m2 q2 s2) # b2"
    and "vq_requestId q1 \<noteq> vq_requestId q2"
  shows "k1 \<noteq> k2"
proof -
  have "vcall_due v1 a1 k1 (ReturnFunds ref m1 q1 s1)" "vcall_due v2 a2 k2 (ReturnFunds ref m2 q2 s2)"
    using vault_dues [OF assms(1,5)] vault_dues [OF assms(2,6)] by auto
  then show ?thesis using assms(3,4,7) by (auto simp: vcall_due.simps vkey_def taskKey_def split: if_splits)
qed

subsection \<open>A worked run\<close>

definition demo_order :: "string \<Rightarrow> string" where
  "demo_order c = ''0x'' @ replicate 63 (CHR ''0'') @ c"

definition demo_currency :: string where
  "demo_currency = ''0x0000000000000000000000000000000000000000''"

definition demo_quote :: "string \<Rightarrow> relay_quote" where
  "demo_quote c = \<lparr>rq_text = '''', rq_steps = None, rq_requestId = None,
     rq_details = \<lparr>qd_recipient = None, qd_sender = None, qd_inAmount = None, qd_outChainId = None, qd_outAddress = None, qd_outAmount = None, qd_outMinimum = None\<rparr>,
     rq_orderId = Some (demo_order c),
     rq_inputs = [\<lparr>oi_payment = \<lparr>op_chainId = Some ''robinhood'', op_currency = None, op_amount = Some (jint.JNum 2000000), op_recipient = None, op_expected = None, op_minimum = None\<rparr>,
        oi_refunds = [(Some ''robinhood'', Some ''0xv'')]\<rparr>],
     rq_output = \<lparr>oo_chainId = Some ''arc'', oo_calls = 0, oo_payments = [\<lparr>op_chainId = None, op_currency = Some demo_currency, op_amount = None,
        op_recipient = Some ''0xh'', op_expected = Some (jint.JNum 1990000000000000000), op_minimum = None\<rparr>], oo_deadline = 0\<rparr>\<rparr>"

definition demo_venv :: "string \<Rightarrow> venv" where
  "demo_venv c = \<lparr>ve_p = VAULT_DEFAULTS, ve_chainId = 4663, ve_arcChainId = 5042, ve_vault = ''0xv'', ve_hub = ''0xh'', ve_getAddress = Inr, ve_sign = Some (\<lambda>d. ''s'' @ d),
     ve_ms = (\<lambda>_. 0), ve_now = (\<lambda>_. 100), ve_latest = None, ve_head = (\<lambda>_. Inr (-1)), ve_logs = (\<lambda>_ _ _. Inr []), ve_floatEnabled = (\<lambda>_. Inr True), ve_freeSettlement = (\<lambda>_. Inr 0),
     ve_settled = (\<lambda>_ _. Inr False), ve_waitingOrder = (\<lambda>_ _. Inl ''''), ve_funding = (\<lambda>_ _. Inr 0), ve_proceeds = (\<lambda>_ _. Inr 2000000), ve_settlement = (\<lambda>_. Inr ''0xU''),
     ve_quote = (\<lambda>_ _. Inr (demo_quote c)), ve_returnRoute = (\<lambda>_. Inr ''0xr''), ve_quoteDigest = (\<lambda>_ _ _ _ _ _. Inr ''d''), ve_nonce = (\<lambda>_. 5)\<rparr>"

definition demo_signed :: "string \<Rightarrow> signed_quote" where
  "demo_signed c = \<lparr>vq_requestId = demo_order c, vq_deadline = 400, vq_nonce = 5\<rparr>"

definition demo_vst :: vstate where
  "demo_vst = \<lparr>kj = setRecord 0 ''returnable'' ''0xR'' (\<lambda>_. Returnable 1 0) (open_journal None), hist = [], outs = []\<rparr>"

definition demo_vtick :: "string \<Rightarrow> vstate \<Rightarrow> vstate" where
  "demo_vtick c st = snd (vault_tick (demo_venv c) (\<lambda>_ _ _ ts. (Inr (result_of StInflight), ts)) (\<lambda>_ ts. (Inr (), ts)) st)"

lemma demo_first: "map snd (hist (demo_vtick ''1'' demo_vst)) = [ReturnFunds ''0xR'' 1990000000000000000 (demo_signed ''1'') ''sd'']"
  by code_simp

lemma demo_second: "map snd (hist (demo_vtick ''2'' ((demo_vtick ''1'' demo_vst)\<lparr>hist := []\<rparr>))) = [ReturnFunds ''0xR'' 1990000000000000000 (demo_signed ''2'') ''sd'']"
  by code_simp

theorem vault_calls_due_witness:
  "\<exists>k. hist (demo_vtick ''1'' demo_vst) = [] @ (k, ReturnFunds ''0xR'' 1990000000000000000 (demo_signed ''1'') ''sd'') # []
     \<and> vcall_due (demo_venv ''1'') [] k (ReturnFunds ''0xR'' 1990000000000000000 (demo_signed ''1'') ''sd'')"
proof -
  obtain k where h: "hist (demo_vtick ''1'' demo_vst) = [] @ (k, ReturnFunds ''0xR'' 1990000000000000000 (demo_signed ''1'') ''sd'') # []"
    using demo_first by auto
  have "hist demo_vst = []" by (simp add: demo_vst_def)
  from vault_calls_due [OF this h [unfolded demo_vtick_def]] h show ?thesis by blast
qed

theorem return_keys_fresh_witness:
  "\<exists>k1 k2. hist (demo_vtick ''1'' demo_vst) = [] @ (k1, ReturnFunds ''0xR'' 1990000000000000000 (demo_signed ''1'') ''sd'') # []
     \<and> hist (demo_vtick ''2'' ((demo_vtick ''1'' demo_vst)\<lparr>hist := []\<rparr>)) = [] @ (k2, ReturnFunds ''0xR'' 1990000000000000000 (demo_signed ''2'') ''sd'') # [] \<and> k1 \<noteq> k2"
proof -
  obtain k1 where h1: "hist (demo_vtick ''1'' demo_vst) = [] @ (k1, ReturnFunds ''0xR'' 1990000000000000000 (demo_signed ''1'') ''sd'') # []"
    using demo_first by auto
  obtain k2 where h2: "hist (demo_vtick ''2'' ((demo_vtick ''1'' demo_vst)\<lparr>hist := []\<rparr>)) = [] @ (k2, ReturnFunds ''0xR'' 1990000000000000000 (demo_signed ''2'') ''sd'') # []"
    using demo_second by auto
  have "k1 \<noteq> k2"
    by (rule return_keys_fresh [OF _ _ _ _ h1 [unfolded demo_vtick_def] h2 [unfolded demo_vtick_def]])
      (simp_all add: demo_vst_def demo_venv_def demo_signed_def demo_order_def)
  with h1 h2 show ?thesis by blast
qed

end
