(* ===== verification/Restock_Decide.thy ===== *)
theory Restock_Decide
  imports Complex_Main Market
begin

section \<open>Restock decisions (\<open>restock/decide.mjs\<close>)\<close>

text \<open>
  The decision is taken in floating point. A double is the rational number it stands for and every arithmetic step is
  rounded: \<open>round\<close> is the rounding of IEEE 754, \<open>ln\<close> and \<open>pow\<close> are the engine's \<open>Math.log\<close> and \<open>Math.pow\<close>; all three are
  parameters. Overflow to infinity is left out. The reasons of a decision are text for people and are left out, the alerts
  are kept.
\<close>

subsection \<open>Doubles\<close>

record doubles =
  fp_round :: "rat \<Rightarrow> rat"
  fp_ln :: "rat \<Rightarrow> rat"
  fp_pow :: "rat \<Rightarrow> rat \<Rightarrow> rat"

definition base :: "doubles \<Rightarrow> rat" where
  "base d = fp_round d (10001 / 10000)"

definition LOG_B :: "doubles \<Rightarrow> rat" where
  "LOG_B d = fp_ln d (base d)"

definition number :: "doubles \<Rightarrow> int \<Rightarrow> rat" where
  "number d n = fp_round d (of_int n)"

definition tickOfPrice18 :: "doubles \<Rightarrow> int \<Rightarrow> int" where
  "tickOfPrice18 d price18 = \<lfloor>fp_round d (fp_ln d (fp_round d (10 ^ 18 / number d price18)) / LOG_B d)\<rfloor>"

definition devBps :: "doubles \<Rightarrow> int \<Rightarrow> int \<Rightarrow> rat" where
  "devBps d poolTick refTick = fp_round d (fp_round d (fp_pow d (base d) (of_int (refTick - poolTick)) - 1) * 10000)"

definition usd :: "doubles \<Rightarrow> int \<Rightarrow> int \<Rightarrow> rat" where
  "usd d raw price18 = fp_round d (number d (bdiv (raw * price18) E18) / 10 ^ 18)"

definition usdc_usd :: "doubles \<Rightarrow> int \<Rightarrow> rat" where
  "usdc_usd d idle = fp_round d (number d (bdiv idle (10 ^ 12)) / 1000000)"

definition dollars18 :: "rat \<Rightarrow> int" where
  "dollars18 x = \<lfloor>x\<rfloor> * E18"

definition alignRange :: "doubles \<Rightarrow> int \<Rightarrow> rat \<Rightarrow> int \<Rightarrow> int \<times> int" where
  "alignRange d refTick halfWidthBps tickSpacing =
     (let half = fp_round d (fp_ln d (fp_round d (1 + fp_round d (halfWidthBps / 10000))) / LOG_B d) in
      (\<lfloor>fp_round d (fp_round d (of_int refTick - half) / of_int tickSpacing)\<rfloor> * tickSpacing,
       \<lceil>fp_round d (fp_round d (of_int refTick + half) / of_int tickSpacing)\<rceil> * tickSpacing))"

definition sharesBound :: "doubles \<Rightarrow> int \<Rightarrow> int \<Rightarrow> int \<Rightarrow> int" where
  "sharesBound d usdcIn refTick maxDev =
     \<lfloor>fp_round d (fp_round d (fp_round d (number d usdcIn * fp_pow d (base d) (of_int (refTick - maxDev))) * 9975) / 10000)\<rfloor>"

definition usdcBound :: "doubles \<Rightarrow> int \<Rightarrow> int \<Rightarrow> int \<Rightarrow> int" where
  "usdcBound d shares refTick maxDev =
     \<lfloor>fp_round d (fp_round d (fp_round d (number d shares / fp_pow d (base d) (of_int (refTick + maxDev))) * 9975) / 10000)\<rfloor>"

definition minSharesFor :: "doubles \<Rightarrow> int \<Rightarrow> int \<Rightarrow> int \<Rightarrow> int" where
  "minSharesFor d usdcIn refTick maxDev = sharesBound d usdcIn refTick (maxDev - 1)"

definition minUsdcFor :: "doubles \<Rightarrow> int \<Rightarrow> int \<Rightarrow> int \<Rightarrow> int" where
  "minUsdcFor d shares refTick maxDev = usdcBound d shares refTick (maxDev - 1)"

definition capRaw :: "int \<Rightarrow> int \<Rightarrow> rat \<Rightarrow> int" where
  "capRaw raw price18 maxUsd = min raw (bdiv (dollars18 maxUsd * E18) price18)"

subsection \<open>Parameters, state, decisions\<close>

record restock_params =
  rk_deviationBps :: rat
  rk_rangeHalfWidthBps :: rat
  rk_recenterEdgeBps :: rat
  rk_rangeGapTicks :: int
  rk_quoteDeviationTicks :: int
  rk_minTradeUsd :: rat
  rk_maxTradeUsd :: rat
  rk_poolStockUsd :: rat
  rk_reserveUsd :: rat
  rk_reserveAlertBps :: rat
  rk_idleStockKeepUsd :: rat
  rk_feeReserve18 :: int
  rk_maxSourceAgeSec :: int
  rk_cooldownSec :: int
  rk_pendingTimeoutSec :: int
  rk_demandRefreshSec :: int
  rk_market :: "market_params option"

definition DEFAULTS :: restock_params where
  "DEFAULTS = \<lparr>rk_deviationBps = 130, rk_rangeHalfWidthBps = 200, rk_recenterEdgeBps = 50, rk_rangeGapTicks = 50, rk_quoteDeviationTicks = 60,
     rk_minTradeUsd = 50, rk_maxTradeUsd = 1000, rk_poolStockUsd = 1000, rk_reserveUsd = 1000, rk_reserveAlertBps = 5000, rk_idleStockKeepUsd = 250,
     rk_feeReserve18 = 2 * 10 ^ 18, rk_maxSourceAgeSec = 26 * 3600, rk_cooldownSec = 60, rk_pendingTimeoutSec = 6 * 3600, rk_demandRefreshSec = 600,
     rk_market = Some MARKET_DEFAULTS\<rparr>"

datatype oracle_status = OsNone | OsLive | OsStale | OsDivergent | OsSuspect | OsPaused | OsOther int

record oracle_view =
  ov_status :: oracle_status
  ov_refTick :: "int option"
  ov_price18 :: int
  ov_sourceUpdatedAt :: int
  ov_observedAt :: int
  ov_maxAge :: "int option"

record pending_order =
  po_id :: "int option"
  po_mint :: bool
  po_at :: int

record pool_view =
  pv_initialized :: bool
  pv_poolTick :: int
  pv_liquidity :: int
  pv_tickLower :: int
  pv_tickUpper :: int
  pv_tickSpacing :: int
  pv_idleUsdc :: int
  pv_idleStock :: int

record restock_state =
  rs_pool :: pool_view
  rs_oracle :: oracle_view
  rs_pending :: "pending_order option"
  rs_now :: int
  rs_lastActionAt :: int

datatype side = StockSide | UsdcSide

text \<open>\<open>DHold\<close> and \<open>DStop\<close> carry \<open>alert\<close>, \<open>DStop\<close> also \<open>marketClosed\<close>.\<close>

datatype decision = DHold bool | DStop bool bool | DDemandPush | DPush side int | DMint int | DRedeem int | DRange int int

subsection \<open>The decision on a live price\<close>

definition pushStock :: "restock_params \<Rightarrow> restock_state \<Rightarrow> decision" where
  "pushStock p s = DPush StockSide (capRaw (pv_idleStock (rs_pool s)) (ov_price18 (rs_oracle s)) (rk_maxTradeUsd p))"

definition pushUsdc :: "restock_params \<Rightarrow> restock_state \<Rightarrow> decision" where
  "pushUsdc p s = DPush UsdcSide (min (pv_idleUsdc (rs_pool s)) (dollars18 (rk_maxTradeUsd p)))"

definition set_range :: "doubles \<Rightarrow> restock_params \<Rightarrow> restock_state \<Rightarrow> int \<Rightarrow> decision" where
  "set_range d p s ref = (case alignRange d ref (rk_rangeHalfWidthBps p) (pv_tickSpacing (rs_pool s)) of (l, u) \<Rightarrow> DRange l u)"

text \<open>What a mint may spend: whole dollars of idle USDC, the fee reserve kept back.\<close>

definition spendable :: "doubles \<Rightarrow> restock_params \<Rightarrow> rat \<Rightarrow> rat" where
  "spendable d p usdcUsd = of_int \<lfloor>fp_round d (usdcUsd - number d (bdiv (rk_feeReserve18 p) E18))\<rfloor>"

definition decide_empty :: "doubles \<Rightarrow> restock_params \<Rightarrow> restock_state \<Rightarrow> int \<Rightarrow> rat \<Rightarrow> rat \<Rightarrow> decision" where
  "decide_empty d p s ref stockUsd usdcUsd =
     (let v = rs_pool s; gap = \<bar>pv_poolTick v - ref\<bar>;
          target = min (rk_poolStockUsd p) (max 0 (fp_round d (fp_round d (fp_round d (usdcUsd + stockUsd) - rk_reserveUsd p) / 2))) in
      if stockUsd < fp_round d (target - rk_minTradeUsd p) then
        (if rs_pending s \<noteq> None then DHold False
         else let need = min (min (of_int \<lfloor>fp_round d (target - stockUsd)\<rfloor>) (rk_maxTradeUsd p)) (spendable d p usdcUsd) in
           if need < rk_minTradeUsd p then DHold True else DMint (dollars18 need))
      else if gap > rk_rangeGapTicks p then
        (let side = (if pv_poolTick v > ref then UsdcSide else StockSide) in
         if (if side = UsdcSide then pv_idleUsdc v else pv_idleStock v) = 0 then DHold True else DPush side 1)
      else set_range d p s ref)"

definition decide_anchor :: "doubles \<Rightarrow> restock_params \<Rightarrow> restock_state \<Rightarrow> rat \<Rightarrow> rat \<Rightarrow> rat \<Rightarrow> decision" where
  "decide_anchor d p s dev stockUsd usdcUsd =
     (if dev > 0 then
        (if stockUsd \<ge> rk_minTradeUsd p then pushStock p s
         else if rs_pending s \<noteq> None then DHold False
         else let usdcIn = min (rk_maxTradeUsd p) (spendable d p usdcUsd) in
           if usdcIn \<ge> rk_minTradeUsd p then DMint (dollars18 usdcIn) else DHold True)
      else if usdcUsd \<ge> rk_minTradeUsd p then pushUsdc p s else DHold True)"

definition near_edge :: "doubles \<Rightarrow> restock_params \<Rightarrow> restock_state \<Rightarrow> int \<Rightarrow> bool" where
  "near_edge d p s ref =
     (let edge = fp_round d (fp_ln d (fp_round d (1 + fp_round d (rk_recenterEdgeBps p / 10000))) / LOG_B d) in
      of_int ref \<le> fp_round d (of_int (pv_tickLower (rs_pool s)) + edge) \<or> of_int ref \<ge> fp_round d (of_int (pv_tickUpper (rs_pool s)) - edge))"

definition decide_edge :: "doubles \<Rightarrow> restock_params \<Rightarrow> restock_state \<Rightarrow> int \<Rightarrow> rat \<Rightarrow> rat \<Rightarrow> decision" where
  "decide_edge d p s ref stockUsd usdcUsd =
     (let v = rs_pool s in
      if \<bar>pv_poolTick v - ref\<bar> > rk_rangeGapTicks p then
        (if pv_poolTick v > ref
         then if usdcUsd \<ge> rk_minTradeUsd p \<or> pv_idleUsdc v > 0 then pushUsdc p s else DHold True
         else if stockUsd \<ge> rk_minTradeUsd p \<or> pv_idleStock v > 0 then pushStock p s else DHold True)
      else set_range d p s ref)"

definition decide_inside :: "doubles \<Rightarrow> restock_params \<Rightarrow> restock_state \<Rightarrow> rat \<Rightarrow> rat \<Rightarrow> decision" where
  "decide_inside d p s stockUsd usdcUsd =
     (let v = rs_pool s; price = ov_price18 (rs_oracle s) in
      if rs_pending s = None \<and> fp_round d (stockUsd - rk_idleStockKeepUsd p) \<ge> rk_minTradeUsd p then
        DRedeem (min (pv_idleStock v - bdiv (dollars18 (rk_idleStockKeepUsd p) * E18) price) (capRaw (pv_idleStock v) price (rk_maxTradeUsd p)))
      else DHold (usdcUsd < fp_round d (fp_round d (rk_reserveUsd p * rk_reserveAlertBps p) / 10000)))"

definition decide_live :: "doubles \<Rightarrow> restock_params \<Rightarrow> restock_state \<Rightarrow> int \<Rightarrow> decision" where
  "decide_live d p s ref =
     (let v = rs_pool s; dev = devBps d (pv_poolTick v) ref;
          stockUsd = usd d (pv_idleStock v) (ov_price18 (rs_oracle s)); usdcUsd = usdc_usd d (pv_idleUsdc v) in
      if rs_lastActionAt s \<noteq> 0 \<and> rs_now s - rs_lastActionAt s < rk_cooldownSec p then DHold False
      else if pv_liquidity v = 0 then decide_empty d p s ref stockUsd usdcUsd
      else if \<bar>dev\<bar> > rk_deviationBps p then decide_anchor d p s dev stockUsd usdcUsd
      else if near_edge d p s ref then decide_edge d p s ref stockUsd usdcUsd
      else decide_inside d p s stockUsd usdcUsd)"


subsection \<open>The gates before it (\<open>decideRestock\<close>)\<close>

text \<open>Only the observation is old, not the feed behind it.\<close>

definition relay_old :: "restock_state \<Rightarrow> bool" where
  "relay_old s = (let o1 = rs_oracle s in ov_status o1 = OsStale \<and> (case ov_maxAge o1 of None \<Rightarrow> True | Some a \<Rightarrow> rs_now s - ov_observedAt o1 > a))"

definition at_market :: "restock_params \<Rightarrow> restock_state \<Rightarrow> decision option result" where
  "at_market p s = (case rk_market p of None \<Rightarrow> Inr None
     | Some mp \<Rightarrow> (case marketGate (rs_now s) (Some (ov_sourceUpdatedAt (rs_oracle s))) mp of
         Inl e \<Rightarrow> Inl e
       | Inr g \<Rightarrow> Inr (if \<not> mg_ok g \<and> \<not> (relay_old s \<and> \<not> mg_closed g) then Some (DStop (mg_alert g) (mg_closed g)) else None)))"

text \<open>\<open>null\<close> counts as 0 in the arithmetic on \<open>o.refTick\<close>.\<close>

definition ref_tick :: "restock_state \<Rightarrow> int" where
  "ref_tick s = orelse (ov_refTick (rs_oracle s)) 0"

definition as_live :: "doubles \<Rightarrow> restock_state \<Rightarrow> restock_state" where
  "as_live d s = s\<lparr>rs_oracle := (rs_oracle s)\<lparr>ov_status := OsLive, ov_refTick := Some (tickOfPrice18 d (ov_price18 (rs_oracle s))), ov_sourceUpdatedAt := rs_now s\<rparr>\<rparr>"

function decideRestock :: "doubles \<Rightarrow> restock_params \<Rightarrow> restock_state \<Rightarrow> decision result" where
  "decideRestock d p s =
     (if \<not> pv_initialized (rs_pool s) then Inr (DHold False)
      else if \<not> ov_price18 (rs_oracle s) > 0 then Inr (DStop True False)
      else case at_market p s of Inl e \<Rightarrow> Inl e
      | Inr (Some stop) \<Rightarrow> Inr stop
      | Inr None \<Rightarrow>
         if ov_status (rs_oracle s) = OsLive then Inr (decide_live d p s (ref_tick s))
         else let closed = (rk_market p = None \<and> rs_now s - ov_sourceUpdatedAt (rs_oracle s) > rk_maxSourceAgeSec p);
                  frozen = (rk_market p \<noteq> None \<and> ov_status (rs_oracle s) = OsStale \<and> \<not> relay_old s) in
              if ov_status (rs_oracle s) \<noteq> OsStale \<or> closed \<or> frozen then Inr (DStop (\<not> closed) False)
              else case decideRestock d p (as_live d s) of Inl e \<Rightarrow> Inl e
              | Inr (DHold _) \<Rightarrow> Inr (DHold False)
              | Inr (DStop _ _) \<Rightarrow> Inr (DHold False)
              | Inr _ \<Rightarrow> Inr DDemandPush)"
  by auto
termination by (relation "measure (\<lambda>(d, p, s). if ov_status (rs_oracle s) = OsLive then 0 else 1)") (auto simp: as_live_def)

declare decideRestock.simps [simp del]


text \<open>For evaluation: the decision on the price made live does not recur again.\<close>

definition decide_once :: "doubles \<Rightarrow> restock_params \<Rightarrow> restock_state \<Rightarrow> decision result" where
  "decide_once d p s =
     (if \<not> pv_initialized (rs_pool s) then Inr (DHold False)
      else if \<not> ov_price18 (rs_oracle s) > 0 then Inr (DStop True False)
      else case at_market p s of Inl e \<Rightarrow> Inl e | Inr (Some stop) \<Rightarrow> Inr stop | Inr None \<Rightarrow> Inr (decide_live d p s (ref_tick s)))"

lemma decide_once_live: "ov_status (rs_oracle s) = OsLive \<Longrightarrow> decideRestock d p s = decide_once d p s"
  by (subst decideRestock.simps) (simp add: decide_once_def split: sum.split option.split)

lemma decideRestock_code [code]:
  "decideRestock d p s =
     (if ov_status (rs_oracle s) = OsLive \<or> \<not> pv_initialized (rs_pool s) \<or> \<not> ov_price18 (rs_oracle s) > 0 then decide_once d p s
      else case at_market p s of Inl e \<Rightarrow> Inl e
      | Inr (Some stop) \<Rightarrow> Inr stop
      | Inr None \<Rightarrow>
         let closed = (rk_market p = None \<and> rs_now s - ov_sourceUpdatedAt (rs_oracle s) > rk_maxSourceAgeSec p);
             frozen = (rk_market p \<noteq> None \<and> ov_status (rs_oracle s) = OsStale \<and> \<not> relay_old s) in
         if ov_status (rs_oracle s) \<noteq> OsStale \<or> closed \<or> frozen then Inr (DStop (\<not> closed) False)
         else case decide_once d p (as_live d s) of Inl e \<Rightarrow> Inl e
         | Inr (DHold _) \<Rightarrow> Inr (DHold False)
         | Inr (DStop _ _) \<Rightarrow> Inr (DHold False)
         | Inr _ \<Rightarrow> Inr DDemandPush)"
proof (cases "ov_status (rs_oracle s) = OsLive \<or> \<not> pv_initialized (rs_pool s) \<or> \<not> ov_price18 (rs_oracle s) > 0")
  case True
  then show ?thesis using decide_once_live [of s d p] by (auto simp: decideRestock.simps [of d p s] decide_once_def)
next
  case False
  have eq: "decideRestock d p (as_live d s) = decide_once d p (as_live d s)" by (rule decide_once_live) (simp add: as_live_def)
  from False show ?thesis by (subst decideRestock.simps, subst eq) simp
qed

end
