(* ===== verification/Restock_Keeper.thy ===== *)
theory Restock_Keeper
  imports Restock_Decide Keeper_Base Journal_Codec
begin

section \<open>The restock keeper (\<open>restock/keeper.mjs\<close>)\<close>

text \<open>
  One evaluation: read, decide, at most one vault call. A quote is the tuple the vault is shown, its \<open>signature\<close> being the
  encoding of the same tuple. What \<open>restockOrderId\<close> finds in a receipt's logs is a parameter, and so are the reads, the
  random nonce and the answer of \<open>requestPush\<close> (\<open>lib/price-demand.mjs\<close>, theory \<open>Price_Demand\<close>), whose request is a report here.
\<close>

subsection \<open>State and world\<close>

record price_quote =
  pq_refTick :: int
  pq_maxDeviation :: int
  pq_deadline :: int
  pq_nonce :: int

text \<open>\<open>rebalanceRange\<close>, \<open>pushPrice\<close>, \<open>restockMint\<close> (USDC, minimum shares, fee reserve) and \<open>restockRedeem\<close> (shares, minimum USDC).\<close>

datatype rcall = CRange int int price_quote | CPush side price_quote int | CMint int int int price_quote | CRedeem int int price_quote

datatype progress = Started | Ended send_status

datatype rrec = PendingOrder pending_order | LastAction int string progress | MarketClosed "int option"

datatype rreport = RDecided decision | RFinal int int | RAlert string | RDemand string | RClear | RResult string send_status

type_synonym rh = "rcall history"

record renv =
  rn_p :: restock_params
  rn_fp :: doubles
  rn_execute :: bool
  rn_ms :: "rh \<Rightarrow> int"
  rn_now :: "rh \<Rightarrow> int"
  rn_nonce :: "rh \<Rightarrow> int"
  rn_pool :: "rh \<Rightarrow> pool_view result"
  rn_oracle :: "rh \<Rightarrow> oracle_view result"
  rn_signerTick :: "rh \<Rightarrow> int result"
  rn_order :: "int \<Rightarrow> rh \<Rightarrow> int result"
  rn_orderId :: "send_result \<Rightarrow> int option"
  rn_requestPush :: "rh \<Rightarrow> string result"

type_synonym rjournal = "rrec journal"
type_synonym rkstate = "(rrec, rcall, rreport) kst"
type_synonym 'a rop = "(rkstate, 'a) op"

definition r_put :: "renv \<Rightarrow> string \<Rightarrow> (rrec option \<Rightarrow> rrec) \<Rightarrow> unit rop" where
  "r_put v i f = put_rec (rn_ms v) ''restock'' i f"

definition pending_of :: "rjournal \<Rightarrow> pending_order option" where
  "pending_of j = (case record_of j (''restock'', ''pending'') of Some (PendingOrder o1) \<Rightarrow> Some o1 | _ \<Rightarrow> None)"

definition last_at :: "rjournal \<Rightarrow> int" where
  "last_at j = (case record_of j (''restock'', ''last'') of Some (LastAction n _ _) \<Rightarrow> n | _ \<Rightarrow> 0)"

definition closed_since :: "rjournal \<Rightarrow> int option" where
  "closed_since j = (case record_of j (''restock'', ''marketClosed'') of Some (MarketClosed n) \<Rightarrow> n | _ \<Rightarrow> None)"

definition FINAL :: "int list" where
  "FINAL = [2, 3, 4]"

subsection \<open>The order in flight (\<open>refreshPending\<close>)\<close>

definition overdue :: "renv \<Rightarrow> int \<Rightarrow> pending_order \<Rightarrow> pending_order option rop" where
  "overdue v now o1 = thenk (if now - po_at o1 > rk_pendingTimeoutSec (rn_p v) then emit (RAlert ''restock-pending'') else ret ()) (ret (Some o1))"

definition refreshPending :: "renv \<Rightarrow> int \<Rightarrow> pending_order option rop" where
  "refreshPending v now =
     bindk (getj pending_of) (\<lambda>r. case r of None \<Rightarrow> ret None
     | Some o1 \<Rightarrow> (case po_id o1 of None \<Rightarrow> overdue v now o1
        | Some i \<Rightarrow> bindk (rd (rn_order v i)) (\<lambda>s.
            if s \<in> set FINAL then thenk (modj (clearRecord ''restock'' ''pending'')) (thenk (emit (RFinal i s)) (ret None))
            else overdue v now o1)))"

subsection \<open>Sending\<close>

fun action_name :: "decision \<Rightarrow> string" where
  "action_name (DHold _) = ''hold''"
| "action_name (DStop _ _) = ''stop''"
| "action_name DDemandPush = ''demandPush''"
| "action_name (DPush _ _) = ''pushPrice''"
| "action_name (DMint _) = ''restockMint''"
| "action_name (DRedeem _) = ''restockRedeem''"
| "action_name (DRange _ _) = ''rebalanceRange''"

definition tolerance :: "restock_params \<Rightarrow> decision \<Rightarrow> int" where
  "tolerance p d = (case d of DRange _ _ \<Rightarrow> rk_rangeGapTicks p | _ \<Rightarrow> rk_quoteDeviationTicks p)"

fun call_of :: "doubles \<Rightarrow> restock_params \<Rightarrow> price_quote \<Rightarrow> decision \<Rightarrow> rcall option" where
  "call_of fp p q (DRange l u) = Some (CRange l u q)"
| "call_of fp p q (DPush s n) = Some (CPush s q n)"
| "call_of fp p q (DMint n) = Some (CMint n (minSharesFor fp n (pq_refTick q) (pq_maxDeviation q)) (rk_feeReserve18 p) q)"
| "call_of fp p q (DRedeem n) = Some (CRedeem n (minUsdcFor fp n (pq_refTick q) (pq_maxDeviation q)) q)"
| "call_of fp p q _ = None"

definition send_restock :: "renv \<Rightarrow> rcall caller \<Rightarrow> decision \<Rightarrow> int \<Rightarrow> send_result rop" where
  "send_restock v net d now =
     bindk (rd (rn_signerTick v)) (\<lambda>tick.
     bindk (rd (\<lambda>h. Inr (rn_nonce v h))) (\<lambda>nonce.
     let q = \<lparr>pq_refTick = tick, pq_maxDeviation = tolerance (rn_p v) d, pq_deadline = now + 300, pq_nonce = nonce\<rparr> in
     case call_of (rn_fp v) (rn_p v) q d of None \<Rightarrow> throw (''unknown action '' @ action_name d)
     | Some c \<Rightarrow> call net (''restock:'' @ action_name d @ '':'' @ show_int nonce) c))"

definition is_order :: "decision \<Rightarrow> bool" where
  "is_order d = (case d of DMint _ \<Rightarrow> True | DRedeem _ \<Rightarrow> True | _ \<Rightarrow> False)"

text \<open>The intent first, then the call, then what came of it.\<close>

definition act :: "renv \<Rightarrow> rcall caller \<Rightarrow> decision \<Rightarrow> int \<Rightarrow> unit rop" where
  "act v net d now =
     thenk (r_put v ''last'' (\<lambda>_. LastAction now (action_name d) Started))
    (bindk (send_restock v net d now) (\<lambda>res.
     thenk (r_put v ''last'' (\<lambda>r. case r of Some (LastAction n a _) \<Rightarrow> LastAction n a (Ended (sr_status res)) | _ \<Rightarrow> LastAction now (action_name d) (Ended (sr_status res))))
    (thenk (if sent_ok res \<and> is_order d
            then r_put v ''pending'' (\<lambda>_. PendingOrder \<lparr>po_id = rn_orderId v res, po_mint = (action_name d = ''restockMint''), po_at = now\<rparr>) else ret ())
    (thenk (emit (RResult (action_name d) (sr_status res)))
      (if \<not> sent_ok res \<and> sr_status res \<noteq> StDryRun then emit (RAlert (''restock-'' @ action_name d)) else ret ())))))"

definition rehearse :: "renv \<Rightarrow> rcall caller \<Rightarrow> decision \<Rightarrow> int \<Rightarrow> unit rop" where
  "rehearse v net d now = bindk (send_restock v net d now) (\<lambda>res. emit (RResult (action_name d) (sr_status res)))"

definition writeDemand :: "renv \<Rightarrow> unit rop" where
  "writeDemand v = (if \<not> rn_execute v then emit (RDemand ''dry-run'') else bindk (rd (rn_requestPush v)) (\<lambda>s. emit (RDemand s)))"

text \<open>A market close is announced once per closed episode.\<close>

definition market_closed :: "decision \<Rightarrow> bool" where
  "market_closed d = (case d of DStop _ c \<Rightarrow> c | _ \<Rightarrow> False)"

definition announce_close :: "renv \<Rightarrow> decision \<Rightarrow> int \<Rightarrow> unit rop" where
  "announce_close v d now =
     bindk (getj closed_since) (\<lambda>since.
     let said = (since \<noteq> None \<and> since \<noteq> Some 0) in
     if market_closed d \<and> \<not> said then
       thenk (if rn_execute v then r_put v ''marketClosed'' (\<lambda>_. MarketClosed (Some now)) else ret ()) (emit (RAlert ''restock-market-closed''))
     else if \<not> market_closed d \<and> said \<and> rn_execute v then r_put v ''marketClosed'' (\<lambda>_. MarketClosed None)
     else ret ())"

definition carry_out :: "renv \<Rightarrow> rcall caller \<Rightarrow> decision \<Rightarrow> int \<Rightarrow> unit rop" where
  "carry_out v net d now = (case d of
     DHold alert \<Rightarrow> if alert then emit (RAlert ''restock-hold'') else ret ()
   | DStop alert _ \<Rightarrow> if alert then emit (RAlert ''restock-stop'') else ret ()
   | DDemandPush \<Rightarrow> writeDemand v
   | _ \<Rightarrow> if rn_execute v then act v net d now else rehearse v net d now)"

definition restock_tick :: "renv \<Rightarrow> rcall caller \<Rightarrow> unit rop" where
  "restock_tick v net =
     bindk (rd (\<lambda>h. Inr (rn_now v h))) (\<lambda>now.
     bindk (refreshPending v now) (\<lambda>pending.
     bindk (rd (rn_pool v)) (\<lambda>pool.
     bindk (rd (rn_oracle v)) (\<lambda>oracle.
     bindk (getj last_at) (\<lambda>lastAt.
     case decideRestock (rn_fp v) (rn_p v) \<lparr>rs_pool = pool, rs_oracle = oracle, rs_pending = pending, rs_now = now, rs_lastActionAt = lastAt\<rparr> of
       Inl e \<Rightarrow> throw e
     | Inr d \<Rightarrow>
        thenk (if ov_status oracle = OsLive \<and> rn_execute v then emit RClear else ret ())
       (thenk (emit (RDecided d))
       (thenk (announce_close v d now)
         (carry_out v net d now))))))))"

end
