(* ===== verification/Restock_Safety.thy ===== *)
theory Restock_Safety
  imports Restock_Keeper
begin

section \<open>What the restock keeper asks for\<close>

subsection \<open>Decisions that trade\<close>

definition tradable :: "restock_params \<Rightarrow> restock_state \<Rightarrow> bool" where
  "tradable p s \<longleftrightarrow> pv_initialized (rs_pool s) \<and> 0 < ov_price18 (rs_oracle s) \<and> ov_status (rs_oracle s) = OsLive
     \<and> (\<forall>mp. rk_market p = Some mp \<longrightarrow> (\<exists>g. marketGate (rs_now s) (Some (ov_sourceUpdatedAt (rs_oracle s))) mp = Inr g \<and> mg_ok g))
     \<and> (rs_lastActionAt s = 0 \<or> rk_cooldownSec p \<le> rs_now s - rs_lastActionAt s)"

fun affordable :: "restock_params \<Rightarrow> restock_state \<Rightarrow> decision \<Rightarrow> bool" where
  "affordable p s (DPush StockSide n) = (n \<le> pv_idleStock (rs_pool s) \<or> n = 1 \<and> pv_idleStock (rs_pool s) \<noteq> 0)"
| "affordable p s (DPush UsdcSide n) = (n \<le> pv_idleUsdc (rs_pool s) \<or> n = 1 \<and> pv_idleUsdc (rs_pool s) \<noteq> 0)"
| "affordable p s (DMint n) = (rs_pending s = None \<and> n \<le> dollars18 (rk_maxTradeUsd p))"
| "affordable p s (DRedeem n) = (rs_pending s = None \<and> n \<le> pv_idleStock (rs_pool s))"
| "affordable p s _ = True"

fun idle :: "decision \<Rightarrow> bool" where
  "idle (DHold _) = True"
| "idle (DStop _ _) = True"
| "idle DDemandPush = True"
| "idle _ = False"

lemma dollars_mono: "x \<le> y \<Longrightarrow> dollars18 x \<le> dollars18 y"
  unfolding dollars18_def by (intro mult_right_mono floor_mono) (simp_all add: E18_def)

lemma affordable_moves: "affordable p s (pushStock p s)" "affordable p s (pushUsdc p s)" "affordable p s (set_range d p s ref)"
  by (simp_all add: pushStock_def pushUsdc_def set_range_def capRaw_def split: prod.split)

lemma affordable_mint: "rs_pending s = None \<Longrightarrow> x \<le> rk_maxTradeUsd p \<Longrightarrow> affordable p s (DMint (dollars18 x))"
  by (simp add: dollars_mono)

lemma affordable_if: "(b \<Longrightarrow> affordable p s x) \<Longrightarrow> (\<not> b \<Longrightarrow> affordable p s y) \<Longrightarrow> affordable p s (if b then x else y)"
  by simp

lemma affordable_rest: "affordable p s (DHold a)" "n = 1 \<Longrightarrow> (if z = UsdcSide then pv_idleUsdc (rs_pool s) else pv_idleStock (rs_pool s)) \<noteq> 0 \<Longrightarrow> affordable p s (DPush z n)"
  by (simp, cases z) simp_all

lemma affordable_empty: "affordable p s (decide_empty d p s ref a b)"
  unfolding decide_empty_def Let_def
  by (intro affordable_if affordable_moves affordable_rest affordable_mint refl) (simp_all add: min_le_iff_disj)

lemma affordable_anchor: "affordable p s (decide_anchor d p s dev a b)"
  unfolding decide_anchor_def Let_def
  by (intro affordable_if affordable_moves affordable_rest affordable_mint) simp_all

lemma affordable_edge: "affordable p s (decide_edge d p s ref a b)"
  unfolding decide_edge_def Let_def by (simp add: affordable_moves)

lemma affordable_inside: "affordable p s (decide_inside d p s a b)"
  unfolding decide_inside_def Let_def by (simp add: capRaw_def min_le_iff_disj)

lemma decide_live_affordable: "affordable p s (decide_live d p s ref)"
  unfolding decide_live_def Let_def by (simp add: affordable_empty affordable_anchor affordable_edge affordable_inside)

lemma decide_live_cooled: "\<not> idle (decide_live d p s ref) \<Longrightarrow> rs_lastActionAt s = 0 \<or> rk_cooldownSec p \<le> rs_now s - rs_lastActionAt s"
  by (auto simp: decide_live_def Let_def split: if_splits)

lemma market_idle: "at_market p s = Inr (Some x) \<Longrightarrow> idle x"
  by (auto simp: at_market_def split: option.splits sum.splits if_splits)

lemma decided_trade:
  assumes "decideRestock d p s = Inr dec" "\<not> idle dec"
  shows "tradable p s" "affordable p s dec" "dec = decide_live d p s (ref_tick s)"
proof -
  have l: "at_market p s = Inr None" "pv_initialized (rs_pool s)" "0 < ov_price18 (rs_oracle s)" "ov_status (rs_oracle s) = OsLive" "dec = decide_live d p s (ref_tick s)"
    using assms by (auto simp: decideRestock.simps [of d p s] Let_def split: if_splits sum.splits option.splits decision.splits dest: market_idle)
  have "\<not> relay_old s" using l(4) by (simp add: relay_old_def)
  then have "\<exists>g. marketGate (rs_now s) (Some (ov_sourceUpdatedAt (rs_oracle s))) mp = Inr g \<and> mg_ok g" if "rk_market p = Some mp" for mp
    using l(1) that by (auto simp: at_market_def split: sum.splits if_splits)
  then show "tradable p s" using l decide_live_cooled [of d p s "ref_tick s"] assms(2) by (auto simp: tradable_def)
  show "affordable p s dec" "dec = decide_live d p s (ref_tick s)" using l(5) decide_live_affordable by simp_all
qed


subsection \<open>Calls\<close>

text \<open>The call carries out a decision taken on what was read in \<open>h\<close>, under a quote at the tick the signer gave in \<open>h\<close>.\<close>

definition rcall_due :: "renv \<Rightarrow> rjournal \<Rightarrow> rh \<Rightarrow> rcall \<Rightarrow> bool" where
  "rcall_due v j h c \<longleftrightarrow> (\<exists>s d q. rn_pool v h = Inr (rs_pool s) \<and> rn_oracle v h = Inr (rs_oracle s) \<and> rs_now s = rn_now v h \<and> rs_lastActionAt s = last_at j
     \<and> tradable (rn_p v) s \<and> affordable (rn_p v) s d \<and> \<not> idle d \<and> call_of (rn_fp v) (rn_p v) q d = Some c
     \<and> rn_signerTick v h = Inr (pq_refTick q) \<and> pq_maxDeviation q = tolerance (rn_p v) d \<and> pq_deadline q = rn_now v h + 300 \<and> pq_nonce q = rn_nonce v h
     \<and> (is_order d \<longrightarrow> (case pending_of j of None \<Rightarrow> True | Some o1 \<Rightarrow> \<exists>i e. po_id o1 = Some i \<and> rn_order v i h = Inr e \<and> e \<in> set FINAL)))"

definition at_start :: "rh \<Rightarrow> int \<Rightarrow> rkstate \<Rightarrow> bool" where
  "at_start h n st \<longleftrightarrow> hist st = h \<and> last_at (kj st) = n"

lemma last_at_clear [simp]: "last_at (clearRecord ''restock'' ''pending'' j) = last_at j"
  by (simp add: last_at_def record_of_clear)

text \<open>An order is forgotten only when the hub calls it final.\<close>

lemma wp_refresh:
  assumes "\<And>o1 j os. last_at j = last_at (kj st) \<Longrightarrow> (o1 = None \<longrightarrow> (case pending_of (kj st) of None \<Rightarrow> True
        | Some p \<Rightarrow> \<exists>i e. po_id p = Some i \<and> rn_order v i (hist st) = Inr e \<and> e \<in> set FINAL)) \<Longrightarrow> Q o1 (st\<lparr>kj := j, outs := os\<rparr>)"
    and "E st"
  shows "wp (refreshPending v now) Q E st"
proof -
  have st: "st\<lparr>kj := kj st, outs := outs st\<rparr> = st" "st\<lparr>kj := kj st, outs := os\<rparr> = st\<lparr>outs := os\<rparr>" for os by simp_all
  have same: "Q o1 (st\<lparr>outs := os\<rparr>)" "Q o1 st" if "o1 = None \<longrightarrow> (case pending_of (kj st) of None \<Rightarrow> True
        | Some p \<Rightarrow> \<exists>i e. po_id p = Some i \<and> rn_order v i (hist st) = Inr e \<and> e \<in> set FINAL)" for o1 os
    using assms(1) [of "kj st" o1 os] assms(1) [of "kj st" o1 "outs st"] that by (simp_all add: st)
  show ?thesis unfolding refreshPending_def overdue_def
    by (intro wps) (auto intro!: same assms)
qed


definition one_due :: "renv \<Rightarrow> rjournal \<Rightarrow> rh \<Rightarrow> rkstate \<Rightarrow> bool" where
  "one_due v j h st \<longleftrightarrow> hist st = h \<or> (\<exists>k c. hist st = h @ [(k, c)] \<and> rcall_due v j h c)"

lemma one_due_simps [simp]:
  "one_due v j h (st\<lparr>outs := os\<rparr>) = one_due v j h st" "one_due v j h (st\<lparr>kj := x\<rparr>) = one_due v j h st"
  "one_due v j h (st\<lparr>kj := x, outs := os\<rparr>) = one_due v j h st" "one_due v j h (st\<lparr>kj := x, hist := y\<rparr>) = one_due v j h (st\<lparr>hist := y\<rparr>)"
  by (simp_all add: one_due_def)

lemma one_due_keeps [keeping]: "keeps (one_due v j h) (emit x)" "keeps (one_due v j h) (r_put v' i f)"
  by (simp_all add: keeps_def one_due_def r_put_def)

lemma due_restock_send:
  assumes "hist st = h" and "\<And>q c. call_of (rn_fp v) (rn_p v) q d = Some c \<Longrightarrow> rn_signerTick v h = Inr (pq_refTick q) \<Longrightarrow> pq_maxDeviation q = tolerance (rn_p v) d \<Longrightarrow>
      pq_deadline q = now + 300 \<Longrightarrow> pq_nonce q = rn_nonce v h \<Longrightarrow> rcall_due v j h c"
  shows "wp (send_restock v net d now) (\<lambda>_. one_due v j h) (one_due v j h) st"
  unfolding send_restock_def
  by (intro wps) (use assms in \<open>auto simp: one_due_def\<close>)

lemma due_carry:
  assumes "hist st = h" and "\<And>q c. \<not> idle d \<Longrightarrow> call_of (rn_fp v) (rn_p v) q d = Some c \<Longrightarrow> rn_signerTick v h = Inr (pq_refTick q) \<Longrightarrow> pq_maxDeviation q = tolerance (rn_p v) d \<Longrightarrow>
      pq_deadline q = now + 300 \<Longrightarrow> pq_nonce q = rn_nonce v h \<Longrightarrow> rcall_due v j h c"
  shows "wp (carry_out v net d now) (\<lambda>_. one_due v j h) (one_due v j h) st"
proof -
  have start: "one_due v j h st" using assms(1) by (simp add: one_due_def)
  have fin: "keeps (one_due v j h) (thenk (r_put v i1 f1) (thenk (if b1 then r_put v i2 f2 else ret ()) (thenk (emit x) (if b2 then emit y else ret ()))))" for i1 f1 b1 i2 f2 x b2 y
    by (intro keeping)
  have trade: "wp (if rn_execute v then act v net d now else rehearse v net d now) (\<lambda>_. one_due v j h) (one_due v j h) st" if "\<not> idle d"
    unfolding act_def rehearse_def r_put_def
    by (intro wps wp_cons [OF due_restock_send] wp_of_keeps [OF fin [unfolded r_put_def]]) (use assms(1) assms(2) [OF that] in auto)
  show ?thesis
    unfolding carry_out_def writeDemand_def
    by (cases d) (use trade start in \<open>auto intro!: wps\<close>)
qed

lemma is_order_pending: "affordable p s d \<Longrightarrow> is_order d \<Longrightarrow> rs_pending s = None"
  by (cases d) (auto simp: is_order_def)

lemma decided_due:
  assumes "decideRestock (rn_fp v) (rn_p v) s = Inr d" "\<not> idle d" "call_of (rn_fp v) (rn_p v) q d = Some c"
    and "rn_pool v h = Inr (rs_pool s)" "rn_oracle v h = Inr (rs_oracle s)" "rs_now s = rn_now v h" "rs_lastActionAt s = last_at j"
    and "rn_signerTick v h = Inr (pq_refTick q)" "pq_maxDeviation q = tolerance (rn_p v) d" "pq_deadline q = rn_now v h + 300" "pq_nonce q = rn_nonce v h"
    and "rs_pending s = None \<longrightarrow> (case pending_of j of None \<Rightarrow> True | Some p \<Rightarrow> \<exists>i e. po_id p = Some i \<and> rn_order v i h = Inr e \<and> e \<in> set FINAL)"
  shows "rcall_due v j h c"
  unfolding rcall_due_def
proof (intro exI conjI)
  show "is_order d \<longrightarrow> (case pending_of j of None \<Rightarrow> True | Some p \<Rightarrow> \<exists>i e. po_id p = Some i \<and> rn_order v i h = Inr e \<and> e \<in> set FINAL)"
    using assms(12) is_order_pending [OF decided_trade(2) [OF assms(1,2)]] by (intro impI) simp
qed (use assms decided_trade [OF assms(1,2)] in simp_all)

lemma due_decided:
  assumes "hist st = h" "decideRestock (rn_fp v) (rn_p v) \<lparr>rs_pool = pool, rs_oracle = oracle, rs_pending = o1, rs_now = t, rs_lastActionAt = n\<rparr> = Inr d"
    and "t = rn_now v h" "rn_pool v h = Inr pool" "rn_oracle v h = Inr oracle" "n = last_at j"
    and "o1 = None \<longrightarrow> (case pending_of j of None \<Rightarrow> True | Some p \<Rightarrow> \<exists>i e. po_id p = Some i \<and> rn_order v i h = Inr e \<and> e \<in> set FINAL)"
  shows "wp (carry_out v net d t) (\<lambda>_. one_due v j h) (one_due v j h) st"
  by (rule due_carry [OF assms(1)], rule decided_due [OF assms(2)]) (use assms(3-) in simp_all)

lemma due_restock:
  assumes "hist st = h"
  shows "wp (restock_tick v net) (\<lambda>_. one_due v (kj st) h) (one_due v (kj st) h) st"
proof -
  have announce: "wp (announce_close v d now) (\<lambda>_ s. hist s = h) (one_due v (kj st) h) st1" if "hist st1 = h" for d now st1
    unfolding announce_close_def r_put_def by (intro wps) (simp_all add: that)
  show ?thesis
    unfolding restock_tick_def
    apply (intro wps wp_refresh)
    subgoal for now o1 j os pool orc e by (simp add: one_due_def assms)
    subgoal for now o1 j os pool orc d
      using assms by (intro wps wp_cons [OF announce]) (auto intro: due_decided)
    subgoal for now o1 j os pool orc d
      using assms by (intro wps wp_cons [OF announce]) (auto intro: due_decided)
    by (simp_all add: one_due_def assms)
qed



subsection \<open>What the journal does not remember\<close>

text \<open>An order whose transaction was not confirmed within the call (it may still be in flight) leaves no pending order behind, so
  nothing but the cooldown keeps the next tick from ordering again, under a new random key. In the witness two ticks two
  minutes apart each ask for the same mint while the first one is in flight.\<close>

theorem unconfirmed_order_forgotten:
  assumes "pending_of (kj st) = None" and "\<forall>h k c ts res ts1. net h k c ts = (Inr res, ts1) \<longrightarrow> \<not> sent_ok res"
  shows "pending_of (kj (snd (restock_tick v net st))) = None"
proof -
  let ?I = "\<lambda>st :: rkstate. pending_of (kj st) = None"
  have prims: "keeps ?I (emit x)" "i \<noteq> ''pending'' \<Longrightarrow> keeps ?I (r_put v i f)" "keeps ?I (modj (clearRecord ''restock'' ''pending''))" for x i f
    by (simp_all add: keeps_def pending_of_def emit_def r_put_def modj_def record_of_clear)
  have "keeps ?I (act v net d now)" for d now
  proof (rule wp_keeps)
    fix st assume "?I st"
    then show "wp (act v net d now) (\<lambda>_. ?I) ?I st"
      unfolding act_def send_restock_def r_put_def
      by (intro wps) (use assms(2) in \<open>auto simp: pending_of_def record_of_setRecord\<close>)
  qed
  moreover have "keeps ?I (call net k c)" for k c
    by (simp add: keeps_def pending_of_def)
  ultimately have "keeps ?I (restock_tick v net)"
    unfolding restock_tick_def refreshPending_def overdue_def announce_close_def carry_out_def writeDemand_def rehearse_def send_restock_def
    by (intro keeping prims, simp_all split: decision.split) (auto intro!: keeping prims)
  then show ?thesis using assms(1) by (simp add: keeps_def)
qed


text \<open>A Live oracle whose tick could not be read (the reader catches the failure and passes \<open>null\<close>) is decided like one at tick 0,
  a price of one NVDA.sol per dollar. In the witness a pool that stands exactly at the oracle price, where the keeper holds,
  is restocked for 998 dollars when the tick is lost.\<close>

theorem lost_tick_is_zero:
  assumes "ov_refTick (rs_oracle s) = None"
  shows "decideRestock d p s = decideRestock d p (s\<lparr>rs_oracle := (rs_oracle s)\<lparr>ov_refTick := Some 0\<rparr>\<rparr>)" (is "_ = decideRestock d p ?s")
proof -
  have live: "as_live d ?s = as_live d s" and gates: "relay_old ?s = relay_old s" "ref_tick ?s = ref_tick s"
    using assms by (simp_all add: as_live_def relay_old_def ref_tick_def orelse_def Let_def split: option.split)
  have market: "at_market p ?s = at_market p s" unfolding at_market_def gates by (simp split: option.split)
  have trade: "decide_live d p ?s ref = decide_live d p s ref" for ref
    by (simp add: decide_live_def decide_empty_def decide_anchor_def decide_edge_def decide_inside_def set_range_def pushStock_def pushUsdc_def near_edge_def Let_def)
  show ?thesis unfolding decideRestock.simps [of d p s] decideRestock.simps [of d p ?s] live gates market trade
    by (simp split: sum.split option.split)
qed

subsection \<open>A worked pool\<close>

text \<open>The double functions are linear stand-ins. The pool stands at tick -500, with 1000 dollars of idle USDC and no idle stock.\<close>

definition demo_fp :: doubles where
  "demo_fp = \<lparr>fp_round = (\<lambda>x. x), fp_ln = (\<lambda>x. x - 1), fp_pow = (\<lambda>_ x. 1 + x / 10000)\<rparr>"

definition demo_pool :: pool_view where
  "demo_pool = \<lparr>pv_initialized = True, pv_poolTick = -500, pv_liquidity = 1, pv_tickLower = -700, pv_tickUpper = -300, pv_tickSpacing = 200, pv_idleUsdc = 1000 * 10 ^ 18, pv_idleStock = 0\<rparr>"

definition demo_oracle :: "int option \<Rightarrow> oracle_view" where
  "demo_oracle t = \<lparr>ov_status = OsLive, ov_refTick = t, ov_price18 = 200 * 10 ^ 18, ov_sourceUpdatedAt = 0, ov_observedAt = 0, ov_maxAge = None\<rparr>"

definition demo_rstate :: "int option \<Rightarrow> restock_state" where
  "demo_rstate t = \<lparr>rs_pool = demo_pool, rs_oracle = demo_oracle t, rs_pending = None, rs_now = 1000, rs_lastActionAt = 0\<rparr>"

definition demo_rparams :: restock_params where
  "demo_rparams = DEFAULTS\<lparr>rk_market := None\<rparr>"

theorem lost_tick_is_zero_witness:
  "decideRestock demo_fp demo_rparams (demo_rstate None) = decideRestock demo_fp demo_rparams (demo_rstate (Some 0))
   \<and> decideRestock demo_fp demo_rparams (demo_rstate None) = Inr (DMint (998 * 10 ^ 18))
   \<and> decideRestock demo_fp demo_rparams (demo_rstate (Some (-500))) = Inr (DHold False)"
proof (intro conjI)
  have "(demo_rstate None)\<lparr>rs_oracle := (rs_oracle (demo_rstate None))\<lparr>ov_refTick := Some 0\<rparr>\<rparr> = demo_rstate (Some 0)"
    by (simp add: demo_rstate_def demo_oracle_def)
  with lost_tick_is_zero [of "demo_rstate None" demo_fp demo_rparams]
  show "decideRestock demo_fp demo_rparams (demo_rstate None) = decideRestock demo_fp demo_rparams (demo_rstate (Some 0))"
    by (simp add: demo_rstate_def demo_oracle_def)
qed (code_simp, code_simp)

definition demo_renv :: "int \<Rightarrow> int \<Rightarrow> renv" where
  "demo_renv now nonce = \<lparr>rn_p = demo_rparams, rn_fp = demo_fp, rn_execute = True, rn_ms = (\<lambda>_. 0), rn_now = (\<lambda>_. now), rn_nonce = (\<lambda>_. nonce),
     rn_pool = (\<lambda>_. Inr demo_pool), rn_oracle = (\<lambda>_. Inr (demo_oracle (Some 0))), rn_signerTick = (\<lambda>_. Inr 0), rn_order = (\<lambda>_ _. Inr 0), rn_orderId = (\<lambda>_. None), rn_requestPush = (\<lambda>_. Inr '''')\<rparr>"

definition demo_rst :: rkstate where
  "demo_rst = \<lparr>kj = open_journal None, hist = [], outs = []\<rparr>"

definition demo_restock :: "int \<Rightarrow> int \<Rightarrow> rkstate \<Rightarrow> rkstate" where
  "demo_restock now nonce st = snd (restock_tick (demo_renv now nonce) (\<lambda>_ _ _ ts. (Inr (result_of StInflight), ts)) st)"

definition demo_pq :: "int \<Rightarrow> int \<Rightarrow> price_quote" where
  "demo_pq until nonce = \<lparr>pq_refTick = 0, pq_maxDeviation = 60, pq_deadline = until, pq_nonce = nonce\<rparr>"

definition demo_mint :: "price_quote \<Rightarrow> rcall" where
  "demo_mint q = CMint 998000000000000000000 989631520500000000000 2000000000000000000 q"



text \<open>The state after the first tick.\<close>

definition demo_rst2 :: rkstate where
  "demo_rst2 = (let m = \<lparr>tasks = [], records = [(''restock'', [(''last'', 0, LastAction 1000 ''restockMint'' (Ended StInflight))])]\<rparr> in
     \<lparr>kj = \<lparr>mem = m, disk = m, events = [EvRecord ''restock'' ''last'', EvRecord ''restock'' ''last'']\<rparr>,
      hist = [(''restock:restockMint:7'', demo_mint (demo_pq 1300 7))],
      outs = [RClear, RDecided (DMint 998000000000000000000), RResult ''restockMint'' StInflight, RAlert ''restock-restockMint'']\<rparr>)"

lemma demo_first_tick: "demo_restock 1000 7 demo_rst = demo_rst2"
  by code_simp

theorem unconfirmed_order_forgotten_witness:
  "pending_of (kj (demo_restock 1000 7 demo_rst)) = None
   \<and> map snd (hist (demo_restock 1120 8 (demo_restock 1000 7 demo_rst))) = [demo_mint (demo_pq 1300 7), demo_mint (demo_pq 1420 8)]"
proof (intro conjI)
  show "pending_of (kj (demo_restock 1000 7 demo_rst)) = None" unfolding demo_restock_def
    by (rule unconfirmed_order_forgotten)
      (simp_all add: demo_rst_def pending_of_def record_of_def ns_of_def open_journal_def Let_def result_of_def sent_ok_def)
  show "map snd (hist (demo_restock 1120 8 (demo_restock 1000 7 demo_rst))) = [demo_mint (demo_pq 1300 7), demo_mint (demo_pq 1420 8)]"
    unfolding demo_first_tick by code_simp
qed

end
