(* ===== verification/Restock_Gate.thy ===== *)
theory Restock_Gate
  imports Complex_Main Keeper_Prelude
begin

section \<open>The opening gate (\<open>restock/gate.mjs\<close>)\<close>

text \<open>
  An event of the dry run is its time, type, alert flag and status, what \<open>evaluateGate\<close> reads of a journal line. \<open>None\<close> is
  an infinite gap. The dollar amounts are small enough for their products to be exact.
\<close>

record gate_params =
  ga_dryRunHours :: int
  ga_maxGapMinutes :: int
  ga_minBufferUsd :: "rat option"
  ga_reserveUsd :: rat
  ga_reserveAlertBps :: rat

definition GATE_DEFAULTS :: gate_params where
  "GATE_DEFAULTS = \<lparr>ga_dryRunHours = 24, ga_maxGapMinutes = 30, ga_minBufferUsd = None, ga_reserveUsd = 1000, ga_reserveAlertBps = 5000\<rparr>"

record dry_event =
  de_t :: int
  de_type :: string
  de_alert :: bool
  de_status :: "string option"

record gate_facts =
  gf_initialized :: bool
  gf_liquidity :: int
  gf_idleUsdc :: int
  gf_routerBound :: bool
  gf_approvedQuote :: bool
  gf_verifyPassed :: bool
  gf_events :: "dry_event list"

definition minBufferUsdOf :: "gate_params \<Rightarrow> rat" where
  "minBufferUsdOf p = orelse (ga_minBufferUsd p) (ga_reserveUsd p * ga_reserveAlertBps p / 10000)"

definition anomaly :: "dry_event \<Rightarrow> bool" where
  "anomaly e \<longleftrightarrow> de_type e = ''restock-decision'' \<and> de_alert e \<or> de_type e = ''restock-result'' \<and> de_status e \<noteq> Some ''dry-run''"

definition js_round :: "rat \<Rightarrow> int" where
  "js_round x = \<lfloor>x + 1 / 2\<rfloor>"

text \<open>The longest silence: the loop over the window and what is left of it at the end.\<close>

fun gap_loop :: "int \<Rightarrow> int \<Rightarrow> int \<Rightarrow> dry_event list \<Rightarrow> int" where
  "gap_loop nowMs prev g [] = max g (nowMs - prev)"
| "gap_loop nowMs prev g (e # es) = gap_loop nowMs (de_t e) (max g (de_t e - prev)) es"

definition restock_events :: "gate_facts \<Rightarrow> dry_event list" where
  "restock_events f = js_sort (\<lambda>a b. de_t a - de_t b) (filter (\<lambda>e. starts_with ''restock-'' (de_type e)) (gf_events f))"

definition maxGap :: "int \<Rightarrow> int \<Rightarrow> dry_event list \<Rightarrow> int option" where
  "maxGap nowMs since evs = (case evs of [] \<Rightarrow> None
     | e # _ \<Rightarrow> if de_t e > since then None else Some (gap_loop nowMs since 0 (filter (\<lambda>x. de_t x \<ge> since) evs)))"

definition gate_checks :: "gate_facts \<Rightarrow> int \<Rightarrow> gate_params \<Rightarrow> bool list" where
  "gate_checks f nowMs p =
     (let since = nowMs - ga_dryRunHours p * 3600000; evs = restock_events f; window = filter (\<lambda>e. de_t e \<ge> since) evs in
      [gf_approvedQuote f, gf_initialized f, gf_liquidity f > 0,
       gf_idleUsdc f * 100 \<ge> js_round (minBufferUsdOf p * 100) * 10 ^ 18,
       gf_routerBound f, gf_verifyPassed f,
       (case maxGap nowMs since evs of None \<Rightarrow> False | Some g \<Rightarrow> g \<le> ga_maxGapMinutes p * 60000),
       filter anomaly window = []])"

text \<open>\<open>evaluateGate(...).open\<close>.\<close>

definition gate_open :: "gate_facts \<Rightarrow> int \<Rightarrow> gate_params \<Rightarrow> bool" where
  "gate_open f nowMs p = list_all id (gate_checks f nowMs p)"

subsection \<open>What an open gate means\<close>

lemma gap_loop_ge: "g \<le> gap_loop nowMs prev g es"
proof (induction es arbitrary: prev g)
  case (Cons e es)
  show ?case using Cons.IH [of "max g (de_t e - prev)" "de_t e"] by simp
qed simp

lemma gap_covered:
  assumes "gap_loop nowMs prev g es \<le> G" "prev \<le> t" "t + G < nowMs"
  shows "\<exists>e\<in>set es. t \<le> de_t e \<and> de_t e \<le> t + G"
  using assms
proof (induction es arbitrary: prev g)
  case (Cons e es)
  show ?case
  proof (cases "t \<le> de_t e")
    case True
    have "de_t e - prev \<le> G" using gap_loop_ge [of "max g (de_t e - prev)" nowMs "de_t e" es] Cons.prems(1) by simp
    with True Cons.prems show ?thesis by auto
  next
    case False
    then show ?thesis using Cons.IH [of "de_t e" "max g (de_t e - prev)"] Cons.prems by auto
  qed
qed simp

text \<open>An open gate has watched the whole dry run: counting from its start, within every half hour (the allowed gap) that has fully
  passed the keeper evaluated at least once, and no evaluation in the window raised an alert or failed its simulation; the
  pool is initialized with a range and holds the idle buffer.\<close>

theorem gate_open_watched:
  assumes "gate_open f nowMs p" "nowMs - ga_dryRunHours p * 3600000 \<le> t" "t + ga_maxGapMinutes p * 60000 < nowMs"
  shows "(\<exists>e\<in>set (gf_events f). starts_with ''restock-'' (de_type e) \<and> t \<le> de_t e \<and> de_t e \<le> t + ga_maxGapMinutes p * 60000)
     \<and> (\<forall>e\<in>set (gf_events f). starts_with ''restock-'' (de_type e) \<and> nowMs - ga_dryRunHours p * 3600000 \<le> de_t e \<longrightarrow> \<not> anomaly e)
     \<and> gf_initialized f \<and> 0 < gf_liquidity f \<and> js_round (minBufferUsdOf p * 100) * 10 ^ 18 \<le> gf_idleUsdc f * 100"
proof -
  let ?since = "nowMs - ga_dryRunHours p * 3600000"
  obtain g where g: "maxGap nowMs ?since (restock_events f) = Some g" "g \<le> ga_maxGapMinutes p * 60000"
    using assms(1) by (auto simp: gate_open_def gate_checks_def Let_def split: option.splits)
  then have "gap_loop nowMs ?since 0 (filter (\<lambda>x. de_t x \<ge> ?since) (restock_events f)) \<le> ga_maxGapMinutes p * 60000"
    by (auto simp: maxGap_def split: list.splits if_splits)
  from gap_covered [OF this assms(2,3)]
  have "\<exists>e\<in>set (gf_events f). starts_with ''restock-'' (de_type e) \<and> t \<le> de_t e \<and> de_t e \<le> t + ga_maxGapMinutes p * 60000"
    by (auto simp: restock_events_def)
  moreover have "\<forall>e\<in>set (gf_events f). starts_with ''restock-'' (de_type e) \<and> ?since \<le> de_t e \<longrightarrow> \<not> anomaly e"
    using assms(1) by (auto simp: gate_open_def gate_checks_def Let_def restock_events_def filter_empty_conv)
  ultimately show ?thesis using assms(1) by (simp add: gate_open_def gate_checks_def Let_def)
qed

text \<open>Two hours of dry run with an evaluation every half hour.\<close>

definition demo_facts :: gate_facts where
  "demo_facts = \<lparr>gf_initialized = True, gf_liquidity = 1, gf_idleUsdc = 600 * 10 ^ 18, gf_routerBound = True, gf_approvedQuote = True, gf_verifyPassed = True,
     gf_events = map (\<lambda>t. \<lparr>de_t = t * 1800000, de_type = ''restock-decision'', de_alert = False, de_status = None\<rparr>) [0, 1, 2, 3, 4]\<rparr>"

theorem gate_open_watched_witness:
  "(\<exists>e\<in>set (gf_events demo_facts). 1000 \<le> de_t e \<and> de_t e \<le> 1801000) \<and> \<not> gate_open (demo_facts\<lparr>gf_events := tl (gf_events demo_facts)\<rparr>) 7200000 (GATE_DEFAULTS\<lparr>ga_dryRunHours := 2\<rparr>)"
proof (intro conjI)
  have op: "gate_open demo_facts 7200000 (GATE_DEFAULTS\<lparr>ga_dryRunHours := 2\<rparr>)" by code_simp
  show "\<exists>e\<in>set (gf_events demo_facts). 1000 \<le> de_t e \<and> de_t e \<le> 1801000"
    using gate_open_watched [OF op, of 1000] by (auto simp: GATE_DEFAULTS_def)
qed code_simp

end
