(* ===== verification/Fleet_Health.thy ===== *)
theory Fleet_Health
  imports Journal_Codec
begin

section \<open>Heartbeats and the fleet's health check (\<open>lib/runner.mjs\<close>, \<open>lib/heartbeat.mjs\<close>, \<open>lib/health.mjs\<close>)\<close>

text \<open>
  Times are milliseconds, as in the files. A number that is not one (\<open>NaN\<close>) is \<open>None\<close>: every comparison with it is false.
  The texts of the results are left out, except for what a result is about.
\<close>

subsection \<open>Levels\<close>

datatype level = OK | WARN | FAIL

instantiation level :: linorder
begin

fun rank :: "level \<Rightarrow> nat" where
  "rank OK = 0"
| "rank WARN = 1"
| "rank FAIL = 2"

definition less_eq_level :: "level \<Rightarrow> level \<Rightarrow> bool" where
  "less_eq_level a b \<longleftrightarrow> rank a \<le> rank b"

definition less_level :: "level \<Rightarrow> level \<Rightarrow> bool" where
  "less_level a b \<longleftrightarrow> rank a < rank b"

instance
proof
  fix x y z :: level
  show "x \<le> y \<Longrightarrow> y \<le> x \<Longrightarrow> x = y" by (cases x; cases y) (simp_all add: less_eq_level_def)
qed (auto simp: less_eq_level_def less_level_def)

end

lemma level_simps [simp]: "OK \<le> l" "l \<le> OK \<longleftrightarrow> l = OK" "l \<le> FAIL" "FAIL \<le> WARN \<longleftrightarrow> False"
  by (cases l; simp add: less_eq_level_def)+

definition worst :: "level list \<Rightarrow> level" where
  "worst ls = foldl max OK ls"

definition capLevel :: "level \<Rightarrow> level option \<Rightarrow> level" where
  "capLevel l cap = (case cap of None \<Rightarrow> l | Some c \<Rightarrow> min l c)"


subsection \<open>One iteration of a keeper's loop (\<open>runLoop\<close>) and its heartbeat\<close>

record heartbeat =
  hb_corrupt :: bool
  hb_at :: "int option"
  hb_ok :: "bool option"
  hb_failures :: "int option"

datatype tick_outcome = Ticked | LockedOut | Threw

text \<open>The state of the loop: consecutive failures, the file \<open>heartbeat/<name>.json\<close>, and whether the last iteration alerted.\<close>

record runner =
  rr_failures :: int
  rr_heartbeat :: "heartbeat option"
  rr_alerted :: bool

definition start_runner :: "heartbeat option \<Rightarrow> runner" where
  "start_runner file = \<lparr>rr_failures = 0, rr_heartbeat = file, rr_alerted = False\<rparr>"

definition written :: "int \<Rightarrow> bool \<Rightarrow> int \<Rightarrow> heartbeat" where
  "written now ok n = \<lparr>hb_corrupt = False, hb_at = Some now, hb_ok = Some ok, hb_failures = Some n\<rparr>"

definition run_step :: "int \<times> tick_outcome \<Rightarrow> runner \<Rightarrow> runner" where
  "run_step = (\<lambda>(now, x) r.
     if x = Threw then let n = rr_failures r + 1 in \<lparr>rr_failures = n, rr_heartbeat = Some (written now False n), rr_alerted = (n \<ge> 5)\<rparr>
     else \<lparr>rr_failures = 0, rr_heartbeat = Some (written now True 0), rr_alerted = False\<rparr>)"

definition run_loop :: "(int \<times> tick_outcome) list \<Rightarrow> runner \<Rightarrow> runner" where
  "run_loop xs r = foldl (\<lambda>r x. run_step x r) r xs"

subsection \<open>Reading it back\<close>

text \<open>A heartbeat file that does not parse is taken at its modification time; without one the log file's time stands in.\<close>

datatype hb_file = HbJson heartbeat | HbGarbled int

definition readHeartbeat :: "hb_file option \<Rightarrow> int option \<Rightarrow> heartbeat option" where
  "readHeartbeat file log = (case file of
     Some (HbJson h) \<Rightarrow> Some h
   | Some (HbGarbled m) \<Rightarrow> Some \<lparr>hb_corrupt = True, hb_at = Some m, hb_ok = None, hb_failures = None\<rparr>
   | None \<Rightarrow> map_option (\<lambda>m. \<lparr>hb_corrupt = False, hb_at = Some m, hb_ok = None, hb_failures = None\<rparr>) log)"

record hb_spec =
  hs_name :: string
  hs_warnSec :: int
  hs_failSec :: int
  hs_dry :: bool
  hs_failuresWarn :: "int option"
  hs_failuresFail :: "int option"
  hs_optional :: bool

record check_result =
  cr_check :: string
  cr_level :: level

definition age_level :: "hb_spec \<Rightarrow> int option \<Rightarrow> level" where
  "age_level s age = (case age of None \<Rightarrow> OK | Some a \<Rightarrow> if a > hs_failSec s then FAIL else if a > hs_warnSec s then WARN else OK)"

definition failure_level :: "hb_spec \<Rightarrow> heartbeat \<Rightarrow> level" where
  "failure_level s h =
     (if hb_ok h = Some False then
        let n = max 1 (case orelse (hb_failures h) 1 of n \<Rightarrow> if n = 0 then 1 else n) in
        if n \<ge> orelse (hs_failuresFail s) 5 then FAIL else if n \<ge> orelse (hs_failuresWarn s) 1 then WARN else OK
      else OK)"

definition evaluateHeartbeat :: "hb_spec \<Rightarrow> heartbeat option \<Rightarrow> int \<Rightarrow> check_result" where
  "evaluateHeartbeat s hb nowMs =
     \<lparr>cr_check = ''heartbeat '' @ hs_name s @ (if hs_dry s then '' (dry-run)'' else []),
      cr_level = (case hb of None \<Rightarrow> if hs_optional s then WARN else FAIL
        | Some h \<Rightarrow> worst [worst [age_level s (map_option (\<lambda>at. max 0 ((nowMs - at + 500) div 1000)) (hb_at h)), if hb_corrupt h then WARN else OK], failure_level s h])\<rparr>"

subsection \<open>Balances and floats\<close>

record gas_target =
  gt_label :: string
  gt_chain :: string
  gt_address :: string
  gt_warnWei :: int
  gt_failWei :: int
  gt_maxLevel :: "level option"

text \<open>A reading that failed or is missing is \<open>None\<close>.\<close>

definition short_address :: "string \<Rightarrow> string" where
  "short_address a = take 6 a @ ''..'' @ drop (length a - 4) a"

definition evaluateGas :: "gas_target \<Rightarrow> int option \<Rightarrow> check_result" where
  "evaluateGas t balance =
     \<lparr>cr_check = ''gas '' @ gt_label t @ '' ('' @ gt_chain t @ '' '' @ short_address (gt_address t) @ '')'',
      cr_level = capLevel (case balance of None \<Rightarrow> FAIL | Some b \<Rightarrow> if b < gt_failWei t then FAIL else if b < gt_warnWei t then WARN else OK) (gt_maxLevel t)\<rparr>"

text \<open>Thresholds in cents, as \<open>Math.round(usd * 100)\<close> makes them.\<close>

record float_health =
  fh_arcWarn :: int
  fh_arcFail :: int
  fh_rhWarn :: int
  fh_rhFail :: int

definition FLOAT_HEALTH_DEFAULTS :: float_health where
  "FLOAT_HEALTH_DEFAULTS = \<lparr>fh_arcWarn = 100000, fh_arcFail = 10000, fh_rhWarn = 100000, fh_rhFail = 10000\<rparr>"

definition float_side :: "string \<Rightarrow> int option \<Rightarrow> nat \<Rightarrow> int \<Rightarrow> int \<Rightarrow> check_result" where
  "float_side check v scale warn fail =
     \<lparr>cr_check = check, cr_level = (case v of None \<Rightarrow> FAIL
        | Some x \<Rightarrow> if x < fail * 10 ^ (scale - 2) then FAIL else if x < warn * 10 ^ (scale - 2) then WARN else OK)\<rparr>"

definition float_switch :: "string \<Rightarrow> bool option \<Rightarrow> check_result" where
  "float_switch check on = \<lparr>cr_check = check, cr_level = (if on = Some True then OK else FAIL)\<rparr>"

definition evaluateFloat :: "int option \<Rightarrow> bool option \<Rightarrow> int option \<Rightarrow> bool option \<Rightarrow> float_health \<Rightarrow> check_result list" where
  "evaluateFloat arcAvail18 hubFloatOn rhFree6 rhFloatOn p =
     [float_side ''float Arc hub (USDC available)'' arcAvail18 18 (fh_arcWarn p) (fh_arcFail p),
      float_side ''float RH ReserveVault (free USDG)'' rhFree6 6 (fh_rhWarn p) (fh_rhFail p),
      float_switch ''float Arc hub floatEnabled'' hubFloatOn, float_switch ''float RH vault floatEnabled'' rhFloatOn]"

text \<open>The level is the exit code; how many results there are of each level.\<close>

definition summarizeHealth :: "check_result list \<Rightarrow> level \<times> (level \<Rightarrow> nat)" where
  "summarizeHealth rs = (worst (map cr_level rs), \<lambda>l. length (filter (\<lambda>r. cr_level r = l) rs))"

subsection \<open>Alerts over runs\<close>

type_synonym alert_state = "(level \<times> int) object"

definition alert_due :: "alert_state \<Rightarrow> int \<Rightarrow> int \<Rightarrow> check_result \<Rightarrow> bool" where
  "alert_due state nowMs repeatMs r = (case get state (cr_check r) of None \<Rightarrow> True | Some (l, t) \<Rightarrow> l \<noteq> cr_level r \<or> nowMs - t \<ge> repeatMs)"

text \<open>\<open>dueAlerts\<close>: the results to send a note for, and the state for the next run.\<close>

fun dueAlerts :: "alert_state \<Rightarrow> int \<Rightarrow> int \<Rightarrow> check_result list \<Rightarrow> alert_state \<Rightarrow> check_result list \<Rightarrow> check_result list \<times> alert_state" where
  "dueAlerts state nowMs repeatMs [] nxt out = (out, nxt)"
| "dueAlerts state nowMs repeatMs (r # rs) nxt out =
     (if cr_level r = OK then dueAlerts state nowMs repeatMs rs nxt (if get state (cr_check r) \<noteq> None then out @ [r] else out)
      else if alert_due state nowMs repeatMs r then dueAlerts state nowMs repeatMs rs (put (cr_check r) (cr_level r, nowMs) nxt) (out @ [r])
      else dueAlerts state nowMs repeatMs rs (case get state (cr_check r) of Some p \<Rightarrow> put (cr_check r) p nxt | None \<Rightarrow> nxt) out)"

definition forgetDelivery :: "alert_state \<Rightarrow> alert_state \<Rightarrow> string \<Rightarrow> alert_state" where
  "forgetDelivery state prevState c = (case get prevState c of Some p \<Rightarrow> put c p state | None \<Rightarrow> del c state)"

text \<open>One run of \<open>bin/health-check.mjs\<close>: \<open>sent c\<close> tells whether the note for \<open>c\<close> was delivered. Without a configured chat nothing can be
  delivered and the code takes the notes as sent; here \<open>sent\<close> then holds of all of them.\<close>

definition health_run :: "(string \<Rightarrow> bool) \<Rightarrow> int \<Rightarrow> int \<Rightarrow> check_result list \<Rightarrow> alert_state \<Rightarrow> alert_state" where
  "health_run sent nowMs repeatMs rs state = (case dueAlerts state nowMs repeatMs rs [] [] of
     (out, nxt) \<Rightarrow> foldl (\<lambda>s r. if sent (cr_check r) then s else forgetDelivery s state (cr_check r)) nxt out)"


subsection \<open>What a heartbeat tells\<close>

text \<open>How many iterations at the end failed.\<close>

definition trailing :: "(int \<times> tick_outcome) list \<Rightarrow> int" where
  "trailing xs = int (length (takeWhile (\<lambda>x. snd x = Threw) (rev xs)))"

lemma run_loop_state:
  "rr_failures (run_loop xs (start_runner f)) = trailing xs
   \<and> (xs \<noteq> [] \<longrightarrow> rr_heartbeat (run_loop xs (start_runner f)) = Some (written (fst (last xs)) (trailing xs = 0) (trailing xs)))"
proof (induction xs rule: rev_induct)
  case Nil
  show ?case by (simp add: run_loop_def start_runner_def trailing_def)
next
  case (snoc x xs)
  have "trailing (xs @ [x]) = (if snd x = Threw then trailing xs + 1 else 0)" by (simp add: trailing_def)
  moreover have "0 \<le> trailing xs" by (simp add: trailing_def)
  ultimately show ?case using snoc by (cases x) (auto simp: run_loop_def run_step_def Let_def)
qed


definition demo_hb_spec :: hb_spec where
  "demo_hb_spec = \<lparr>hs_name = ''k'', hs_warnSec = 60, hs_failSec = 300, hs_dry = False, hs_failuresWarn = None, hs_failuresFail = None, hs_optional = False\<rparr>"


subsection \<open>No alert is lost\<close>

definition wants_note :: "alert_state \<Rightarrow> int \<Rightarrow> int \<Rightarrow> check_result \<Rightarrow> bool" where
  "wants_note state nowMs repeatMs r = (if cr_level r = OK then get state (cr_check r) \<noteq> None else alert_due state nowMs repeatMs r)"

lemma dueAlerts_notes: "fst (dueAlerts state nowMs repeatMs rs nxt out) = out @ filter (wants_note state nowMs repeatMs) rs"
  by (induction rs arbitrary: nxt out) (auto simp: wants_note_def)

lemma dueAlerts_state:
  "distinct (map cr_check rs) \<Longrightarrow> get (snd (dueAlerts state nowMs repeatMs rs nxt out)) c =
     (case find (\<lambda>r. cr_check r = c \<and> cr_level r \<noteq> OK) rs of None \<Rightarrow> get nxt c
      | Some r \<Rightarrow> if alert_due state nowMs repeatMs r then Some (cr_level r, nowMs) else get state c)"
proof (induction rs arbitrary: nxt out)
  case (Cons r rs)
  have none: "find (\<lambda>x. cr_check x = cr_check r \<and> cr_level x \<noteq> OK) rs = None"
    using Cons.prems by (auto simp: find_None_iff) (metis image_eqI)
  have "alert_due state nowMs repeatMs r" if "get state (cr_check r) = None" using that by (simp add: alert_due_def)
  then show ?case using Cons none by (auto simp: objects split: option.split)
qed simp

lemma forget_all:
  "get (foldl (\<lambda>s r. if sent (cr_check r) then s else forgetDelivery s state (cr_check r)) nxt rs) c =
     (if \<exists>r\<in>set rs. cr_check r = c \<and> \<not> sent c then get state c else get nxt c)"
  by (induction rs rule: rev_induct) (auto simp: forgetDelivery_def objects split: option.splits)


text \<open>\<open>delivered D state\<close>: whatever the state remembers was delivered, at that level and time.\<close>

definition delivered :: "(string \<times> level \<times> int) set \<Rightarrow> alert_state \<Rightarrow> bool" where
  "delivered D state \<longleftrightarrow> (\<forall>c l t. get state c = Some (l, t) \<longrightarrow> (c, l, t) \<in> D)"

text \<open>The alerts delivered up to and with a run.\<close>

definition delivered_after :: "(string \<Rightarrow> bool) \<Rightarrow> int \<Rightarrow> int \<Rightarrow> check_result list \<Rightarrow> alert_state \<Rightarrow> (string \<times> level \<times> int) set \<Rightarrow> (string \<times> level \<times> int) set" where
  "delivered_after sent nowMs repeatMs rs state D = D \<union> (\<lambda>r. (cr_check r, cr_level r, nowMs)) ` {r \<in> set rs. wants_note state nowMs repeatMs r \<and> sent (cr_check r)}"

lemma health_run_state:
  assumes "distinct (map cr_check rs)" "r \<in> set rs"
  shows "get (health_run sent nowMs repeatMs rs state) (cr_check r) =
    (if wants_note state nowMs repeatMs r then if sent (cr_check r) then if cr_level r = OK then None else Some (cr_level r, nowMs) else get state (cr_check r)
     else if cr_level r = OK then None else get state (cr_check r))"
proof -
  have only: "x = r" if "x \<in> set rs" "cr_check x = cr_check r" for x
    using assms that by (auto simp: distinct_map dest: inj_onD)
  have one: "find (\<lambda>x. cr_check x = cr_check r \<and> cr_level x \<noteq> OK) rs = (if cr_level r = OK then None else Some r)"
  proof (cases "find (\<lambda>x. cr_check x = cr_check r \<and> cr_level x \<noteq> OK) rs")
    case None
    then show ?thesis using assms(2) by (auto simp: find_None_iff)
  next
    case (Some x)
    then have "x \<in> set rs" "cr_check x = cr_check r" "cr_level x \<noteq> OK" by (auto simp: find_Some_iff)
    with only Some show ?thesis by auto
  qed
  have noted: "(\<exists>x\<in>set (filter (wants_note state nowMs repeatMs) rs). cr_check x = cr_check r \<and> \<not> sent (cr_check r)) \<longleftrightarrow> wants_note state nowMs repeatMs r \<and> \<not> sent (cr_check r)"
    using only assms(2) by auto
  show ?thesis
    unfolding health_run_def using dueAlerts_notes [of state nowMs repeatMs rs "[]" "[]"] dueAlerts_state [OF assms(1), of state nowMs repeatMs "[]" "[]" "cr_check r"] one noted
    by (auto simp: forget_all wants_note_def split: prod.splits)
qed

lemma health_run_other:
  assumes "distinct (map cr_check rs)" "c \<notin> cr_check ` set rs"
  shows "get (health_run sent nowMs repeatMs rs state) c = None"
proof -
  have "find (\<lambda>x. cr_check x = c \<and> cr_level x \<noteq> OK) rs = None" using assms(2) by (force simp: find_None_iff)
  moreover have "\<not> (\<exists>x\<in>set (filter (wants_note state nowMs repeatMs) rs). cr_check x = c \<and> \<not> sent c)" using assms(2) by auto
  ultimately show ?thesis
    unfolding health_run_def using dueAlerts_notes [of state nowMs repeatMs rs "[]" "[]"] dueAlerts_state [OF assms(1), of state nowMs repeatMs "[]" "[]" c]
    by (auto simp: forget_all split: prod.splits)
qed

text \<open>C31. Over any run of the health check, whichever notes get through: what its state remembers was really delivered; a check
  that is not OK and whose note, if one was due, got through has a delivered alert of its present level younger than the
  repeat time; and a note that did not get through is due again in every later run that finds the same level.\<close>

theorem health_alerts_kept:
  assumes "distinct (map cr_check rs)" "delivered D state" "0 < repeatMs"
  shows "delivered (delivered_after sent nowMs repeatMs rs state D) (health_run sent nowMs repeatMs rs state)
    \<and> (\<forall>r\<in>set rs. cr_level r \<noteq> OK \<longrightarrow> (wants_note state nowMs repeatMs r \<longrightarrow> sent (cr_check r)) \<longrightarrow>
         (\<exists>t. (cr_check r, cr_level r, t) \<in> delivered_after sent nowMs repeatMs rs state D \<and> nowMs - t < repeatMs))
    \<and> (\<forall>r\<in>set rs. wants_note state nowMs repeatMs r \<longrightarrow> \<not> sent (cr_check r) \<longrightarrow> (\<forall>later\<ge>nowMs. wants_note (health_run sent nowMs repeatMs rs state) later repeatMs r))"
proof (intro conjI ballI impI allI)
  let ?D = "delivered_after sent nowMs repeatMs rs state D" and ?s = "health_run sent nowMs repeatMs rs state"
  show "delivered ?D ?s"
    unfolding delivered_def
  proof (intro allI impI)
    fix c l t assume got: "get ?s c = Some (l, t)"
    then obtain r where r: "r \<in> set rs" "c = cr_check r"
      using health_run_other [OF assms(1), of c sent nowMs repeatMs state] by fastforce
    with got assms(2) show "(c, l, t) \<in> delivered_after sent nowMs repeatMs rs state D"
      by (auto simp: health_run_state [OF assms(1)] delivered_after_def delivered_def split: if_splits)
  qed
next
  fix r assume r: "r \<in> set rs" "cr_level r \<noteq> OK" "wants_note state nowMs repeatMs r \<longrightarrow> sent (cr_check r)"
  show "\<exists>t. (cr_check r, cr_level r, t) \<in> delivered_after sent nowMs repeatMs rs state D \<and> nowMs - t < repeatMs"
  proof (cases "wants_note state nowMs repeatMs r")
    case True
    with r assms(3) show ?thesis by (intro exI [of _ nowMs]) (auto simp: delivered_after_def)
  next
    case False
    with r obtain t where "get state (cr_check r) = Some (cr_level r, t)" "\<not> repeatMs \<le> nowMs - t"
      by (auto simp: wants_note_def alert_due_def split: option.splits)
    with assms(2) show ?thesis by (intro exI [of _ t]) (auto simp: delivered_after_def delivered_def)
  qed
next
  fix r later assume r: "r \<in> set rs" "wants_note state nowMs repeatMs r" "\<not> sent (cr_check r)" "nowMs \<le> later"
  then have "get (health_run sent nowMs repeatMs rs state) (cr_check r) = get state (cr_check r)" by (simp add: health_run_state [OF assms(1)])
  with r show "wants_note (health_run sent nowMs repeatMs rs state) later repeatMs r"
    by (auto simp: wants_note_def alert_due_def split: option.splits)
qed


text \<open>A check fails while nothing can be delivered; an hour later the note is still owed, and goes out.\<close>

definition demo_check :: check_result where
  "demo_check = \<lparr>cr_check = ''c'', cr_level = FAIL\<rparr>"

theorem health_alerts_kept_witness:
  "wants_note (health_run (\<lambda>_. False) 0 3600000 [demo_check] []) 1000 3600000 demo_check
   \<and> \<not> wants_note (health_run (\<lambda>_. True) 0 3600000 [demo_check] []) 1000 3600000 demo_check"
proof (intro conjI)
  have "delivered {} []" by (simp add: delivered_def)
  moreover have "wants_note [] 0 3600000 demo_check" by (simp add: wants_note_def alert_due_def demo_check_def)
  ultimately show "wants_note (health_run (\<lambda>_. False) 0 3600000 [demo_check] []) 1000 3600000 demo_check"
    using health_alerts_kept [of "[demo_check]" "{}" "[]" 3600000 "\<lambda>_. False" 0] by auto
qed code_simp

end
