(* ===== verification/Watches.thy ===== *)
theory Watches
  imports Journal_Codec
begin

section \<open>Watch processes (\<open>lib/alert.mjs\<close>, \<open>float/watch.mjs\<close>, \<open>lib/balances.mjs\<close>)\<close>

text \<open>The texts of the alerts are left out; their keys, which decide what is sent, are kept.\<close>

subsection \<open>The alerter (\<open>makeAlerter\<close>)\<close>

datatype alert_outcome = RateLimited | Unconfigured | AlertSent | DeliveryFailed

text \<open>An attempt: time, key, whether token and chat are configured, whether the message got through. The key is marked before
  the message is sent.\<close>

record attempt =
  at_now :: int
  at_key :: string
  at_configured :: bool
  at_through :: bool

definition recent :: "int \<Rightarrow> int object \<Rightarrow> attempt \<Rightarrow> bool" where
  "recent repeatMs last1 a = (case get last1 (at_key a) of Some t \<Rightarrow> at_now a - t < repeatMs | None \<Rightarrow> False)"

definition send_alert :: "int \<Rightarrow> attempt \<Rightarrow> int object \<Rightarrow> alert_outcome \<times> int object" where
  "send_alert repeatMs a last1 =
     (if recent repeatMs last1 a then (RateLimited, last1)
      else (if \<not> at_configured a then Unconfigured else if at_through a then AlertSent else DeliveryFailed, put (at_key a) (at_now a) last1))"

fun alert_run :: "int \<Rightarrow> attempt list \<Rightarrow> int object \<Rightarrow> alert_outcome list" where
  "alert_run repeatMs [] last1 = []"
| "alert_run repeatMs (a # as1) last1 = (case send_alert repeatMs a last1 of (x, last2) \<Rightarrow> x # alert_run repeatMs as1 last2)"

lemma length_alert_run [simp]: "length (alert_run repeatMs as1 last1) = length as1"
  by (induction as1 arbitrary: last1) (simp_all split: prod.split)

lemma marked_stays:
  assumes "get last1 k = Some t" "j < length as1" "at_key (as1 ! j) = k" "alert_run repeatMs as1 last1 ! j \<noteq> RateLimited" "0 \<le> repeatMs"
  shows "repeatMs \<le> at_now (as1 ! j) - t"
  using assms
proof (induction as1 arbitrary: last1 t j)
  case (Cons a as1)
  show ?case
  proof (cases "recent repeatMs last1 a")
    case True
    with Cons.prems have "j \<noteq> 0" by (cases j) (auto simp: send_alert_def)
    then obtain i where "j = Suc i" by (cases j) auto
    with True Cons.prems show ?thesis using Cons.IH [of last1 t i] by (auto simp: send_alert_def)
  next
    case False
    show ?thesis
    proof (cases j)
      case 0
      with False Cons.prems show ?thesis by (auto simp: recent_def)
    next
      case (Suc i)
      show ?thesis
      proof (cases "at_key a = k")
        case True
        then have "repeatMs \<le> at_now a - t" using False Cons.prems(1) by (auto simp: recent_def)
        moreover have "repeatMs \<le> at_now (as1 ! i) - at_now a"
          using False True Suc Cons.prems by (intro Cons.IH [of "put k (at_now a) last1" "at_now a"]) (auto simp: send_alert_def objects)
        ultimately show ?thesis using Suc Cons.prems(5) by simp
      next
        case other: False
        then show ?thesis using False Suc Cons.prems
          using Cons.IH [of "put (at_key a) (at_now a) last1" t i] by (auto simp: send_alert_def objects)
      qed
    qed
  qed
qed simp

lemma spaced:
  assumes "i < j" "j < length as1" "at_key (as1 ! i) = at_key (as1 ! j)" "0 \<le> repeatMs"
    and "alert_run repeatMs as1 last1 ! i \<noteq> RateLimited" "alert_run repeatMs as1 last1 ! j \<noteq> RateLimited"
  shows "repeatMs \<le> at_now (as1 ! j) - at_now (as1 ! i)"
  using assms
proof (induction as1 arbitrary: last1 i j)
  case (Cons a as1)
  obtain j1 where j: "j = Suc j1" using Cons.prems(1) by (cases j) auto
  show ?case
  proof (cases i)
    case 0
    then have "\<not> recent repeatMs last1 a" using Cons.prems(5) by (auto simp: send_alert_def)
    then show ?thesis using 0 j Cons.prems
      by (auto simp: send_alert_def objects intro!: marked_stays [of "put (at_key a) (at_now a) last1" "at_key a"])
  next
    case (Suc i1)
    then show ?thesis using j Cons.prems Cons.IH [of i1 j1 "snd (send_alert repeatMs a last1)"] by (auto split: prod.splits)
  qed
qed simp

text \<open>Two attempts under one key that both go past the rate limit are at least \<open>repeatMs\<close> apart, whether they were delivered or not.
  So a message that fails to be delivered silences its key as long as one that arrived: in the witness an alert that
  Telegram did not take is not tried again an hour later.\<close>

theorem alerts_spaced:
  assumes "i < j" "j < length as1" "at_key (as1 ! i) = at_key (as1 ! j)" "0 \<le> repeatMs"
    and "alert_run repeatMs as1 last1 ! i \<noteq> RateLimited" "alert_run repeatMs as1 last1 ! j \<noteq> RateLimited"
  shows "repeatMs \<le> at_now (as1 ! j) - at_now (as1 ! i)"
  by (rule spaced [OF assms])

definition demo_attempt :: "int \<Rightarrow> bool \<Rightarrow> attempt" where
  "demo_attempt t b = \<lparr>at_now = t, at_key = ''k'', at_configured = True, at_through = b\<rparr>"

theorem alerts_spaced_witness:
  "alert_run 21600000 [demo_attempt 0 False, demo_attempt 3600000 True, demo_attempt 21600000 True] [] = [DeliveryFailed, RateLimited, AlertSent]
   \<and> (21600000 :: int) \<le> 21600000 - 0"
proof (intro conjI)
  show run: "alert_run 21600000 [demo_attempt 0 False, demo_attempt 3600000 True, demo_attempt 21600000 True] [] = [DeliveryFailed, RateLimited, AlertSent]"
    by code_simp
  show "(21600000 :: int) \<le> 21600000 - 0"
    using alerts_spaced [of 0 2 "[demo_attempt 0 False, demo_attempt 3600000 True, demo_attempt 21600000 True]" 21600000 "[]"] run
    by (simp add: demo_attempt_def)
qed

subsection \<open>The two floats (\<open>decideFloat\<close>, \<open>FloatWatch.tick\<close>)\<close>

definition E6 :: int where
  "E6 = 10 ^ 6"

record float_params =
  fl_targetRh6 :: int
  fl_targetArc18 :: int
  fl_lRun18 :: int
  fl_band18 :: int
  fl_driftAlert18 :: int
  fl_dailyHourUtc :: int
  fl_vaultEthLowWei :: int

definition FLOAT_DEFAULTS :: float_params where
  "FLOAT_DEFAULTS = \<lparr>fl_targetRh6 = 3000 * E6, fl_targetArc18 = 2000 * E18, fl_lRun18 = 1000 * E18, fl_band18 = 250 * E18, fl_driftAlert18 = 100 * E18,
     fl_dailyHourUtc = 1, fl_vaultEthLowWei = 3 * 10 ^ 15\<rparr>"

record float_snapshot =
  fs_arcAvail18 :: int
  fs_hubFloatOn :: bool
  fs_rhFree6 :: int
  fs_rhFloatOn :: bool
  fs_returning :: int
  fs_proceeds :: int
  fs_rhWaiting :: int
  fs_vaultEthWei :: "int option"

datatype direction = RhToArc | ArcToRh

definition rh18 :: "float_snapshot \<Rightarrow> int" where
  "rh18 s = fs_rhFree6 s * 10 ^ 12"

text \<open>Key of an alert, and whether it is more than information.\<close>

definition float_alerts :: "float_snapshot \<Rightarrow> float_params \<Rightarrow> (string \<times> bool) list" where
  "float_alerts s p =
     (let total = rh18 s + fs_arcAvail18 s; target = fl_targetRh6 p * 10 ^ 12 + fl_targetArc18 p in
      (if \<not> fs_rhFloatOn s then [(''rh-off'', True)] else []) @
      (if \<not> fs_hubFloatOn s then [(''arc-off'', True)] else []) @
      (if rh18 s < fl_lRun18 p then [(''rh-low'', True)] else []) @
      (if fs_arcAvail18 s < fl_lRun18 p then [(''arc-low'', True)] else []) @
      (if target > total \<and> target - total > fl_driftAlert18 p then [(''drift'', True)] else []) @
      (if fs_returning s > 0 \<or> fs_proceeds s > 0 then [(''stuck'', False)] else []) @
      (if (case fs_vaultEthWei s of Some w \<Rightarrow> w < fl_vaultEthLowWei p | None \<Rightarrow> False) then [(''vault-eth-low'', True)] else []) @
      (if fs_rhWaiting s > 0 then [(''rh-waiting'', True)] else []))"

definition suggestion :: "float_snapshot \<Rightarrow> float_params \<Rightarrow> (direction \<times> int) option" where
  "suggestion s p =
     (let rhExcess = rh18 s - fl_targetRh6 p * 10 ^ 12; arcExcess = fs_arcAvail18 s - fl_targetArc18 p in
      if rhExcess > fl_band18 p \<and> arcExcess < 0 then Some (RhToArc, bdiv (if rhExcess < - arcExcess then rhExcess else - arcExcess) E18)
      else if arcExcess > fl_band18 p \<and> rhExcess < 0 then Some (ArcToRh, bdiv (if arcExcess < - rhExcess then arcExcess else - rhExcess) E18)
      else None)"

text \<open>The alert keys of a tick, in their order; the daily summary comes last.\<close>

definition float_keys :: "float_params \<Rightarrow> bool \<Rightarrow> float_snapshot \<Rightarrow> int \<Rightarrow> string list" where
  "float_keys p forceDaily s nowSec =
     map (\<lambda>(k, _). ''float-'' @ k) (filter snd (float_alerts s p)) @
     (if nowSec div 3600 mod 24 = fl_dailyHourUtc p \<or> forceDaily then [''float-daily-'' @ show_int (nowSec div 86400)] else [])"

text \<open>C34. A rebalance suggestion never overshoots: the side that gives keeps its target, the side that receives stays at or below its
  own, the amount is whole dollars, and one of the two reaches its target up to less than a dollar. It is made only when
  the giving side is over its target by more than the band.\<close>

theorem suggestion_never_overshoots:
  assumes "suggestion s p = Some (d, amt)" "0 \<le> fl_band18 p"
  shows "0 \<le> amt \<and> (case d of
      RhToArc \<Rightarrow> fl_targetRh6 p * 10 ^ 12 \<le> rh18 s - amt * E18 \<and> fs_arcAvail18 s + amt * E18 \<le> fl_targetArc18 p \<and> fl_band18 p < rh18 s - fl_targetRh6 p * 10 ^ 12
        \<and> (rh18 s - amt * E18 < fl_targetRh6 p * 10 ^ 12 + E18 \<or> fl_targetArc18 p - E18 < fs_arcAvail18 s + amt * E18)
    | ArcToRh \<Rightarrow> fl_targetArc18 p \<le> fs_arcAvail18 s - amt * E18 \<and> rh18 s + amt * E18 \<le> fl_targetRh6 p * 10 ^ 12 \<and> fl_band18 p < fs_arcAvail18 s - fl_targetArc18 p
        \<and> (fs_arcAvail18 s - amt * E18 < fl_targetArc18 p + E18 \<or> fl_targetRh6 p * 10 ^ 12 - E18 < rh18 s + amt * E18))"
proof -
  have whole: "x div E18 * E18 \<le> x" "x < x div E18 * E18 + E18" for x
    using pos_mod_sign [OF E18_pos, of x] pos_mod_bound [OF E18_pos, of x] div_mult_mod_eq [of x E18] by linarith+
  show ?thesis
    using assms whole [of "rh18 s - fl_targetRh6 p * 10 ^ 12"] whole [of "fl_targetArc18 p - fs_arcAvail18 s"]
      whole [of "fs_arcAvail18 s - fl_targetArc18 p"] whole [of "fl_targetRh6 p * 10 ^ 12 - rh18 s"]
    by (auto simp: suggestion_def Let_def bdiv_nonneg pos_imp_zdiv_nonneg_iff split: if_splits)
qed

definition demo_float :: float_snapshot where
  "demo_float = \<lparr>fs_arcAvail18 = 1500 * 10 ^ 18, fs_hubFloatOn = True, fs_rhFree6 = 3400500000, fs_rhFloatOn = True, fs_returning = 0, fs_proceeds = 0, fs_rhWaiting = 0, fs_vaultEthWei = None\<rparr>"

theorem suggestion_never_overshoots_witness:
  "suggestion demo_float FLOAT_DEFAULTS = Some (RhToArc, 400) \<and> 3000 * 10 ^ 18 \<le> rh18 demo_float - 400 * E18"
proof (intro conjI)
  show s: "suggestion demo_float FLOAT_DEFAULTS = Some (RhToArc, 400)" by code_simp
  show "3000 * 10 ^ 18 \<le> rh18 demo_float - 400 * E18"
    using suggestion_never_overshoots [OF s] by (simp add: FLOAT_DEFAULTS_def E6_def E18_def)
qed


subsection \<open>One summary a day\<close>

text \<open>The attempts a run of ticks makes: snapshot, time, whether each message gets through.\<close>

definition watch_attempts :: "float_params \<Rightarrow> (float_snapshot \<times> int \<times> bool) list \<Rightarrow> attempt list" where
  "watch_attempts p ticks = concat (map (\<lambda>(s, now, b). map (\<lambda>k. \<lparr>at_now = 1000 * now, at_key = k, at_configured = True, at_through = b\<rparr>) (float_keys p False s now)) ticks)"

lemma daily_key:
  assumes "a \<in> set (watch_attempts p ticks)" "at_key a = ''float-daily-'' @ show_int d"
  shows "\<exists>now. at_now a = 1000 * now \<and> now div 3600 mod 24 = fl_dailyHourUtc p \<and> now div 86400 = d"
proof -
  obtain s now b where a: "at_now a = 1000 * now" "at_key a \<in> set (float_keys p False s now)"
    using assms(1) by (auto simp: watch_attempts_def)
  have "''float-daily-'' @ show_int d \<notin> (\<lambda>(k, _). ''float-'' @ k) ` set (filter snd (float_alerts s p))"
    by (auto simp: float_alerts_def Let_def split: if_splits)
  with a assms(2) have "now div 3600 mod 24 = fl_dailyHourUtc p" "show_int (now div 86400) = show_int d"
    by (auto simp: float_keys_def split: if_splits)
  moreover from this(2) have "now div 86400 = d" using read_show_int by metis
  ultimately show ?thesis using a(1) by blast
qed

text \<open>The watch and the alerter together post the summary of a day at most once: of all the attempts a run of ticks makes under
  the day's key, at most one is not rate-limited, with any repeat time of an hour or more (six hours by default).\<close>

theorem one_summary_a_day:
  assumes "i < j" "j < length (watch_attempts p ticks)" "3600000 \<le> repeatMs"
    and "at_key (watch_attempts p ticks ! i) = ''float-daily-'' @ show_int d" "at_key (watch_attempts p ticks ! j) = ''float-daily-'' @ show_int d"
  shows "alert_run repeatMs (watch_attempts p ticks) last1 ! i = RateLimited \<or> alert_run repeatMs (watch_attempts p ticks) last1 ! j = RateLimited"
proof (rule ccontr)
  assume "\<not> ?thesis"
  then have far: "repeatMs \<le> at_now (watch_attempts p ticks ! j) - at_now (watch_attempts p ticks ! i)"
    using assms by (intro spaced) auto
  have li: "i < length (watch_attempts p ticks)" using assms(1,2) by simp
  obtain m where m: "at_now (watch_attempts p ticks ! i) = 1000 * m" "m div 3600 mod 24 = fl_dailyHourUtc p" "m div 86400 = d"
    using daily_key [OF nth_mem [OF li] assms(4)] by blast
  obtain n where n: "at_now (watch_attempts p ticks ! j) = 1000 * n" "n div 3600 mod 24 = fl_dailyHourUtc p" "n div 86400 = d"
    using daily_key [OF nth_mem [OF assms(2)] assms(5)] by blast
  have hours: "x div 3600 = 24 * (x div 86400) + x div 3600 mod 24" for x :: int
    using div_mult_mod_eq [of "x div 3600" 24] by (simp add: zdiv_zmult2_eq [symmetric])
  have "m div 3600 = n div 3600" using hours [of m] hours [of n] m n by simp
  then have "n - m < 3600" using pos_mod_bound [of 3600 n] pos_mod_sign [of 3600 m] div_mult_mod_eq [of n 3600] div_mult_mod_eq [of m 3600] by linarith
  with far m(1) n(1) assms(3) show False by simp
qed

theorem one_summary_a_day_witness:
  "alert_run 21600000 (watch_attempts FLOAT_DEFAULTS [(demo_float, 3600, True), (demo_float, 5400, True)]) [] = [AlertSent, RateLimited]"
proof -
  let ?as = "watch_attempts FLOAT_DEFAULTS [(demo_float, 3600, True), (demo_float, 5400, True)]"
  have keys: "map at_key ?as = [''float-daily-'' @ show_int 0, ''float-daily-'' @ show_int 0]" by code_simp
  then have len: "length ?as = 2" using length_map [of at_key ?as] by simp
  have k: "at_key (?as ! 0) = ''float-daily-'' @ show_int 0" "at_key (?as ! 1) = ''float-daily-'' @ show_int 0"
    using keys nth_map [of 0 ?as at_key] nth_map [of 1 ?as at_key] len by simp_all
  have "alert_run 21600000 ?as [] ! 0 = RateLimited \<or> alert_run 21600000 ?as [] ! 1 = RateLimited"
    by (rule one_summary_a_day [OF _ _ _ k]) (simp_all add: len)
  moreover have "alert_run 21600000 ?as [] ! 0 = AlertSent" by code_simp
  moreover have "xs = [xs ! 0, xs ! 1]" if "length xs = 2" for xs :: "alert_outcome list"
    using that by (cases xs; cases "tl xs") auto
  from this [of "alert_run 21600000 ?as []"] have "alert_run 21600000 ?as [] = [alert_run 21600000 ?as [] ! 0, alert_run 21600000 ?as [] ! 1]"
    by (simp only: length_alert_run len)
  ultimately show ?thesis by auto
qed

subsection \<open>Native balances (\<open>evaluateBalances\<close>, \<open>BalanceWatcher.tick\<close>)\<close>

record balance_target =
  bt_label :: string
  bt_chain :: string
  bt_address :: string
  bt_minWei :: int

text \<open>A failed or missing reading is \<open>None\<close> and counts as low.\<close>

definition balance_low :: "balance_target \<Rightarrow> int option \<Rightarrow> bool" where
  "balance_low t b = (case b of None \<Rightarrow> True | Some x \<Rightarrow> x < bt_minWei t)"

definition balance_alerts :: "balance_target list \<Rightarrow> (balance_target \<Rightarrow> int option) \<Rightarrow> string list" where
  "balance_alerts ts read = map (\<lambda>t. ''balance-'' @ bt_chain t @ ''-'' @ lower (bt_address t)) (filter (\<lambda>t. balance_low t (read t)) ts)"

end
