(* ===== verification/Signer_Lock.thy ===== *)
theory Signer_Lock
  imports Keeper_Prelude
begin

section \<open>The signer lock (\<open>lib/lock.mjs\<close>)\<close>

text \<open>
  Processes of one machine share a lock directory with a file \<open>owner.json\<close> in it. A call of \<open>tryLock\<close> is a sequence of file
  operations between which other processes run; each operation is a step of the relation below. Reading the owner and the
  directory's time is one step, which gives the code more atomicity than it has.
\<close>

subsection \<open>State\<close>

record lock_dir =
  ld_owner :: "(nat \<times> int) option"
  ld_mtime :: int

text \<open>Where a process is in \<open>tryLock\<close>: not in it (and not holding), after a failed \<open>mkdir\<close>, before \<open>rm\<close>, before the second \<open>mkdir\<close>,
  before writing the owner, holding.\<close>

datatype at_point = Outside | Inspecting | Removing | Remaking | Writing | Holding

record lock_world =
  lw_dir :: "lock_dir option"
  lw_at :: "nat \<Rightarrow> at_point"
  lw_alive :: "nat \<Rightarrow> bool"
  lw_now :: int

definition staleMs :: int where
  "staleMs = 20 * 60000"

definition lock_time :: "lock_dir option \<Rightarrow> int" where
  "lock_time d = (case d of None \<Rightarrow> 0 | Some l \<Rightarrow> (case ld_owner l of Some (_, at) \<Rightarrow> at | None \<Rightarrow> ld_mtime l))"

text \<open>The lock is respected: its owner lives (or it is not written yet and younger than a minute) and it is younger than \<open>staleMs\<close>.\<close>

definition respected :: "lock_world \<Rightarrow> bool" where
  "respected w \<longleftrightarrow> (case Option.bind (lw_dir w) ld_owner of Some (pid, _) \<Rightarrow> lw_alive w pid | None \<Rightarrow> lw_now w - lock_time (lw_dir w) < 60000)
     \<and> lw_now w - lock_time (lw_dir w) < staleMs"

definition go :: "nat \<Rightarrow> at_point \<Rightarrow> lock_world \<Rightarrow> lock_world" where
  "go p x w = w\<lparr>lw_at := (lw_at w)(p := x)\<rparr>"

definition make_dir :: "lock_world \<Rightarrow> lock_world" where
  "make_dir w = w\<lparr>lw_dir := Some \<lparr>ld_owner = None, ld_mtime = lw_now w\<rparr>\<rparr>"

definition write_owner :: "nat \<Rightarrow> lock_world \<Rightarrow> lock_world" where
  "write_owner p w = w\<lparr>lw_dir := map_option (\<lambda>l. l\<lparr>ld_owner := Some (p, lw_now w)\<rparr>) (lw_dir w)\<rparr>"

definition owned_by :: "nat \<Rightarrow> lock_world \<Rightarrow> bool" where
  "owned_by p w \<longleftrightarrow> (\<exists>l at. lw_dir w = Some l \<and> ld_owner l = Some (p, at))"

subsection \<open>Steps\<close>

text \<open>The flag tells the step that takes a lock away.\<close>

inductive lock_step :: "bool \<Rightarrow> lock_world \<Rightarrow> lock_world \<Rightarrow> bool" where
  taken: "lw_at w p = Outside \<Longrightarrow> lw_dir w = None \<Longrightarrow> lock_step False w (go p Writing (make_dir w))"
| exists: "lw_at w p = Outside \<Longrightarrow> lw_dir w \<noteq> None \<Longrightarrow> lock_step False w (go p Inspecting w)"
| refused: "lw_at w p = Inspecting \<Longrightarrow> respected w \<Longrightarrow> lock_step False w (go p Outside w)"
| stale: "lw_at w p = Inspecting \<Longrightarrow> \<not> respected w \<Longrightarrow> lock_step False w (go p Removing w)"
| removed: "lw_at w p = Removing \<Longrightarrow> lock_step True w (go p Remaking (w\<lparr>lw_dir := None\<rparr>))"
| retaken: "lw_at w p = Remaking \<Longrightarrow> lw_dir w = None \<Longrightarrow> lock_step False w (go p Writing (make_dir w))"
| beaten: "lw_at w p = Remaking \<Longrightarrow> lw_dir w \<noteq> None \<Longrightarrow> lock_step False w (go p Outside w)"
| owner: "lw_at w p = Writing \<Longrightarrow> lw_dir w \<noteq> None \<Longrightarrow> lock_step False w (go p Holding (write_owner p w))"
| vanished: "lw_at w p = Writing \<Longrightarrow> lw_dir w = None \<Longrightarrow> lock_step False w (go p Outside w)"
| unlocked: "lw_at w p = Holding \<Longrightarrow> owned_by p w \<Longrightarrow> lock_step False w (go p Outside (w\<lparr>lw_dir := None\<rparr>))"
| left: "lw_at w p = Holding \<Longrightarrow> \<not> owned_by p w \<Longrightarrow> lock_step False w (go p Outside w)"
| dies: "lock_step False w (go p Outside (w\<lparr>lw_alive := (lw_alive w)(p := False)\<rparr>))"
| waits: "0 \<le> n \<Longrightarrow> lock_step False w (w\<lparr>lw_now := lw_now w + n\<rparr>)"

inductive_cases lock_stepE: "lock_step steal w w2"

inductive lock_run :: "bool \<Rightarrow> lock_world \<Rightarrow> lock_world \<Rightarrow> bool" for steal w where
  here: "lock_run steal w w"
| more: "lock_run steal w w1 \<Longrightarrow> lock_step s w1 w2 \<Longrightarrow> s \<longrightarrow> steal \<Longrightarrow> lock_run steal w w2"

definition busy :: "lock_world \<Rightarrow> nat \<Rightarrow> bool" where
  "busy w p \<longleftrightarrow> lw_at w p \<in> {Writing, Holding}"

subsection \<open>Exclusion while nothing is taken away\<close>

definition exclusive :: "lock_world \<Rightarrow> bool" where
  "exclusive w \<longleftrightarrow> (\<forall>p. busy w p \<longrightarrow> lw_dir w \<noteq> None) \<and> (\<forall>p q. busy w p \<longrightarrow> busy w q \<longrightarrow> p = q)"

lemma exclusive_step: "lock_step False w w2 \<Longrightarrow> exclusive w \<Longrightarrow> exclusive w2"
  by (erule lock_stepE) (auto simp: exclusive_def busy_def go_def make_dir_def write_owner_def split: if_splits)

text \<open>C32. As long as no process takes a lock away from another, at most one holds it: from a start where nobody holds it, however
  the file operations of any number of processes interleave and whichever of them die, two processes that both got through
  \<open>tryLock\<close> are the same.\<close>

theorem lock_exclusive:
  assumes "lock_run False w w2" "\<forall>p. lw_at w p = Outside" "lw_at w2 p = Holding" "lw_at w2 q = Holding"
  shows "p = q"
proof -
  have "exclusive w2" using assms(1)
  proof induction
    case here
    show ?case using assms(2) by (simp add: exclusive_def busy_def)
  next
    case (more w1 s w2)
    then show ?case by (auto intro: exclusive_step)
  qed
  then show ?thesis using assms(3,4) by (auto simp: exclusive_def busy_def)
qed

subsection \<open>The race for a stale lock\<close>

lemma steps:
  assumes "lock_run True w w1" "lock_step s w1 w2"
  shows "lock_run True w w2"
  using assms by (auto intro: more)

text \<open>C35. Two processes that both find the same stale lock can both end up holding it: each judges the old directory stale before
  either removes it, and the slower one then removes the directory the faster one has just made and written.\<close>

theorem stale_lock_race:
  assumes "p \<noteq> q" "lw_at w p = Outside" "lw_at w q = Outside" "lw_dir w \<noteq> None" "\<not> respected w"
  shows "\<exists>w2. lock_run True w w2 \<and> lw_at w2 p = Holding \<and> lw_at w2 q = Holding"
proof -
  have r: "\<not> respected (go x y w1) \<longleftrightarrow> \<not> respected w1" for x y w1
    by (simp add: respected_def go_def split: option.split)
  let ?a = "go p Inspecting w" let ?b = "go q Inspecting ?a" let ?c = "go p Removing ?b" let ?d = "go q Removing ?c"
  let ?e = "go p Remaking (?d\<lparr>lw_dir := None\<rparr>)" let ?f = "go p Writing (make_dir ?e)" let ?g = "go p Holding (write_owner p ?f)"
  let ?h = "go q Remaking (?g\<lparr>lw_dir := None\<rparr>)" let ?i = "go q Writing (make_dir ?h)" let ?j = "go q Holding (write_owner q ?i)"
  have nr: "\<not> respected ?b" "\<not> respected ?c" using assms(5) r by simp_all
  note defs = go_def make_dir_def write_owner_def
  have "lock_run True w ?a" by (rule steps [OF lock_run.here exists]) (use assms in simp_all)
  then have "lock_run True w ?b" by (rule steps [OF _ exists]) (use assms in \<open>simp_all add: defs\<close>)
  then have "lock_run True w ?c" by (rule steps [OF _ stale [OF _ nr(1)]]) (use assms in \<open>simp_all add: defs\<close>)
  then have "lock_run True w ?d" by (rule steps [OF _ stale [OF _ nr(2)]]) (use assms in \<open>simp_all add: defs\<close>)
  then have "lock_run True w ?e" by (rule steps [OF _ removed]) (use assms in \<open>simp_all add: defs\<close>)
  then have "lock_run True w ?f" by (rule steps [OF _ retaken]) (use assms in \<open>simp_all add: defs\<close>)
  then have "lock_run True w ?g" by (rule steps [OF _ owner]) (use assms in \<open>simp_all add: defs\<close>)
  then have "lock_run True w ?h" by (rule steps [OF _ removed]) (use assms in \<open>simp_all add: defs\<close>)
  then have "lock_run True w ?i" by (rule steps [OF _ retaken]) (use assms in \<open>simp_all add: defs\<close>)
  then have "lock_run True w ?j" by (rule steps [OF _ owner]) (use assms in \<open>simp_all add: defs\<close>)
  then show ?thesis using assms by (intro exI [of _ ?j]) (simp add: defs)
qed

text \<open>The lock of process 9, which died, and two live processes.\<close>

definition demo_lock :: lock_world where
  "demo_lock = \<lparr>lw_dir = Some \<lparr>ld_owner = Some (9, 0), ld_mtime = 0\<rparr>, lw_at = (\<lambda>_. Outside), lw_alive = (\<lambda>p. p \<noteq> 9), lw_now = 5000\<rparr>"

theorem stale_lock_race_witness: "\<exists>w2. lock_run True demo_lock w2 \<and> lw_at w2 1 = Holding \<and> lw_at w2 2 = Holding"
  by (rule stale_lock_race) (simp_all add: demo_lock_def respected_def)

theorem lock_exclusive_witness:
  "\<exists>w2. lock_run False (demo_lock\<lparr>lw_dir := None\<rparr>) w2 \<and> lw_at w2 1 = Holding \<and> (\<forall>q. lw_at w2 q = Holding \<longrightarrow> q = 1)"
proof -
  let ?w = "demo_lock\<lparr>lw_dir := None\<rparr>"
  let ?a = "go 1 Writing (make_dir ?w)" let ?b = "go 1 Holding (write_owner 1 ?a)"
  have a: "lock_run False ?w ?a" by (rule more [OF lock_run.here taken]) (simp_all add: demo_lock_def)
  have b: "lock_run False ?w ?b" by (rule more [OF a owner]) (simp_all add: go_def make_dir_def)
  have h: "lw_at ?b 1 = Holding" by (simp add: go_def)
  have "q = 1" if "lw_at ?b q = Holding" for q
    by (rule lock_exclusive [OF b _ that h]) (simp add: demo_lock_def)
  with b h show ?thesis by blast
qed

end
